(* ===== verification/Go_Prelude.thy ===== *)
theory Go_Prelude
  imports Main "HOL-Library.Sublist"
begin

text \<open>
  The part of Go's standard library the modelled packages use, and the generic lemmas about it.
  A Go string is a sequence of bytes; an Isabelle \<open>char\<close> is a byte, so a Go string is a
  \<open>string\<close> here, byte for byte. Functions of package \<open>strings\<close>, \<open>strconv\<close>, \<open>unicode/utf8\<close>
  and \<open>encoding/hex\<close> keep their Go names. Where Go consults the Unicode tables for a
  code point at or above 128 the table is a parameter (\<open>uni_lower\<close>, \<open>uni_upper\<close>, \<open>uni_fold\<close> and
  \<open>uni_print\<close> of the record \<open>unicode\<close>); the ASCII half is written out.
\<close>

section \<open>Collections of facts\<close>

named_theorems go_str \<open>characteristic facts of the string functions\<close>
named_theorems keeps_ops \<open>which operations keep a predicate on the world\<close>
named_theorems wp \<open>how the outcome of a store operation is computed from its parts\<close>

section \<open>Bytes\<close>

abbreviation byte :: "char \<Rightarrow> nat" where
  "byte c \<equiv> of_char c"

definition is_digit :: "char \<Rightarrow> bool" where
  "is_digit c \<longleftrightarrow> 48 \<le> byte c \<and> byte c \<le> 57"

definition is_upper :: "char \<Rightarrow> bool" where
  "is_upper c \<longleftrightarrow> 65 \<le> byte c \<and> byte c \<le> 90"

definition is_lower :: "char \<Rightarrow> bool" where
  "is_lower c \<longleftrightarrow> 97 \<le> byte c \<and> byte c \<le> 122"

definition is_ascii :: "char \<Rightarrow> bool" where
  "is_ascii c \<longleftrightarrow> byte c < 128"

definition lower_byte :: "char \<Rightarrow> char" where
  "lower_byte c = (if is_upper c then char_of (byte c + 32) else c)"

definition upper_byte :: "char \<Rightarrow> char" where
  "upper_byte c = (if is_lower c then char_of (byte c - 32) else c)"

lemma lower_byte_not_upper [simp]: "\<not> is_upper (lower_byte c)"
  by (auto simp: lower_byte_def is_upper_def)

lemma lower_byte_idem [simp]: "lower_byte (lower_byte c) = lower_byte c"
  using lower_byte_not_upper [of c] by (simp add: lower_byte_def [of "lower_byte c"])

lemma byte_lower_byte:
  "byte (lower_byte c) = (if 65 \<le> byte c \<and> byte c \<le> 90 then byte c + 32 else byte c)"
  by (simp add: lower_byte_def is_upper_def)

definition printable :: "char \<Rightarrow> bool" where
  "printable c \<longleftrightarrow> 32 \<le> byte c \<and> byte c < 127"

lemma printable_ascii: "printable c \<Longrightarrow> is_ascii c"
  by (simp add: printable_def is_ascii_def)

lemma lower_byte_printable [simp]: "printable (lower_byte c) = printable c"
  by (auto simp: lower_byte_def printable_def is_upper_def)

lemma lower_byte_ascii [simp]: "is_ascii (lower_byte c) = is_ascii c"
  by (auto simp: lower_byte_def is_ascii_def is_upper_def)

lemma lower_byte_eq_other:
  assumes "\<not> is_lower d" and "\<not> is_upper d"
  shows "lower_byte c = d \<longleftrightarrow> c = d"
proof
  assume eq: "lower_byte c = d"
  show "c = d"
  proof (cases "is_upper c")
    case True
    then have "is_lower (lower_byte c)"
      by (simp add: lower_byte_def is_lower_def is_upper_def)
    with eq assms show ?thesis by simp
  qed (use eq in \<open>simp add: lower_byte_def\<close>)
next
  assume "c = d"
  then show "lower_byte c = d" using assms by (simp add: lower_byte_def)
qed

section \<open>Package strings\<close>

subsection \<open>Searching and cutting\<close>

abbreviation HasPrefix :: "string \<Rightarrow> string \<Rightarrow> bool" where
  "HasPrefix s p \<equiv> prefix p s"

abbreviation HasSuffix :: "string \<Rightarrow> string \<Rightarrow> bool" where
  "HasSuffix s p \<equiv> suffix p s"

definition TrimPrefix :: "string \<Rightarrow> string \<Rightarrow> string" where
  "TrimPrefix s p = (if HasPrefix s p then drop (length p) s else s)"

definition TrimSuffix :: "string \<Rightarrow> string \<Rightarrow> string" where
  "TrimSuffix s p = (if HasSuffix s p then take (length s - length p) s else s)"

text \<open>\<open>strings.Index\<close>; \<open>None\<close> for Go's \<open>-1\<close>.\<close>

fun Index :: "string \<Rightarrow> string \<Rightarrow> nat option" where
  "Index [] sep = (if sep = [] then Some 0 else None)"
| "Index (c # s) sep =
     (if prefix sep (c # s) then Some 0 else map_option Suc (Index s sep))"

definition Contains :: "string \<Rightarrow> string \<Rightarrow> bool" where
  "Contains s sub \<longleftrightarrow> Index s sub \<noteq> None"

definition Cut :: "string \<Rightarrow> string \<Rightarrow> string \<times> string \<times> bool" where
  "Cut s sep = (case Index s sep of
       Some i \<Rightarrow> (take i s, drop (i + length sep) s, True)
     | None \<Rightarrow> (s, [], False))"

definition LastIndexByte :: "string \<Rightarrow> char \<Rightarrow> nat option" where
  "LastIndexByte s c = map_option (\<lambda>i. length s - Suc i) (Index (rev s) [c])"

fun split_on :: "char \<Rightarrow> string \<Rightarrow> string list" where
  "split_on c [] = [[]]"
| "split_on c (x # xs) =
     (if x = c then [] # split_on c xs
      else (case split_on c xs of [] \<Rightarrow> [[x]] | y # ys \<Rightarrow> (x # y) # ys))"

fun Join :: "string list \<Rightarrow> string \<Rightarrow> string" where
  "Join [] sep = []"
| "Join [x] sep = x"
| "Join (x # y # ys) sep = x @ sep @ Join (y # ys) sep"

text \<open>\<open>strings.Trim(s, cutset)\<close> for an ASCII cutset.\<close>

definition Trim :: "string \<Rightarrow> string \<Rightarrow> string" where
  "Trim s cutset =
     rev (dropWhile (\<lambda>c. c \<in> set cutset) (rev (dropWhile (\<lambda>c. c \<in> set cutset) s)))"

definition TrimRight :: "string \<Rightarrow> string \<Rightarrow> string" where
  "TrimRight s cutset = rev (dropWhile (\<lambda>c. c \<in> set cutset) (rev s))"

lemma Index_char [go_str]:
  "Index s [c] = (if c \<in> set s then Some (length (takeWhile (\<lambda>x. x \<noteq> c) s)) else None)"
  by (induction s) auto

lemma Cut_char [go_str]:
  "Cut s [c] = (if c \<in> set s
      then (takeWhile (\<lambda>x. x \<noteq> c) s, tl (dropWhile (\<lambda>x. x \<noteq> c) s), True)
      else (s, [], False))"
proof -
  have "take (length (takeWhile P s)) s = takeWhile P s" for P
    by (rule takeWhile_eq_take [symmetric])
  moreover have "drop (Suc (length (takeWhile P s))) s = tl (dropWhile P s)" for P
    by (simp only: dropWhile_eq_drop drop_Suc tl_drop)
  ultimately show ?thesis
    by (simp add: Cut_def Index_char)
qed

lemma Cut_found:
  assumes "c \<notin> set a"
  shows "Cut (a @ c # b) [c] = (a, b, True)"
proof -
  have "\<forall>x\<in>set a. x \<noteq> c" using assms by auto
  then show ?thesis
    by (simp add: Cut_char takeWhile_append2 dropWhile_append2)
qed

lemma Index_Some_decomp:
  "Index s sep = Some i \<Longrightarrow> \<exists>b. s = take i s @ sep @ b \<and> i \<le> length s"
proof (induction s arbitrary: i)
  case Nil
  then show ?case by (auto split: if_splits)
next
  case (Cons c s)
  show ?case
  proof (cases "prefix sep (c # s)")
    case True
    with Cons.prems show ?thesis by (auto elim: prefixE)
  next
    case False
    with Cons.prems obtain j where "i = Suc j" "Index s sep = Some j" by auto
    with Cons.IH show ?thesis by auto
  qed
qed

lemma Contains_append [intro]: "Contains (a @ sub @ b) sub"
proof -
  have "Index (a @ sub @ b) sub \<noteq> None"
  proof (induction a)
    case Nil
    have "prefix sub (sub @ b)" by simp
    then show ?case by (cases "sub @ b") (auto simp del: prefix_append)
  next
    case (Cons x a)
    then show ?case by auto
  qed
  then show ?thesis by (simp add: Contains_def)
qed

lemma Contains_iff: "Contains s sub \<longleftrightarrow> (\<exists>a b. s = a @ sub @ b)"
proof
  assume "Contains s sub"
  then obtain i where "Index s sep = Some i \<or> Index s sub = Some i" for sep
    by (auto simp: Contains_def)
  then have "Index s sub = Some i" by blast
  then show "\<exists>a b. s = a @ sub @ b" by (blast dest: Index_Some_decomp)
qed auto

lemma Contains_char [go_str]: "Contains s [c] \<longleftrightarrow> c \<in> set s"
  by (simp add: Contains_def Index_char)

lemma split_on_not_Nil [simp]: "split_on c s \<noteq> []"
  by (cases s) (auto split: list.splits)

lemma Join_Cons: "xs \<noteq> [] \<Longrightarrow> Join (x # xs) sep = x @ sep @ Join xs sep"
  by (cases xs) auto

lemma Join_split_on [simp]: "Join (split_on c s) [c] = s"
proof (induction s)
  case (Cons x s)
  show ?case
  proof (cases "x = c")
    case True
    with Cons show ?thesis by (simp add: Join_Cons)
  next
    case False
    obtain y ys where y: "split_on c s = y # ys"
      by (cases "split_on c s") auto
    with False Cons show ?thesis by (cases ys) auto
  qed
qed simp

lemma split_on_no_sep: "c \<notin> set s \<Longrightarrow> split_on c s = [s]"
  by (induction s) auto

lemma split_on_append_sep: "c \<notin> set a \<Longrightarrow> split_on c (a @ c # b) = a # split_on c b"
  by (induction a) auto

lemma split_on_Join:
  "xs \<noteq> [] \<Longrightarrow> \<forall>x\<in>set xs. c \<notin> set x \<Longrightarrow> split_on c (Join xs [c]) = xs"
  by (induction xs "[c]" rule: Join.induct)
     (auto simp: split_on_no_sep split_on_append_sep)

lemma split_on_elems: "x \<in> set (split_on c s) \<Longrightarrow> c \<notin> set x"
proof (induction s arbitrary: x)
  case (Cons y s)
  then show ?case
    by (cases "split_on c s") (auto split: if_splits)
qed simp

lemma LastIndexByte_char:
  assumes "c \<notin> set b"
  shows "LastIndexByte (a @ c # b) c = Some (length a)"
proof -
  have "takeWhile (\<lambda>x. x \<noteq> c) (rev b @ c # rev a) = rev b"
    using assms by (subst takeWhile_append2) auto
  then show ?thesis by (simp add: LastIndexByte_def Index_char)
qed

text \<open>A string with a byte splits before its first and after its last occurrence of the byte.\<close>

lemma take_Index: "Index s [c] = Some i \<Longrightarrow> take i s = takeWhile (\<lambda>x. x \<noteq> c) s"
  by (auto simp: Index_char takeWhile_eq_take [symmetric] split: if_splits)

lemma drop_LastIndexByte:
  assumes "LastIndexByte s c = Some l"
  shows "drop (l + 1) s = rev (takeWhile (\<lambda>x. x \<noteq> c) (rev s))"
proof -
  from assms have "c \<in> set s" by (auto simp: LastIndexByte_def Index_char split: if_splits)
  then obtain a b where s: "s = a @ c # b" "c \<notin> set b" by (meson split_list_last)
  then have "takeWhile (\<lambda>x. x \<noteq> c) (rev b @ c # rev a) = rev b"
    by (subst takeWhile_append2) auto
  with s assms show ?thesis by (simp add: LastIndexByte_char)
qed

subsection \<open>UTF-8\<close>

text \<open>
  \<open>utf8.DecodeRuneInString\<close>: the first code point and its width. An ill-formed sequence decodes
  to \<open>RuneError\<close> (U+FFFD) with width 1, as in Go; the accepted ranges of the second byte are
  the ones of \<open>unicode/utf8\<close>.
\<close>

definition RuneError :: nat where
  "RuneError = 0xFFFD"

definition cont_in :: "nat \<Rightarrow> nat \<Rightarrow> char \<Rightarrow> bool" where
  "cont_in lo hi c \<longleftrightarrow> lo \<le> byte c \<and> byte c \<le> hi"

abbreviation cont :: "char \<Rightarrow> bool" where
  "cont \<equiv> cont_in 0x80 0xBF"

fun decode_rune :: "string \<Rightarrow> nat \<times> nat" where
  "decode_rune [] = (RuneError, 0)"
| "decode_rune (c # s) = (let b = byte c in
     if b < 0x80 then (b, 1)
     else if 0xC2 \<le> b \<and> b \<le> 0xDF then
       (case s of
          c1 # _ \<Rightarrow> if cont c1 then ((b mod 32) * 64 + byte c1 mod 64, 2) else (RuneError, 1)
        | _ \<Rightarrow> (RuneError, 1))
     else if 0xE0 \<le> b \<and> b \<le> 0xEF then
       (let lo = (if b = 0xE0 then 0xA0 else 0x80); hi = (if b = 0xED then 0x9F else 0xBF) in
        case s of
          c1 # c2 # _ \<Rightarrow> if cont_in lo hi c1 \<and> cont c2
            then ((b mod 16) * 4096 + (byte c1 mod 64) * 64 + byte c2 mod 64, 3)
            else (RuneError, 1)
        | _ \<Rightarrow> (RuneError, 1))
     else if 0xF0 \<le> b \<and> b \<le> 0xF4 then
       (let lo = (if b = 0xF0 then 0x90 else 0x80); hi = (if b = 0xF4 then 0x8F else 0xBF) in
        case s of
          c1 # c2 # c3 # _ \<Rightarrow> if cont_in lo hi c1 \<and> cont c2 \<and> cont c3
            then ((b mod 8) * 262144 + (byte c1 mod 64) * 4096 + (byte c2 mod 64) * 64
                  + byte c3 mod 64, 4)
            else (RuneError, 1)
        | _ \<Rightarrow> (RuneError, 1))
     else (RuneError, 1))"

lemma decode_rune_width:
  assumes "s \<noteq> []"
  shows "0 < snd (decode_rune s)"
  using assms
  by (cases s rule: decode_rune.cases) (auto simp: Let_def split: list.splits)

text \<open>The code points of a string with the bytes each came from, as \<open>for _, r := range s\<close> sees them.\<close>

function runes :: "string \<Rightarrow> (nat \<times> string) list" where
  "runes s = (if s = [] then []
     else (let (r, n) = decode_rune s in (r, take n s) # runes (drop n s)))"
  by pat_completeness auto
termination
proof (relation "measure length")
  fix s :: string and x r n
  assume "s \<noteq> []" and "x = decode_rune s" and "(r, n) = x"
  then show "(drop n s, s) \<in> measure length"
    using decode_rune_width [of s] by (cases "decode_rune s") auto
qed simp

declare runes.simps [simp del] decode_rune.simps [simp del]

definition RuneCountInString :: "string \<Rightarrow> nat" where
  "RuneCountInString s = length (runes s)"

text \<open>\<open>utf8.AppendRune\<close> for one code point; surrogates and values above U+10FFFF encode \<open>RuneError\<close>.\<close>

definition encode_rune :: "nat \<Rightarrow> string" where
  "encode_rune r0 = (let r = (if r0 > 0x10FFFF \<or> (0xD800 \<le> r0 \<and> r0 \<le> 0xDFFF) then RuneError else r0) in
     if r < 0x80 then [char_of r]
     else if r < 0x800 then [char_of (0xC0 + r div 64), char_of (0x80 + r mod 64)]
     else if r < 0x10000 then
       [char_of (0xE0 + r div 4096), char_of (0x80 + r div 64 mod 64), char_of (0x80 + r mod 64)]
     else [char_of (0xF0 + r div 262144), char_of (0x80 + r div 4096 mod 64),
           char_of (0x80 + r div 64 mod 64), char_of (0x80 + r mod 64)])"

lemma runes_Nil [simp]: "runes [] = []"
  by (simp add: runes.simps)

lemma runes_ascii_Cons [simp]: "is_ascii c \<Longrightarrow> runes (c # s) = (byte c, [c]) # runes s"
  by (simp add: runes.simps [of "c # s"] decode_rune.simps is_ascii_def Let_def)

lemma runes_ascii: "list_all is_ascii s \<Longrightarrow> runes s = map (\<lambda>c. (byte c, [c])) s"
  by (induction s) auto

lemma concat_snd_runes: "concat (map snd (runes s)) = s"
proof (induction s rule: runes.induct)
  case (1 s)
  then show ?case
    by (cases "decode_rune s") (auto simp: runes.simps [of s])
qed

lemma RuneCount_ascii: "list_all is_ascii s \<Longrightarrow> RuneCountInString s = length s"
  by (simp add: RuneCountInString_def runes_ascii)

lemma RuneCount_le_length: "RuneCountInString s \<le> length s"
  unfolding RuneCountInString_def
proof (induction s rule: runes.induct)
  case (1 s)
  show ?case
  proof (cases "s = []")
    case False
    obtain r n where rn: "decode_rune s = (r, n)" by force
    with decode_rune_width [OF False] have "0 < n" by simp
    moreover have "length (runes (drop n s)) \<le> length s - n"
      using 1 [OF False rn [symmetric] refl] by simp
    moreover have "length (runes s) = Suc (length (runes (drop n s)))"
      using False rn by (simp add: runes.simps [of s])
    moreover have "0 < length s" using False by simp
    ultimately show ?thesis by linarith
  qed simp
qed

section \<open>Unicode tables\<close>

text \<open>
  \<open>uni_lower\<close> is \<open>unicode.ToLower\<close>, \<open>uni_upper\<close> is \<open>unicode.ToUpper\<close>, \<open>uni_fold\<close> the least member of a code point's
  \<open>unicode.SimpleFold\<close> orbit and \<open>uni_print\<close> is \<open>unicode.IsPrint\<close>, each consulted at or above
  128 only.
\<close>

record unicode =
  uni_lower :: "nat \<Rightarrow> nat"
  uni_upper :: "nat \<Rightarrow> nat"
  uni_fold :: "nat \<Rightarrow> nat"
  uni_print :: "nat \<Rightarrow> bool"

definition rune_lower :: "unicode \<Rightarrow> nat \<Rightarrow> nat" where
  "rune_lower u r = (if r < 128 then (if 65 \<le> r \<and> r \<le> 90 then r + 32 else r) else uni_lower u r)"

definition rune_fold :: "unicode \<Rightarrow> nat \<Rightarrow> nat" where
  "rune_fold u r = (if r < 128 then (if 97 \<le> r \<and> r \<le> 122 then r - 32 else r) else uni_fold u r)"

definition ToLower :: "unicode \<Rightarrow> string \<Rightarrow> string" where
  "ToLower u s = (if list_all is_ascii s then map lower_byte s
     else concat (map (\<lambda>(r, _). encode_rune (rune_lower u r)) (runes s)))"

definition rune_upper :: "unicode \<Rightarrow> nat \<Rightarrow> nat" where
  "rune_upper u r = (if r < 128 then (if 97 \<le> r \<and> r \<le> 122 then r - 32 else r) else uni_upper u r)"

definition ToUpper :: "unicode \<Rightarrow> string \<Rightarrow> string" where
  "ToUpper u s = (if list_all is_ascii s then map upper_byte s
     else concat (map (\<lambda>(r, _). encode_rune (rune_upper u r)) (runes s)))"

definition EqualFold :: "unicode \<Rightarrow> string \<Rightarrow> string \<Rightarrow> bool" where
  "EqualFold u s t \<longleftrightarrow>
     map (rune_fold u \<circ> fst) (runes s) = map (rune_fold u \<circ> fst) (runes t)"

text \<open>No code point at or above 128 has an ASCII capital letter as its lower case.\<close>

definition unicode_ok :: "unicode \<Rightarrow> bool" where
  "unicode_ok u \<longleftrightarrow> (\<forall>r. \<not> (65 \<le> uni_lower u r \<and> uni_lower u r \<le> 90))"

lemma ToLower_ascii: "list_all is_ascii s \<Longrightarrow> ToLower u s = map lower_byte s"
  by (simp add: ToLower_def)

lemma ToLower_Nil [simp]: "ToLower u [] = []"
  by (simp add: ToLower_def)

lemma ToLower_ascii_idem: "list_all is_ascii s \<Longrightarrow> ToLower u (ToLower u s) = ToLower u s"
  by (simp add: ToLower_ascii list_all_iff)

lemma EqualFold_refl [simp]: "EqualFold u s s"
  by (simp add: EqualFold_def)

lemma fold_lower_nat:
  fixes a b :: nat
  shows "((if 65 \<le> a \<and> a \<le> 90 then a + 32 else a) = (if 65 \<le> b \<and> b \<le> 90 then b + 32 else b))
    = ((if 97 \<le> a \<and> a \<le> 122 then a - 32 else a) = (if 97 \<le> b \<and> b \<le> 122 then b - 32 else b))"
  by auto

lemma EqualFold_ascii:
  assumes "list_all is_ascii s" and "list_all is_ascii t"
  shows "EqualFold u s t \<longleftrightarrow> map lower_byte s = map lower_byte t"
proof -
  have key: "rune_fold u (byte c) = rune_fold u (byte d) \<longleftrightarrow> lower_byte c = lower_byte d"
    if "is_ascii c" "is_ascii d" for c d
  proof -
    have "lower_byte c = lower_byte d \<longleftrightarrow> byte (lower_byte c) = byte (lower_byte d)"
      by simp
    also have "\<dots> \<longleftrightarrow> rune_fold u (byte c) = rune_fold u (byte d)"
      using that unfolding byte_lower_byte rune_fold_def is_ascii_def
      by (simp only: if_True fold_lower_nat)
    finally show ?thesis by simp
  qed
  have "map (\<lambda>c. rune_fold u (byte c)) s = map (\<lambda>c. rune_fold u (byte c)) t
      \<longleftrightarrow> map lower_byte s = map lower_byte t"
    using assms
  proof (induction s arbitrary: t)
    case (Cons c s)
    then show ?case by (cases t) (auto simp: key)
  qed simp
  with assms show ?thesis by (simp add: EqualFold_def runes_ascii comp_def)
qed

section \<open>White space\<close>

text \<open>
  The UTF-8 encodings of the code points \<open>unicode.IsSpace\<close> accepts. No encoding of another code
  point, and no ill-formed byte, has one of them as a prefix (or a suffix), so trimming code point by code
  point is trimming these byte sequences.
\<close>

definition space_seqs :: "string list" where
  "space_seqs =
     [[CHR 0x09], [CHR 0x0A], [CHR 0x0B], [CHR 0x0C], [CHR 0x0D], [CHR 0x20],
      [CHR 0xC2, CHR 0x85], [CHR 0xC2, CHR 0xA0], [CHR 0xE1, CHR 0x9A, CHR 0x80],
      [CHR 0xE2, CHR 0x80, CHR 0x80], [CHR 0xE2, CHR 0x80, CHR 0x81], [CHR 0xE2, CHR 0x80, CHR 0x82],
      [CHR 0xE2, CHR 0x80, CHR 0x83], [CHR 0xE2, CHR 0x80, CHR 0x84], [CHR 0xE2, CHR 0x80, CHR 0x85],
      [CHR 0xE2, CHR 0x80, CHR 0x86], [CHR 0xE2, CHR 0x80, CHR 0x87], [CHR 0xE2, CHR 0x80, CHR 0x88],
      [CHR 0xE2, CHR 0x80, CHR 0x89], [CHR 0xE2, CHR 0x80, CHR 0x8A], [CHR 0xE2, CHR 0x80, CHR 0xA8],
      [CHR 0xE2, CHR 0x80, CHR 0xA9], [CHR 0xE2, CHR 0x80, CHR 0xAF], [CHR 0xE2, CHR 0x81, CHR 0x9F],
      [CHR 0xE3, CHR 0x80, CHR 0x80]]"

function trim_left :: "string list \<Rightarrow> string \<Rightarrow> string" where
  "trim_left ps s = (case find (\<lambda>p. p \<noteq> [] \<and> prefix p s) ps of
       None \<Rightarrow> s
     | Some p \<Rightarrow> trim_left ps (drop (length p) s))"
  by pat_completeness auto
termination
proof (relation "measure (length \<circ> snd)")
  fix ps s p
  assume "find (\<lambda>p. p \<noteq> [] \<and> prefix p s) ps = Some p"
  then have "p \<noteq> []" "prefix p s" by (auto simp: find_Some_iff)
  then show "((ps, drop (length p) s), ps, s) \<in> measure (length \<circ> snd)"
    by (cases s) auto
qed simp

declare trim_left.simps [simp del]

definition TrimSpace :: "string \<Rightarrow> string" where
  "TrimSpace s = rev (trim_left (map rev space_seqs) (rev (trim_left space_seqs s)))"

definition is_space :: "char \<Rightarrow> bool" where
  "is_space c \<longleftrightarrow> c \<in> {CHR 0x09, CHR 0x0A, CHR 0x0B, CHR 0x0C, CHR 0x0D, CHR 0x20}"

lemma trim_left_stop: "(\<And>p. p \<in> set ps \<Longrightarrow> p \<noteq> [] \<Longrightarrow> \<not> prefix p s) \<Longrightarrow> trim_left ps s = s"
  by (subst trim_left.simps) (auto simp: find_None_iff split: option.split dest: find_Some_iff [THEN iffD1])

lemma trim_left_suffix: "suffix (trim_left ps s) s"
proof (induction ps s rule: trim_left.induct)
  case (1 ps s)
  show ?case
  proof (cases "find (\<lambda>p. p \<noteq> [] \<and> prefix p s) ps")
    case None
    then show ?thesis by (simp add: trim_left.simps [of ps s])
  next
    case (Some p)
    then have "trim_left ps s = trim_left ps (drop (length p) s)"
      by (simp add: trim_left.simps [of ps s])
    with 1 [OF Some] show ?thesis
      by (metis suffix_drop suffix_order.trans)
  qed
qed

lemma trim_left_no_prefix: "p \<in> set ps \<Longrightarrow> p \<noteq> [] \<Longrightarrow> \<not> prefix p (trim_left ps s)"
proof (induction ps s rule: trim_left.induct)
  case (1 ps s)
  show ?case
  proof (cases "find (\<lambda>p. p \<noteq> [] \<and> prefix p s) ps")
    case None
    then have "trim_left ps s = s" by (simp add: trim_left.simps [of ps s])
    with None "1.prems" show ?thesis by (auto simp: find_None_iff)
  next
    case (Some q)
    with 1 show ?thesis by (simp add: trim_left.simps [of ps s])
  qed
qed

lemma TrimSpace_decomp: "\<exists>a b. s = a @ TrimSpace s @ b"
proof -
  obtain a where a: "s = a @ trim_left space_seqs s"
    using trim_left_suffix [of space_seqs s] by (auto elim: suffixE)
  obtain b where "rev (trim_left space_seqs s) = b @ rev (TrimSpace s)"
    using trim_left_suffix [of "map rev space_seqs" "rev (trim_left space_seqs s)"]
    by (auto simp: TrimSpace_def elim: suffixE)
  then have "trim_left space_seqs s = TrimSpace s @ rev b"
    by (metis rev_append rev_rev_ident)
  with a show ?thesis by metis
qed

lemma set_TrimSpace: "set (TrimSpace s) \<subseteq> set s"
  using TrimSpace_decomp [of s] by (metis set_append Un_upper1 Un_upper2 subset_trans)

lemma length_TrimSpace: "length (TrimSpace s) \<le> length s"
  using TrimSpace_decomp [of s] by (metis length_append le_add1 le_add2 le_trans)

lemma TrimSpace_idem [simp]: "TrimSpace (TrimSpace s) = TrimSpace s"
proof -
  let ?l = "trim_left space_seqs s" and ?t = "TrimSpace s"
  have "prefix ?t ?l"
    using trim_left_suffix [of "map rev space_seqs" "rev ?l"]
    by (simp add: TrimSpace_def suffix_to_prefix)
  then have "trim_left space_seqs ?t = ?t"
    by (intro trim_left_stop) (metis prefix_order.trans trim_left_no_prefix)
  moreover have "trim_left (map rev space_seqs) (rev ?t) = rev ?t"
    unfolding TrimSpace_def rev_rev_ident
    by (intro trim_left_stop) (rule trim_left_no_prefix)
  ultimately show ?thesis by (simp add: TrimSpace_def)
qed

lemma space_seqs_first:
  "p \<in> set space_seqs \<Longrightarrow> p \<noteq> [] \<and> (is_space (hd p) \<or> \<not> is_ascii (hd p))
     \<and> (is_space (last p) \<or> \<not> is_ascii (last p))"
  by (auto simp: space_seqs_def is_space_def is_ascii_def)

text \<open>A string whose first and last bytes are ASCII and not white space is left alone.\<close>

lemma TrimSpace_id:
  assumes "s \<noteq> [] \<Longrightarrow> is_ascii (hd s) \<and> \<not> is_space (hd s) \<and> is_ascii (last s) \<and> \<not> is_space (last s)"
  shows "TrimSpace s = s"
proof (cases "s = []")
  case True
  have "trim_left ps [] = []" for ps
    using trim_left_suffix [of ps "[]"] by simp
  with True show ?thesis by (simp add: TrimSpace_def)
next
  case False
  have l: "trim_left space_seqs s = s"
  proof (rule trim_left_stop)
    fix p assume p: "p \<in> set space_seqs" "p \<noteq> []"
    show "\<not> prefix p s"
    proof
      assume "prefix p s"
      with p(2) have "hd s = hd p" by (auto elim!: prefixE)
      with space_seqs_first [OF p(1)] assms [OF False] show False by auto
    qed
  qed
  have "trim_left (map rev space_seqs) (rev s) = rev s"
  proof (rule trim_left_stop)
    fix q assume q: "q \<in> set (map rev space_seqs)" "q \<noteq> []"
    then obtain p where p: "p \<in> set space_seqs" "q = rev p" by auto
    show "\<not> prefix q (rev s)"
    proof
      assume "prefix q (rev s)"
      with p have "suffix p s" by (simp add: suffix_to_prefix)
      with q p have "last s = last p" by (auto elim!: suffixE)
      with space_seqs_first [OF p(1)] assms [OF False] show False by auto
    qed
  qed
  with l show ?thesis by (simp add: TrimSpace_def)
qed

lemma TrimSpace_no_space:
  "\<forall>c\<in>set s. is_ascii c \<and> \<not> is_space c \<Longrightarrow> TrimSpace s = s"
  by (rule TrimSpace_id) auto

text \<open>\<open>strings.Fields\<close>: the maximal runs without white space.\<close>

function Fields_from :: "string \<Rightarrow> string \<Rightarrow> string list" where
  "Fields_from acc s = (case s of
       [] \<Rightarrow> (if acc = [] then [] else [rev acc])
     | c # cs \<Rightarrow> (case find (\<lambda>p. p \<noteq> [] \<and> prefix p s) space_seqs of
           Some p \<Rightarrow> (if acc = [] then [] else [rev acc]) @ Fields_from [] (drop (length p) s)
         | None \<Rightarrow> Fields_from (c # acc) cs))"
  by pat_completeness auto
termination
proof (relation "measure (length \<circ> snd)")
  fix acc s c cs p
  assume "s = c # cs" and "find (\<lambda>p. p \<noteq> [] \<and> prefix p s) space_seqs = Some p"
  then have "p \<noteq> []" "prefix p s" by (auto simp: find_Some_iff)
  then show "(([], drop (length p) s), acc, s) \<in> measure (length \<circ> snd)"
    by (cases s) auto
qed auto

declare Fields_from.simps [simp del]

definition Fields :: "string \<Rightarrow> string list" where
  "Fields s = Fields_from [] s"

text \<open>The UTF-8 bytes of an em dash, which the messages of the source contain.\<close>

definition dash :: string where
  "dash = [CHR 0xE2, CHR 0x80, CHR 0x94]"

section \<open>Numbers\<close>

text \<open>\<open>int64\<close> arithmetic: an exact result, brought back into range as two's complement does.\<close>

definition i64 :: "int \<Rightarrow> int" where
  "i64 n = (n + 2 ^ 63) mod 2 ^ 64 - 2 ^ 63"

lemma i64_in_range: "- (2 ^ 63) \<le> i64 n \<and> i64 n < 2 ^ 63"
  by (simp add: i64_def)

lemma i64_id: "- (2 ^ 63) \<le> n \<Longrightarrow> n < 2 ^ 63 \<Longrightarrow> i64 n = n"
  by (simp add: i64_def)

lemma i64_add: "i64 (i64 a + b) = i64 (a + b)"
proof -
  have "(i64 a + b + 2 ^ 63) mod 2 ^ 64 = (a + b + 2 ^ 63) mod 2 ^ 64"
    unfolding i64_def
    by (metis (no_types, opaque_lifting) mod_add_left_eq mod_diff_left_eq add_diff_cancel_right')
  then show ?thesis by (simp add: i64_def)
qed

lemma i64_mult: "i64 (i64 m * k) = i64 (m * k)"
proof -
  have "(i64 m * k + 2 ^ 63) mod 2 ^ 64 = (m * k + 2 ^ 63) mod 2 ^ 64"
    unfolding i64_def
    by (metis (no_types, opaque_lifting) mod_add_left_eq mod_mult_left_eq mod_diff_left_eq add_diff_cancel_right')
  then show ?thesis by (simp add: i64_def)
qed

fun nat_itoa :: "nat \<Rightarrow> string" where
  "nat_itoa n = (if n < 10 then [char_of (48 + n)]
     else nat_itoa (n div 10) @ [char_of (48 + n mod 10)])"

declare nat_itoa.simps [simp del]

definition itoa :: "int \<Rightarrow> string" where
  "itoa i = (if i < 0 then CHR ''-'' # nat_itoa (nat (- i)) else nat_itoa (nat i))"

definition digits_val :: "string \<Rightarrow> nat" where
  "digits_val s = foldl (\<lambda>a c. a * 10 + (byte c - 48)) 0 s"

text \<open>\<open>strconv.ParseInt(s, 10, 64)\<close>: an optional sign and digits; \<open>None\<close> for a syntax or range error.\<close>

definition ParseInt64 :: "string \<Rightarrow> int option" where
  "ParseInt64 s =
     (let (neg, ds) = (case s of c # cs \<Rightarrow>
            if c = CHR ''+'' then (False, cs) else if c = CHR ''-'' then (True, cs) else (False, s)
          | [] \<Rightarrow> (False, []));
          n = int (digits_val ds)
      in if ds = [] \<or> \<not> list_all is_digit ds then None
         else if neg then (if n \<le> 2 ^ 63 then Some (- n) else None)
         else (if n < 2 ^ 63 then Some n else None))"

lemma digit_chars:
  "char_of (48 :: nat) = CHR ''0''" "char_of (49 :: nat) = CHR ''1''" "char_of (50 :: nat) = CHR ''2''"
  "char_of (51 :: nat) = CHR ''3''" "char_of (52 :: nat) = CHR ''4''" "char_of (53 :: nat) = CHR ''5''"
  "char_of (54 :: nat) = CHR ''6''" "char_of (55 :: nat) = CHR ''7''" "char_of (56 :: nat) = CHR ''8''"
  "char_of (57 :: nat) = CHR ''9''"
  by (code_simp, code_simp, code_simp, code_simp, code_simp, code_simp, code_simp, code_simp, code_simp, code_simp)

lemmas itoa_eval = nat_itoa.simps digit_chars

lemma nat_itoa_digits: "list_all is_digit (nat_itoa n) \<and> nat_itoa n \<noteq> []"
proof (induction n rule: nat_itoa.induct)
  case (1 n)
  show ?case
  proof (cases "n < 10")
    case True
    then show ?thesis by (simp add: nat_itoa.simps [of n] is_digit_def)
  next
    case False
    have "is_digit (char_of (48 + n mod 10))" by (simp add: is_digit_def)
    with False 1 show ?thesis by (simp add: nat_itoa.simps [of n])
  qed
qed

lemma digits_val_snoc: "digits_val (ds @ [c]) = digits_val ds * 10 + (byte c - 48)"
  by (simp add: digits_val_def)

lemma digits_val_nat_itoa: "digits_val (nat_itoa n) = n"
proof (induction n rule: nat_itoa.induct)
  case (1 n)
  show ?case
  proof (cases "n < 10")
    case True
    then show ?thesis by (subst nat_itoa.simps) (simp add: digits_val_def)
  next
    case False
    with 1 show ?thesis by (subst nat_itoa.simps) (simp add: digits_val_snoc)
  qed
qed

lemma ParseInt64_digits:
  assumes "ds \<noteq> []" and "list_all is_digit ds"
  shows "ParseInt64 ds = (if int (digits_val ds) < 2 ^ 63 then Some (int (digits_val ds)) else None)"
proof -
  obtain c cs where "ds = c # cs" using assms(1) by (cases ds) auto
  moreover have "c \<noteq> CHR ''+'' \<and> c \<noteq> CHR ''-''"
    using assms(2) \<open>ds = c # cs\<close> by (auto simp: is_digit_def)
  ultimately show ?thesis using assms(2) by (simp add: ParseInt64_def Let_def)
qed

lemma ParseInt64_itoa:
  assumes "- (2 ^ 63) \<le> i" and "i < 2 ^ 63"
  shows "ParseInt64 (itoa i) = Some i"
proof (cases "i < 0")
  case True
  with assms nat_itoa_digits [of "nat (- i)"] show ?thesis
    by (simp add: itoa_def ParseInt64_def digits_val_nat_itoa)
next
  case False
  with assms nat_itoa_digits [of "nat i"] show ?thesis
    by (simp add: itoa_def ParseInt64_digits digits_val_nat_itoa)
qed

section \<open>Hexadecimal and quoting\<close>

definition hex_digit :: "nat \<Rightarrow> char" where
  "hex_digit n = (if n < 10 then char_of (48 + n) else char_of (87 + n))"

definition hex_byte :: "char \<Rightarrow> string" where
  "hex_byte c = [hex_digit (byte c div 16), hex_digit (byte c mod 16)]"

text \<open>\<open>hex.EncodeToString\<close>\<close>

definition hex_encode :: "string \<Rightarrow> string" where
  "hex_encode s = concat (map hex_byte s)"

lemma length_hex_encode [simp]: "length (hex_encode s) = 2 * length s"
  by (induction s) (simp_all add: hex_encode_def hex_byte_def)

lemma hex_digit_eq [simp]: "m < 16 \<Longrightarrow> n < 16 \<Longrightarrow> hex_digit m = hex_digit n \<longleftrightarrow> m = n"
proof
  assume "m < 16" "n < 16" "hex_digit m = hex_digit n"
  then have "byte (hex_digit m) = byte (hex_digit n)" by simp
  with \<open>m < 16\<close> \<open>n < 16\<close> show "m = n" by (auto simp: hex_digit_def split: if_splits)
qed simp

lemma hex_byte_inj: "hex_byte c = hex_byte d \<Longrightarrow> c = d"
proof -
  assume "hex_byte c = hex_byte d"
  then have "byte c div 16 = byte d div 16" "byte c mod 16 = byte d mod 16"
    by (simp_all add: hex_byte_def less_mult_imp_div_less)
  then have "byte c = byte d" by (metis div_mult_mod_eq)
  then show ?thesis by simp
qed

lemma hex_encode_inj: "hex_encode s = hex_encode t \<Longrightarrow> s = t"
proof (induction s arbitrary: t)
  case Nil
  then show ?case by (cases t) (simp_all add: hex_encode_def hex_byte_def)
next
  case (Cons c s)
  then obtain d t' where "t = d # t'" by (cases t) (auto simp: hex_encode_def hex_byte_def)
  with Cons show ?case
    by (auto simp: hex_encode_def hex_byte_def intro: hex_byte_inj [unfolded hex_byte_def])
qed

text \<open>\<open>strconv.Quote\<close>, the \<open>%q\<close> verb of package fmt.\<close>

definition hex_width :: "nat \<Rightarrow> nat \<Rightarrow> string" where
  "hex_width w r = map (\<lambda>i. hex_digit (r div 16 ^ (w - 1 - i) mod 16)) [0..<w]"

definition quote_rune :: "unicode \<Rightarrow> nat \<times> string \<Rightarrow> string" where
  "quote_rune u rb = (let (r, bs) = rb in
     if r = RuneError \<and> length bs = 1 then CHR 0x5C # CHR ''x'' # hex_width 2 (byte (hd bs))
     else if r = 34 \<or> r = 92 then [CHR 0x5C, char_of r]
     else if (if r < 128 then 32 \<le> r \<and> r < 127 else uni_print u r) then bs
     else if r = 7 then [CHR 0x5C, CHR ''a''] else if r = 8 then [CHR 0x5C, CHR ''b'']
     else if r = 12 then [CHR 0x5C, CHR ''f''] else if r = 10 then [CHR 0x5C, CHR ''n'']
     else if r = 13 then [CHR 0x5C, CHR ''r''] else if r = 9 then [CHR 0x5C, CHR ''t'']
     else if r = 11 then [CHR 0x5C, CHR ''v'']
     else if r < 32 \<or> r = 127 then CHR 0x5C # CHR ''x'' # hex_width 2 r
     else if r < 0x10000 then CHR 0x5C # CHR ''u'' # hex_width 4 r
     else CHR 0x5C # CHR ''U'' # hex_width 8 r)"

definition Quote :: "unicode \<Rightarrow> string \<Rightarrow> string" where
  "Quote u s = [CHR 0x22] @ concat (map (quote_rune u) (runes s)) @ [CHR 0x22]"

end
