(* ===== verification/World.thy ===== *)
theory World
  imports Go_Prelude "HOL-Library.List_Lexorder" "HOL-Library.Char_ord"
begin

text \<open>
  The state the program works on and the effects it has on it: the MariaDB tables of
  \<open>sql/schema\<close> as lists of rows, the files it reads and writes, the source of random bytes and
  the clock. An operation of the source is a function from a world to a result (an error or
  a value) and the next world, of type \<open>'a op\<close>; \<open>andThen\<close> is the idiom
  \<open>if err != nil { return err }\<close>.

  Every statement sent to the database can fail for reasons outside the program. The field
  \<open>faults\<close> decides, statement by statement, which of them do: a statement that meets \<open>True\<close>
  returns \<open>DBError\<close> and changes nothing. A theorem that holds for every world therefore holds for
  every pattern of failures.
\<close>

section \<open>Errors\<close>

datatype error =
    ValidationError string
  | ErrNotFound string
  | ErrExists string
  | ErrInvalid string
  | ErrText string
  | DuplicateKey
  | DBError
  | FSError
  | ExecError
  | RandError
  | Wrapped string error

text \<open>
  \<open>ErrNotFound s\<close> and \<open>ErrExists s\<close> are the sentinel errors of package mailbox wrapped by
  \<open>fmt.Errorf("%w: ...")\<close> with the text \<open>s\<close>; \<open>ErrInvalid\<close> stands for the sentinels \<open>ErrInvalidToken\<close>,
  \<open>ErrInvalidKey\<close>, \<open>ErrInvalidSession\<close> and \<open>ErrInvalidCredentials\<close>, told apart by their text;
  \<open>Wrapped p e\<close> is \<open>fmt.Errorf("p: %w", e)\<close>. \<open>DuplicateKey\<close> is MariaDB's error 1062.
\<close>

text \<open>\<open>err.Error()\<close>; the texts of errors that come from outside the program are left abstract.\<close>

fun err_text :: "error \<Rightarrow> string" where
  "err_text (ValidationError s) = s"
| "err_text (ErrNotFound s) = ''not found: '' @ s"
| "err_text (ErrExists s) = ''already exists: '' @ s"
| "err_text (ErrInvalid s) = s"
| "err_text (ErrText s) = s"
| "err_text DuplicateKey = ''Error 1062: Duplicate entry''"
| "err_text DBError = ''database error''"
| "err_text FSError = ''file system error''"
| "err_text ExecError = ''exit status''"
| "err_text RandError = ''random source''"
| "err_text (Wrapped p e) = p @ '': '' @ err_text e"

fun is_validation :: "error \<Rightarrow> bool" where
  "is_validation (ValidationError s) = True"
| "is_validation (Wrapped p e) = is_validation e"
| "is_validation e = False"

fun is_not_found :: "error \<Rightarrow> bool" where
  "is_not_found (ErrNotFound s) = True"
| "is_not_found (Wrapped p e) = is_not_found e"
| "is_not_found e = False"

fun is_exists :: "error \<Rightarrow> bool" where
  "is_exists (ErrExists s) = True"
| "is_exists (Wrapped p e) = is_exists e"
| "is_exists e = False"

section \<open>What lies outside the source\<close>

text \<open>
  \<open>ck\<close> is the collation of the \<open>utf8mb4\<close> columns: two values are equal for SQL when their keys
  are equal, and \<open>ORDER BY\<close> sorts by the keys. \<open>like v p\<close> is SQL's \<open>v LIKE p\<close>. The digests are
  functions from bytes to bytes. \<open>dkim_keygen\<close> is the effect of \<open>rspamadm dkim_keygen\<close> for a
  domain at a time: the private key it writes and the record text it prints (\<open>None\<close> when the command
  fails). \<open>state_json c k\<close> is entry \<open>k\<close> of the \<open>config\<close> object of the JSON text \<open>c\<close> when that entry is a string,
  and \<open>json_object\<close> says which texts are JSON objects. \<open>run_host h c\<close> is what the server answers to the command \<open>c\<close>, a list of
  words, after the commands and requests \<open>h\<close>, the latest first: whether the exit status is 0, the standard output, and the output together with the messages.
\<close>

text \<open>JSON values, the commands the program runs, the requests it sends to Cloudflare (token, method, path and body), and the lines it sends to the authentication log of the system.\<close>

datatype json =
    JNull
  | JBool bool
  | JNum string
  | JStr string
  | JArr "json list"
  | JObj "(string \<times> json) list"

datatype outbound = Ran "string list" | Sent string string string "json option" | Noted string

record exec_result =
  X_ok :: bool
  X_stdout :: string
  X_both :: string

record lib =
  uni :: unicode
  ck :: "string \<Rightarrow> string"
  like :: "string \<Rightarrow> string \<Rightarrow> bool"
  sha256 :: "string \<Rightarrow> string"
  sha512 :: "string \<Rightarrow> string"
  argon2 :: "string \<Rightarrow> string \<Rightarrow> nat \<Rightarrow> nat \<Rightarrow> nat \<Rightarrow> nat \<Rightarrow> string"
  dkim_keygen :: "string \<Rightarrow> int \<Rightarrow> (string \<times> string) option"
  json_object :: "string \<Rightarrow> bool"
  state_json :: "string \<Rightarrow> string \<Rightarrow> string option"
  run_host :: "outbound list \<Rightarrow> string list \<Rightarrow> exec_result"

text \<open>SQL equality of two strings.\<close>

definition sql_eq :: "lib \<Rightarrow> string \<Rightarrow> string \<Rightarrow> bool" where
  "sql_eq L a b \<longleftrightarrow> ck L a = ck L b"

lemma sql_eq_refl [simp]: "sql_eq L a a"
  by (simp add: sql_eq_def)

lemma sql_eq_sym: "sql_eq L a b \<longleftrightarrow> sql_eq L b a"
  by (auto simp: sql_eq_def)

lemma sql_eq_trans: "sql_eq L a b \<Longrightarrow> sql_eq L b c \<Longrightarrow> sql_eq L a c"
  by (simp add: sql_eq_def)

text \<open>
  The documented behaviour of the case-insensitive collations on printable ASCII: letters compare without regard to case, trailing spaces do not count, everything else counts;
  and strings are compared from the left, so one that starts with an \<open>@\<close> is no other that starts with another printable character.
\<close>

definition ascii_key :: "string \<Rightarrow> string" where
  "ascii_key s = map lower_byte (TrimRight s '' '')"

definition collation_ok :: "lib \<Rightarrow> bool" where
  "collation_ok L \<longleftrightarrow>
     (\<forall>a b. list_all printable a \<longrightarrow> list_all printable b \<longrightarrow> (sql_eq L a b \<longleftrightarrow> ascii_key a = ascii_key b))
   \<and> (\<forall>a c b. printable c \<longrightarrow> c \<noteq> CHR ''@'' \<longrightarrow> c \<noteq> CHR '' '' \<longrightarrow> \<not> sql_eq L (CHR ''@'' # a) (c # b))"

section \<open>The tables\<close>

record domain_row =
  d_id :: nat
  d_name :: string

record user_row =
  u_domain_id :: nat
  u_email :: string
  u_display_name :: string
  u_password :: string
  u_maildir :: string
  u_quota_bytes :: int
  u_enabled :: bool
  u_created_at :: int

record alias_row =
  a_domain_id :: nat
  a_source :: string
  a_destination :: string

record group_row =
  g_id :: nat
  g_domain_id :: nat
  g_email :: string
  g_name :: string
  g_description :: string
  g_post_policy :: string
  g_allow_external :: bool
  g_created_at :: int

record member_row =
  m_group_id :: nat
  m_member :: string
  m_role :: string
  m_created_at :: int

record forward_row =
  f_email :: string
  f_destination :: string
  f_keep_copy :: bool

record audit_row =
  au_id :: nat
  au_at :: int
  au_actor :: string
  au_action :: string
  au_target :: string
  au_detail :: string
  au_ip :: string

record token_row =
  t_id :: nat
  t_name :: string
  t_token_hash :: string
  t_scopes :: string
  t_created_at :: int
  t_last_used_at :: "int option"

record admin_row =
  ad_id :: nat
  ad_username :: string
  ad_password_hash :: string
  ad_last_login_at :: "int option"

record session_row =
  s_admin_user_id :: nat
  s_token_hash :: string
  s_expires_at :: int
  s_ip_address :: string
  s_user_agent :: string

record key_row =
  k_domain_id :: nat
  k_key_hash :: string
  k_key_hint :: string
  k_created_at :: int
  k_last_used_at :: "int option"

text \<open>The single row of \<open>cloudflare_settings\<close>.\<close>

record cf_row =
  cf_api_token :: "string option"
  cf_client_id :: "string option"
  cf_client_secret :: "string option"
  cf_access :: "string option"
  cf_refresh :: "string option"
  cf_expires_at :: "int option"
  cf_connected_at :: int

text \<open>A file or a directory with its owner.\<close>

datatype fnode = Dir (owner: nat) | File (owner: nat) (content: string)

record world =
  virtual_domains :: "domain_row list"
  virtual_users :: "user_row list"
  virtual_aliases :: "alias_row list"
  mail_groups :: "group_row list"
  mail_group_members :: "member_row list"
  mailbox_forwards :: "forward_row list"
  audit_log :: "audit_row list"
  api_tokens :: "token_row list"
  admin_users :: "admin_row list"
  admin_sessions :: "session_row list"
  domain_api_keys :: "key_row list"
  cloudflare_settings :: "cf_row option"
  next_id :: nat
  fs :: "string \<Rightarrow> fnode option"
  entropy :: string
  clock :: int
  faults :: "bool list"
  outbound :: "outbound list"

text \<open>\<open>AUTO_INCREMENT\<close>: one supply of identifiers for all tables, each handed out once.\<close>

section \<open>Operations\<close>

type_synonym 'a op = "world \<Rightarrow> (error + 'a) \<times> world"

definition Return :: "'a \<Rightarrow> 'a op" where
  "Return x = (\<lambda>w. (Inr x, w))"

definition Raise :: "error \<Rightarrow> 'a op" where
  "Raise e = (\<lambda>w. (Inl e, w))"

definition andThen :: "'a op \<Rightarrow> ('a \<Rightarrow> 'b op) \<Rightarrow> 'b op" where
  "andThen m f = (\<lambda>w. case m w of (Inl e, w') \<Rightarrow> (Inl e, w') | (Inr x, w') \<Rightarrow> f x w')"

text \<open>A result computed without touching the world.\<close>

definition Lift :: "error + 'a \<Rightarrow> 'a op" where
  "Lift r = (\<lambda>w. (r, w))"

text \<open>The caller looks at the error instead of passing it on.\<close>

definition Attempt :: "'a op \<Rightarrow> (error + 'a) op" where
  "Attempt m = (\<lambda>w. case m w of (r, w') \<Rightarrow> (Inr r, w'))"

definition fault :: "world \<Rightarrow> bool" where
  "fault w = (case faults w of [] \<Rightarrow> False | b # bs \<Rightarrow> b)"

definition tick :: "world \<Rightarrow> world" where
  "tick w = w\<lparr>faults := tl (faults w)\<rparr>"

text \<open>A statement that reads, and one that writes and reports the number of affected rows.\<close>

definition Query :: "(world \<Rightarrow> 'a) \<Rightarrow> 'a op" where
  "Query q = (\<lambda>w. if fault w then (Inl DBError, tick w) else (Inr (q w), tick w))"

definition Exec :: "(world \<Rightarrow> error + nat \<times> world) \<Rightarrow> nat op" where
  "Exec q = (\<lambda>w. if fault w then (Inl DBError, tick w)
     else (case q (tick w) of Inl e \<Rightarrow> (Inl e, tick w) | Inr (n, w') \<Rightarrow> (Inr n, w')))"

text \<open>\<open>rand.Read\<close> of \<open>n\<close> bytes.\<close>

definition RandRead :: "nat \<Rightarrow> string op" where
  "RandRead n = (\<lambda>w. if length (entropy w) < n then (Inl RandError, w)
     else (Inr (take n (entropy w)), w\<lparr>entropy := drop n (entropy w)\<rparr>))"

text \<open>\<open>time.Now()\<close> and \<open>NOW()\<close>: one clock for the program and the database.\<close>

definition Now :: "int op" where
  "Now = (\<lambda>w. (Inr (clock w), w))"

text \<open>\<open>exec.Command(c...)\<close>: the command is run and becomes the latest in the list.\<close>

definition RunHost :: "lib \<Rightarrow> string list \<Rightarrow> exec_result op" where
  "RunHost L c = (\<lambda>w. (Inr (run_host L (outbound w) c), w\<lparr>outbound := Ran c # outbound w\<rparr>))"

text \<open>\<open>CombinedOutput()\<close> and \<open>Output()\<close> of a command: the text is there whether it fails or not.\<close>

definition CombinedOutput :: "lib \<Rightarrow> string list \<Rightarrow> (string \<times> error option) op" where
  "CombinedOutput L c = andThen (RunHost L c) (\<lambda>x. Return (X_both x, if X_ok x then None else Some ExecError))"

definition Output :: "lib \<Rightarrow> string list \<Rightarrow> (string \<times> error option) op" where
  "Output L c = andThen (RunHost L c) (\<lambda>x. Return (X_stdout x, if X_ok x then None else Some ExecError))"

text \<open>
  A transaction: the statements of \<open>m\<close> between \<open>BEGIN\<close> and \<open>COMMIT\<close>, each of which can fail; anything but a successful
  commit leaves the tables as they were.
\<close>

definition Transaction :: "'a op \<Rightarrow> 'a op" where
  "Transaction m = (\<lambda>w. if fault w then (Inl DBError, tick w)
     else (case m (tick w) of
        (Inl e, w1) \<Rightarrow> (Inl e, w\<lparr>faults := faults w1\<rparr>)
      | (Inr x, w1) \<Rightarrow> if fault w1 then (Inl DBError, w\<lparr>faults := tl (faults w1)\<rparr>) else (Inr x, tick w1)))"

text \<open>What holds of the result and the world an operation ends with.\<close>

definition after :: "'a op \<Rightarrow> (error + 'a \<Rightarrow> world \<Rightarrow> bool) \<Rightarrow> world \<Rightarrow> bool" where
  "after m Q w = (case m w of (r, w') \<Rightarrow> Q r w')"

lemma after_Return [wp]: "after (Return x) Q w = Q (Inr x) w"
  by (simp add: after_def Return_def)

lemma after_Raise [wp]: "after (Raise e) Q w = Q (Inl e) w"
  by (simp add: after_def Raise_def)

lemma after_Lift [wp]: "after (Lift r) Q w = Q r w"
  by (simp add: after_def Lift_def)

lemma after_andThen [wp]:
  "after (andThen m f) Q w =
     after m (\<lambda>r w'. case r of Inl e \<Rightarrow> Q (Inl e) w' | Inr x \<Rightarrow> after (f x) Q w') w"
  by (auto simp: after_def andThen_def split: prod.splits sum.splits)

lemma after_Attempt [wp]: "after (Attempt m) Q w = after m (\<lambda>r w'. Q (Inr r) w') w"
  by (auto simp: after_def Attempt_def split: prod.splits)

lemma after_Query [wp]:
  "after (Query q) Q w = (if fault w then Q (Inl DBError) (tick w) else Q (Inr (q w)) (tick w))"
  by (simp add: after_def Query_def)

lemma after_Exec [wp]:
  "after (Exec q) Q w = (if fault w then Q (Inl DBError) (tick w)
     else (case q (tick w) of Inl e \<Rightarrow> Q (Inl e) (tick w) | Inr (n, w') \<Rightarrow> Q (Inr n) w'))"
  by (simp add: after_def Exec_def split: sum.splits prod.splits)

lemma after_RandRead [wp]:
  "after (RandRead n) Q w = (if length (entropy w) < n then Q (Inl RandError) w
     else Q (Inr (take n (entropy w))) (w\<lparr>entropy := drop n (entropy w)\<rparr>))"
  by (simp add: after_def RandRead_def)

lemma after_RunHost [wp]: "after (RunHost L c) Q w = Q (Inr (run_host L (outbound w) c)) (w\<lparr>outbound := Ran c # outbound w\<rparr>)"
  by (simp add: after_def RunHost_def)

lemma after_Now [wp]: "after Now Q w = Q (Inr (clock w)) w"
  by (simp add: after_def Now_def)

lemma after_if [wp]: "after (if b then m else n) Q w = (if b then after m Q w else after n Q w)"
  by simp

lemma afterI: "(\<And>r w'. m w = (r, w') \<Longrightarrow> Q r w') \<Longrightarrow> after m Q w"
  by (simp add: after_def split: prod.splits)

lemma afterD: "after m Q w \<Longrightarrow> m w = (r, w') \<Longrightarrow> Q r w'"
  by (simp add: after_def)

lemma after_mono: "after m P w \<Longrightarrow> (\<And>r w'. P r w' \<Longrightarrow> Q r w') \<Longrightarrow> after m Q w"
  by (auto simp: after_def split: prod.splits)

lemma after_seq:
  assumes "after m P w" and "\<And>e w1. P (Inl e) w1 \<Longrightarrow> Q (Inl e) w1"
    and "\<And>x w1. P (Inr x) w1 \<Longrightarrow> after (f x) Q w1"
  shows "after (andThen m f) Q w"
  unfolding after_andThen by (rule after_mono [OF assms(1)]) (auto split: sum.split intro: assms)

text \<open>An operation keeps a predicate on the world, whether it succeeds or fails.\<close>

definition keeps :: "(world \<Rightarrow> bool) \<Rightarrow> 'a op \<Rightarrow> bool" where
  "keeps I m \<longleftrightarrow> (\<forall>w. I w \<longrightarrow> after m (\<lambda>_. I) w)"

lemma keepsI: "(\<And>w. I w \<Longrightarrow> after m (\<lambda>_. I) w) \<Longrightarrow> keeps I m"
  by (simp add: keeps_def)

lemma keepsD: "keeps I m \<Longrightarrow> I w \<Longrightarrow> after m (\<lambda>_. I) w"
  by (simp add: keeps_def)

lemma keeps_run: "keeps I m \<Longrightarrow> I w \<Longrightarrow> m w = (r, w') \<Longrightarrow> I w'"
  by (auto simp: keeps_def after_def)

lemma keeps_Return [keeps_ops]: "keeps I (Return x)"
  by (simp add: keeps_def wp)

lemma keeps_Raise [keeps_ops]: "keeps I (Raise e)"
  by (simp add: keeps_def wp)

lemma keeps_Lift [keeps_ops]: "keeps I (Lift r)"
  by (simp add: keeps_def wp)

lemma keeps_andThen [keeps_ops]:
  assumes "keeps I m" and "\<And>x. keeps I (f x)"
  shows "keeps I (andThen m f)"
proof (rule keepsI)
  fix w assume "I w"
  from keepsD [OF assms(1) this] show "after (andThen m f) (\<lambda>_. I) w"
    by (rule after_seq) (auto intro: keepsD [OF assms(2)])
qed

lemma keeps_Now [keeps_ops]: "keeps I Now"
  by (simp add: keeps_def wp)

lemma keeps_Attempt [keeps_ops]: "keeps I m \<Longrightarrow> keeps I (Attempt m)"
  by (auto simp: keeps_def wp)

lemma keeps_Query [keeps_ops]: "(\<And>w. I w \<Longrightarrow> I (tick w)) \<Longrightarrow> keeps I (Query q)"
  by (auto simp: keeps_def wp)

lemma keeps_RunHost: "(\<And>w cs. I w \<Longrightarrow> I (w\<lparr>outbound := cs\<rparr>)) \<Longrightarrow> keeps I (RunHost L c)"
  by (auto simp: keeps_def wp)

lemma keeps_Exec:
  "(\<And>w. I w \<Longrightarrow> I (tick w)) \<Longrightarrow> (\<And>w n w'. I w \<Longrightarrow> q w = Inr (n, w') \<Longrightarrow> I w') \<Longrightarrow> keeps I (Exec q)"
  unfolding keeps_def wp by (auto split: sum.split)

lemma keeps_if [keeps_ops]: "(b \<Longrightarrow> keeps I m) \<Longrightarrow> (\<not> b \<Longrightarrow> keeps I n) \<Longrightarrow> keeps I (if b then m else n)"
  by simp

lemma keeps_sum [keeps_ops]:
  "(\<And>e. r = Inl e \<Longrightarrow> keeps I (f e)) \<Longrightarrow> (\<And>x. r = Inr x \<Longrightarrow> keeps I (g x)) \<Longrightarrow>
     keeps I (case r of Inl e \<Rightarrow> f e | Inr x \<Rightarrow> g x)"
  by (simp split: sum.split)

lemma keeps_duplicate [keeps_ops]:
  "keeps I m \<Longrightarrow> (\<And>e. keeps I (k e)) \<Longrightarrow> (\<And>x. keeps I (f x)) \<Longrightarrow>
     keeps I (case r of Inl DuplicateKey \<Rightarrow> m | Inl e \<Rightarrow> k e | Inr x \<Rightarrow> f x)"
  by (simp split: sum.split error.split)

lemma keeps_option [keeps_ops]:
  "(r = None \<Longrightarrow> keeps I m) \<Longrightarrow> (\<And>x. r = Some x \<Longrightarrow> keeps I (f x)) \<Longrightarrow>
     keeps I (case r of None \<Rightarrow> m | Some x \<Rightarrow> f x)"
  by (simp split: option.split)

lemma keeps_cases [keeps_ops]:
  "(xs = [] \<Longrightarrow> keeps I m) \<Longrightarrow> (\<And>y ys. xs = y # ys \<Longrightarrow> keeps I (f y ys)) \<Longrightarrow> keeps I (case xs of [] \<Rightarrow> m | y # ys \<Rightarrow> f y ys)"
  by (simp split: list.split)

lemma keeps_prod [keeps_ops]: "(\<And>a b. p = (a, b) \<Longrightarrow> keeps I (f a b)) \<Longrightarrow> keeps I (case p of (a, b) \<Rightarrow> f a b)"
  by (simp split: prod.split)

lemma keeps_Let [keeps_ops]: "(\<And>x. x = v \<Longrightarrow> keeps I (f x)) \<Longrightarrow> keeps I (Let v f)"
  by (simp add: Let_def)

text \<open>\<open>tick\<close> touches nothing but the pattern of failures.\<close>

lemma tick_fields [simp]:
  "virtual_domains (tick w) = virtual_domains w"
  "virtual_users (tick w) = virtual_users w"
  "virtual_aliases (tick w) = virtual_aliases w"
  "mail_groups (tick w) = mail_groups w"
  "mail_group_members (tick w) = mail_group_members w"
  "mailbox_forwards (tick w) = mailbox_forwards w"
  "audit_log (tick w) = audit_log w"
  "api_tokens (tick w) = api_tokens w"
  "admin_users (tick w) = admin_users w"
  "admin_sessions (tick w) = admin_sessions w"
  "domain_api_keys (tick w) = domain_api_keys w"
  "cloudflare_settings (tick w) = cloudflare_settings w"
  "next_id (tick w) = next_id w"
  "fs (tick w) = fs w"
  "entropy (tick w) = entropy w"
  "clock (tick w) = clock w"
  "outbound (tick w) = outbound w"
  by (simp_all add: tick_def)

section \<open>A concrete library and an empty store\<close>

text \<open>
  Instances the examples run on. The digests are not SHA-256 and Argon2, but they are functions of the right
  length; the letter case functions are the identity beyond ASCII; \<open>LIKE\<close> is equality.
\<close>

definition example_lib :: lib where
  "example_lib = \<lparr>uni = \<lparr>uni_lower = (\<lambda>r. r), uni_upper = (\<lambda>r. r), uni_fold = (\<lambda>r. r), uni_print = (\<lambda>r. True)\<rparr>,
     ck = ascii_key, like = (\<lambda>v p. v = p),
     sha256 = (\<lambda>m. take 32 (rev m @ replicate 32 (CHR 0x00))),
     sha512 = (\<lambda>m. take 64 (rev m @ replicate 64 (CHR 0x00))),
     argon2 = (\<lambda>p s t m k n. take n (p @ s @ replicate n (CHR 0x00))),
     dkim_keygen = (\<lambda>d t. Some (''PRIVATE'', ''mail._domainkey IN TXT ( \"v=DKIM1; k=rsa; \" \"p=QUJD\" ) ;'')),
     json_object = (\<lambda>c. True), state_json = (\<lambda>c k. None),
     run_host = (\<lambda>h c. \<lparr>X_ok = True, X_stdout = [], X_both = []\<rparr>)\<rparr>"

definition empty_world :: world where
  "empty_world = \<lparr>virtual_domains = [], virtual_users = [], virtual_aliases = [], mail_groups = [],
     mail_group_members = [], mailbox_forwards = [], audit_log = [], api_tokens = [], admin_users = [],
     admin_sessions = [], domain_api_keys = [], cloudflare_settings = None, next_id = 1, fs = (\<lambda>p. None),
     entropy = replicate 64 (CHR 0x07), clock = 0, faults = [], outbound = []\<rparr>"

lemma example_collation: "collation_ok example_lib"
proof -
  have key: "\<exists>t. ascii_key (x # xs) = lower_byte x # t" if "x \<noteq> CHR '' ''" for x xs
    using that by (simp add: ascii_key_def TrimRight_def dropWhile_append)
  have "ascii_key (CHR ''@'' # a) \<noteq> ascii_key (c # b)" if "c \<noteq> CHR ''@''" "c \<noteq> CHR '' ''" for a c b
  proof -
    have "lower_byte c \<noteq> CHR ''@''"
      using that(1) by (subst lower_byte_eq_other) (auto simp: is_lower_def is_upper_def)
    moreover have "lower_byte (CHR ''@'') = CHR ''@''"
      by (simp add: lower_byte_def is_upper_def)
    ultimately show ?thesis
      using key [of "CHR ''@''" a] key [OF that(2), of b] by force
  qed
  then show ?thesis by (auto simp: collation_ok_def example_lib_def sql_eq_def)
qed

end
