(* ===== verification/Tables.thy ===== *)
theory Tables
  imports World
begin

text \<open>
  What the SQL statements of the program do to a table. A table is a list of rows; a unique index is the function
  \<open>key\<close> from a row to its indexed columns, under the collation where they are text. The number a
  statement reports is the number of rows it changed, which is what the driver reports as \<open>RowsAffected\<close>
  (the connection does not set \<open>clientFoundRows\<close>, so an \<open>UPDATE\<close> does not count rows that already
  had the new value).
\<close>

definition keyed :: "('r \<Rightarrow> 'k) \<Rightarrow> 'r list \<Rightarrow> bool" where
  "keyed key t \<longleftrightarrow> distinct (map key t)"

definition row_at :: "('r \<Rightarrow> 'k) \<Rightarrow> 'k \<Rightarrow> 'r list \<Rightarrow> 'r option" where
  "row_at key k t = find (\<lambda>r. key r = k) t"

definition insert_row :: "('r \<Rightarrow> 'k) \<Rightarrow> 'r \<Rightarrow> 'r list \<Rightarrow> error + 'r list" where
  "insert_row key r t = (if key r \<in> key ` set t then Inl DuplicateKey else Inr (t @ [r]))"

definition insert_ignore :: "('r \<Rightarrow> 'k) \<Rightarrow> 'r \<Rightarrow> 'r list \<Rightarrow> 'r list" where
  "insert_ignore key r t = (if key r \<in> key ` set t then t else t @ [r])"

definition upsert_row :: "('r \<Rightarrow> 'k) \<Rightarrow> 'r \<Rightarrow> ('r \<Rightarrow> 'r) \<Rightarrow> 'r list \<Rightarrow> 'r list" where
  "upsert_row key r f t =
     (if key r \<in> key ` set t then map (\<lambda>x. if key x = key r then f x else x) t else t @ [r])"

definition delete_rows :: "('r \<Rightarrow> bool) \<Rightarrow> 'r list \<Rightarrow> 'r list" where
  "delete_rows P t = filter (\<lambda>r. \<not> P r) t"

definition update_rows :: "('r \<Rightarrow> bool) \<Rightarrow> ('r \<Rightarrow> 'r) \<Rightarrow> 'r list \<Rightarrow> 'r list" where
  "update_rows P f t = map (\<lambda>r. if P r then f r else r) t"

text \<open>How many rows a \<open>DELETE\<close> and an \<open>UPDATE\<close> report.\<close>

definition count_rows :: "('r \<Rightarrow> bool) \<Rightarrow> 'r list \<Rightarrow> nat" where
  "count_rows P t = length (filter P t)"

definition changed_rows :: "('r \<Rightarrow> bool) \<Rightarrow> ('r \<Rightarrow> 'r) \<Rightarrow> 'r list \<Rightarrow> nat" where
  "changed_rows P f t = count_rows (\<lambda>r. P r \<and> f r \<noteq> r) t"

section \<open>Unique indexes\<close>

lemma keyed_Nil [simp]: "keyed key []"
  by (simp add: keyed_def)

lemma keyed_insert_row [intro]: "keyed key t \<Longrightarrow> insert_row key r t = Inr t' \<Longrightarrow> keyed key t'"
  by (auto simp: keyed_def insert_row_def split: if_splits)

lemma keyed_insert_ignore [intro]: "keyed key t \<Longrightarrow> keyed key (insert_ignore key r t)"
  by (auto simp: keyed_def insert_ignore_def)

lemma keyed_delete_rows [intro]: "keyed key t \<Longrightarrow> keyed key (delete_rows P t)"
  by (simp add: keyed_def delete_rows_def distinct_map_filter)

lemma map_update_rows:
  "(\<And>r. r \<in> set t \<Longrightarrow> P r \<Longrightarrow> g (f r) = g r) \<Longrightarrow> map g (update_rows P f t) = map g t"
  by (induction t) (auto simp: update_rows_def)

lemma keyed_update_rows [intro]:
  "keyed key t \<Longrightarrow> (\<And>r. r \<in> set t \<Longrightarrow> P r \<Longrightarrow> key (f r) = key r) \<Longrightarrow> keyed key (update_rows P f t)"
  unfolding keyed_def by (subst map_update_rows) auto

lemma upsert_row_old: "key r \<in> key ` set t \<Longrightarrow> upsert_row key r f t = update_rows (\<lambda>x. key x = key r) f t"
  by (simp add: upsert_row_def update_rows_def)

lemma upsert_row_new: "key r \<notin> key ` set t \<Longrightarrow> upsert_row key r f t = t @ [r]"
  by (simp add: upsert_row_def)

lemma keyed_upsert_row [intro]:
  assumes "keyed key t" and "\<And>x. key (f x) = key x"
  shows "keyed key (upsert_row key r f t)"
proof (cases "key r \<in> key ` set t")
  case True
  with assms show ?thesis by (auto simp: upsert_row_old)
next
  case False
  with assms show ?thesis by (simp add: upsert_row_new keyed_def)
qed

text \<open>A second unique index, whose value the upsert sets to that of the new row.\<close>

lemma keyed_upsert_row_other:
  assumes "keyed key t" and "keyed key2 t" and f: "\<And>x. key2 (f x) = key2 r"
    and new: "\<And>x. x \<in> set t \<Longrightarrow> key x \<noteq> key r \<Longrightarrow> key2 x \<noteq> key2 r"
  shows "keyed key2 (upsert_row key r f t)"
proof (cases "key r \<in> key ` set t")
  case True
  have "distinct t" and inj: "inj_on key (set t)" "inj_on key2 (set t)"
    using assms(1,2) by (auto simp: keyed_def distinct_map)
  have "inj_on (\<lambda>x. key2 (if key x = key r then f x else x)) (set t)"
  proof (rule inj_onI)
    fix x y assume xy: "x \<in> set t" "y \<in> set t"
      and eq: "key2 (if key x = key r then f x else x) = key2 (if key y = key r then f y else y)"
    show "x = y"
    proof (cases "key x = key y")
      case False
      with eq new [OF xy(1)] new [OF xy(2)] f have "key2 x = key2 y" by (metis (full_types))
      with inj(2) xy show ?thesis by (auto dest: inj_onD)
    qed (use inj(1) xy in \<open>auto dest: inj_onD\<close>)
  qed
  with \<open>distinct t\<close> True show ?thesis by (simp add: keyed_def upsert_row_def distinct_map comp_def inj_on_def)
next
  case False
  then have "key2 r \<notin> key2 ` set t" using new by (metis (no_types, lifting) imageE image_eqI)
  with False assms(2) show ?thesis by (simp add: upsert_row_new keyed_def)
qed

lemma set_delete_rows [simp]: "set (delete_rows P t) = {r \<in> set t. \<not> P r}"
  by (auto simp: delete_rows_def)

lemma set_update_rows: "set (update_rows P f t) = (\<lambda>r. if P r then f r else r) ` set t"
  by (simp add: update_rows_def)

lemma set_insert_row: "insert_row key r t = Inr t' \<Longrightarrow> set t' = insert r (set t)"
  by (auto simp: insert_row_def split: if_splits)

lemma set_insert_ignore: "set (insert_ignore key r t) \<subseteq> insert r (set t)" "set t \<subseteq> set (insert_ignore key r t)"
  by (auto simp: insert_ignore_def)

lemma set_upsert_row: "x \<in> set (upsert_row key r f t) \<Longrightarrow> x = r \<or> x \<in> set t \<or> (\<exists>y\<in>set t. x = f y \<and> key y = key r)"
  by (auto simp: upsert_row_def split: if_splits)

section \<open>Looking rows up\<close>

lemma row_at_None: "row_at key k t = None \<longleftrightarrow> k \<notin> key ` set t"
  by (auto simp: row_at_def find_None_iff)

lemma row_at_Some: "row_at key k t = Some r \<Longrightarrow> r \<in> set t \<and> key r = k"
  by (auto simp: row_at_def find_Some_iff)

lemma row_at_unique:
  assumes "keyed key t" and "r \<in> set t"
  shows "row_at key (key r) t = Some r"
proof -
  from assms(2) have "row_at key (key r) t \<noteq> None" by (simp add: row_at_None)
  then obtain r' where r': "row_at key (key r) t = Some r'" by blast
  with row_at_Some [OF r'] assms show ?thesis
    by (auto simp: keyed_def distinct_map inj_on_def)
qed

lemma row_at_insert_row:
  assumes "insert_row key r t = Inr t'"
  shows "row_at key k t' = (if k = key r then Some r else row_at key k t)"
proof -
  from assms have t': "t' = t @ [r]" and new: "key r \<notin> key ` set t"
    by (auto simp: insert_row_def split: if_splits)
  have app: "row_at key k (t @ [r]) = (case row_at key k t of None \<Rightarrow> if key r = k then Some r else None | Some x \<Rightarrow> Some x)"
    unfolding row_at_def by (induction t) auto
  show ?thesis
  proof (cases "row_at key k t")
    case (Some x)
    then have "k \<noteq> key r" using new row_at_Some [OF Some] by (metis imageI)
    with Some show ?thesis by (simp add: t' app)
  qed (auto simp: t' app)
qed

lemma row_at_delete_rows:
  assumes "keyed key t"
  shows "row_at key k (delete_rows P t) =
    (case row_at key k t of None \<Rightarrow> None | Some r \<Rightarrow> if P r then None else Some r)"
proof (cases "row_at key k t")
  case None
  then have "row_at key k (delete_rows P t) = None" by (auto simp: row_at_None)
  with None show ?thesis by simp
next
  case (Some r)
  note r = row_at_Some [OF Some]
  show ?thesis
  proof (cases "P r")
    case True
    have "k \<notin> key ` set (delete_rows P t)"
      using assms r True by (auto simp: keyed_def distinct_map inj_on_def)
    with Some True show ?thesis by (simp add: row_at_None)
  next
    case False
    then have "r \<in> set (delete_rows P t)" using r by simp
    with row_at_unique [OF keyed_delete_rows [OF assms], of r P] r Some False show ?thesis by simp
  qed
qed

lemma row_at_update_rows:
  assumes "\<And>r. key (f r) = key r"
  shows "row_at key k (update_rows P f t) =
    map_option (\<lambda>r. if P r then f r else r) (row_at key k t)"
  using assms by (induction t) (auto simp: row_at_def update_rows_def)

lemma changed_rows_zero:
  "changed_rows P f t = 0 \<Longrightarrow> update_rows P f t = t"
  by (auto simp: changed_rows_def count_rows_def update_rows_def filter_empty_conv intro!: map_idI)

lemma count_rows_zero: "count_rows P t = 0 \<longleftrightarrow> (\<forall>r\<in>set t. \<not> P r)"
  by (auto simp: count_rows_def filter_empty_conv)

lemma delete_rows_none: "\<forall>r\<in>set t. \<not> P r \<Longrightarrow> delete_rows P t = t"
  by (simp add: delete_rows_def filter_id_conv)

text \<open>In a table with a unique index a condition on the index selects at most one row.\<close>

lemma count_rows_key:
  assumes "keyed key t"
  shows "count_rows (\<lambda>r. key r = k) t = (if k \<in> key ` set t then 1 else 0)"
  using assms by (induction t) (auto simp: count_rows_def keyed_def filter_empty_conv)

end
