(* ===== verification/RE2_Regexp.thy ===== *)
theory RE2_Regexp
  imports Go_Prelude
begin

text \<open>
  The fragment of Go's package \<open>regexp\<close> the source uses: byte classes, sequence, alternation,
  star and counted repetition, matched against the whole string (every pattern of the source
  is anchored with \<open>^\<close> and \<open>$\<close>; without the flag \<open>m\<close>, \<open>$\<close> is the end of the text). The relation
  \<open>matches\<close> says which strings a pattern denotes; \<open>MatchString\<close> is an executable matcher by
  derivatives, and \<open>MatchString_iff\<close> shows that it decides \<open>matches\<close>.
\<close>

datatype regex =
    Zero
  | One
  | Cls "(char \<times> char) list"
  | Seq regex regex
  | Alt regex regex
  | Star regex
  | Rep regex nat nat

definition in_class :: "char \<Rightarrow> (char \<times> char) list \<Rightarrow> bool" where
  "in_class c rs \<longleftrightarrow> list_ex (\<lambda>(lo, hi). byte lo \<le> byte c \<and> byte c \<le> byte hi) rs"

definition Lit :: "char \<Rightarrow> regex" where
  "Lit c = Cls [(c, c)]"

definition Plus :: "regex \<Rightarrow> regex" where
  "Plus r = Seq r (Star r)"

definition Opt :: "regex \<Rightarrow> regex" where
  "Opt r = Alt One r"

definition AtLeast :: "regex \<Rightarrow> nat \<Rightarrow> regex" where
  "AtLeast r n = Seq (Rep r n n) (Star r)"

inductive matches :: "regex \<Rightarrow> string \<Rightarrow> bool" where
  One: "matches One []"
| Cls: "in_class c rs \<Longrightarrow> matches (Cls rs) [c]"
| Seq: "matches r s \<Longrightarrow> matches q t \<Longrightarrow> matches (Seq r q) (s @ t)"
| AltL: "matches r s \<Longrightarrow> matches (Alt r q) s"
| AltR: "matches q s \<Longrightarrow> matches (Alt r q) s"
| Star0: "matches (Star r) []"
| Star1: "matches r s \<Longrightarrow> matches (Star r) t \<Longrightarrow> matches (Star r) (s @ t)"
| Rep0: "matches (Rep r 0 n) []"
| Rep1: "matches r s \<Longrightarrow> matches (Rep r (m - 1) n) t \<Longrightarrow> matches (Rep r m (Suc n)) (s @ t)"

inductive_simps matches_Zero [simp]: "matches Zero s"
inductive_simps matches_One [simp]: "matches One s"
inductive_simps matches_Cls [simp]: "matches (Cls rs) s"
inductive_simps matches_Seq: "matches (Seq r q) s"
inductive_simps matches_Alt [simp]: "matches (Alt r q) s"
inductive_cases matches_StarE: "matches (Star r) s"
inductive_cases matches_RepE: "matches (Rep r m n) s"

fun nullable :: "regex \<Rightarrow> bool" where
  "nullable Zero = False"
| "nullable One = True"
| "nullable (Cls rs) = False"
| "nullable (Seq r q) = (nullable r \<and> nullable q)"
| "nullable (Alt r q) = (nullable r \<or> nullable q)"
| "nullable (Star r) = True"
| "nullable (Rep r m n) = (m = 0 \<or> nullable r \<and> m \<le> n)"

text \<open>Derivatives are kept small by constructors that drop \<open>Zero\<close>, \<open>One\<close> and repeated alternatives.\<close>

fun mk_seq :: "regex \<Rightarrow> regex \<Rightarrow> regex" where
  "mk_seq Zero q = Zero"
| "mk_seq One q = q"
| "mk_seq r q = Seq r q"

definition mk_alt :: "regex \<Rightarrow> regex \<Rightarrow> regex" where
  "mk_alt r q = (if r = Zero then q else if q = Zero then r else if r = q then r else Alt r q)"

fun deriv :: "char \<Rightarrow> regex \<Rightarrow> regex" where
  "deriv c Zero = Zero"
| "deriv c One = Zero"
| "deriv c (Cls rs) = (if in_class c rs then One else Zero)"
| "deriv c (Seq r q) =
     (if nullable r then mk_alt (mk_seq (deriv c r) q) (deriv c q) else mk_seq (deriv c r) q)"
| "deriv c (Alt r q) = mk_alt (deriv c r) (deriv c q)"
| "deriv c (Star r) = mk_seq (deriv c r) (Star r)"
| "deriv c (Rep r m n) = (if n = 0 then Zero else mk_seq (deriv c r) (Rep r (m - 1) (n - 1)))"

fun MatchString :: "regex \<Rightarrow> string \<Rightarrow> bool" where
  "MatchString r [] = nullable r"
| "MatchString r (c # s) = MatchString (deriv c r) s"

section \<open>The matcher decides the pattern\<close>

lemma matches_mk_seq [simp]: "matches (mk_seq r q) s \<longleftrightarrow> matches (Seq r q) s"
  by (cases r) (auto simp: matches_Seq)

lemma matches_mk_alt [simp]: "matches (mk_alt r q) s \<longleftrightarrow> matches r s \<or> matches q s"
  by (auto simp: mk_alt_def)

lemma matches_Rep_Nil: "matches (Rep r m n) s \<Longrightarrow> s = [] \<Longrightarrow> m = 0 \<or> matches r [] \<and> m \<le> n"
  by (induction "Rep r m n" s arbitrary: m n rule: matches.induct) auto

lemma matches_Rep_nullable:
  assumes "matches r []" and "m \<le> n"
  shows "matches (Rep r m n) []"
  using assms(2)
proof (induction n arbitrary: m)
  case 0
  then show ?case by (auto intro: matches.Rep0)
next
  case (Suc n)
  then have "matches (Rep r (m - 1) n) []" by simp
  with assms(1) have "matches (Rep r m (Suc n)) ([] @ [])" by (rule matches.Rep1)
  then show ?case by simp
qed

lemma nullable_iff: "nullable r \<longleftrightarrow> matches r []"
proof (induction r)
  case (Star r)
  then show ?case by (auto intro: matches.Star0)
next
  case (Rep r m n)
  then show ?case
    by (auto intro: matches.Rep0 matches_Rep_nullable dest: matches_Rep_Nil)
qed (auto simp: matches_Seq)

lemma matches_Star_Cons:
  "matches (Star r) (c # s) \<longleftrightarrow>
     (\<exists>s1 s2. s = s1 @ s2 \<and> matches r (c # s1) \<and> matches (Star r) s2)" (is "?l \<longleftrightarrow> ?r")
proof
  assume ?l
  then show ?r
  proof (induction "Star r" "c # s" rule: matches.induct)
    case (Star1 u t)
    then show ?case by (cases u) auto
  qed
next
  assume ?r
  then show ?l using matches.Star1 by fastforce
qed

lemma matches_Rep_pad:
  assumes "matches r []" and "matches (Rep r (m - 1) (n - 1)) s" and "0 < n"
  shows "matches (Rep r m n) s"
  using matches.Rep1 [of r "[]" m "n - 1" s] assms by simp

lemma matches_Rep_Cons:
  "matches (Rep r m n) (c # s) \<longleftrightarrow>
     0 < n \<and> (\<exists>s1 s2. s = s1 @ s2 \<and> matches r (c # s1) \<and> matches (Rep r (m - 1) (n - 1)) s2)"
  (is "?l \<longleftrightarrow> ?r")
proof
  assume ?l
  then show ?r
  proof (induction "Rep r m n" "c # s" arbitrary: m n rule: matches.induct)
    case (Rep1 u m n t)
    show ?case
    proof (cases u)
      case Nil
      with Rep1 obtain s1 s2 where s: "s = s1 @ s2" "matches r (c # s1)" "0 < n"
        "matches (Rep r (m - 1 - 1) (n - 1)) s2" by auto
      moreover have "matches (Rep r (m - 1) n) s2"
        using matches_Rep_pad [OF _ s(4) s(3)] Rep1(1) Nil by simp
      ultimately show ?thesis by auto
    next
      case (Cons a v)
      with Rep1 show ?thesis by auto
    qed
  qed
next
  assume r: ?r
  then obtain s1 s2 where "s = s1 @ s2" "matches r (c # s1)" "matches (Rep r (m - 1) (n - 1)) s2"
    by blast
  with r matches.Rep1 [of r "c # s1" m "n - 1" s2] show ?l by simp
qed

lemma matches_Seq_Cons:
  "matches (Seq r q) (c # s) \<longleftrightarrow>
     (\<exists>s1 s2. s = s1 @ s2 \<and> matches r (c # s1) \<and> matches q s2) \<or> matches r [] \<and> matches q (c # s)"
  by (auto simp: matches_Seq Cons_eq_append_conv)

lemma matches_deriv: "matches (deriv c r) s \<longleftrightarrow> matches r (c # s)"
proof (induction r arbitrary: s)
  case (Seq r q)
  have "matches (Seq (deriv c r) q) s \<longleftrightarrow> (\<exists>s1 s2. s = s1 @ s2 \<and> matches r (c # s1) \<and> matches q s2)"
    by (auto simp: matches_Seq Seq)
  then show ?case
    by (simp add: Seq nullable_iff matches_Seq_Cons)
next
  case (Star r)
  then show ?case by (auto simp: matches_Star_Cons matches_Seq)
next
  case (Rep r m n)
  then show ?case by (auto simp: matches_Rep_Cons matches_Seq)
qed auto

lemma MatchString_iff: "MatchString r s \<longleftrightarrow> matches r s"
  by (induction s arbitrary: r) (simp_all add: nullable_iff matches_deriv)

section \<open>What a match says about the bytes of the string\<close>

text \<open>\<open>over P r\<close>: every class of the pattern admits only bytes that satisfy \<open>P\<close>.\<close>

definition class_over :: "(char \<Rightarrow> bool) \<Rightarrow> (char \<times> char) list \<Rightarrow> bool" where
  "class_over P rs \<longleftrightarrow> (\<forall>c. in_class c rs \<longrightarrow> P c)"

fun over :: "(char \<Rightarrow> bool) \<Rightarrow> regex \<Rightarrow> bool" where
  "over P Zero = True"
| "over P One = True"
| "over P (Cls rs) = class_over P rs"
| "over P (Seq r q) = (over P r \<and> over P q)"
| "over P (Alt r q) = (over P r \<and> over P q)"
| "over P (Star r) = over P r"
| "over P (Rep r m n) = over P r"

lemma matches_over: "matches r s \<Longrightarrow> over P r \<Longrightarrow> \<forall>c\<in>set s. P c"
  by (induction rule: matches.induct) (auto simp: class_over_def)

lemma class_over_cong: "class_over P rs \<Longrightarrow> (\<And>c. P c \<Longrightarrow> Q c) \<Longrightarrow> class_over Q rs"
  by (auto simp: class_over_def)

text \<open>\<open>starts P r\<close>: the pattern denotes only nonempty strings, whose first byte satisfies \<open>P\<close>.\<close>

fun starts :: "(char \<Rightarrow> bool) \<Rightarrow> regex \<Rightarrow> bool" where
  "starts P (Cls rs) = class_over P rs"
| "starts P (Seq r q) = starts P r"
| "starts P (Alt r q) = (starts P r \<and> starts P q)"
| "starts P (Rep r (Suc m) n) = starts P r"
| "starts P Zero = True"
| "starts P _ = False"

lemma matches_starts: "matches r s \<Longrightarrow> starts P r \<Longrightarrow> s \<noteq> [] \<and> P (hd s)"
  by (induction rule: matches.induct) (auto simp: class_over_def elim: starts.elims)

end
