(* ===== verification/Filepath.thy ===== *)
theory Filepath
  imports World
begin

text \<open>
  Packages \<open>path/filepath\<close> and \<open>os\<close>, as far as the source uses them. Paths are strings; \<open>Clean\<close> and
  \<open>Join_path\<close> are the lexical functions of Go on Unix. The file system is the field \<open>fs\<close> of the
  world, a map from clean absolute paths to nodes; permission bits are not modelled, owners are.
  A file-system call can fail like a database statement can, by the field \<open>faults\<close>.
\<close>

section \<open>Paths\<close>

fun clean_comps :: "bool \<Rightarrow> string list \<Rightarrow> string list \<Rightarrow> string list" where
  "clean_comps rooted acc [] = rev acc"
| "clean_comps rooted acc (c # cs) =
     (if c = [] \<or> c = ''.'' then clean_comps rooted acc cs
      else if c = ''..'' then
        (if acc \<noteq> [] \<and> hd acc \<noteq> ''..'' then clean_comps rooted (tl acc) cs
         else if rooted then clean_comps rooted acc cs
         else clean_comps rooted (''..'' # acc) cs)
      else clean_comps rooted (c # acc) cs)"

definition Clean :: "string \<Rightarrow> string" where
  "Clean p =
     (let rooted = HasPrefix p ''/''; cs = clean_comps rooted [] (split_on (CHR ''/'') p) in
      if rooted then ''/'' @ Join cs ''/'' else if cs = [] then ''.'' else Join cs ''/'')"

definition Join_path :: "string list \<Rightarrow> string" where
  "Join_path elems =
     (let es = filter (\<lambda>e. e \<noteq> []) elems in if es = [] then [] else Clean (Join es ''/''))"

text \<open>A name that can stand for one entry of a directory.\<close>

definition safe_comp :: "string \<Rightarrow> bool" where
  "safe_comp c \<longleftrightarrow> c \<noteq> [] \<and> c \<noteq> ''.'' \<and> c \<noteq> ''..'' \<and> CHR ''/'' \<notin> set c"

lemma clean_comps_safe:
  "\<forall>c\<in>set cs. safe_comp c \<Longrightarrow> clean_comps rooted acc cs = rev acc @ cs"
  by (induction cs arbitrary: acc) (auto simp: safe_comp_def)

lemma clean_comps_append_safe:
  "\<forall>c\<in>set cs. safe_comp c \<Longrightarrow> clean_comps rooted acc (cs @ ds) = clean_comps rooted (rev cs @ acc) ds"
  by (induction cs arbitrary: acc) (auto simp: safe_comp_def)

text \<open>Joining safe components below a clean absolute path gives the path one expects.\<close>

lemma Clean_safe:
  assumes "cs \<noteq> []" and "\<forall>c\<in>set cs. safe_comp c"
  shows "Clean (''/'' @ Join cs ''/'') = ''/'' @ Join cs ''/''"
proof -
  have "split_on (CHR ''/'') (Join cs ''/'') = cs"
    using assms by (intro split_on_Join) (auto simp: safe_comp_def)
  then show ?thesis
    using assms by (simp add: Clean_def Let_def clean_comps_safe)
qed

lemma Join_append: "xs \<noteq> [] \<Longrightarrow> ys \<noteq> [] \<Longrightarrow> Join (xs @ ys) sep = Join xs sep @ sep @ Join ys sep"
  by (induction xs sep rule: Join.induct) (auto simp: Join_Cons)

lemma Join_path_safe:
  assumes "cs \<noteq> []" and "\<forall>c\<in>set cs. safe_comp c" and "\<forall>n\<in>set ns. safe_comp n"
  shows "Join_path ((''/'' @ Join cs ''/'') # ns) = ''/'' @ Join (cs @ ns) ''/''"
proof -
  have "filter (\<lambda>e. e \<noteq> []) ((''/'' @ Join cs ''/'') # ns) = (''/'' @ Join cs ''/'') # ns"
    using assms(3) by (auto simp: filter_id_conv safe_comp_def)
  moreover have "Join ((''/'' @ Join cs ''/'') # ns) ''/'' = ''/'' @ Join (cs @ ns) ''/''"
    using assms(1) by (cases ns) (auto simp: Join_append)
  moreover have "Clean (''/'' @ Join (cs @ ns) ''/'') = ''/'' @ Join (cs @ ns) ''/''"
    using assms by (intro Clean_safe) auto
  ultimately show ?thesis by (simp add: Join_path_def)
qed

text \<open>\<open>p\<close> is \<open>d\<close> or lies below it.\<close>

definition below :: "string \<Rightarrow> string \<Rightarrow> bool" where
  "below d p \<longleftrightarrow> p = d \<or> HasPrefix p (d @ ''/'')"

lemma below_refl [simp]: "below d d"
  by (simp add: below_def)

lemma below_trans: "below d p \<Longrightarrow> below p q \<Longrightarrow> below d q"
  by (auto simp: below_def prefix_def)

definition parent_dir :: "string \<Rightarrow> string" where
  "parent_dir p = (case LastIndexByte p (CHR ''/'') of None \<Rightarrow> [] | Some i \<Rightarrow> take i p)"

text \<open>The path and every directory above it.\<close>

definition ancestors :: "string \<Rightarrow> string list" where
  "ancestors p =
     map (\<lambda>i. take i p) (filter (\<lambda>i. 0 < i \<and> (i = length p \<or> p ! i = CHR ''/'')) [0..<Suc (length p)])"

lemma ancestors_self: "p \<noteq> [] \<Longrightarrow> p \<in> set (ancestors p)"
  by (force simp: ancestors_def image_iff)

lemma ancestors_above: "a \<in> set (ancestors p) \<Longrightarrow> below a p"
proof -
  assume "a \<in> set (ancestors p)"
  then obtain i where i: "0 < i" "i \<le> length p" "a = take i p" "i = length p \<or> p ! i = CHR ''/''"
    by (auto simp: ancestors_def simp del: upt_Suc)
  show "below a p"
  proof (cases "i = length p")
    case False
    with i have "p = a @ CHR ''/'' # drop (Suc i) p"
      by (metis id_take_nth_drop le_neq_implies_less)
    then show ?thesis by (metis below_def append_Cons append_Nil append.assoc prefixI)
  qed (use i in simp)
qed

section \<open>File-system calls\<close>

definition FsRead :: "(world \<Rightarrow> error + 'a) \<Rightarrow> 'a op" where
  "FsRead q = (\<lambda>w. if fault w then (Inl FSError, tick w) else (q w, tick w))"

definition FsWrite :: "((string \<Rightarrow> fnode option) \<Rightarrow> error + (string \<Rightarrow> fnode option)) \<Rightarrow> unit op" where
  "FsWrite q = (\<lambda>w. if fault w then (Inl FSError, tick w)
     else (case q (fs w) of Inl e \<Rightarrow> (Inl e, tick w) | Inr f \<Rightarrow> (Inr (), (tick w)\<lparr>fs := f\<rparr>)))"

lemma after_FsRead [wp]:
  "after (FsRead q) Q w = (if fault w then Q (Inl FSError) (tick w) else Q (q w) (tick w))"
  by (simp add: after_def FsRead_def)

lemma after_FsWrite [wp]:
  "after (FsWrite q) Q w = (if fault w then Q (Inl FSError) (tick w)
     else (case q (fs w) of Inl e \<Rightarrow> Q (Inl e) (tick w) | Inr f \<Rightarrow> Q (Inr ()) ((tick w)\<lparr>fs := f\<rparr>)))"
  by (simp add: after_def FsWrite_def split: sum.splits)

definition is_file :: "fnode option \<Rightarrow> bool" where
  "is_file n \<longleftrightarrow> (case n of Some (File u c) \<Rightarrow> True | _ \<Rightarrow> False)"

definition is_dir :: "fnode option \<Rightarrow> bool" where
  "is_dir n \<longleftrightarrow> (case n of Some (Dir u) \<Rightarrow> True | _ \<Rightarrow> False)"

definition mkdir_all :: "string \<Rightarrow> (string \<Rightarrow> fnode option) \<Rightarrow> error + (string \<Rightarrow> fnode option)" where
  "mkdir_all p f = (if list_ex (\<lambda>a. is_file (f a)) (ancestors p) then Inl FSError
     else Inr (\<lambda>q. if q \<in> set (ancestors p) \<and> f q = None then Some (Dir 0) else f q))"

definition MkdirAll :: "string \<Rightarrow> unit op" where
  "MkdirAll p = FsWrite (mkdir_all p)"

definition remove_all :: "string \<Rightarrow> (string \<Rightarrow> fnode option) \<Rightarrow> (string \<Rightarrow> fnode option)" where
  "remove_all p f = (\<lambda>q. if below p q then None else f q)"

definition RemoveAll :: "string \<Rightarrow> unit op" where
  "RemoveAll p = FsWrite (\<lambda>f. Inr (remove_all p f))"

fun set_owner :: "nat \<Rightarrow> fnode \<Rightarrow> fnode" where
  "set_owner u (Dir v) = Dir u"
| "set_owner u (File v c) = File u c"

definition write_file :: "string \<Rightarrow> string \<Rightarrow> (string \<Rightarrow> fnode option) \<Rightarrow> error + (string \<Rightarrow> fnode option)" where
  "write_file p c f = (if \<not> is_dir (f (parent_dir p)) then Inl FSError
     else (case f p of Some (Dir u) \<Rightarrow> Inl FSError
       | Some (File u d) \<Rightarrow> Inr (f(p \<mapsto> File u c))
       | None \<Rightarrow> Inr (f(p \<mapsto> File 0 c))))"

definition WriteFile :: "string \<Rightarrow> string \<Rightarrow> unit op" where
  "WriteFile p c = FsWrite (write_file p c)"

definition ReadFile :: "string \<Rightarrow> string op" where
  "ReadFile p = FsRead (\<lambda>w. case fs w p of Some (File u c) \<Rightarrow> Inr c | _ \<Rightarrow> Inl FSError)"

text \<open>\<open>os.Stat\<close>, reduced to the question whether the file exists.\<close>

definition Exists :: "string \<Rightarrow> bool op" where
  "Exists p = FsRead (\<lambda>w. Inr (fs w p \<noteq> None))"

text \<open>\<open>os.Remove\<close> of a file; the callers ignore the error for a file that does not exist.\<close>

definition RemoveFile :: "string \<Rightarrow> unit op" where
  "RemoveFile p = FsWrite (\<lambda>f. case f p of Some (Dir u) \<Rightarrow> Inl FSError | _ \<Rightarrow> Inr (f(p := None)))"

lemma remove_all_below [simp]: "below p q \<Longrightarrow> remove_all p f q = None"
  by (simp add: remove_all_def)

lemma remove_all_other [simp]: "\<not> below p q \<Longrightarrow> remove_all p f q = f q"
  by (simp add: remove_all_def)

lemma mkdir_all_Inr:
  assumes "mkdir_all p f = Inr g"
  shows "g q = (if q \<in> set (ancestors p) \<and> f q = None then Some (Dir 0) else f q)"
  using assms by (auto simp: mkdir_all_def split: if_splits)

section \<open>What file-system calls leave alone\<close>

text \<open>\<open>node p n w\<close>: the node at \<open>p\<close> is \<open>n\<close>.\<close>

definition node :: "string \<Rightarrow> fnode \<Rightarrow> world \<Rightarrow> bool" where
  "node p n w \<longleftrightarrow> fs w p = Some n"

lemma node_tick [simp]: "node p n (tick w) = node p n w"
  by (simp add: node_def)

lemma node_Query [keeps_ops]: "keeps (node p n) (Query q)"
  by (rule keeps_Query) simp

lemma node_FsRead [keeps_ops]: "keeps (node p n) (FsRead q)"
  by (auto simp: keeps_def wp)

lemma node_ReadFile [keeps_ops]: "keeps (node p n) (ReadFile q)"
  by (simp add: ReadFile_def node_FsRead)

lemma node_Exists [keeps_ops]: "keeps (node p n) (Exists q)"
  by (simp add: Exists_def node_FsRead)

lemma node_MkdirAll [keeps_ops]: "keeps (node p n) (MkdirAll q)"
  by (auto simp: keeps_def wp MkdirAll_def node_def mkdir_all_def split: sum.splits if_splits)

lemma node_WriteFile [keeps_ops]: "p \<noteq> q \<Longrightarrow> keeps (node p n) (WriteFile q c)"
  by (auto simp: keeps_def wp WriteFile_def node_def write_file_def
      split: sum.splits option.splits fnode.splits if_splits)

lemma node_RemoveFile [keeps_ops]: "p \<noteq> q \<Longrightarrow> keeps (node p n) (RemoveFile q)"
  by (auto simp: keeps_def wp RemoveFile_def node_def split: sum.splits option.splits fnode.splits if_splits)

end
