(* ===== verification/Mailbox_Address.thy ===== *)
theory Mailbox_Address
  imports RE2_Regexp Filepath
begin

text \<open>
  Package mailbox, file \<open>mailbox.go\<close>: what counts as a domain, an address, a password and a quota,
  and the directory of a mailbox.
\<close>

section \<open>Patterns\<close>

definition alnum :: "(char \<times> char) list" where
  "alnum = [(CHR ''a'', CHR ''z''), (CHR ''A'', CHR ''Z''), (CHR ''0'', CHR ''9'')]"

definition alpha :: "(char \<times> char) list" where
  "alpha = [(CHR ''a'', CHR ''z''), (CHR ''A'', CHR ''Z'')]"

definition hyphen :: "(char \<times> char)" where
  "hyphen = (CHR ''-'', CHR ''-'')"

text \<open>\<open>([a-zA-Z0-9]([a-zA-Z0-9-]{0,61}[a-zA-Z0-9])?\.)+[a-zA-Z]{2,}\<close>\<close>

definition label_re :: regex where
  "label_re = Seq (Cls alnum) (Opt (Seq (Rep (Cls (alnum @ [hyphen])) 0 61) (Cls alnum)))"

definition domainRe :: regex where
  "domainRe = Seq (Plus (Seq label_re (Lit (CHR ''.'')))) (AtLeast (Cls alpha) 2)"

text \<open>The characters of an atom: letters, digits and \<open>!#$%&'*+=?^_{|}~-\<close>.\<close>

definition atext :: "(char \<times> char) list" where
  "atext = alnum @ map (\<lambda>c. (c, c))
     [CHR ''!'', CHR ''#'', CHR ''$'', CHR ''%'', CHR ''&'', CHR 0x27, CHR ''*'', CHR ''+'',
      CHR ''='', CHR ''?'', CHR ''^'', CHR ''_'', CHR ''{'', CHR ''|'', CHR ''}'', CHR ''~'', CHR ''-'']"

definition localRe :: regex where
  "localRe = Seq (Plus (Cls atext)) (Star (Seq (Lit (CHR ''.'')) (Plus (Cls atext))))"

definition emailRe :: regex where
  "emailRe = Seq localRe (Seq (Lit (CHR ''@'')) domainRe)"

section \<open>Validation\<close>

definition ValidateDomain :: "string \<Rightarrow> error + unit" where
  "ValidateDomain d = (if \<not> MatchString domainRe d
     then Inl (ValidationError (''invalid domain: '' @ d)) else Inr ())"

definition ValidateEmail :: "string \<Rightarrow> error + unit" where
  "ValidateEmail e = (let (local, _, _) = Cut e ''@'' in
     if length e > 254 \<or> length local > 64 \<or> \<not> MatchString emailRe e
     then Inl (ValidationError (''invalid email address: '' @ e)) else Inr ())"

definition SplitEmail :: "string \<Rightarrow> error + string \<times> string" where
  "SplitEmail e = (case ValidateEmail e of Inl err \<Rightarrow> Inl err
     | Inr _ \<Rightarrow> (case LastIndexByte e (CHR ''@'') of
           Some i \<Rightarrow> Inr (take i e, drop (Suc i) e)
         | None \<Rightarrow> Inr ([], e)))"

definition MinPasswordLength :: nat where "MinPasswordLength = 8"
definition MaxPasswordLength :: nat where "MaxPasswordLength = 128"

definition ValidatePassword :: "string \<Rightarrow> error + unit" where
  "ValidatePassword p = (let n = RuneCountInString p in
     if n < MinPasswordLength \<or> n > MaxPasswordLength
     then Inl (ValidationError (''password must be between '' @ nat_itoa MinPasswordLength @ '' and ''
            @ nat_itoa MaxPasswordLength @ '' characters''))
     else Inr ())"

text \<open>\<open>int64\<close> products wrap around, as \<open>i64\<close> says.\<close>

definition ParseQuota :: "lib \<Rightarrow> string \<Rightarrow> error + int" where
  "ParseQuota L q0 =
     (let q1 = TrimSpace q0;
          q = (if q1 = [] then ''1G'' else q1);
          ds = takeWhile is_digit q
      in if ds = [] then Inl (ErrText (''invalid quota: '' @ q @ '' (expected e.g. 500M, 1G)''))
         else (case ParseInt64 ds of
             None \<Rightarrow> Inl (ErrText (''invalid quota: '' @ q))
           | Some num \<Rightarrow>
               (let unit = ToUpper (uni L) (TrimSpace (drop (length ds) q)) in
                if unit = [] \<or> unit = ''B'' then Inr num
                else if unit = ''K'' \<or> unit = ''KB'' then Inr (i64 (num * 1024))
                else if unit = ''M'' \<or> unit = ''MB'' then Inr (i64 (i64 (num * 1024) * 1024))
                else if unit = ''G'' \<or> unit = ''GB''
                  then Inr (i64 (i64 (i64 (num * 1024) * 1024) * 1024))
                else Inl (ErrText (''invalid quota unit: '' @ unit)))))"

definition VmailUID :: nat where "VmailUID = 5000"

definition VmailHome :: string where "VmailHome = ''/var/mail/vhosts''"

definition mailboxDir :: "string \<Rightarrow> string \<Rightarrow> string" where
  "mailboxDir domain local = Join_path [VmailHome, domain, local]"

section \<open>The shape of a valid address\<close>

definition plain_byte :: "char \<Rightarrow> bool" where
  "plain_byte c \<longleftrightarrow> is_ascii c \<and> \<not> is_space c \<and> c \<noteq> CHR ''@'' \<and> c \<noteq> CHR ''/'' \<and> 33 \<le> byte c \<and> byte c < 127"

lemma plain_byte_separators [simp]:
  "\<not> plain_byte (CHR ''/'')" "\<not> plain_byte (CHR ''@'')"
  by (simp_all add: plain_byte_def)

lemma class_over_alnum: "class_over (\<lambda>c. plain_byte c \<and> c \<noteq> CHR ''.'') alnum"
  by (auto simp: class_over_def in_class_def alnum_def plain_byte_def is_ascii_def is_space_def)

lemma class_over_alnum_hyphen: "class_over plain_byte (alnum @ [hyphen])"
  by (auto simp: class_over_def in_class_def alnum_def hyphen_def plain_byte_def is_ascii_def is_space_def)

lemma class_over_alpha: "class_over plain_byte alpha"
  by (auto simp: class_over_def in_class_def alpha_def plain_byte_def is_ascii_def is_space_def)

lemma class_over_dot: "class_over plain_byte [(CHR ''.'', CHR ''.'')]"
proof -
  have "c = CHR ''.''" if "byte (CHR ''.'') \<le> byte c" "byte c \<le> byte (CHR ''.'')" for c
    using that by (metis le_antisym of_char_eq_iff)
  then show ?thesis
    by (force simp: class_over_def in_class_def plain_byte_def is_ascii_def is_space_def)
qed

lemma in_class_map_lit:
  "in_class c (rs @ map (\<lambda>d. (d, d)) cs) \<longleftrightarrow> in_class c rs \<or> c \<in> set cs"
proof -
  have "byte d \<le> byte c \<and> byte c \<le> byte d \<longleftrightarrow> c = d" for d
    by (auto dest: le_antisym)
  then show ?thesis by (auto simp: in_class_def list_ex_iff)
qed

lemma class_over_atext: "class_over (\<lambda>c. plain_byte c \<and> c \<noteq> CHR ''.'') atext"
proof -
  have "plain_byte c \<and> c \<noteq> CHR ''.''" if "in_class c atext" for c
  proof -
    from that consider "in_class c alnum"
      | "c \<in> set [CHR ''!'', CHR ''#'', CHR ''$'', CHR ''%'', CHR ''&'', CHR 0x27, CHR ''*'', CHR ''+'',
      CHR ''='', CHR ''?'', CHR ''^'', CHR ''_'', CHR ''{'', CHR ''|'', CHR ''}'', CHR ''~'', CHR ''-'']"
      unfolding atext_def in_class_map_lit by blast
    then show ?thesis
    proof cases
      case 1
      with class_over_alnum show ?thesis by (auto simp: class_over_def)
    next
      case 2
      then show ?thesis by (auto simp: plain_byte_def is_ascii_def is_space_def)
    qed
  qed
  then show ?thesis by (simp add: class_over_def)
qed

lemma class_over_plain:
  "class_over plain_byte alnum" "class_over plain_byte atext"
  "class_over (\<lambda>c. c \<noteq> CHR ''.'') alnum" "class_over (\<lambda>c. c \<noteq> CHR ''.'') atext"
  using class_over_alnum class_over_atext by (auto simp: class_over_def)

lemmas pattern_defs = emailRe_def localRe_def domainRe_def label_re_def Plus_def Opt_def AtLeast_def
  Lit_def

lemma domainRe_plain: "matches domainRe d \<Longrightarrow> (\<forall>c\<in>set d. plain_byte c) \<and> d \<noteq> [] \<and> hd d \<noteq> CHR ''.''"
  using matches_over [of domainRe d plain_byte] matches_starts [of domainRe d "\<lambda>c. c \<noteq> CHR ''.''"]
  by (simp add: pattern_defs class_over_plain class_over_alnum_hyphen class_over_alpha class_over_dot)

lemma localRe_plain: "matches localRe l \<Longrightarrow> (\<forall>c\<in>set l. plain_byte c) \<and> l \<noteq> [] \<and> hd l \<noteq> CHR ''.''"
  using matches_over [of localRe l plain_byte] matches_starts [of localRe l "\<lambda>c. c \<noteq> CHR ''.''"]
  by (simp add: pattern_defs class_over_plain class_over_dot)

lemma matches_Lit: "matches (Lit c) s \<longleftrightarrow> s = [c]"
proof -
  have "in_class d [(c, c)] \<longleftrightarrow> d = c" for d
    using in_class_map_lit [of d "[]" "[c]"] by (simp add: in_class_def [of d "[]"])
  then show ?thesis by (auto simp: Lit_def)
qed

lemma emailRe_split:
  assumes "matches emailRe e"
  obtains l d where "e = l @ CHR ''@'' # d" "matches localRe l" "matches domainRe d"
  using assms by (auto simp: emailRe_def matches_Seq matches_Lit)

lemma plain_safe_comp:
  "\<forall>c\<in>set s. plain_byte c \<Longrightarrow> s \<noteq> [] \<Longrightarrow> hd s \<noteq> CHR ''.'' \<Longrightarrow> safe_comp s"
  by (auto simp: safe_comp_def)

text \<open>Everything later proofs need of a valid address.\<close>

lemma ValidateEmail_shape:
  assumes "ValidateEmail e = Inr ()"
  obtains l d where "e = l @ CHR ''@'' # d" "SplitEmail e = Inr (l, d)"
    "safe_comp l" "safe_comp d" "\<forall>c\<in>set l. plain_byte c" "\<forall>c\<in>set d. plain_byte c"
    "matches localRe l" "matches domainRe d" "length l \<le> 64" "length e \<le> 254"
proof -
  from assms have m: "matches emailRe e" and len: "length e \<le> 254" "length (fst (Cut e ''@'')) \<le> 64"
    by (auto simp: ValidateEmail_def MatchString_iff split: if_splits prod.splits)
  from m obtain l d where e: "e = l @ CHR ''@'' # d" and l: "matches localRe l" and d: "matches domainRe d"
    by (rule emailRe_split)
  note lp = localRe_plain [OF l] and dp = domainRe_plain [OF d]
  have "CHR ''@'' \<notin> set l" "CHR ''@'' \<notin> set d"
    using lp dp by auto
  then have "fst (Cut e ''@'') = l" "LastIndexByte e (CHR ''@'') = Some (length l)"
    by (simp_all add: e Cut_found LastIndexByte_char)
  with assms have "SplitEmail e = Inr (l, d)"
    by (simp add: SplitEmail_def e)
  with e l d lp dp len \<open>fst (Cut e ''@'') = l\<close> show thesis
    by (intro that [of l d]) (auto intro: plain_safe_comp)
qed

lemma SplitEmail_Inr:
  assumes "SplitEmail e = Inr (l, d)"
  shows "ValidateEmail e = Inr () \<and> e = l @ CHR ''@'' # d \<and> safe_comp l \<and> safe_comp d"
proof -
  from assms have v: "ValidateEmail e = Inr ()"
    by (auto simp: SplitEmail_def split: sum.splits)
  then obtain l' d' where "SplitEmail e = Inr (l', d')" "e = l' @ CHR ''@'' # d'"
    "safe_comp l'" "safe_comp d'" by (rule ValidateEmail_shape)
  with assms v show ?thesis by simp
qed

lemma SplitEmail_validation: "SplitEmail e = Inl err \<Longrightarrow> is_validation err"
  by (auto simp: SplitEmail_def ValidateEmail_def split: if_splits option.splits sum.splits prod.splits)

lemma ValidateEmail_ascii: "ValidateEmail e = Inr () \<Longrightarrow> \<forall>c\<in>set e. is_ascii c \<and> \<not> is_space c"
  by (erule ValidateEmail_shape) (auto simp: plain_byte_def is_ascii_def is_space_def)

lemma SplitEmail_accepts:
  assumes e: "e = l @ ''@'' @ d" and l: "matches localRe l" "length l \<le> 64" and d: "matches domainRe d" and len: "length e \<le> 254"
  shows "SplitEmail e = Inr (l, d)"
proof -
  have at: "CHR ''@'' \<notin> set l" "CHR ''@'' \<notin> set d"
    using localRe_plain [OF l(1)] domainRe_plain [OF d] by auto
  have "matches emailRe e"
    using l(1) d by (auto simp: e emailRe_def matches_Seq matches_Lit)
  with e l(2) len at have "ValidateEmail e = Inr ()"
    by (auto simp: ValidateEmail_def MatchString_iff Cut_found)
  with e at show ?thesis
    by (simp add: SplitEmail_def LastIndexByte_char)
qed

section \<open>Properties\<close>

text \<open>
  C31: An address is accepted exactly when it is a local part of at most 64 bytes, an \<open>@\<close> and a domain,
  at most 254 bytes in all, and \<open>SplitEmail\<close> returns exactly these two parts: the cut at the first
  \<open>@\<close>, the pattern and the split at the last \<open>@\<close> agree on every string.
\<close>

theorem SplitEmail_spec:
  "SplitEmail e = Inr (l, d) \<longleftrightarrow>
     e = l @ ''@'' @ d \<and> matches localRe l \<and> matches domainRe d \<and> length l \<le> 64 \<and> length e \<le> 254"
    (is "?L \<longleftrightarrow> ?R")
proof
  assume ?L
  then have "ValidateEmail e = Inr ()" using SplitEmail_Inr by blast
  then obtain l' d' where "e = l' @ CHR ''@'' # d'" "SplitEmail e = Inr (l', d')"
    "matches localRe l'" "matches domainRe d'" "length l' \<le> 64" "length e \<le> 254"
    by (rule ValidateEmail_shape)
  with \<open>?L\<close> show ?R by simp
next
  show ?L if ?R using that by (auto intro: SplitEmail_accepts)
qed

text \<open>
  C12: The directory of a mailbox with a valid address is exactly
  \<open>/var/mail/vhosts/<domain>/<local part>\<close>: neither part is empty, \<open>.\<close> or \<open>..\<close> or contains a slash,
  so creating and deleting the directory (as root) stays below that mailbox's own place.
\<close>

theorem mailboxDir_confined:
  assumes "SplitEmail e = Inr (local, domain)"
  shows "mailboxDir domain local = VmailHome @ ''/'' @ domain @ ''/'' @ local
     \<and> safe_comp domain \<and> safe_comp local"
proof -
  from SplitEmail_Inr [OF assms] have safe: "safe_comp local" "safe_comp domain" by auto
  let ?cs = "[''var'', ''mail'', ''vhosts'', domain, local]"
  have "\<forall>c\<in>set ?cs. safe_comp c" using safe by (simp add: safe_comp_def)
  then have "Clean (''/'' @ Join ?cs ''/'') = ''/'' @ Join ?cs ''/''"
    by (intro Clean_safe) auto
  then show ?thesis
    using safe by (auto simp: mailboxDir_def Join_path_def VmailHome_def safe_comp_def)
qed

theorem mailboxDir_confined_witness:
  "mailboxDir ''example.com'' ''bob'' = ''/var/mail/vhosts/example.com/bob''"
proof -
  have "SplitEmail ''bob@example.com'' = Inr (''bob'', ''example.com'')" by code_simp
  from mailboxDir_confined [OF this] show ?thesis by (simp add: VmailHome_def)
qed

text \<open>The units an administrator can write and the bytes each stands for.\<close>

definition quota_units :: "(string \<times> nat) list" where
  "quota_units = [([], 1), (''B'', 1), (''K'', 1024), (''KB'', 1024), (''M'', 1048576), (''MB'', 1048576),
     (''G'', 1073741824), (''GB'', 1073741824)]"

lemma ParseQuota_digits:
  assumes "(u, k) \<in> set quota_units" and "int n < 2 ^ 63"
  shows "ParseQuota L (nat_itoa n @ u) = Inr (i64 (int n * int k))"
proof -
  have d: "list_all is_digit (nat_itoa n)" "nat_itoa n \<noteq> []"
    using nat_itoa_digits [of n] by auto
  have digit: "is_ascii c \<and> \<not> is_space c" if "is_digit c" for c
    using that by (auto simp: is_digit_def is_ascii_def is_space_def)
  have u: "\<forall>c\<in>set u. is_ascii c \<and> \<not> is_space c \<and> \<not> is_digit c" "ToUpper (uni L) u = u"
    using assms(1)
    by (auto simp: quota_units_def is_ascii_def is_space_def is_digit_def ToUpper_def upper_byte_def
        is_lower_def)
  have "\<forall>c\<in>set (nat_itoa n @ u). is_ascii c \<and> \<not> is_space c"
    using u d digit by (auto simp: list_all_iff)
  then have t: "TrimSpace (nat_itoa n @ u) = nat_itoa n @ u" "TrimSpace u = u"
    by (auto intro: TrimSpace_no_space)
  have tw: "takeWhile is_digit (nat_itoa n @ u) = nat_itoa n"
    using d u by (cases u) (auto simp: list_all_iff takeWhile_append2)
  have p: "ParseInt64 (nat_itoa n) = Some (int n)"
    using d assms(2) by (simp add: ParseInt64_digits digits_val_nat_itoa)
  have "ParseQuota L (nat_itoa n @ u) =
     (if u = [] \<or> u = ''B'' then Inr (int n)
      else if u = ''K'' \<or> u = ''KB'' then Inr (i64 (int n * 1024))
      else if u = ''M'' \<or> u = ''MB'' then Inr (i64 (i64 (int n * 1024) * 1024))
      else if u = ''G'' \<or> u = ''GB'' then Inr (i64 (i64 (i64 (int n * 1024) * 1024) * 1024))
      else Inl (ErrText (''invalid quota unit: '' @ u)))"
  proof -
    have "(if nat_itoa n @ u = [] then ''1G'' else nat_itoa n @ u) = nat_itoa n @ u"
      using d(2) by (simp only: append_is_Nil_conv if_False simp_thms)
    moreover have "drop (length (nat_itoa n)) (nat_itoa n @ u) = u"
      by simp
    ultimately show ?thesis
      unfolding ParseQuota_def Let_def t(1)
      by (simp only: tw p t(2) u(2) d(2) if_False option.case)
  qed
  also have "\<dots> = Inr (i64 (int n * int k))"
  proof -
    have scaled: "i64 (i64 (m * 1024) * 1024) = i64 (m * 1048576)"
      "i64 (i64 (m * 1048576) * 1024) = i64 (m * 1073741824)" for m
      unfolding i64_mult by (simp_all add: mult.commute)
    show ?thesis
      unfolding scaled using assms
      by (auto simp only: quota_units_def list.set insert_iff empty_iff prod.inject) (simp_all add: i64_id)
  qed
  finally show ?thesis .
qed

text \<open>
  C39: A quota written as a number and a unit is that many bytes, exactly, whenever the product fits an
  \<open>int64\<close>: what an administrator types is what is stored.
\<close>

theorem ParseQuota_exact:
  assumes "(u, k) \<in> set quota_units" and "n * k < 2 ^ 63"
  shows "ParseQuota L (nat_itoa n @ u) = Inr (int (n * k))"
proof -
  have "0 \<le> int n" "int n < 2 ^ 63" and "0 \<le> int (n * k)" "int (n * k) < 2 ^ 63"
    using assms by (auto simp: quota_units_def)
  with ParseQuota_digits [OF assms(1), of n L] show ?thesis
    by (simp del: of_nat_mult add: of_nat_mult [symmetric] i64_id)
qed

theorem ParseQuota_exact_witness:
  "\<forall>L. ParseQuota L ''500M'' = Inr 524288000"
proof
  fix L
  have "nat_itoa 500 = ''500''" by (simp add: itoa_eval)
  with ParseQuota_exact [of "''M''" 1048576 500 L] show "ParseQuota L ''500M'' = Inr 524288000"
    by (simp add: quota_units_def)
qed

text \<open>
  A product that does not fit is not reported: it wraps around. Seventeen thousand petabytes is stored as
  one gibibyte.
\<close>

theorem ParseQuota_wraps: "ParseQuota L ''17179869185G'' = Inr 1073741824"
proof -
  have "nat_itoa 17179869185 = ''17179869185''" by (simp add: itoa_eval)
  with ParseQuota_digits [of "''G''" 1073741824 17179869185 L] show ?thesis
    by (simp add: quota_units_def i64_def)
qed

end
