(* ===== verification/Schema.thy ===== *)
theory Schema
  imports Tables Mailbox_Address
begin

text \<open>
  The tables of \<open>sql/schema\<close> that refer to one another: their unique indexes, their foreign keys with
  \<open>ON DELETE CASCADE\<close>, and what the schema and the program together promise about them (\<open>store_ok\<close>). The statements that
  write to these tables are defined here, the operations of package mailbox are built from them.
\<close>

section \<open>Indexes\<close>

definition dkey :: "lib \<Rightarrow> domain_row \<Rightarrow> string" where "dkey L d = ck L (d_name d)"
definition ukey :: "lib \<Rightarrow> user_row \<Rightarrow> string" where "ukey L u = ck L (u_email u)"
definition akey :: "lib \<Rightarrow> alias_row \<Rightarrow> string \<times> string" where
  "akey L a = (ck L (a_source a), ck L (a_destination a))"
definition gkey :: "lib \<Rightarrow> group_row \<Rightarrow> string" where "gkey L g = ck L (g_email g)"
definition mkey :: "lib \<Rightarrow> member_row \<Rightarrow> nat \<times> string" where "mkey L m = (m_group_id m, ck L (m_member m))"
definition fkey :: "lib \<Rightarrow> forward_row \<Rightarrow> string" where "fkey L f = ck L (f_email f)"
definition hkey :: "lib \<Rightarrow> key_row \<Rightarrow> string" where "hkey L k = ck L (k_key_hash k)"

lemmas key_defs = dkey_def ukey_def akey_def gkey_def mkey_def fkey_def

section \<open>Statements\<close>

type_synonym stmt = "world \<Rightarrow> error + nat \<times> world"

text \<open>A foreign key that has no parent row fails the statement.\<close>

definition domain_ids :: "world \<Rightarrow> nat set" where
  "domain_ids w = d_id ` set (virtual_domains w)"

definition group_ids :: "world \<Rightarrow> nat set" where
  "group_ids w = g_id ` set (mail_groups w)"

definition ins_domain :: "lib \<Rightarrow> string \<Rightarrow> stmt" where
  "ins_domain L name w =
     (if ck L name \<in> dkey L ` set (virtual_domains w) then Inr (0, w)
      else Inr (1, w\<lparr>virtual_domains := virtual_domains w @ [\<lparr>d_id = next_id w, d_name = name\<rparr>],
                     next_id := Suc (next_id w)\<rparr>))"

definition ins_user :: "lib \<Rightarrow> user_row \<Rightarrow> stmt" where
  "ins_user L u w = (case insert_row (ukey L) u (virtual_users w) of
       Inl e \<Rightarrow> Inl e
     | Inr t \<Rightarrow> if u_domain_id u \<in> domain_ids w then Inr (1, w\<lparr>virtual_users := t\<rparr>) else Inl DBError)"

definition upsert_user :: "lib \<Rightarrow> user_row \<Rightarrow> stmt" where
  "upsert_user L u w =
     (if u_domain_id u \<in> domain_ids w then
        Inr (1, w\<lparr>virtual_users := upsert_row (ukey L) u
          (\<lambda>v. v\<lparr>u_password := u_password u, u_quota_bytes := u_quota_bytes u\<rparr>) (virtual_users w)\<rparr>)
      else Inl DBError)"

definition upd_user :: "lib \<Rightarrow> string \<Rightarrow> (user_row \<Rightarrow> user_row) \<Rightarrow> stmt" where
  "upd_user L email f w =
     (let P = (\<lambda>u. ukey L u = ck L email) in
      Inr (changed_rows P f (virtual_users w), w\<lparr>virtual_users := update_rows P f (virtual_users w)\<rparr>))"

text \<open>Deleting users takes their forwarding rules along.\<close>

definition drop_users :: "lib \<Rightarrow> (user_row \<Rightarrow> bool) \<Rightarrow> world \<Rightarrow> world" where
  "drop_users L P w = w\<lparr>virtual_users := delete_rows P (virtual_users w),
     mailbox_forwards := delete_rows (\<lambda>f. \<exists>u\<in>set (virtual_users w). P u \<and> ukey L u = fkey L f) (mailbox_forwards w)\<rparr>"

definition del_user :: "lib \<Rightarrow> string \<Rightarrow> stmt" where
  "del_user L email w = (let P = (\<lambda>u. ukey L u = ck L email) in
     Inr (count_rows P (virtual_users w), drop_users L P w))"

definition ins_alias :: "lib \<Rightarrow> alias_row \<Rightarrow> stmt" where
  "ins_alias L a w = (case insert_row (akey L) a (virtual_aliases w) of
       Inl e \<Rightarrow> Inl e
     | Inr t \<Rightarrow> if a_domain_id a \<in> domain_ids w then Inr (1, w\<lparr>virtual_aliases := t\<rparr>) else Inl DBError)"

text \<open>\<open>INSERT IGNORE\<close> turns a duplicate key and a missing parent into a warning.\<close>

definition ins_alias_ignore :: "lib \<Rightarrow> alias_row \<Rightarrow> stmt" where
  "ins_alias_ignore L a w = (case ins_alias L a w of Inl e \<Rightarrow> Inr (0, w) | Inr r \<Rightarrow> Inr r)"

definition del_aliases :: "(alias_row \<Rightarrow> bool) \<Rightarrow> stmt" where
  "del_aliases P w = Inr (count_rows P (virtual_aliases w), w\<lparr>virtual_aliases := delete_rows P (virtual_aliases w)\<rparr>)"

definition ins_group :: "lib \<Rightarrow> group_row \<Rightarrow> stmt" where
  "ins_group L g w = (case insert_row (gkey L) (g\<lparr>g_id := next_id w\<rparr>) (mail_groups w) of
       Inl e \<Rightarrow> Inl e
     | Inr t \<Rightarrow> if g_domain_id g \<in> domain_ids w
         then Inr (1, w\<lparr>mail_groups := t, next_id := Suc (next_id w)\<rparr>) else Inl DBError)"

definition upd_group :: "nat \<Rightarrow> (group_row \<Rightarrow> group_row) \<Rightarrow> stmt" where
  "upd_group i f w = (let P = (\<lambda>g. g_id g = i) in
     Inr (changed_rows P f (mail_groups w), w\<lparr>mail_groups := update_rows P f (mail_groups w)\<rparr>))"

text \<open>Deleting groups takes their memberships along.\<close>

definition drop_groups :: "(group_row \<Rightarrow> bool) \<Rightarrow> world \<Rightarrow> world" where
  "drop_groups P w = w\<lparr>mail_groups := delete_rows P (mail_groups w),
     mail_group_members := delete_rows (\<lambda>m. \<exists>g\<in>set (mail_groups w). P g \<and> g_id g = m_group_id m) (mail_group_members w)\<rparr>"

definition del_group :: "lib \<Rightarrow> string \<Rightarrow> stmt" where
  "del_group L email w = (let P = (\<lambda>g. gkey L g = ck L email) in
     Inr (count_rows P (mail_groups w), drop_groups P w))"

definition upsert_member :: "lib \<Rightarrow> member_row \<Rightarrow> stmt" where
  "upsert_member L m w =
     (if m_group_id m \<in> group_ids w then
        Inr (1, w\<lparr>mail_group_members := upsert_row (mkey L) m (\<lambda>x. x\<lparr>m_role := m_role m\<rparr>) (mail_group_members w)\<rparr>)
      else Inl DBError)"

definition del_members :: "(member_row \<Rightarrow> bool) \<Rightarrow> stmt" where
  "del_members P w = Inr (count_rows P (mail_group_members w),
     w\<lparr>mail_group_members := delete_rows P (mail_group_members w)\<rparr>)"

definition upd_members :: "(member_row \<Rightarrow> bool) \<Rightarrow> (member_row \<Rightarrow> member_row) \<Rightarrow> stmt" where
  "upd_members P f w = Inr (changed_rows P f (mail_group_members w),
     w\<lparr>mail_group_members := update_rows P f (mail_group_members w)\<rparr>)"

definition upsert_forward :: "lib \<Rightarrow> forward_row \<Rightarrow> stmt" where
  "upsert_forward L f w =
     (if fkey L f \<in> ukey L ` set (virtual_users w) then
        Inr (1, w\<lparr>mailbox_forwards := upsert_row (fkey L) f
          (\<lambda>x. x\<lparr>f_destination := f_destination f, f_keep_copy := f_keep_copy f\<rparr>) (mailbox_forwards w)\<rparr>)
      else Inl DBError)"

definition del_forward :: "lib \<Rightarrow> string \<Rightarrow> stmt" where
  "del_forward L email w = (let P = (\<lambda>f. fkey L f = ck L email) in
     Inr (count_rows P (mailbox_forwards w), w\<lparr>mailbox_forwards := delete_rows P (mailbox_forwards w)\<rparr>))"

text \<open>Deleting a domain takes everything along that belongs to it.\<close>

definition del_domain :: "lib \<Rightarrow> string \<Rightarrow> stmt" where
  "del_domain L name w =
     (let P = (\<lambda>d. dkey L d = ck L name);
          ids = d_id ` {d \<in> set (virtual_domains w). P d};
          w1 = drop_users L (\<lambda>u. u_domain_id u \<in> ids) w;
          w2 = drop_groups (\<lambda>g. g_domain_id g \<in> ids) w1
      in Inr (count_rows P (virtual_domains w),
           w2\<lparr>virtual_aliases := delete_rows (\<lambda>a. a_domain_id a \<in> ids) (virtual_aliases w2),
              domain_api_keys := delete_rows (\<lambda>k. k_domain_id k \<in> ids) (domain_api_keys w2),
              virtual_domains := delete_rows P (virtual_domains w2)\<rparr>))"

text \<open>\<open>INSERT ... ON DUPLICATE KEY UPDATE\<close> of a domain's API key; a key hash of another domain is a duplicate of the second
  unique index.\<close>

definition upsert_key :: "lib \<Rightarrow> key_row \<Rightarrow> stmt" where
  "upsert_key L k w =
     (if k_domain_id k \<notin> domain_ids w then Inl DBError
      else if \<exists>x\<in>set (domain_api_keys w). k_domain_id x \<noteq> k_domain_id k \<and> ck L (k_key_hash x) = ck L (k_key_hash k) then Inl DuplicateKey
      else Inr (1, w\<lparr>domain_api_keys := upsert_row k_domain_id k
             (\<lambda>x. x\<lparr>k_key_hash := k_key_hash k, k_key_hint := k_key_hint k, k_created_at := k_created_at k,
                    k_last_used_at := None\<rparr>) (domain_api_keys w)\<rparr>))"

section \<open>What holds of the tables\<close>

definition unique_ok :: "lib \<Rightarrow> world \<Rightarrow> bool" where
  "unique_ok L w \<longleftrightarrow> keyed (dkey L) (virtual_domains w) \<and> keyed d_id (virtual_domains w)
     \<and> keyed (ukey L) (virtual_users w) \<and> keyed (akey L) (virtual_aliases w)
     \<and> keyed (gkey L) (mail_groups w) \<and> keyed g_id (mail_groups w) \<and> keyed (mkey L) (mail_group_members w)
     \<and> keyed (fkey L) (mailbox_forwards w) \<and> keyed k_domain_id (domain_api_keys w)
     \<and> keyed (hkey L) (domain_api_keys w)
     \<and> (\<forall>i\<in>domain_ids w \<union> group_ids w. i < next_id w)"

definition foreign_ok :: "lib \<Rightarrow> world \<Rightarrow> bool" where
  "foreign_ok L w \<longleftrightarrow> u_domain_id ` set (virtual_users w) \<subseteq> domain_ids w
     \<and> a_domain_id ` set (virtual_aliases w) \<subseteq> domain_ids w
     \<and> g_domain_id ` set (mail_groups w) \<subseteq> domain_ids w
     \<and> m_group_id ` set (mail_group_members w) \<subseteq> group_ids w
     \<and> fkey L ` set (mailbox_forwards w) \<subseteq> ukey L ` set (virtual_users w)
     \<and> k_domain_id ` set (domain_api_keys w) \<subseteq> domain_ids w"

text \<open>An accepted address that belongs to a domain: its part after the \<open>@\<close> is the domain's name, up to the collation.\<close>

definition in_domain :: "lib \<Rightarrow> nat \<Rightarrow> string \<Rightarrow> world \<Rightarrow> bool" where
  "in_domain L i e w \<longleftrightarrow> (\<exists>d l n. d \<in> set (virtual_domains w) \<and> d_id d = i \<and> SplitEmail e = Inr (l, n) \<and> dkey L d = ck L n)"

text \<open>
  The program's part: the name of a domain is an accepted name, every mailbox and group has an accepted address in its own domain, and no address is
  a group and a mailbox, or a group and an alias.
\<close>

definition names_ok :: "lib \<Rightarrow> world \<Rightarrow> bool" where
  "names_ok L w \<longleftrightarrow> (\<forall>d\<in>set (virtual_domains w). ValidateDomain (d_name d) = Inr ())
     \<and> (\<forall>u\<in>set (virtual_users w). in_domain L (u_domain_id u) (u_email u) w)
     \<and> (\<forall>g\<in>set (mail_groups w). in_domain L (g_domain_id g) (g_email g) w)
     \<and> (\<forall>g\<in>set (mail_groups w). gkey L g \<notin> ukey L ` set (virtual_users w))
     \<and> (\<forall>g\<in>set (mail_groups w). gkey L g \<notin> (\<lambda>a. ck L (a_source a)) ` set (virtual_aliases w))"

definition store_ok :: "lib \<Rightarrow> world \<Rightarrow> bool" where
  "store_ok L w \<longleftrightarrow> unique_ok L w \<and> foreign_ok L w \<and> names_ok L w"

lemmas store_defs = store_ok_def unique_ok_def foreign_ok_def names_ok_def

text \<open>Only the tables and the supply of identifiers matter.\<close>

lemma store_ok_frame [simp]:
  "domain_ids (tick w) = domain_ids w" "group_ids (tick w) = group_ids w"
  "in_domain L i e (tick w) = in_domain L i e w" "store_ok L (tick w) = store_ok L w"
  "store_ok L (w\<lparr>faults := fl\<rparr>) = store_ok L w" "store_ok L (w\<lparr>clock := t\<rparr>) = store_ok L w"
  "store_ok L (w\<lparr>fs := f\<rparr>) = store_ok L w" "store_ok L (w\<lparr>entropy := b\<rparr>) = store_ok L w"
  "store_ok L (w\<lparr>outbound := cs\<rparr>) = store_ok L w"
  "in_domain L i e (w\<lparr>entropy := b\<rparr>) = in_domain L i e w"
  by (simp_all add: store_defs domain_ids_def group_ids_def in_domain_def)

section \<open>The statements keep it\<close>

lemma in_domain_more_domains:
  "in_domain L i e w \<Longrightarrow> set (virtual_domains w) \<subseteq> set (virtual_domains w') \<Longrightarrow> in_domain L i e w'"
  by (auto simp: in_domain_def)

lemma in_domain_same [simp]:
  "in_domain L i e (w\<lparr>virtual_users := us\<rparr>) = in_domain L i e w"
  "in_domain L i e (w\<lparr>virtual_aliases := as\<rparr>) = in_domain L i e w"
  "in_domain L i e (w\<lparr>mail_groups := gs\<rparr>) = in_domain L i e w"
  "in_domain L i e (w\<lparr>mail_group_members := ms\<rparr>) = in_domain L i e w"
  "in_domain L i e (w\<lparr>mailbox_forwards := fw\<rparr>) = in_domain L i e w"
  "in_domain L i e (w\<lparr>domain_api_keys := ks\<rparr>) = in_domain L i e w"
  "in_domain L i e (w\<lparr>next_id := n\<rparr>) = in_domain L i e w"
  by (simp_all add: in_domain_def)

lemma ids_same [simp]:
  "domain_ids (w\<lparr>virtual_users := us\<rparr>) = domain_ids w" "group_ids (w\<lparr>virtual_users := us\<rparr>) = group_ids w"
  "domain_ids (w\<lparr>virtual_aliases := as\<rparr>) = domain_ids w" "group_ids (w\<lparr>virtual_aliases := as\<rparr>) = group_ids w"
  "domain_ids (w\<lparr>mail_groups := gs\<rparr>) = domain_ids w" "group_ids (w\<lparr>mail_groups := gs\<rparr>) = g_id ` set gs"
  "domain_ids (w\<lparr>mail_group_members := ms\<rparr>) = domain_ids w" "group_ids (w\<lparr>mail_group_members := ms\<rparr>) = group_ids w"
  "domain_ids (w\<lparr>mailbox_forwards := fw\<rparr>) = domain_ids w" "group_ids (w\<lparr>mailbox_forwards := fw\<rparr>) = group_ids w"
  "domain_ids (w\<lparr>domain_api_keys := ks\<rparr>) = domain_ids w" "group_ids (w\<lparr>domain_api_keys := ks\<rparr>) = group_ids w"
  "domain_ids (w\<lparr>next_id := n\<rparr>) = domain_ids w" "group_ids (w\<lparr>next_id := n\<rparr>) = group_ids w"
  "domain_ids (w\<lparr>virtual_domains := ds\<rparr>) = d_id ` set ds" "group_ids (w\<lparr>virtual_domains := ds\<rparr>) = group_ids w"
  by (simp_all add: domain_ids_def group_ids_def)

lemma image_filter_subset: "f ` A \<subseteq> B \<Longrightarrow> f ` {r \<in> A. Q r} \<subseteq> B"
  by auto

lemma not_in_image_filter: "x \<notin> f ` A \<Longrightarrow> x \<notin> f ` {r \<in> A. Q r}"
  by auto

lemma ok_ins_domain:
  assumes "store_ok L w" and "ins_domain L name w = Inr (n, w')" and "ValidateDomain name = Inr ()"
  shows "store_ok L w'"
proof (cases "ck L name \<in> dkey L ` set (virtual_domains w)")
  case False
  let ?d = "\<lparr>d_id = next_id w, d_name = name\<rparr>"
  have w': "w' = w\<lparr>virtual_domains := virtual_domains w @ [?d], next_id := Suc (next_id w)\<rparr>"
    using assms(2) False by (simp add: ins_domain_def)
  have more: "in_domain L i e w \<Longrightarrow> in_domain L i e w'" for i e
    by (erule in_domain_more_domains) (auto simp: w')
  have "next_id w \<notin> d_id ` set (virtual_domains w)"
    using assms(1) by (auto simp: store_ok_def unique_ok_def domain_ids_def)
  with assms(1) False have "unique_ok L w'"
    by (auto simp: store_ok_def unique_ok_def w' keyed_def dkey_def domain_ids_def group_ids_def less_SucI)
  moreover have "foreign_ok L w'"
    using assms(1) by (auto simp: store_ok_def foreign_ok_def w' domain_ids_def group_ids_def)
  moreover have "names_ok L w'"
    using assms(1,3) more by (auto simp: store_ok_def names_ok_def w' more)
  ultimately show ?thesis by (simp add: store_ok_def)
qed (use assms in \<open>simp add: ins_domain_def\<close>)

lemma ok_ins_user:
  assumes "store_ok L w" and "ins_user L u w = Inr (n, w')"
    and "in_domain L (u_domain_id u) (u_email u) w" and "ukey L u \<notin> gkey L ` set (mail_groups w)"
  shows "store_ok L w'"
proof -
  from assms(2) obtain t where t: "insert_row (ukey L) u (virtual_users w) = Inr t"
    and w': "w' = w\<lparr>virtual_users := t\<rparr>" and dom: "u_domain_id u \<in> domain_ids w"
    by (auto simp: ins_user_def split: sum.splits if_splits)
  have "unique_ok L w'"
    using assms(1) keyed_insert_row [OF _ t] by (auto simp: store_ok_def unique_ok_def w')
  moreover have "foreign_ok L w'"
    using assms(1) dom by (auto simp: store_ok_def foreign_ok_def w' set_insert_row [OF t])
  moreover have "\<forall>g\<in>set (mail_groups w). gkey L g \<noteq> ukey L u" using assms(4) by (metis imageI)
  with assms(1,3) have "names_ok L w'"
    by (auto simp: store_ok_def names_ok_def w' set_insert_row [OF t])
  ultimately show ?thesis by (simp add: store_ok_def)
qed

lemma ok_update_users:
  assumes "store_ok L w" and f: "\<And>u. u_email (f u) = u_email u \<and> u_domain_id (f u) = u_domain_id u"
  shows "store_ok L (w\<lparr>virtual_users := update_rows P f (virtual_users w)\<rparr>)"
proof -
  let ?us = "update_rows P f (virtual_users w)"
  have im: "ukey L ` set ?us = ukey L ` set (virtual_users w)" "u_domain_id ` set ?us = u_domain_id ` set (virtual_users w)"
    using map_update_rows [of "virtual_users w" P "ukey L" f] map_update_rows [of "virtual_users w" P u_domain_id f] f
    by (metis (no_types, lifting) list.set_map ukey_def)+
  have each: "\<forall>u\<in>set ?us. in_domain L (u_domain_id u) (u_email u) w"
    if "\<forall>u\<in>set (virtual_users w). in_domain L (u_domain_id u) (u_email u) w"
    using that f by (auto simp: set_update_rows)
  have "keyed (ukey L) ?us" if "keyed (ukey L) (virtual_users w)"
    using that f by (auto simp: ukey_def)
  with assms(1) each show ?thesis
    by (simp add: store_defs im)
qed

lemma ok_upd_user:
  assumes "store_ok L w" and "upd_user L email f w = Inr (n, w')"
    and "\<And>u. u_email (f u) = u_email u \<and> u_domain_id (f u) = u_domain_id u"
  shows "store_ok L w'"
  using ok_update_users [OF assms(1), of f] assms(2,3) by (auto simp: upd_user_def Let_def)

lemma ok_upsert_user:
  assumes "store_ok L w" and "upsert_user L u w = Inr (n, w')"
    and "in_domain L (u_domain_id u) (u_email u) w" and "ukey L u \<notin> gkey L ` set (mail_groups w)"
  shows "store_ok L w'"
proof (cases "ukey L u \<in> ukey L ` set (virtual_users w)")
  case True
  let ?f = "\<lambda>v. v\<lparr>u_password := u_password u, u_quota_bytes := u_quota_bytes u\<rparr>"
  have "w' = w\<lparr>virtual_users := update_rows (\<lambda>v. ukey L v = ukey L u) ?f (virtual_users w)\<rparr>"
    using assms(2) True by (auto simp: upsert_user_def upsert_row_old split: if_splits)
  then show ?thesis using ok_update_users [OF assms(1), of ?f] by simp
next
  case False
  have "ins_user L u w = Inr (n, w')"
    using assms(2) False by (auto simp: upsert_user_def upsert_row_new ins_user_def insert_row_def split: if_splits)
  with assms ok_ins_user show ?thesis by blast
qed

lemma ok_drop_users:
  assumes "store_ok L w"
  shows "store_ok L (drop_users L P w)"
proof -
  let ?us = "delete_rows P (virtual_users w)"
  have "\<exists>u\<in>set ?us. fkey L f = ukey L u"
    if f: "f \<in> set (mailbox_forwards w)" "\<not> (\<exists>u\<in>set (virtual_users w). P u \<and> ukey L u = fkey L f)" for f
  proof -
    from f(1) assms obtain u where "u \<in> set (virtual_users w)" "fkey L f = ukey L u"
      by (auto simp: store_ok_def foreign_ok_def)
    with f(2) show ?thesis by auto
  qed
  then have "fkey L ` set (mailbox_forwards (drop_users L P w)) \<subseteq> ukey L ` set ?us"
    by (force simp: drop_users_def)
  with assms show ?thesis
    by (auto simp: store_defs drop_users_def)
qed

lemma ok_del_user: "store_ok L w \<Longrightarrow> del_user L email w = Inr (n, w') \<Longrightarrow> store_ok L w'"
  using ok_drop_users by (auto simp: del_user_def Let_def)

lemma ok_ins_alias:
  assumes "store_ok L w" and "ins_alias L a w = Inr (n, w')" and "ck L (a_source a) \<notin> gkey L ` set (mail_groups w)"
  shows "store_ok L w'"
proof -
  from assms(2) obtain t where t: "insert_row (akey L) a (virtual_aliases w) = Inr t"
    and w': "w' = w\<lparr>virtual_aliases := t\<rparr>" and dom: "a_domain_id a \<in> domain_ids w"
    by (auto simp: ins_alias_def split: sum.splits if_splits)
  have "keyed (akey L) t" using assms(1) keyed_insert_row [OF _ t] by (auto simp: store_ok_def unique_ok_def)
  moreover have "\<forall>g\<in>set (mail_groups w). gkey L g \<noteq> ck L (a_source a)" using assms(3) by (metis imageI)
  ultimately show ?thesis
    using assms(1) dom by (simp add: store_defs w' set_insert_row [OF t])
qed

lemma ok_ins_alias_ignore:
  "store_ok L w \<Longrightarrow> ins_alias_ignore L a w = Inr (n, w') \<Longrightarrow> ck L (a_source a) \<notin> gkey L ` set (mail_groups w)
     \<Longrightarrow> store_ok L w'"
  by (auto simp: ins_alias_ignore_def split: sum.splits intro: ok_ins_alias)

lemma ok_del_aliases: "store_ok L w \<Longrightarrow> del_aliases P w = Inr (n, w') \<Longrightarrow> store_ok L w'"
  by (clarsimp simp: del_aliases_def store_defs keyed_delete_rows image_filter_subset not_in_image_filter)

lemma ok_ins_group:
  assumes "store_ok L w" and "ins_group L g w = Inr (n, w')"
    and "in_domain L (g_domain_id g) (g_email g) w"
    and "gkey L g \<notin> ukey L ` set (virtual_users w)"
    and "gkey L g \<notin> (\<lambda>a. ck L (a_source a)) ` set (virtual_aliases w)"
  shows "store_ok L w'"
proof -
  let ?g = "g\<lparr>g_id := next_id w\<rparr>"
  from assms(2) obtain t where t: "insert_row (gkey L) ?g (mail_groups w) = Inr t"
    and w': "w' = w\<lparr>mail_groups := t, next_id := Suc (next_id w)\<rparr>" and dom: "g_domain_id g \<in> domain_ids w"
    by (auto simp: ins_group_def split: sum.splits if_splits)
  have new: "next_id w \<notin> g_id ` set (mail_groups w)"
    using assms(1) by (auto simp: store_ok_def unique_ok_def group_ids_def)
  have "t = mail_groups w @ [?g]" using t by (auto simp: insert_row_def split: if_splits)
  with new assms(1) have "keyed g_id t" by (auto simp: store_ok_def unique_ok_def keyed_def)
  moreover have "keyed (gkey L) t" using assms(1) keyed_insert_row [OF _ t] by (auto simp: store_ok_def unique_ok_def)
  moreover have "gkey L ?g = gkey L g" by (simp add: gkey_def)
  ultimately show ?thesis
    using assms(1,3-5) dom
    by (auto simp: store_defs w' set_insert_row [OF t] less_SucI group_ids_def)
qed

lemma ok_upd_group:
  assumes "store_ok L w" and "upd_group i f w = Inr (n, w')"
    and f: "\<And>g. g_id (f g) = g_id g \<and> g_email (f g) = g_email g \<and> g_domain_id (f g) = g_domain_id g"
  shows "store_ok L w'"
proof -
  let ?P = "\<lambda>g. g_id g = i" and ?gs = "update_rows (\<lambda>g. g_id g = i) f (mail_groups w)"
  have w': "w' = w\<lparr>mail_groups := ?gs\<rparr>" using assms(2) by (simp add: upd_group_def Let_def)
  have k: "gkey L (f g) = gkey L g" for g using f by (simp add: gkey_def)
  have im: "g_id ` set ?gs = g_id ` set (mail_groups w)" "g_domain_id ` set ?gs = g_domain_id ` set (mail_groups w)"
    using map_update_rows [of "mail_groups w" ?P g_id f] map_update_rows [of "mail_groups w" ?P g_domain_id f] f
    by (metis list.set_map)+
  have "keyed (gkey L) ?gs \<and> keyed g_id ?gs"
    using assms(1) k f by (auto simp: store_ok_def unique_ok_def)
  moreover have "\<forall>g\<in>set ?gs. \<exists>h\<in>set (mail_groups w). gkey L g = gkey L h \<and> g_domain_id g = g_domain_id h \<and> g_email g = g_email h"
    using f k by (auto simp: set_update_rows)
  ultimately show ?thesis
    using assms(1) by (simp add: store_defs w' im group_ids_def) metis
qed

lemma ok_drop_groups:
  assumes "store_ok L w"
  shows "store_ok L (drop_groups P w)"
proof -
  let ?gs = "delete_rows P (mail_groups w)"
  have "\<exists>g\<in>set ?gs. m_group_id m = g_id g"
    if m: "m \<in> set (mail_group_members w)" "\<not> (\<exists>g\<in>set (mail_groups w). P g \<and> g_id g = m_group_id m)" for m
  proof -
    from m(1) assms obtain g where "g \<in> set (mail_groups w)" "m_group_id m = g_id g"
      by (auto simp: store_ok_def foreign_ok_def group_ids_def)
    with m(2) show ?thesis by auto
  qed
  then have "m_group_id ` set (mail_group_members (drop_groups P w)) \<subseteq> g_id ` set ?gs"
    by (force simp: drop_groups_def)
  with assms show ?thesis
    by (auto simp: store_defs drop_groups_def group_ids_def)
qed

lemma ok_del_group: "store_ok L w \<Longrightarrow> del_group L email w = Inr (n, w') \<Longrightarrow> store_ok L w'"
  using ok_drop_groups by (auto simp: del_group_def Let_def)

lemma ok_members:
  assumes "store_ok L w" and "keyed (mkey L) ms" and "m_group_id ` set ms \<subseteq> group_ids w"
  shows "store_ok L (w\<lparr>mail_group_members := ms\<rparr>)"
  using assms by (simp add: store_defs)

lemma ok_upsert_member:
  assumes "store_ok L w" and "upsert_member L m w = Inr (n, w')"
  shows "store_ok L w'"
proof -
  let ?f = "\<lambda>x. x\<lparr>m_role := m_role m\<rparr>"
  let ?ms = "upsert_row (mkey L) m ?f (mail_group_members w)"
  have w': "w' = w\<lparr>mail_group_members := ?ms\<rparr>" and g: "m_group_id m \<in> group_ids w"
    using assms(2) by (auto simp: upsert_member_def split: if_splits)
  have "keyed (mkey L) ?ms"
    using assms(1) by (intro keyed_upsert_row) (auto simp: store_ok_def unique_ok_def mkey_def)
  moreover have "m_group_id ` set ?ms \<subseteq> group_ids w"
    using assms(1) g by (auto simp: store_ok_def foreign_ok_def dest!: set_upsert_row)
  ultimately show ?thesis using ok_members [OF assms(1)] by (simp add: w')
qed

lemma ok_del_members: "store_ok L w \<Longrightarrow> del_members P w = Inr (n, w') \<Longrightarrow> store_ok L w'"
  by (clarsimp simp: del_members_def store_defs keyed_delete_rows image_filter_subset)

lemma ok_upd_members:
  assumes "store_ok L w" and "upd_members P f w = Inr (n, w')"
    and f: "\<And>m. m_group_id (f m) = m_group_id m \<and> m_member (f m) = m_member m"
  shows "store_ok L w'"
proof -
  let ?ms = "update_rows P f (mail_group_members w)"
  have "keyed (mkey L) ?ms"
    using assms(1) f by (auto simp: store_ok_def unique_ok_def mkey_def)
  moreover have "m_group_id ` set ?ms \<subseteq> group_ids w"
    using assms(1) f by (auto simp: store_ok_def foreign_ok_def set_update_rows)
  ultimately show ?thesis using ok_members [OF assms(1)] assms(2) by (auto simp: upd_members_def)
qed

lemma ok_upsert_forward:
  assumes "store_ok L w" and "upsert_forward L f w = Inr (n, w')"
  shows "store_ok L w'"
proof -
  let ?g = "\<lambda>x. x\<lparr>f_destination := f_destination f, f_keep_copy := f_keep_copy f\<rparr>"
  let ?fs = "upsert_row (fkey L) f ?g (mailbox_forwards w)"
  have w': "w' = w\<lparr>mailbox_forwards := ?fs\<rparr>" and u: "fkey L f \<in> ukey L ` set (virtual_users w)"
    using assms(2) by (auto simp: upsert_forward_def split: if_splits)
  have "keyed (fkey L) ?fs"
    using assms(1) by (intro keyed_upsert_row) (auto simp: store_ok_def unique_ok_def fkey_def)
  moreover have "fkey L ` set ?fs \<subseteq> ukey L ` set (virtual_users w)"
  proof
    fix k assume "k \<in> fkey L ` set ?fs"
    then obtain x where "x \<in> set ?fs" "k = fkey L x" by auto
    with u have "k \<in> fkey L ` set (mailbox_forwards w) \<or> k \<in> ukey L ` set (virtual_users w)"
      by (auto simp: fkey_def dest!: set_upsert_row)
    then show "k \<in> ukey L ` set (virtual_users w)"
      using assms(1) by (auto simp: store_ok_def foreign_ok_def)
  qed
  ultimately show ?thesis using assms(1) by (simp add: store_defs w')
qed

lemma ok_del_forward: "store_ok L w \<Longrightarrow> del_forward L email w = Inr (n, w') \<Longrightarrow> store_ok L w'"
  by (clarsimp simp: del_forward_def Let_def store_defs keyed_delete_rows image_filter_subset)

lemma ok_drop_domains:
  assumes "store_ok L w"
    and refs: "\<And>d. d \<in> set (virtual_domains w) \<Longrightarrow> P d \<Longrightarrow> d_id d \<notin> u_domain_id ` set (virtual_users w)
      \<and> d_id d \<notin> a_domain_id ` set (virtual_aliases w) \<and> d_id d \<notin> g_domain_id ` set (mail_groups w)
      \<and> d_id d \<notin> k_domain_id ` set (domain_api_keys w)"
  shows "store_ok L (w\<lparr>virtual_domains := delete_rows P (virtual_domains w)\<rparr>)"
proof -
  let ?ds = "delete_rows P (virtual_domains w)" and ?w = "w\<lparr>virtual_domains := delete_rows P (virtual_domains w)\<rparr>"
  have sub: "A \<subseteq> d_id ` set ?ds"
    if "A \<subseteq> domain_ids w" and "\<And>d. d \<in> set (virtual_domains w) \<Longrightarrow> P d \<Longrightarrow> d_id d \<notin> A" for A
    using that by (fastforce simp: domain_ids_def)
  have "foreign_ok L ?w"
    using assms(1) sub [of "u_domain_id ` set (virtual_users w)"] sub [of "a_domain_id ` set (virtual_aliases w)"]
      sub [of "g_domain_id ` set (mail_groups w)"] sub [of "k_domain_id ` set (domain_api_keys w)"] refs
    by (simp add: store_ok_def foreign_ok_def)
  have "unique_ok L ?w"
    using assms(1) by (auto simp: store_ok_def unique_ok_def domain_ids_def group_ids_def)
  have keep: "in_domain L i e ?w"
    if "in_domain L i e w" "\<And>d. d \<in> set (virtual_domains w) \<Longrightarrow> P d \<Longrightarrow> d_id d \<noteq> i" for i e
    using that by (fastforce simp: in_domain_def)
  have us: "\<forall>u\<in>set (virtual_users w). in_domain L (u_domain_id u) (u_email u) w"
    and gs: "\<forall>g\<in>set (mail_groups w). in_domain L (g_domain_id g) (g_email g) w"
    using assms(1) by (simp_all add: store_ok_def names_ok_def)
  have "\<forall>u\<in>set (virtual_users w). in_domain L (u_domain_id u) (u_email u) ?w"
    using us refs by (metis image_eqI keep)
  moreover have "\<forall>g\<in>set (mail_groups w). in_domain L (g_domain_id g) (g_email g) ?w"
    using gs refs by (metis image_eqI keep)
  ultimately show ?thesis
    using assms(1) \<open>foreign_ok L ?w\<close> \<open>unique_ok L ?w\<close> by (simp add: store_ok_def names_ok_def)
qed

lemma ok_del_domain:
  assumes "store_ok L w" and "del_domain L name w = Inr (n, w')"
  shows "store_ok L w'"
proof -
  define P where "P = (\<lambda>d. dkey L d = ck L name)"
  define ids where "ids = d_id ` {d \<in> set (virtual_domains w). P d}"
  let ?w2 = "drop_groups (\<lambda>g. g_domain_id g \<in> ids) (drop_users L (\<lambda>u. u_domain_id u \<in> ids) w)"
  let ?w4 = "?w2\<lparr>virtual_aliases := delete_rows (\<lambda>a. a_domain_id a \<in> ids) (virtual_aliases ?w2),
     domain_api_keys := delete_rows (\<lambda>k. k_domain_id k \<in> ids) (domain_api_keys ?w2)\<rparr>"
  have "store_ok L ?w2" using assms(1) by (intro ok_drop_groups ok_drop_users)
  then have w4: "store_ok L ?w4"
    by (simp add: store_defs keyed_delete_rows image_filter_subset not_in_image_filter)
  have mem: "d_id d \<in> ids" if "d \<in> set (virtual_domains w)" "P d" for d using that by (simp add: ids_def)
  have "store_ok L (?w4\<lparr>virtual_domains := delete_rows P (virtual_domains ?w4)\<rparr>)"
    by (intro ok_drop_domains [OF w4]) (auto simp: drop_groups_def drop_users_def, (metis mem)+)
  moreover have "w' = ?w4\<lparr>virtual_domains := delete_rows P (virtual_domains ?w4)\<rparr>"
    using assms(2) by (simp add: del_domain_def Let_def P_def ids_def)
  ultimately show ?thesis by simp
qed

lemma ok_upsert_key:
  assumes "store_ok L w" and "upsert_key L k w = Inr (n, w')"
  shows "store_ok L w'"
proof -
  let ?f = "\<lambda>x. x\<lparr>k_key_hash := k_key_hash k, k_key_hint := k_key_hint k, k_created_at := k_created_at k,
      k_last_used_at := None\<rparr>"
  let ?ks = "upsert_row k_domain_id k ?f (domain_api_keys w)"
  have w': "w' = w\<lparr>domain_api_keys := ?ks\<rparr>" and d: "k_domain_id k \<in> domain_ids w"
    using assms(2) by (auto simp: upsert_key_def split: if_splits)
  have "keyed k_domain_id ?ks"
    using assms(1) by (intro keyed_upsert_row) (auto simp: store_ok_def unique_ok_def)
  moreover have "k_domain_id ` set ?ks \<subseteq> domain_ids w"
    using assms(1) d by (auto simp: store_ok_def foreign_ok_def dest!: set_upsert_row)
  moreover have "keyed (hkey L) ?ks"
    using assms by (intro keyed_upsert_row_other) (auto simp: store_ok_def unique_ok_def hkey_def upsert_key_def split: if_splits)
  ultimately show ?thesis using assms(1) by (simp add: store_defs w')
qed

lemma ok_update_keys:
  assumes "store_ok L w" and "\<And>k. k_domain_id (f k) = k_domain_id k \<and> k_key_hash (f k) = k_key_hash k"
  shows "store_ok L (w\<lparr>domain_api_keys := update_rows P f (domain_api_keys w)\<rparr>)"
  using assms by (auto simp: store_defs hkey_def set_update_rows image_subset_iff)

lemma ok_delete_keys: "store_ok L w \<Longrightarrow> store_ok L (w\<lparr>domain_api_keys := delete_rows P (domain_api_keys w)\<rparr>)"
  by (simp add: store_defs keyed_delete_rows image_filter_subset)

lemma example_domain: "ValidateDomain ''example.com'' = Inr ()"
  by code_simp

end
