(* ===== verification/Sha512_Crypt.thy ===== *)
theory Sha512_Crypt
  imports World
begin

text \<open>
  Package mailbox, file \<open>sha512crypt.go\<close>: the password hash Dovecot verifies. SHA-512 itself is a
  parameter (\<open>sha512\<close> of the record \<open>lib\<close>); everything around it is written out, loop by loop. A
  word of 24 bits is the number \<open>b2 * 65536 + b1 * 256 + b0\<close>, which is what the shifts and the
  bitwise or of the source compute from three bytes.
\<close>

section \<open>Encoding\<close>

definition cryptAlphabet :: string where
  "cryptAlphabet = ''./0123456789ABCDEFGHIJKLMNOPQRSTUVWXYZabcdefghijklmnopqrstuvwxyz''"

text \<open>The loop of \<open>b64From24\<close>: \<open>n\<close> digits of six bits, the least significant first.\<close>

fun b64_digits :: "nat \<Rightarrow> nat \<Rightarrow> string" where
  "b64_digits w 0 = []"
| "b64_digits w (Suc n) = cryptAlphabet ! (w mod 64) # b64_digits (w div 64) n"

definition b64From24 :: "char \<Rightarrow> char \<Rightarrow> char \<Rightarrow> nat \<Rightarrow> string" where
  "b64From24 b2 b1 b0 n = b64_digits (byte b2 * 65536 + byte b1 * 256 + byte b0) n"

definition order :: "(nat \<times> nat \<times> nat) list" where
  "order =
    [(0, 21, 42), (22, 43, 1), (44, 2, 23), (3, 24, 45), (25, 46, 4), (47, 5, 26), (6, 27, 48),
     (28, 49, 7), (50, 8, 29), (9, 30, 51), (31, 52, 10), (53, 11, 32), (12, 33, 54), (34, 55, 13),
     (56, 14, 35), (15, 36, 57), (37, 58, 16), (59, 17, 38), (18, 39, 60), (40, 61, 19), (62, 20, 41)]"

definition encode_digest :: "string \<Rightarrow> string" where
  "encode_digest c = concat (map (\<lambda>(i, j, k). b64From24 (c ! i) (c ! j) (c ! k) 4) order)
     @ b64From24 (CHR 0x00) (CHR 0x00) (c ! 63) 2"

section \<open>The hash\<close>

text \<open>
  Every turn of the loop takes at least one byte when the digest is not empty; with an empty digest the Go loop
  does not end, so the definition asks for a digest, and \<open>repeatTo_spec\<close> is about any such digest.
\<close>

function repeat_from :: "string \<Rightarrow> string \<Rightarrow> nat \<Rightarrow> string" where
  "repeat_from out digest n =
     (if length out < n \<and> digest \<noteq> [] then repeat_from (out @ take (n - length out) digest) digest n else out)"
  by pat_completeness auto
termination
proof (relation "measure (\<lambda>(out, digest, n). n - length out)")
  fix out digest :: string and n
  assume "length out < n \<and> digest \<noteq> []"
  then obtain d ds where "digest = d # ds" "length out < n" by (cases digest) auto
  then show "((out @ take (n - length out) digest, digest, n), out, digest, n)
      \<in> measure (\<lambda>(out, digest, n). n - length out)" by (auto simp: min_def)
qed simp

declare repeat_from.simps [simp del]

definition repeatTo :: "string \<Rightarrow> nat \<Rightarrow> string" where
  "repeatTo digest n = repeat_from [] digest n"

text \<open>\<open>for i := len(p); i > 0; i -= 64\<close>\<close>

function pad_blocks :: "string \<Rightarrow> nat \<Rightarrow> string" where
  "pad_blocks sumB i = (if i = 0 then [] else if i > 64 then sumB @ pad_blocks sumB (i - 64) else take i sumB)"
  by pat_completeness auto
termination by (relation "measure snd") auto

text \<open>\<open>for i := len(p); i > 0; i >>= 1\<close>\<close>

fun pad_bits :: "string \<Rightarrow> string \<Rightarrow> nat \<Rightarrow> string" where
  "pad_bits sumB p i = (if i = 0 then [] else (if odd i then sumB else p) @ pad_bits sumB p (i div 2))"

declare pad_blocks.simps [simp del] pad_bits.simps [simp del]

definition crypt_round :: "(string \<Rightarrow> string) \<Rightarrow> string \<Rightarrow> string \<Rightarrow> string \<Rightarrow> nat \<Rightarrow> string" where
  "crypt_round h pSeq sSeq c i =
     h ((if odd i then pSeq else c)
        @ (if i mod 3 \<noteq> 0 then sSeq else [])
        @ (if i mod 7 \<noteq> 0 then pSeq else [])
        @ (if odd i then c else pSeq))"

definition crypt_digest :: "(string \<Rightarrow> string) \<Rightarrow> string \<Rightarrow> string \<Rightarrow> nat \<Rightarrow> string" where
  "crypt_digest h p s rounds =
     (let sumB = h (p @ s @ p);
          sumA = h (p @ s @ pad_blocks sumB (length p) @ pad_bits sumB p (length p));
          pSeq = repeatTo (h (concat (replicate (length p) p))) (length p);
          sSeq = repeatTo (h (concat (replicate (16 + byte (sumA ! 0)) s))) (length s)
      in foldl (crypt_round h pSeq sSeq) sumA [0..<rounds])"

definition sha512Crypt :: "lib \<Rightarrow> string \<Rightarrow> string \<Rightarrow> nat \<Rightarrow> string" where
  "sha512Crypt L password salt0 rounds =
     (let salt = take 16 salt0 in
      ''$6$'' @ (if rounds \<noteq> 5000 then ''rounds='' @ nat_itoa rounds @ ''$'' else [])
      @ salt @ ''$'' @ encode_digest (crypt_digest (sha512 L) password salt rounds))"

definition randomSalt :: "string op" where
  "randomSalt = andThen (RandRead 16) (\<lambda>b. Return (map (\<lambda>c. cryptAlphabet ! (byte c mod 64)) b))"

definition hashPassword :: "lib \<Rightarrow> string \<Rightarrow> string op" where
  "hashPassword L password = andThen randomSalt (\<lambda>salt.
     Return (''{SHA512-CRYPT}'' @ sha512Crypt L password salt 5000))"

text \<open>SHA-512 produces 64 bytes.\<close>

definition sha512_ok :: "lib \<Rightarrow> bool" where
  "sha512_ok L \<longleftrightarrow> (\<forall>m. length (sha512 L m) = 64)"

section \<open>Facts\<close>

lemma length_cryptAlphabet: "length cryptAlphabet = 64"
  by (simp add: cryptAlphabet_def)

lemma distinct_cryptAlphabet: "distinct cryptAlphabet"
  by (simp add: cryptAlphabet_def)

lemma length_b64_digits [simp]: "length (b64_digits w n) = n"
  by (induction n arbitrary: w) auto

lemma b64_digits_inj: "b64_digits v n = b64_digits w n \<Longrightarrow> v < 64 ^ n \<Longrightarrow> w < 64 ^ n \<Longrightarrow> v = w"
proof (induction n arbitrary: v w)
  case (Suc n)
  have "v mod 64 = w mod 64"
    using Suc.prems(1) distinct_cryptAlphabet
    by (simp add: nth_eq_iff_index_eq length_cryptAlphabet)
  moreover have "v div 64 = w div 64"
    using Suc.prems by (intro Suc.IH) (auto simp: less_mult_imp_div_less mult.commute)
  ultimately show ?case by (metis div_mult_mod_eq)
qed simp

lemma byte_lt: "byte c < 256"
  by (rule nat_of_char_less_256)

lemma three_bytes:
  fixes a b c a' b' c' :: nat
  assumes "a * 65536 + b * 256 + c = a' * 65536 + b' * 256 + c'"
    and "b < 256" "c < 256" "b' < 256" "c' < 256"
  shows "a = a' \<and> b = b' \<and> c = c'"
proof -
  have digits: "x = x' \<and> y = y'" if "x * 256 + y = x' * 256 + y'" "y < 256" "y' < 256" for x y x' y' :: nat
  proof -
    have "(x * 256 + y) div 256 = x" "(x * 256 + y) mod 256 = y"
      "(x' * 256 + y') div 256 = x'" "(x' * 256 + y') mod 256 = y'"
      using that(2,3) by simp_all
    with that(1) show ?thesis by metis
  qed
  have "(a * 256 + b) * 256 + c = (a' * 256 + b') * 256 + c'" using assms(1) by simp
  then have "a * 256 + b = a' * 256 + b'" "c = c'" using digits assms by blast+
  with digits assms show ?thesis by blast
qed

lemma b64From24_inj:
  assumes "b64From24 a b c 4 = b64From24 a' b' c' 4"
  shows "a = a' \<and> b = b' \<and> c = c'"
proof -
  let ?w = "\<lambda>a b c. byte (a :: char) * 65536 + byte (b :: char) * 256 + byte (c :: char)"
  have small: "byte x \<le> 255" for x using byte_lt [of x] by linarith
  have "?w x y z < 64 ^ 4" for x y z
  proof -
    have "?w x y z \<le> 255 * 65536 + 255 * 256 + 255"
      by (intro add_mono mult_right_mono small) auto
    also have "\<dots> < 64 ^ 4" by simp
    finally show ?thesis .
  qed
  with assms have "?w a b c = ?w a' b' c'"
    unfolding b64From24_def by (blast intro: b64_digits_inj)
  then show ?thesis
    using three_bytes byte_lt by (metis of_char_eq_iff)
qed

lemma b64From24_last_inj: "b64From24 (CHR 0x00) (CHR 0x00) c 2 = b64From24 (CHR 0x00) (CHR 0x00) d 2 \<Longrightarrow> c = d"
proof -
  assume "b64From24 (CHR 0x00) (CHR 0x00) c 2 = b64From24 (CHR 0x00) (CHR 0x00) d 2"
  then have "byte c = byte d"
    using less_trans [OF byte_lt, of 4096]
    by (intro b64_digits_inj [of _ 2]) (auto simp: b64From24_def power2_eq_square)
  then show "c = d" by simp
qed

lemma chunks_eq:
  assumes "concat (map f xs) @ a = concat (map g xs) @ b" and "\<And>x. length (f x) = length (g x)"
  shows "(\<forall>x\<in>set xs. f x = g x) \<and> a = b"
  using assms by (induction xs) (auto simp: append_eq_append_conv)

lemma order_covers: "i < 63 \<Longrightarrow> \<exists>(j, k, l) \<in> set order. i = j \<or> i = k \<or> i = l"
proof -
  have "list_all (\<lambda>i. list_ex (\<lambda>(j, k, l). i = j \<or> i = k \<or> i = l) order) [0..<63]"
    by code_simp
  then show "i < 63 \<Longrightarrow> ?thesis" by (auto simp: list_all_iff list_ex_iff)
qed

lemma repeat_from_spec:
  assumes "d \<noteq> []" and "length out \<le> n"
    and "length out mod length d = 0 \<or> length out = n"
    and "\<forall>i<length out. out ! i = d ! (i mod length d)"
  shows "length (repeat_from out d n) = n \<and> (\<forall>i<n. repeat_from out d n ! i = d ! (i mod length d))"
  using assms
proof (induction out d n rule: repeat_from.induct)
  case (1 out d n)
  show ?case
  proof (cases "length out < n")
    case False
    with 1 show ?thesis by (auto simp: repeat_from.simps [of out d n])
  next
    case True
    let ?out = "out @ take (n - length out) d"
    have aligned: "length out mod length d = 0" using 1 True by auto
    have "?out ! i = d ! (i mod length d)" if "i < length ?out" for i
    proof (cases "i < length out")
      case False
      with that have "i - length out < length d" by auto
      moreover have "(length out + (i - length out)) mod length d = (i - length out) mod length d"
        using aligned by (metis mod_add_left_eq add_0)
      ultimately show ?thesis using False that by (simp add: nth_append)
    qed (use 1 in \<open>auto simp: nth_append\<close>)
    then have ind: "length (repeat_from ?out d n) = n
        \<and> (\<forall>i<n. repeat_from ?out d n ! i = d ! (i mod length d))"
      using 1 True aligned by (intro "1.IH") (auto simp: min_def)
    show ?thesis using True "1.prems"(1) ind by (simp add: repeat_from.simps [of out d n])
  qed
qed

section \<open>Properties\<close>

text \<open>
  The permuted base-64 encoding of the digest loses nothing: two 64-byte digests with the same
  encoding are equal, so Dovecot's comparison of encoded hashes is a comparison of digests. (The
  table \<open>order\<close> reaches every byte of the digest, and the last two characters carry the 64th.)
\<close>

lemma encode_digest_inj:
  assumes "length c = 64" and "length d = 64" and "encode_digest c = encode_digest d"
  shows "c = d"
proof (rule nth_equalityI)
  let ?f = "\<lambda>c (i, j, k). b64From24 (c ! i) (c ! j) (c ! k) 4"
  have len: "length (?f c x) = length (?f d x)" for x
    by (simp add: b64From24_def split: prod.splits)
  have chunks: "(\<forall>x\<in>set order. ?f c x = ?f d x) \<and>
      b64From24 (CHR 0x00) (CHR 0x00) (c ! 63) 2 = b64From24 (CHR 0x00) (CHR 0x00) (d ! 63) 2"
    by (rule chunks_eq [OF assms(3) [unfolded encode_digest_def] len])
  fix i assume "i < length c"
  show "c ! i = d ! i"
  proof (cases "i = 63")
    case True
    with chunks show ?thesis by (auto intro: b64From24_last_inj)
  next
    case False
    with \<open>i < length c\<close> assms(1) obtain j k l where "(j, k, l) \<in> set order" "i = j \<or> i = k \<or> i = l"
      using order_covers [of i] by auto
    with chunks have "b64From24 (c ! j) (c ! k) (c ! l) 4 = b64From24 (d ! j) (d ! k) (d ! l) 4"
      by auto
    from b64From24_inj [OF this] \<open>i = j \<or> i = k \<or> i = l\<close> show ?thesis by auto
  qed
qed (use assms in simp)

text \<open>
  C40: \<open>repeatTo\<close> returns exactly \<open>n\<close> bytes, the digest over and over: byte \<open>i\<close> is byte \<open>i mod 64\<close> of the
  digest. In particular the loop ends.
\<close>

theorem repeatTo_spec:
  assumes "digest \<noteq> []"
  shows "length (repeatTo digest n) = n \<and> (\<forall>i<n. repeatTo digest n ! i = digest ! (i mod length digest))"
  unfolding repeatTo_def using assms by (intro repeat_from_spec) auto

theorem repeatTo_spec_witness: "repeatTo ''abc'' 7 ! 6 = CHR ''a'' \<and> length (repeatTo ''abc'' 7) = 7"
  using repeatTo_spec [of "''abc''" 7] by simp

lemma crypt_digest_length:
  assumes "sha512_ok L"
  shows "length (crypt_digest (sha512 L) p s rounds) = 64"
proof -
  have "length (foldl (crypt_round (sha512 L) a b) c xs) = 64" if "length c = 64" for a b c xs
    using that assms by (induction xs arbitrary: c) (auto simp: crypt_round_def sha512_ok_def)
  with assms show ?thesis by (simp add: crypt_digest_def Let_def sha512_ok_def)
qed

lemma set_b64_digits: "set (b64_digits w n) \<subseteq> set cryptAlphabet"
  by (induction n arbitrary: w) (auto intro!: nth_mem simp: length_cryptAlphabet)

lemma set_encode_digest: "set (encode_digest c) \<subseteq> set cryptAlphabet"
  using set_b64_digits by (fastforce simp: encode_digest_def b64From24_def)

lemma length_encode_digest: "length (encode_digest c) = 86"
  by (simp add: encode_digest_def b64From24_def order_def)

text \<open>
  A password hash has the form Dovecot expects, \<open>{SHA512-CRYPT}$6$salt$digest\<close>, with a 16-character salt
  and an 86-character digest, both over the crypt alphabet (so no \<open>$\<close>, no white space and nothing that would
  break a field apart), whatever bytes the password has. It consumes 16 bytes of entropy, and fails,
  changing nothing, only when there are fewer.
\<close>

theorem hashPassword_format:
  "after (hashPassword L password) (\<lambda>r w'.
     case r of
       Inl e \<Rightarrow> e = RandError \<and> length (entropy w) < 16 \<and> w' = w
     | Inr h \<Rightarrow> (\<exists>salt digest. h = ''{SHA512-CRYPT}$6$'' @ salt @ ''$'' @ digest
           \<and> length salt = 16 \<and> length digest = 86 \<and> set salt \<union> set digest \<subseteq> set cryptAlphabet)
         \<and> w' = w\<lparr>entropy := drop 16 (entropy w)\<rparr>) w"
proof -
  let ?salt = "map (\<lambda>c. cryptAlphabet ! (byte c mod 64)) (take 16 (entropy w))"
  let ?digest = "encode_digest (crypt_digest (sha512 L) password ?salt 5000)"
  have "set ?salt \<union> set ?digest \<subseteq> set cryptAlphabet"
    using set_encode_digest by (auto simp: length_cryptAlphabet intro!: nth_mem)
  moreover have "hashPassword L password w =
     (if length (entropy w) < 16 then (Inl RandError, w)
      else (Inr (''{SHA512-CRYPT}$6$'' @ ?salt @ ''$'' @ ?digest), w\<lparr>entropy := drop 16 (entropy w)\<rparr>))"
    by (simp add: hashPassword_def randomSalt_def andThen_def RandRead_def Return_def sha512Crypt_def Let_def)
  ultimately show ?thesis
    unfolding after_def using length_encode_digest by (auto intro: exI [of _ ?salt])
qed

text \<open>What the callers need to know.\<close>

lemma hashPassword_frame:
  "after (hashPassword L password) (\<lambda>r w'. \<exists>e. w' = w\<lparr>entropy := e\<rparr>) w"
  unfolding hashPassword_def randomSalt_def wp sum.case by (auto intro: exI [of _ "entropy w"])

end
