(* ===== verification/Dnscheck.thy ===== *)
theory Dnscheck
  imports Filepath
begin

text \<open>
  Package dnscheck: reading the DKIM record the server generated, and comparing the DNS records of a
  domain with what the server expects. The resolver is a parameter, the record \<open>dns\<close>; \<open>None\<close> is a
  failed look-up. Flushing the resolver's cache (\<open>flushCache\<close>) is an external command without a result
  and is left out.
\<close>

section \<open>The generated DKIM record\<close>

fun dequote_runes :: "bool \<Rightarrow> (nat \<times> string) list \<Rightarrow> string" where
  "dequote_runes inQuote [] = []"
| "dequote_runes inQuote ((r, bs) # rs) =
     (if r = 34 then dequote_runes (\<not> inQuote) rs
      else if inQuote then encode_rune r @ dequote_runes inQuote rs
      else dequote_runes inQuote rs)"

definition dequoteZoneText :: "string \<Rightarrow> string" where
  "dequoteZoneText t = TrimSpace (dequote_runes False (runes t))"

definition FullDKIMRecordValue :: "string \<Rightarrow> string" where
  "FullDKIMRecordValue t = dequoteZoneText t"

definition key_rune :: "nat \<Rightarrow> bool" where
  "key_rune r \<longleftrightarrow> (65 \<le> r \<and> r \<le> 90) \<or> (97 \<le> r \<and> r \<le> 122) \<or> (48 \<le> r \<and> r \<le> 57)
     \<or> r = 43 \<or> r = 47 \<or> r = 61"

definition normalizeKey :: "string \<Rightarrow> string" where
  "normalizeKey s = concat (map (\<lambda>(r, bs). encode_rune r) (filter (\<lambda>(r, bs). key_rune r) (runes s)))"

definition LocalDKIMKeyFragment :: "string \<Rightarrow> string" where
  "LocalDKIMKeyFragment t = (let full = dequoteZoneText t in
     case Index full ''p='' of None \<Rightarrow> [] | Some idx \<Rightarrow> normalizeKey (drop (idx + 2) full))"

section \<open>Checks\<close>

record dns =
  LookupHost :: "string \<Rightarrow> string list option"
  LookupMX :: "string \<Rightarrow> string list option"
  LookupTXT :: "string \<Rightarrow> string list option"

record check =
  Label :: string
  Expected :: string
  Found :: string
  Pass :: bool

record report =
  r_Domain :: string
  r_MailHost :: string
  r_Checks :: "check list"
  r_AllPass :: bool

abbreviation mk_check :: "string \<Rightarrow> string \<Rightarrow> string \<Rightarrow> bool \<Rightarrow> check" where
  "mk_check l e f p \<equiv> \<lparr>Label = l, Expected = e, Found = f, Pass = p\<rparr>"

definition checkA :: "dns \<Rightarrow> string \<Rightarrow> string \<Rightarrow> check" where
  "checkA R host expectedIP = (case LookupHost R host of
       None \<Rightarrow> mk_check (''A record: '' @ host) expectedIP ''not found'' False
     | Some ips \<Rightarrow>
         if ips = [] then mk_check (''A record: '' @ host) expectedIP ''not found'' False
         else mk_check (''A record: '' @ host) expectedIP (Join ips '', '') (expectedIP \<in> set ips))"

definition checkMX :: "lib \<Rightarrow> dns \<Rightarrow> string \<Rightarrow> string \<Rightarrow> check" where
  "checkMX L R domain expectedHost = (case LookupMX R domain of
       None \<Rightarrow> mk_check ''MX record'' expectedHost ''not found'' False
     | Some mxs \<Rightarrow>
         if mxs = [] then mk_check ''MX record'' expectedHost ''not found'' False
         else (let found = map (\<lambda>h. TrimSuffix h ''.'') mxs in
           mk_check ''MX record'' expectedHost (Join found '', '')
             (list_ex (\<lambda>h. EqualFold (uni L) h expectedHost) found)))"

text \<open>\<open>checkSPF\<close> and \<open>checkDMARC\<close> share their shape: the first TXT record with the prefix is reported.\<close>

definition check_txt :: "dns \<Rightarrow> string \<Rightarrow> string \<Rightarrow> string \<Rightarrow> string \<Rightarrow> check" where
  "check_txt R label expected name pre = (case LookupTXT R name of
       None \<Rightarrow> mk_check label expected ''not found'' False
     | Some txts \<Rightarrow> (case find (\<lambda>t. HasPrefix t pre) txts of
           Some t \<Rightarrow> mk_check label expected t True
         | None \<Rightarrow> mk_check label expected (Join txts '' | '') False))"

definition checkSPF :: "dns \<Rightarrow> string \<Rightarrow> check" where
  "checkSPF R domain = check_txt R ''SPF'' ''v=spf1 ...'' domain ''v=spf1''"

definition checkDMARC :: "dns \<Rightarrow> string \<Rightarrow> check" where
  "checkDMARC R domain = check_txt R ''DMARC'' ''v=DMARC1; ...'' (''_dmarc.'' @ domain) ''v=DMARC1''"

definition checkDKIM :: "dns \<Rightarrow> string \<Rightarrow> string \<Rightarrow> string \<Rightarrow> check" where
  "checkDKIM R domain selector localRecordText =
     (let label = ''DKIM ('' @ selector @ ''._domainkey)'';
          expected = ''matches locally generated key'';
          localKey = LocalDKIMKeyFragment localRecordText
      in if localKey = [] then mk_check label expected ''no local key found'' False
         else (case LookupTXT R (selector @ ''._domainkey.'' @ domain) of
             None \<Rightarrow> mk_check label expected ''not found'' False
           | Some txts \<Rightarrow>
               if txts = [] then mk_check label expected ''not found'' False
               else (let published = normalizeKey (Join txts []);
                         pass = (published \<noteq> [] \<and> Contains published localKey)
                     in mk_check label expected
                          (if pass then ''present, matches this server's key''
                           else ''present, key does not match this server's current key'') pass)))"

definition Analyze :: "lib \<Rightarrow> dns \<Rightarrow> string \<Rightarrow> string \<Rightarrow> string \<Rightarrow> string \<Rightarrow> report" where
  "Analyze L R domain mailHost serverIP dkimRecordText =
     (let checks =
            (if serverIP \<noteq> [] \<and> mailHost \<noteq> [] then [checkA R mailHost serverIP] else [])
            @ (if mailHost \<noteq> [] then [checkMX L R domain mailHost] else [])
            @ [checkSPF R domain, checkDMARC R domain]
            @ (if dkimRecordText \<noteq> [] then [checkDKIM R domain ''mail'' dkimRecordText] else [])
      in \<lparr>r_Domain = domain, r_MailHost = mailHost, r_Checks = checks,
          r_AllPass = (checks \<noteq> [] \<and> list_all Pass checks)\<rparr>)"

section \<open>Facts\<close>

lemma encode_rune_ascii: "is_ascii c \<Longrightarrow> encode_rune (byte c) = [c]"
  by (simp add: encode_rune_def is_ascii_def)

text \<open>What \<open>dequoteZoneText\<close> keeps of an ASCII text: the characters between quotes.\<close>

fun dequote :: "bool \<Rightarrow> string \<Rightarrow> string" where
  "dequote q [] = []"
| "dequote q (c # s) = (if c = CHR 0x22 then dequote (\<not> q) s else if q then c # dequote q s else dequote q s)"

lemma byte_quote: "byte c = 34 \<longleftrightarrow> c = CHR 0x22"
proof -
  have "byte (CHR 0x22) = (34 :: nat)" by simp
  then show ?thesis by (metis of_char_eq_iff)
qed

lemma dequote_runes_ascii: "list_all is_ascii s \<Longrightarrow> dequote_runes q (runes s) = dequote q s"
  by (induction s arbitrary: q) (simp_all add: byte_quote encode_rune_ascii)

lemma dequoteZoneText_ascii: "list_all is_ascii s \<Longrightarrow> dequoteZoneText s = TrimSpace (dequote False s)"
  by (simp add: dequoteZoneText_def dequote_runes_ascii)

lemma dequote_plain [simp]: "CHR 0x22 \<notin> set s \<Longrightarrow> dequote q s = (if q then s else [])"
  by (induction s) auto

lemma dequote_append_plain: "CHR 0x22 \<notin> set a \<Longrightarrow> dequote q (a @ b) = (if q then a else []) @ dequote q b"
  by (induction a) auto

lemma dequote_no_quote: "CHR 0x22 \<notin> set (dequote q s)"
  by (induction s arbitrary: q) auto

lemma set_dequote: "set (dequote q s) \<subseteq> set s"
  by (induction s arbitrary: q) (simp_all add: subset_insertI2)

lemma normalizeKey_ascii:
  "list_all is_ascii s \<Longrightarrow> normalizeKey s = filter (\<lambda>c. key_rune (byte c)) s"
  by (induction s) (auto simp: normalizeKey_def encode_rune_ascii)

section \<open>Properties\<close>

text \<open>
  A report passes as a whole only when every check in it passes, and SPF and DMARC are always among them.
  When the server knows its host name, its address and its DKIM record, passing means: the mail host resolves
  to the server's address, an MX record names the mail host, SPF and DMARC records are published, and the
  published DKIM record contains the server's own (non-empty) key.
\<close>

theorem Analyze_AllPass:
  "r_AllPass (Analyze L R domain (h # mailHost) (i # serverIP) (k # dkim)) \<longleftrightarrow>
     (\<exists>ips. LookupHost R (h # mailHost) = Some ips \<and> i # serverIP \<in> set ips)
   \<and> (\<exists>mxs mx. LookupMX R domain = Some mxs \<and> mx \<in> set mxs
        \<and> EqualFold (uni L) (TrimSuffix mx ''.'') (h # mailHost))
   \<and> (\<exists>txts t. LookupTXT R domain = Some txts \<and> t \<in> set txts \<and> HasPrefix t ''v=spf1'')
   \<and> (\<exists>txts t. LookupTXT R (''_dmarc.'' @ domain) = Some txts \<and> t \<in> set txts \<and> HasPrefix t ''v=DMARC1'')
   \<and> LocalDKIMKeyFragment (k # dkim) \<noteq> []
   \<and> (\<exists>txts. LookupTXT R (''mail._domainkey.'' @ domain) = Some txts
        \<and> Contains (normalizeKey (Join txts [])) (LocalDKIMKeyFragment (k # dkim)))"
proof -
  have A: "Pass (checkA R host ip) \<longleftrightarrow> (\<exists>ips. LookupHost R host = Some ips \<and> ip \<in> set ips)" for host ip
    by (auto simp: checkA_def split: option.splits)
  have MX: "Pass (checkMX L R domain host) \<longleftrightarrow>
      (\<exists>mxs mx. LookupMX R domain = Some mxs \<and> mx \<in> set mxs \<and> EqualFold (uni L) (TrimSuffix mx ''.'') host)" for host
    by (auto simp: checkMX_def Let_def list_ex_iff split: option.splits)
  have T: "Pass (check_txt R l e n p) \<longleftrightarrow>
      (\<exists>txts t. LookupTXT R n = Some txts \<and> t \<in> set txts \<and> HasPrefix t p)" for l e n p
    by (auto simp: check_txt_def find_None_iff find_Some_iff split: option.splits) (metis nth_mem)
  have N: "normalizeKey [] = []" "\<And>s. s \<noteq> [] \<Longrightarrow> \<not> Contains [] s"
    by (auto simp: normalizeKey_def Contains_def)
  have K: "Pass (checkDKIM R domain sel t) \<longleftrightarrow> LocalDKIMKeyFragment t \<noteq> [] \<and>
      (\<exists>txts. LookupTXT R (sel @ ''._domainkey.'' @ domain) = Some txts
        \<and> Contains (normalizeKey (Join txts [])) (LocalDKIMKeyFragment t))" for sel t
    using N by (auto simp: checkDKIM_def Let_def split: option.splits)
  show ?thesis
    by (simp add: Analyze_def A MX K checkSPF_def checkDMARC_def T)
qed

end
