(* ===== verification/Mtasts.thy ===== *)
theory Mtasts
  imports Filepath
begin

text \<open>
  Packages sysinfo and mtasts: the files the installer and the provisioning code leave behind, and the
  hosting of MTA-STS policy files. The resolver and certbot are parameters of the operations that use them;
  a certificate is any value.
\<close>

section \<open>Package sysinfo\<close>

definition DKIMDir :: string where "DKIMDir = ''/var/lib/rspamd/dkim''"
definition Selector :: string where "Selector = ''mail''"
definition StateFile :: string where "StateFile = ''/etc/patrabahok/state.json''"
definition DNSDumpDir :: string where "DNSDumpDir = ''/var/lib/patrabahok/dns-records''"
definition LegacyDNSDumpDir :: string where "LegacyDNSDumpDir = ''/root''"

definition DKIMRecord :: "string \<Rightarrow> string op" where
  "DKIMRecord domain = (let path = Join_path [DKIMDir, domain @ ''.'' @ Selector @ ''.txt''] in
     andThen (Attempt (ReadFile path)) (\<lambda>r. case r of
         Inl e \<Rightarrow> Raise (Wrapped (''no DKIM record found for '' @ domain @ '' (expected '' @ path @ '')'') e)
       | Inr b \<Rightarrow> Return b))"

definition DNSRecords :: "string \<Rightarrow> string op" where
  "DNSRecords domain = (let name = ''patrabahok-dns-'' @ domain @ ''.txt'' in
     andThen (Attempt (ReadFile (Join_path [DNSDumpDir, name]))) (\<lambda>r. case r of
         Inr b \<Rightarrow> Return b
       | Inl _ \<Rightarrow> andThen (Attempt (ReadFile (Join_path [LegacyDNSDumpDir, name]))) (\<lambda>r. case r of
             Inr b \<Rightarrow> Return b
           | Inl _ \<Rightarrow> DKIMRecord domain)))"

text \<open>\<open>installerConfig\<close>: the string-valued entries of the \<open>config\<close> object; none when the file cannot be
  read or parsed.\<close>

definition InstallerState :: "lib \<Rightarrow> string op" where
  "InstallerState L = andThen (Attempt (ReadFile StateFile)) (\<lambda>r. case r of
       Inl e \<Rightarrow> Raise (Wrapped (''read '' @ StateFile) e)
     | Inr b \<Rightarrow> if json_object L b then Return b else Raise (ErrText (''parse '' @ StateFile)))"

definition installerConfig :: "lib \<Rightarrow> (string \<Rightarrow> string option) op" where
  "installerConfig L = andThen (Attempt (InstallerState L)) (\<lambda>r. case r of
       Inl e \<Rightarrow> Return (\<lambda>k. None)
     | Inr b \<Rightarrow> Return (state_json L b))"

definition str_or_empty :: "string option \<Rightarrow> string" where
  "str_or_empty v = (case v of None \<Rightarrow> [] | Some s \<Rightarrow> s)"

section \<open>Policy files\<close>

definition PolicyDir :: string where "PolicyDir = ''/var/lib/patrabahok/mta-sts''"

definition Hostname :: "string \<Rightarrow> string" where
  "Hostname domain = ''mta-sts.'' @ domain"

definition nl :: string where "nl = [CHR 0x0A]"

definition PolicyContent :: "string \<Rightarrow> string" where
  "PolicyContent mailHost = ''version: STSv1'' @ nl @ ''mode: testing'' @ nl @ ''mx: '' @ mailHost @ nl
     @ ''max_age: 604800'' @ nl"

definition PolicyID :: "lib \<Rightarrow> string \<Rightarrow> string" where
  "PolicyID L c = take 16 (hex_encode (sha256 L c))"

definition policyPath :: "string \<Rightarrow> string" where
  "policyPath domain = Join_path [PolicyDir, domain, ''mta-sts.txt'']"

definition WritePolicy :: "lib \<Rightarrow> string \<Rightarrow> string \<Rightarrow> (string \<times> string) op" where
  "WritePolicy L domain mailHost =
     (let c = PolicyContent mailHost; i = PolicyID L c; dir = Join_path [PolicyDir, domain] in
      andThen (Attempt (MkdirAll dir)) (\<lambda>r. case r of
          Inl e \<Rightarrow> Raise (Wrapped (''create '' @ dir) e)
        | Inr _ \<Rightarrow> andThen (Attempt (WriteFile (policyPath domain) c)) (\<lambda>r. case r of
              Inl e \<Rightarrow> Raise (Wrapped (''write policy for '' @ domain) e)
            | Inr _ \<Rightarrow> Return (c, i))))"

text \<open>\<open>os.Stat(p)\<close> without an error.\<close>

definition stat_ok :: "string \<Rightarrow> bool op" where
  "stat_ok p = andThen (Attempt (Exists p)) (\<lambda>r. Return (r = Inr True))"

definition HasPolicy :: "string \<Rightarrow> bool op" where
  "HasPolicy domain = stat_ok (policyPath domain)"

definition certDir :: "string \<Rightarrow> string" where
  "certDir domain = Join_path [''/etc/letsencrypt/live'', Hostname domain]"

definition HasCert :: "string \<Rightarrow> bool op" where
  "HasCert domain = stat_ok (Join_path [certDir domain, ''fullchain.pem''])"

definition Enabled :: "string \<Rightarrow> bool op" where
  "Enabled domain = andThen (HasPolicy domain) (\<lambda>p. if p then HasCert domain else Return False)"

definition StateConfigStrings :: "lib \<Rightarrow> (string \<times> string \<times> string) op" where
  "StateConfigStrings L = andThen (installerConfig L) (\<lambda>cfg.
     Return (str_or_empty (cfg ''hostname''), str_or_empty (cfg ''server_ip''), str_or_empty (cfg ''admin_email'')))"

section \<open>Enabling\<close>

text \<open>
  \<open>checkResolvesTo\<close>: up to four look-ups, the \<open>i\<close>-th answered by \<open>lookup i\<close>; the wait between them and its
  cancellation are not modelled.
\<close>

definition unresolved :: "string \<Rightarrow> string \<Rightarrow> error" where
  "unresolved host expectedIP = ErrText (host @ '' does not resolve yet '' @ dash
     @ '' add an A record for it pointing to '' @ expectedIP @ '', wait for it to propagate, then try again'')"

fun resolve_attempts :: "(nat \<Rightarrow> string \<Rightarrow> string list option) \<Rightarrow> string \<Rightarrow> string \<Rightarrow> nat list \<Rightarrow> error + unit" where
  "resolve_attempts lookup host expectedIP [] = Inl (unresolved host expectedIP)"
| "resolve_attempts lookup host expectedIP (i # is) = (case lookup i host of
       None \<Rightarrow> resolve_attempts lookup host expectedIP is
     | Some ips \<Rightarrow>
         if ips = [] then resolve_attempts lookup host expectedIP is
         else if expectedIP \<in> set ips then Inr ()
         else Inl (ErrText (host @ '' resolves to '' @ Join ips '', '' @ '', not this server ('' @ expectedIP @ '') '' @ dash
                @ '' fix its A record, wait for it to propagate, then try again'')))"

definition checkResolvesTo :: "(nat \<Rightarrow> string \<Rightarrow> string list option) \<Rightarrow> string \<Rightarrow> string \<Rightarrow> error + unit" where
  "checkResolvesTo lookup host expectedIP = resolve_attempts lookup host expectedIP [0..<4]"

text \<open>\<open>certbot email host\<close> is whether \<open>certbot certonly\<close> succeeds, and what it prints.\<close>

definition Enable :: "lib \<Rightarrow> (nat \<Rightarrow> string \<Rightarrow> string list option) \<Rightarrow> (string \<Rightarrow> string \<Rightarrow> bool \<times> string)
    \<Rightarrow> string \<Rightarrow> string op" where
  "Enable L lookup certbot domain =
     andThen (StateConfigStrings L) (\<lambda>(mailHost, serverIP, adminEmail0).
       if mailHost = [] \<or> serverIP = [] then Raise (ErrText (''installer state is missing hostname/server_ip ''
         @ dash @ '' is this a fully installed server?''))
       else (let adminEmail = (if adminEmail0 = [] then ''postmaster@'' @ domain else adminEmail0);
                 host = Hostname domain in
         andThen (Lift (checkResolvesTo lookup host serverIP)) (\<lambda>_.
         andThen (WritePolicy L domain mailHost) (\<lambda>(c, i).
           let (ok, out) = certbot adminEmail host in
           if ok then Return i
           else Raise (ErrText (''certbot failed for '' @ host @ '': '' @ nl @ TrimSpace out))))))"

section \<open>Serving\<close>

definition IsPolicyHost :: "lib \<Rightarrow> string \<Rightarrow> bool" where
  "IsPolicyHost L host \<longleftrightarrow> HasPrefix (ToLower (uni L) host) ''mta-sts.''"

text \<open>The part of a host before the first colon.\<close>

definition strip_port :: "string \<Rightarrow> string" where
  "strip_port host = (case Index host '':'' of None \<Rightarrow> host | Some i \<Rightarrow> take i host)"

text \<open>\<open>Handler\<close> answers a request with the policy file, \<open>Some\<close>, or 404, \<open>None\<close>.\<close>

definition policy_handler :: "lib \<Rightarrow> string \<Rightarrow> string \<Rightarrow> string \<Rightarrow> string option op" where
  "policy_handler L meth host0 path =
     (let host = strip_port (ToLower (uni L) host0) in
      if meth \<noteq> ''GET'' \<and> meth \<noteq> ''HEAD'' then Return None
      else if path \<noteq> ''/.well-known/mta-sts.txt'' \<or> \<not> HasPrefix host ''mta-sts.'' then Return None
      else andThen (Attempt (ReadFile (policyPath (TrimPrefix host ''mta-sts.'')))) (\<lambda>r. case r of
          Inl e \<Rightarrow> Return None
        | Inr data \<Rightarrow> Return (Some data)))"

text \<open>
  \<open>multiCertReloader.GetCertificate\<close>: \<open>mtime p\<close> is the modification time of a file, \<open>load\<close> is
  \<open>tls.LoadX509KeyPair\<close>. The result is the certificate and the new cache.
\<close>

type_synonym 'c cert_cache = "string \<Rightarrow> ('c \<times> int) option"

definition GetCertificate :: "lib \<Rightarrow> (string \<Rightarrow> int option) \<Rightarrow> (string \<Rightarrow> string \<Rightarrow> 'c option)
    \<Rightarrow> 'c cert_cache \<Rightarrow> string \<Rightarrow> 'c option \<times> 'c cert_cache" where
  "GetCertificate L mtime load byKey serverName =
     (let name = ToLower (uni L) (TrimSuffix serverName ''.'') in
      if name = [] \<or> \<not> HasPrefix name ''mta-sts.'' then (None, byKey)
      else (let certPath = certDir (TrimPrefix name ''mta-sts.'');
                fullchain = certPath @ ''/fullchain.pem'';
                keyPath = certPath @ ''/privkey.pem'' in
        case mtime fullchain of
          None \<Rightarrow> (None, byKey)
        | Some t \<Rightarrow>
            (case byKey name of
               Some (cert, t0) \<Rightarrow>
                 if t0 < t then
                   (case load fullchain keyPath of
                      None \<Rightarrow> (Some cert, byKey)
                    | Some c \<Rightarrow> (Some c, byKey(name \<mapsto> (c, t))))
                 else (Some cert, byKey)
             | None \<Rightarrow>
                 (case load fullchain keyPath of
                    None \<Rightarrow> (None, byKey)
                  | Some c \<Rightarrow> (Some c, byKey(name \<mapsto> (c, t)))))))"

section \<open>Facts\<close>

lemma PolicyDir_comps: "PolicyDir = ''/'' @ Join [''var'', ''lib'', ''patrabahok'', ''mta-sts''] ''/''"
  by (simp add: PolicyDir_def)

lemma policyPath_safe:
  assumes "safe_comp d"
  shows "policyPath d = Join_path [PolicyDir, d] @ ''/mta-sts.txt''"
proof -
  let ?cs = "[''var'', ''lib'', ''patrabahok'', ''mta-sts'']"
  have cs: "?cs \<noteq> []" "\<forall>c\<in>set ?cs. safe_comp c" by (simp_all add: safe_comp_def)
  have "policyPath d = ''/'' @ Join (?cs @ [d, ''mta-sts.txt'']) ''/''"
    unfolding policyPath_def PolicyDir_comps
    using assms by (intro Join_path_safe cs) (auto simp: safe_comp_def)
  moreover have "Join_path [PolicyDir, d] = ''/'' @ Join (?cs @ [d]) ''/''"
    unfolding PolicyDir_comps using assms by (intro Join_path_safe cs) auto
  ultimately show ?thesis by simp
qed

lemma parent_dir_snoc:
  assumes "CHR ''/'' \<notin> set b"
  shows "parent_dir (a @ CHR ''/'' # b) = a"
proof -
  have "takeWhile (\<lambda>x. x \<noteq> CHR ''/'') (rev b @ CHR ''/'' # rev a) = rev b"
    using assms by (subst takeWhile_append2) auto
  then show ?thesis by (simp add: parent_dir_def LastIndexByte_def Index_char)
qed

lemma WritePolicy_wp:
  "after (WritePolicy L d h) (\<lambda>r w'. case r of
       Inl e \<Rightarrow> True
     | Inr (c, i) \<Rightarrow> c = PolicyContent h \<and> i = PolicyID L c
         \<and> (\<exists>u. fs w' (policyPath d) = Some (File u c))) w"
  unfolding WritePolicy_def Let_def wp MkdirAll_def WriteFile_def
  by (auto simp: wp write_file_def split: sum.splits option.splits fnode.splits if_splits)

section \<open>Properties\<close>

text \<open>
  A policy that was written is the policy that is served: after \<open>WritePolicy\<close> succeeded for a lower-case domain,
  a \<open>GET\<close> of the policy file on \<open>mta-sts.<domain>\<close>, in any letter case and with or without a port, returns
  exactly the text whose identifier \<open>WritePolicy\<close> returned (unless reading the file fails).
\<close>

theorem policy_served:
  assumes "WritePolicy L d h w = (Inr (c, i), w')" and "\<not> fault w'"
    and "ToLower (uni L) host = Hostname d \<or> ToLower (uni L) host = Hostname d @ '':443''"
    and "CHR '':'' \<notin> set d"
  shows "fst (policy_handler L ''GET'' host ''/.well-known/mta-sts.txt'' w') = Inr (Some c)
     \<and> c = PolicyContent h \<and> i = PolicyID L c"
proof -
  from WritePolicy_wp [of L d h w] assms(1)
  have pol: "c = PolicyContent h" "i = PolicyID L c" "\<exists>u. fs w' (policyPath d) = Some (File u c)"
    by (auto simp: after_def)
  have no_colon: "CHR '':'' \<notin> set (Hostname d)"
    using assms(4) by (simp add: Hostname_def)
  then have "takeWhile (\<lambda>x. x \<noteq> CHR '':'') (Hostname d @ '':443'') = Hostname d"
    by (subst takeWhile_append2) auto
  then have "strip_port (ToLower (uni L) host) = Hostname d"
    using assms(3) no_colon by (auto simp: strip_port_def Index_char)
  then have "fst (policy_handler L ''GET'' host ''/.well-known/mta-sts.txt'' w')
      = fst (andThen (Attempt (ReadFile (policyPath d))) (\<lambda>r. case r of
          Inl e \<Rightarrow> Return None | Inr data \<Rightarrow> Return (Some data)) w')"
    by (simp add: policy_handler_def Let_def Hostname_def TrimPrefix_def)
  also have "\<dots> = Inr (Some c)"
    using pol assms(2) by (auto simp: andThen_def Attempt_def ReadFile_def FsRead_def Return_def)
  finally show ?thesis using pol by simp
qed

text \<open>
  A domain registered with capital letters is the exception: its policy is written below \<open>Example.com\<close>
  and looked for below \<open>example.com\<close>, so it is never served.
\<close>

theorem policy_mixed_case_not_served:
  "let w' = snd (WritePolicy example_lib ''Example.com'' ''mail.example.com'' (empty_world\<lparr>fs := [''/var'' \<mapsto> Dir 0]\<rparr>)) in
   fs w' (policyPath ''Example.com'') \<noteq> None
   \<and> fst (policy_handler example_lib ''GET'' ''mta-sts.Example.com'' ''/.well-known/mta-sts.txt'' w') = Inr None"
  by code_simp

text \<open>Every cached certificate was loaded for the name it is cached under.\<close>

definition own_cert :: "('n \<Rightarrow> 'c \<Rightarrow> bool) \<Rightarrow> ('n \<Rightarrow> ('c \<times> int) option) \<Rightarrow> bool" where
  "own_cert loaded byKey \<longleftrightarrow> (\<forall>n c t. byKey n = Some (c, t) \<longrightarrow> loaded n c)"

theorem policy_served_witness:
  "let w = empty_world\<lparr>fs := [''/var'' \<mapsto> Dir 0]\<rparr>;
       w' = snd (WritePolicy example_lib ''example.com'' ''mail.example.com'' w) in
   fst (policy_handler example_lib ''GET'' ''MTA-STS.example.com:443'' ''/.well-known/mta-sts.txt'' w')
     = Inr (Some (PolicyContent ''mail.example.com''))"
proof -
  let ?w = "empty_world\<lparr>fs := [''/var'' \<mapsto> Dir 0]\<rparr>"
  obtain r w' where run: "WritePolicy example_lib ''example.com'' ''mail.example.com'' ?w = (r, w')" by force
  have ok: "case fst (WritePolicy example_lib ''example.com'' ''mail.example.com'' ?w) of Inl e \<Rightarrow> False | Inr x \<Rightarrow> True"
    by code_simp
  then obtain c i where r: "r = Inr (c, i)" by (auto simp: run split: sum.splits)
  have "\<not> fault (snd (WritePolicy example_lib ''example.com'' ''mail.example.com'' ?w))" by code_simp
  moreover have "ToLower (uni example_lib) ''MTA-STS.example.com:443'' = Hostname ''example.com'' @ '':443''" by code_simp
  ultimately show ?thesis
    using policy_served [OF run [unfolded r], of "''MTA-STS.example.com:443''"] by (simp add: run)
qed

text \<open>
  C27: A certificate handed out for a server name is one that was loaded from that name's own directory, now or earlier: if every cached entry was loaded from its own
  directory, so is the certificate returned, and so are the entries of the new cache. While the file of a policy host is there, a certificate that is newer than the
  cached one is handed out as soon as it can be loaded; and when it cannot be loaded, the last one that was good still is, so that a broken renewal never takes
  down a name that has a certificate in the cache.
\<close>

theorem GetCertificate_own:
  assumes "own_cert loaded byKey"
    and "\<And>d c. load (certDir d @ ''/fullchain.pem'') (certDir d @ ''/privkey.pem'') = Some c \<Longrightarrow> loaded (Hostname d) c"
  shows "let n = ToLower (uni L) (TrimSuffix serverName ''.''); dir = certDir (TrimPrefix n ''mta-sts.'');
       found = load (dir @ ''/fullchain.pem'') (dir @ ''/privkey.pem'');
       r = GetCertificate L mtime load byKey serverName
     in own_cert loaded (snd r) \<and> (\<forall>c. fst r = Some c \<longrightarrow> loaded n c)
      \<and> (\<forall>t. HasPrefix n ''mta-sts.'' \<longrightarrow> mtime (dir @ ''/fullchain.pem'') = Some t \<longrightarrow>
           (\<forall>c. found = Some c \<longrightarrow> (\<forall>c0 t0. byKey n = Some (c0, t0) \<longrightarrow> t0 < t) \<longrightarrow> fst r = Some c)
           \<and> (\<forall>c0 t0. byKey n = Some (c0, t0) \<longrightarrow> found = None \<longrightarrow> fst r = Some c0))"
proof -
  let ?n = "ToLower (uni L) (TrimSuffix serverName ''.'')"
  show ?thesis
  proof (cases "HasPrefix ?n ''mta-sts.''")
    case False
    then show ?thesis using assms(1) by (simp add: GetCertificate_def Let_def)
  next
    case True
    then have host: "Hostname (TrimPrefix ?n ''mta-sts.'') = ?n"
      by (auto simp: Hostname_def TrimPrefix_def elim!: prefixE)
    show ?thesis
      using assms(1) assms(2) [of "TrimPrefix ?n ''mta-sts.''", unfolded host] True
      by (auto simp: GetCertificate_def Let_def own_cert_def split: option.splits if_splits)
  qed
qed

text \<open>
  Every domain has a certificate of its own, here the name of its file. That of \<open>example.com\<close> is loaded; the renewed file of \<open>example.org\<close> cannot be, and the one in
  the cache is handed out.
\<close>

theorem GetCertificate_own_witness:
  "let pem = \<lambda>d. certDir d @ ''/fullchain.pem'';
     load = \<lambda>a b. if a = pem ''example.org'' then None else Some a;
     loaded = \<lambda>n c. c = pem (TrimPrefix n ''mta-sts.'');
     cache = [Hostname ''example.org'' \<mapsto> (pem ''example.org'', 3)];
     com = GetCertificate example_lib (\<lambda>p. Some 5) load cache ''MTA-STS.example.com.'';
     org = GetCertificate example_lib (\<lambda>p. Some 5) load (snd com) ''mta-sts.example.org''
   in fst com = Some (pem ''example.com'') \<and> own_cert loaded (snd com) \<and> snd com (Hostname ''example.com'') = Some (pem ''example.com'', 5)
     \<and> fst org = Some (pem ''example.org'') \<and> own_cert loaded (snd org) \<and> pem ''example.com'' \<noteq> pem ''example.org''"
proof -
  define pem :: "string \<Rightarrow> string" where "pem = (\<lambda>d. certDir d @ ''/fullchain.pem'')"
  define load where "load = (\<lambda>a b :: string. if a = pem ''example.org'' then None else Some a)"
  define loaded where "loaded = (\<lambda>n c. c = pem (TrimPrefix n ''mta-sts.''))"
  define cache where "cache = [Hostname ''example.org'' \<mapsto> (pem ''example.org'', 3 :: int)]"
  define com where "com = GetCertificate example_lib (\<lambda>p. Some 5) load cache ''MTA-STS.example.com.''"
  have own: "own_cert loaded cache"
    by (simp add: own_cert_def cache_def loaded_def Hostname_def TrimPrefix_def)
  have law: "loaded (Hostname d) c" if "load (certDir d @ ''/fullchain.pem'') (certDir d @ ''/privkey.pem'') = Some c" for d c
    using that by (auto simp: load_def loaded_def Hostname_def TrimPrefix_def pem_def split: if_splits)
  have low: "ToLower (uni example_lib) (TrimSuffix ''MTA-STS.example.com.'' ''.'') = ''mta-sts.example.com''"
    "ToLower (uni example_lib) (TrimSuffix ''mta-sts.example.org'' ''.'') = ''mta-sts.example.org''" by code_simp+
  have differ: "pem ''example.com'' \<noteq> pem ''example.org''" unfolding pem_def by code_simp
  note a = GetCertificate_own [of loaded cache load example_lib "''MTA-STS.example.com.''" "\<lambda>p. Some 5", OF own law, unfolded low, folded com_def]
  then have "own_cert loaded (snd com)" by (simp add: Let_def)
  note b = GetCertificate_own [of loaded "snd com" load example_lib "''mta-sts.example.org''" "\<lambda>p. Some 5", OF this law, unfolded low]
  have "fst com = Some (pem ''example.com'')"
    using a differ by (simp add: Let_def TrimPrefix_def load_def cache_def Hostname_def pem_def)
  moreover have "snd com = cache(''mta-sts.example.com'' \<mapsto> (pem ''example.com'', 5))"
    using differ by (simp add: com_def GetCertificate_def low Let_def TrimPrefix_def load_def cache_def Hostname_def pem_def)
  ultimately show ?thesis
    using a b differ
    unfolding Let_def pem_def [symmetric] load_def [symmetric] loaded_def [symmetric] cache_def [symmetric] com_def [symmetric]
    by (simp add: TrimPrefix_def Hostname_def cache_def load_def pem_def)
qed

end
