(* ===== verification/Dkim_Provision.thy ===== *)
theory Dkim_Provision
  imports Dnscheck Mtasts Mailbox_Address
begin

text \<open>
  Package mailbox, file \<open>dkim_provision.go\<close>: the DKIM key, the record text and the DNS dump of a domain.
  The commands \<open>chown\<close> and \<open>systemctl restart rspamd\<close>, whose results the code ignores, are left out.
\<close>

section \<open>Normalising the record file\<close>

definition qualify :: "string \<Rightarrow> string \<Rightarrow> string option" where
  "qualify domain text =
     (let qualified = Selector @ ''._domainkey.'' @ domain; bare = Selector @ ''._domainkey'' in
      if HasPrefix text qualified then None
      else if \<not> HasPrefix text bare then None
      else Some (qualified @ drop (length bare) text))"

definition normalizeDKIMRecordName :: "string \<Rightarrow> string \<Rightarrow> unit op" where
  "normalizeDKIMRecordName recordPath domain = andThen (ReadFile recordPath) (\<lambda>text.
     case qualify domain text of None \<Rightarrow> Return () | Some t \<Rightarrow> WriteFile recordPath t)"

definition dkimCharStringMax :: nat where "dkimCharStringMax = 255"

abbreviation quote_char :: char where "quote_char \<equiv> CHR 0x22"

function chunks :: "string \<Rightarrow> string list" where
  "chunks v = (if v = [] then []
     else (quote_char # take dkimCharStringMax v @ [quote_char]) # chunks (drop dkimCharStringMax v))"
  by pat_completeness auto
termination by (relation "measure length") (auto simp: dkimCharStringMax_def)

declare chunks.simps [simp del]

definition requote :: "string \<Rightarrow> string option" where
  "requote text =
     (if count_list text quote_char \<le> 2 then None
      else (case (Index text [quote_char], LastIndexByte text quote_char) of
          (Some firstQuote, Some lastQuote) \<Rightarrow>
            if lastQuote = firstQuote then None
            else (let pre = take firstQuote text; post = drop (lastQuote + 1) text;
                      v = FullDKIMRecordValue text in
                  if v = [] then None else Some (pre @ Join (chunks v) '' '' @ post))
        | _ \<Rightarrow> None))"

definition normalizeDKIMRecordQuoting :: "string \<Rightarrow> unit op" where
  "normalizeDKIMRecordQuoting recordPath = andThen (ReadFile recordPath) (\<lambda>text.
     case requote text of None \<Rightarrow> Return () | Some t \<Rightarrow> WriteFile recordPath t)"

section \<open>Generating\<close>

definition keyPath :: "string \<Rightarrow> string" where
  "keyPath domain = Join_path [DKIMDir, domain @ ''.'' @ Selector @ ''.key'']"

definition recordPath :: "string \<Rightarrow> string" where
  "recordPath domain = Join_path [DKIMDir, domain @ ''.'' @ Selector @ ''.txt'']"

text \<open>\<open>rspamadm dkim_keygen -k keyPath\<close> writes the key file and prints the record.\<close>

definition dkim_keygen_cmd :: "lib \<Rightarrow> string \<Rightarrow> string op" where
  "dkim_keygen_cmd L domain = (\<lambda>w. case dkim_keygen L domain (clock w) of
       None \<Rightarrow> (Inl ExecError, w)
     | Some (key, out) \<Rightarrow> (Inr out, w\<lparr>fs := (fs w)(keyPath domain \<mapsto> File 0 key)\<rparr>))"

definition wrap :: "string \<Rightarrow> 'a op \<Rightarrow> 'a op" where
  "wrap msg m = andThen (Attempt m) (\<lambda>r. case r of Inl e \<Rightarrow> Raise (Wrapped msg e) | Inr x \<Rightarrow> Return x)"

definition Chmod :: "string \<Rightarrow> unit op" where
  "Chmod p = FsRead (\<lambda>w. if fs w p = None then Inl FSError else Inr ())"

definition generateDKIM :: "lib \<Rightarrow> string \<Rightarrow> unit op" where
  "generateDKIM L domain =
     andThen (wrap ''rspamadm dkim_keygen'' (dkim_keygen_cmd L domain)) (\<lambda>out.
     andThen (wrap (''write '' @ recordPath domain) (WriteFile (recordPath domain) out)) (\<lambda>_.
     wrap (''chmod '' @ keyPath domain) (Chmod (keyPath domain))))"

section \<open>The DNS dump\<close>

definition rule70 :: string where "rule70 = replicate 70 (CHR ''='')"

definition dnsDumpPath :: "string \<Rightarrow> string" where
  "dnsDumpPath domain = Join_path [DNSDumpDir, ''patrabahok-dns-'' @ domain @ ''.txt'']"

definition dns_dump :: "lib \<Rightarrow> string \<Rightarrow> string \<Rightarrow> string \<Rightarrow> string \<Rightarrow> string \<Rightarrow> string" where
  "dns_dump L domain mailHost serverIP adminEmail dkimText =
     ''DNS records required for '' @ domain @ '' (mail server: '' @ mailHost @ '')'' @ nl
     @ rule70 @ nl @ nl
     @ ''-- A record (only needed once, even with multiple domains) --'' @ nl
     @ mailHost @ ''.   IN  A      '' @ serverIP @ nl @ nl
     @ ''-- MX record --'' @ nl
     @ domain @ ''.   IN  MX  10  '' @ mailHost @ ''.'' @ nl @ nl
     @ ''-- SPF (TXT) --'' @ nl
     @ domain @ ''.   IN  TXT    '' @ [quote_char] @ ''v=spf1 mx -all'' @ [quote_char] @ nl @ nl
     @ ''-- DKIM (TXT) --'' @ nl
     @ dkimText
     @ nl @ ''-- DMARC (TXT) '' @ dash @ '' start at p=none, monitor, then move to quarantine/reject --'' @ nl
     @ ''_dmarc.'' @ domain @ ''.   IN  TXT    '' @ [quote_char] @ ''v=DMARC1; p=none; rua=mailto:'' @ adminEmail
     @ [quote_char] @ nl @ nl
     @ ''-- MTA-STS (TXT + A, optional) '' @ dash @ '' add both records, then run --'' @ nl
     @ ''-- 'patrabahok mta-sts enable '' @ domain @ [CHR 0x27] @ '' (or use the dashboard'' @ [CHR 0x27] @ ''s DNS --'' @ nl
     @ ''-- Analysis page) to actually issue the certificate and start hosting --'' @ nl
     @ ''-- the policy file this record points at.                             --'' @ nl
     @ Hostname domain @ ''.   IN  A      '' @ serverIP @ nl
     @ ''_mta-sts.'' @ domain @ ''.   IN  TXT    '' @ [quote_char] @ ''v=STSv1; id=''
     @ PolicyID L (PolicyContent mailHost) @ [quote_char] @ nl @ nl"

definition writeDNSRecordsFile :: "lib \<Rightarrow> string \<Rightarrow> string \<Rightarrow> unit op" where
  "writeDNSRecordsFile L domain dkimRecordPath =
     andThen (installerConfig L) (\<lambda>cfg.
       let mailHost = str_or_empty (cfg ''hostname'');
           serverIP = (let s = str_or_empty (cfg ''server_ip'') in if s = [] then ''<this-server-public-ip>'' else s);
           adminEmail = (let s = str_or_empty (cfg ''admin_email'') in if s = [] then ''postmaster@'' @ domain else s)
       in andThen (Attempt (ReadFile dkimRecordPath)) (\<lambda>r.
         let dkimText = (case r of Inr t \<Rightarrow> t
               | Inl _ \<Rightarrow> ''(DKIM record file not found at '' @ dkimRecordPath @ '' '' @ dash @ '' check ''
                   @ [CHR 0x27] @ ''rspamadm dkim_keygen'' @ [CHR 0x27] @ '' output manually.)'' @ nl)
         in andThen (wrap (''create '' @ DNSDumpDir) (MkdirAll DNSDumpDir)) (\<lambda>_.
            wrap (''write '' @ dnsDumpPath domain)
              (WriteFile (dnsDumpPath domain) (dns_dump L domain mailHost serverIP adminEmail dkimText)))))"

section \<open>Provisioning\<close>

text \<open>
  \<open>os.Stat(keyPath)\<close> with \<open>os.IsNotExist\<close>: only a definite answer that the key is missing leads to a new key.
\<close>

definition ensureDKIMAndDNSRecords :: "lib \<Rightarrow> string \<Rightarrow> unit op" where
  "ensureDKIMAndDNSRecords L domain =
     andThen (wrap (''create '' @ DKIMDir) (MkdirAll DKIMDir)) (\<lambda>_.
     andThen (Attempt (Exists (keyPath domain))) (\<lambda>present.
     andThen (if present = Inr False then generateDKIM L domain else Return ()) (\<lambda>_.
     andThen (wrap ''normalize DKIM record name'' (normalizeDKIMRecordName (recordPath domain) domain)) (\<lambda>_.
     andThen (wrap ''normalize DKIM record quoting'' (normalizeDKIMRecordQuoting (recordPath domain))) (\<lambda>_.
     andThen (installerConfig L) (\<lambda>cfg.
       let mailHost = str_or_empty (cfg ''hostname'') in
       andThen (if mailHost \<noteq> []
                then andThen (wrap ''write MTA-STS policy'' (WritePolicy L domain mailHost)) (\<lambda>_. Return ())
                else Return ()) (\<lambda>_.
       writeDNSRecordsFile L domain (recordPath domain))))))))"

definition RotateDKIMKey :: "lib \<Rightarrow> string \<Rightarrow> unit op" where
  "RotateDKIMKey L domain =
     andThen (Lift (ValidateDomain domain)) (\<lambda>_.
     andThen (wrap (''remove existing key '' @ keyPath domain) (RemoveFile (keyPath domain))) (\<lambda>_.
     andThen (wrap (''remove existing record '' @ recordPath domain) (RemoveFile (recordPath domain))) (\<lambda>_.
     ensureDKIMAndDNSRecords L domain)))"

section \<open>Facts about quoting\<close>

lemma chunks_Nil [simp]: "chunks [] = []"
  by (simp add: chunks.simps)

lemma chunks_not_Nil [simp]: "v \<noteq> [] \<Longrightarrow> chunks v \<noteq> []"
  by (subst chunks.simps) simp

lemma chunks_bound: "c \<in> set (chunks v) \<Longrightarrow> length c \<le> dkimCharStringMax + 2"
proof (induction v rule: chunks.induct)
  case (1 v)
  then have "v \<noteq> []" by auto
  with 1 show ?case by (auto simp: chunks.simps [of v])
qed

lemma length_chunks: "length (chunks v) = (length v + 254) div 255"
proof (induction v rule: chunks.induct)
  case (1 v)
  show ?case
  proof (cases "v = []")
    case False
    then have "length (chunks v) = Suc ((length v - 255 + 254) div 255)"
      using 1 by (simp add: chunks.simps [of v] dkimCharStringMax_def)
    also have "\<dots> = (length v + 254) div 255"
    proof (cases "length v \<le> 255")
      case True
      with False have "(length v + 254) div 255 = 1"
        by (cases v) (auto simp: div_if)
      with True show ?thesis by simp
    qed (use False in \<open>simp add: div_if\<close>)
    finally show ?thesis .
  qed simp
qed

lemma Join_chunks_ends:
  "v \<noteq> [] \<Longrightarrow> \<exists>m. Join (chunks v) sep = quote_char # m @ [quote_char]"
proof (induction v rule: chunks.induct)
  case (1 v)
  let ?c = "quote_char # take dkimCharStringMax v @ [quote_char]" and ?r = "drop dkimCharStringMax v"
  have v: "chunks v = ?c # chunks ?r" using "1.prems" by (simp add: chunks.simps [of v])
  show ?case
  proof (cases "?r = []")
    case False
    with 1 obtain m where "Join (chunks ?r) sep = quote_char # m @ [quote_char]" by blast
    with False show ?thesis by (simp add: v Join_Cons)
  qed (simp add: v)
qed

lemma dequote_Join_chunks:
  "quote_char \<notin> set v \<Longrightarrow> dequote False (Join (chunks v) '' '' @ s) = v @ dequote False s"
proof (induction v rule: chunks.induct)
  case (1 v)
  let ?t = "take dkimCharStringMax v" and ?r = "drop dkimCharStringMax v"
  show ?case
  proof (cases "v = []")
    case False
    then have v: "chunks v = (quote_char # ?t @ [quote_char]) # chunks ?r" by (simp add: chunks.simps [of v])
    have nq: "quote_char \<notin> set ?t" "quote_char \<notin> set ?r"
      using "1.prems" by (auto dest: in_set_takeD in_set_dropD)
    then have ih: "dequote False (Join (chunks ?r) '' '' @ s) = ?r @ dequote False s"
      using 1 False by blast
    show ?thesis
    proof (cases "?r = []")
      case True
      then have "?t = v" by simp
      with True nq show ?thesis by (simp add: v dequote_append_plain del: take_all_iff)
    next
      case False
      then have "Join (chunks v) '' '' @ s = quote_char # ?t @ quote_char # CHR '' '' # Join (chunks ?r) '' '' @ s"
        by (simp add: v Join_Cons)
      then have "dequote False (Join (chunks v) '' '' @ s) = ?t @ ?r @ dequote False s"
        using nq ih by (simp add: dequote_append_plain)
      then show ?thesis by (simp flip: append_assoc)
    qed
  qed simp
qed

lemma set_Join_chunks: "set (Join (chunks v) '' '') \<subseteq> set v \<union> {quote_char, CHR '' ''}"
proof (induction v rule: chunks.induct)
  case (1 v)
  let ?r = "drop dkimCharStringMax v"
  show ?case
  proof (cases "v = []")
    case False
    then have "chunks v = (quote_char # take dkimCharStringMax v @ [quote_char]) # chunks ?r"
      by (simp add: chunks.simps [of v])
    with 1 False show ?thesis
      by (cases "?r = []") (auto simp: Join_Cons dest: in_set_takeD in_set_dropD)
  qed simp
qed

lemma count_list_Join_chunks: "quote_char \<notin> set v \<Longrightarrow> count_list (Join (chunks v) '' '') quote_char = 2 * length (chunks v)"
proof (induction v rule: chunks.induct)
  case (1 v)
  let ?t = "take dkimCharStringMax v" and ?r = "drop dkimCharStringMax v"
  show ?case
  proof (cases "v = []")
    case False
    then have v: "chunks v = (quote_char # ?t @ [quote_char]) # chunks ?r" by (simp add: chunks.simps [of v])
    have nq: "quote_char \<notin> set ?t" "quote_char \<notin> set ?r"
      using "1.prems" by (auto dest: in_set_takeD in_set_dropD)
    with 1 False show ?thesis by (cases "?r = []") (auto simp: v Join_Cons count_list_0_iff)
  qed simp
qed

text \<open>What \<open>requote\<close> does when it does anything.\<close>

lemma requote_Some:
  assumes "requote text = Some t"
  obtains pre post where "quote_char \<notin> set pre" "quote_char \<notin> set post" "set pre \<subseteq> set text" "set post \<subseteq> set text"
    "FullDKIMRecordValue text \<noteq> []" "t = pre @ Join (chunks (FullDKIMRecordValue text)) '' '' @ post"
proof -
  let ?q = "\<lambda>c. c \<noteq> quote_char"
  from assms have v: "FullDKIMRecordValue text \<noteq> []"
    and t: "t = takeWhile ?q text @ Join (chunks (FullDKIMRecordValue text)) '' '' @ rev (takeWhile ?q (rev text))"
    by (auto simp: requote_def Let_def take_Index drop_LastIndexByte [simplified]
        split: if_splits option.splits)
  show thesis
    by (rule that [OF _ _ _ _ v t]) (auto dest: set_takeWhileD)
qed

lemma chunks_count: "quote_char \<notin> set pre \<Longrightarrow> quote_char \<notin> set post \<Longrightarrow> quote_char \<notin> set v \<Longrightarrow>
    count_list (pre @ Join (chunks v) '' '' @ post) quote_char = 2 * length (chunks v)"
  by (simp add: count_list_Join_chunks count_list_0_iff)

lemma requote_again:
  assumes "quote_char \<notin> set pre" "quote_char \<notin> set post" "quote_char \<notin> set v" "v \<noteq> []"
    and t: "t = pre @ Join (chunks v) '' '' @ post" and full: "FullDKIMRecordValue t = v"
  shows "requote t = None \<or> requote t = Some t"
proof -
  obtain m where J: "Join (chunks v) '' '' = quote_char # m @ [quote_char]"
    using Join_chunks_ends [OF assms(4)] by blast
  have "takeWhile (\<lambda>c. c \<noteq> quote_char) t = pre"
    using assms(1) by (simp add: t J takeWhile_append2) (subst takeWhile_append2, auto)
  then have i: "Index t [quote_char] = Some (length pre)"
    by (simp add: Index_char t J)
  have t2: "t = (pre @ quote_char # m) @ quote_char # post" by (simp add: t J)
  have l: "LastIndexByte t quote_char = Some (length pre + Suc (length m))"
    unfolding t2 using assms(2) by (subst LastIndexByte_char) auto
  have "take (length pre) t = pre" "drop (length pre + Suc (length m) + 1) t = post"
    by (simp_all add: t J)
  then show ?thesis
    using i l full assms(4) t by (simp add: requote_def Let_def)
qed

lemma value_no_quote:
  assumes "list_all is_ascii text"
  shows "quote_char \<notin> set (FullDKIMRecordValue text)" "set (FullDKIMRecordValue text) \<subseteq> set text"
  using assms set_TrimSpace [of "dequote False text"] dequote_no_quote [of False "text"] set_dequote [of False "text"]
  by (auto simp: FullDKIMRecordValue_def dequoteZoneText_ascii)

section \<open>Facts about the files\<close>

lemma ValidateDomain_safe:
  assumes "ValidateDomain d = Inr ()"
  shows "(\<forall>c\<in>set d. plain_byte c) \<and> d \<noteq> [] \<and> hd d \<noteq> CHR ''.''"
  using assms by (intro domainRe_plain) (auto simp: ValidateDomain_def MatchString_iff split: if_splits)

lemma Join_path_one:
  assumes "cs \<noteq> []" "\<forall>c\<in>set cs. safe_comp c" "safe_comp f"
  shows "Join_path [''/'' @ Join cs ''/'', f] = ''/'' @ Join cs ''/'' @ ''/'' @ f"
  using Join_path_safe [OF assms(1,2), of "[f]"] assms by (simp add: Join_append)

lemma domain_file:
  assumes "ValidateDomain d = Inr ()" and "CHR ''/'' \<notin> set a" "CHR ''/'' \<notin> set b"
    and "a @ [hd (d @ b)] \<noteq> ''.''" and "length b > 3"
  shows "safe_comp (a @ d @ b)"
  using assms ValidateDomain_safe [OF assms(1)]
  by (auto simp: safe_comp_def append_eq_Cons_conv Cons_eq_append_conv)

lemma provision_paths:
  assumes "ValidateDomain d = Inr ()"
  shows "keyPath d = DKIMDir @ ''/'' @ d @ ''.mail.key''"
    and "recordPath d = DKIMDir @ ''/'' @ d @ ''.mail.txt''"
    and "dnsDumpPath d = DNSDumpDir @ ''/patrabahok-dns-'' @ d @ ''.txt''"
    and "policyPath d = PolicyDir @ ''/'' @ d @ ''/mta-sts.txt''"
proof -
  note d = ValidateDomain_safe [OF assms]
  have dirs: "\<forall>c\<in>set [''var'', ''lib'', ''rspamd'', ''dkim'']. safe_comp c"
    "\<forall>c\<in>set [''var'', ''lib'', ''patrabahok'', ''dns-records'']. safe_comp c"
    "\<forall>c\<in>set [''var'', ''lib'', ''patrabahok'', ''mta-sts'']. safe_comp c"
    by (simp_all add: safe_comp_def)
  have names: "safe_comp (d @ ''.mail.key'')" "safe_comp (d @ ''.mail.txt'')"
    "safe_comp (''patrabahok-dns-'' @ d @ ''.txt'')" "safe_comp d"
    using d by (auto simp: safe_comp_def append_eq_Cons_conv)
  show "keyPath d = DKIMDir @ ''/'' @ d @ ''.mail.key''" "recordPath d = DKIMDir @ ''/'' @ d @ ''.mail.txt''"
    using Join_path_one [OF _ dirs(1) names(1)] Join_path_one [OF _ dirs(1) names(2)]
    by (simp_all add: keyPath_def recordPath_def DKIMDir_def Selector_def)
  show "dnsDumpPath d = DNSDumpDir @ ''/patrabahok-dns-'' @ d @ ''.txt''"
    using Join_path_one [OF _ dirs(2) names(3)] by (simp add: dnsDumpPath_def DNSDumpDir_def)
  show "policyPath d = PolicyDir @ ''/'' @ d @ ''/mta-sts.txt''"
    using Join_path_one [OF _ dirs(3) names(4)] policyPath_safe [OF names(4)] by (simp add: PolicyDir_def)
qed

lemma keyPath_others:
  assumes "ValidateDomain d = Inr ()"
  shows "keyPath d \<noteq> recordPath d" "keyPath d \<noteq> dnsDumpPath d" "keyPath d \<noteq> policyPath d"
proof -
  have "last (keyPath d) = CHR ''y''" "last (recordPath d) = CHR ''t''" "last (dnsDumpPath d) = CHR ''t''"
    "last (policyPath d) = CHR ''t''"
    by (simp_all add: provision_paths [OF assms])
  then show "keyPath d \<noteq> recordPath d" "keyPath d \<noteq> dnsDumpPath d" "keyPath d \<noteq> policyPath d"
    by auto
qed

lemma keeps_wrap [keeps_ops]: "keeps I m \<Longrightarrow> keeps I (wrap msg m)"
  unfolding wrap_def by (intro keeps_ops)

lemma node_Chmod [keeps_ops]: "keeps (node p n) (Chmod q)"
  by (simp add: Chmod_def node_FsRead)

lemma node_InstallerState [keeps_ops]: "keeps (node p n) (InstallerState L)"
  unfolding InstallerState_def by (intro keeps_ops)

lemma node_installerConfig [keeps_ops]: "keeps (node p n) (installerConfig L)"
  unfolding installerConfig_def by (intro keeps_ops)

lemma node_WritePolicy [keeps_ops]: "p \<noteq> policyPath d \<Longrightarrow> keeps (node p n) (WritePolicy L d h)"
  unfolding WritePolicy_def by (intro keeps_ops) auto

lemma node_normalizeName [keeps_ops]: "p \<noteq> q \<Longrightarrow> keeps (node p n) (normalizeDKIMRecordName q d)"
  unfolding normalizeDKIMRecordName_def by (intro keeps_ops) auto

lemma node_normalizeQuoting [keeps_ops]: "p \<noteq> q \<Longrightarrow> keeps (node p n) (normalizeDKIMRecordQuoting q)"
  unfolding normalizeDKIMRecordQuoting_def by (intro keeps_ops) auto

lemma node_writeDNSRecordsFile [keeps_ops]:
  "p \<noteq> dnsDumpPath d \<Longrightarrow> keeps (node p n) (writeDNSRecordsFile L d q)"
  unfolding writeDNSRecordsFile_def by (intro keeps_ops) auto

text \<open>Everything after the key has been dealt with.\<close>

definition finishProvision :: "lib \<Rightarrow> string \<Rightarrow> unit op" where
  "finishProvision L domain =
     andThen (wrap ''normalize DKIM record quoting'' (normalizeDKIMRecordQuoting (recordPath domain))) (\<lambda>_.
     andThen (installerConfig L) (\<lambda>cfg.
       let mailHost = str_or_empty (cfg ''hostname'') in
       andThen (if mailHost \<noteq> []
                then andThen (wrap ''write MTA-STS policy'' (WritePolicy L domain mailHost)) (\<lambda>_. Return ())
                else Return ()) (\<lambda>_.
       writeDNSRecordsFile L domain (recordPath domain))))"

lemma node_finish:
  assumes "ValidateDomain d = Inr ()"
  shows "keeps (node (keyPath d) n) (finishProvision L d)"
  unfolding finishProvision_def using keyPath_others [OF assms] by (intro keeps_ops) auto

lemma ensure_unfold:
  "ensureDKIMAndDNSRecords L d =
     andThen (wrap (''create '' @ DKIMDir) (MkdirAll DKIMDir)) (\<lambda>_.
     andThen (Attempt (Exists (keyPath d))) (\<lambda>present.
     andThen (if present = Inr False then generateDKIM L d else Return ()) (\<lambda>_.
     andThen (wrap ''normalize DKIM record name'' (normalizeDKIMRecordName (recordPath d) d)) (\<lambda>_.
     finishProvision L d))))"
  unfolding ensureDKIMAndDNSRecords_def finishProvision_def ..

section \<open>Properties\<close>

text \<open>
  C38: Rewriting the quoting of a DKIM record changes nothing but the quoting: the record value and the key a
  provider or a check reads out of the file are the same before and after, the value is cut into the
  least number of strings of at most 255 bytes (257 with their quotes), and doing it a second time changes nothing.
\<close>

theorem requote_preserves:
  assumes "list_all is_ascii text" and "requote text = Some t"
  shows "FullDKIMRecordValue t = FullDKIMRecordValue text
     \<and> LocalDKIMKeyFragment t = LocalDKIMKeyFragment text
     \<and> count_list t quote_char = 2 * ((length (FullDKIMRecordValue text) + 254) div 255)
     \<and> (\<forall>c\<in>set (chunks (FullDKIMRecordValue text)). length c \<le> 257)
     \<and> (requote t = None \<or> requote t = Some t)"
proof -
  let ?v = "FullDKIMRecordValue text"
  obtain pre post where p: "quote_char \<notin> set pre" "quote_char \<notin> set post" "set pre \<subseteq> set text"
      "set post \<subseteq> set text" "?v \<noteq> []" "t = pre @ Join (chunks ?v) '' '' @ post"
    using requote_Some [OF assms(2)] .
  note q = value_no_quote [OF assms(1)]
  have "set t \<subseteq> set text \<union> {quote_char, CHR '' ''}"
    using p(3,4) q(2) set_Join_chunks [of ?v] by (auto simp: p(6))
  then have "list_all is_ascii t"
    using assms(1) by (auto simp: list_all_iff is_ascii_def)
  moreover have "dequote False t = ?v"
    using p(1,2) q(1) by (simp add: p(6) dequote_append_plain dequote_Join_chunks)
  moreover have "TrimSpace ?v = ?v"
    by (simp add: FullDKIMRecordValue_def dequoteZoneText_def)
  ultimately have full: "FullDKIMRecordValue t = ?v"
    by (simp add: FullDKIMRecordValue_def dequoteZoneText_ascii)
  then have "LocalDKIMKeyFragment t = LocalDKIMKeyFragment text"
    by (simp add: LocalDKIMKeyFragment_def FullDKIMRecordValue_def)
  moreover have "count_list t quote_char = 2 * ((length ?v + 254) div 255)"
    unfolding p(6) using chunks_count [OF p(1,2) q(1)] by (simp add: length_chunks)
  moreover have "\<forall>c\<in>set (chunks ?v). length c \<le> 257"
    using chunks_bound by (auto simp: dkimCharStringMax_def)
  ultimately show ?thesis
    using full requote_again [OF p(1,2) q(1) p(5,6) full] by blast
qed

theorem requote_preserves_witness:
  "LocalDKIMKeyFragment ''x \"k \" \"p=Q\" y'' = LocalDKIMKeyFragment ''x \"k p=Q\" y''"
proof -
  have r: "requote ''x \"k \" \"p=Q\" y'' = Some ''x \"k p=Q\" y''"
  proof -
    have "TrimSpace ''k p=Q'' = ''k p=Q''" by (rule TrimSpace_id) (simp add: is_ascii_def is_space_def)
    then show ?thesis
      by (simp add: requote_def FullDKIMRecordValue_def dequoteZoneText_ascii is_ascii_def Index_char
          LastIndexByte_def chunks.simps [of "''k p=Q''"] dkimCharStringMax_def)
  qed
  moreover have "list_all is_ascii ''x \"k \" \"p=Q\" y''" by code_simp
  ultimately show ?thesis using requote_preserves [OF _ r] by simp
qed

text \<open>
  C26: Adding a domain again, or repairing its records, never changes a DKIM key that exists: whatever fails on the way,
  the key file is the same node before and after. (Otherwise every \<open>domain add\<close> would invalidate the
  published DNS record.)
\<close>

theorem ensure_keeps_key:
  assumes "ValidateDomain d = Inr ()" and "fs w (keyPath d) = Some n"
  shows "after (ensureDKIMAndDNSRecords L d) (\<lambda>_ w'. fs w' (keyPath d) = Some n) w"
proof -
  have I: "node (keyPath d) n w" using assms(2) by (simp add: node_def)
  have present: "after (Attempt (Exists (keyPath d))) (\<lambda>r w'. node (keyPath d) n w' \<and> r \<noteq> Inr (Inr False)) w'"
    if "node (keyPath d) n w'" for w'
    using that by (auto simp: wp Exists_def node_def)
  have rest: "keeps (node (keyPath d) n) (andThen (Return ()) (\<lambda>_.
      andThen (wrap ''normalize DKIM record name'' (normalizeDKIMRecordName (recordPath d) d)) (\<lambda>_. finishProvision L d)))"
    using keyPath_others [OF assms(1)] node_finish [OF assms(1)] by (intro keeps_ops) auto
  have "after (ensureDKIMAndDNSRecords L d) (\<lambda>_. node (keyPath d) n) w"
    unfolding ensure_unfold after_andThen [of "wrap m x" for m x]
  proof (rule after_mono [OF keepsD [OF keeps_wrap [OF node_MkdirAll] I]])
    fix r :: "error + unit" and w1 assume w1: "node (keyPath d) n w1"
    show "case r of Inl e \<Rightarrow> node (keyPath d) n w1
        | Inr x \<Rightarrow> after (andThen (Attempt (Exists (keyPath d))) (\<lambda>present.
            andThen (if present = Inr False then generateDKIM L d else Return ()) (\<lambda>_.
            andThen (wrap ''normalize DKIM record name'' (normalizeDKIMRecordName (recordPath d) d)) (\<lambda>_.
            finishProvision L d)))) (\<lambda>_. node (keyPath d) n) w1"
      using w1 by (cases r)
        (auto simp: after_andThen [of "Attempt m" for m] intro!: after_mono [OF present]
          keepsD [OF rest] split: sum.splits)
  qed
  then show ?thesis by (simp add: node_def [abs_def])
qed

theorem ensure_keeps_key_witness:
  "after (ensureDKIMAndDNSRecords example_lib ''example.com'')
     (\<lambda>_ w'. fs w' ''/var/lib/rspamd/dkim/example.com.mail.key'' = Some (File 7 ''K''))
     (empty_world\<lparr>fs := [''/var/lib/rspamd/dkim/example.com.mail.key'' \<mapsto> File 7 ''K'']\<rparr>)"
proof -
  have v: "ValidateDomain ''example.com'' = Inr ()" by code_simp
  have "keyPath ''example.com'' = ''/var/lib/rspamd/dkim/example.com.mail.key''"
    by (simp add: provision_paths [OF v] DKIMDir_def)
  with ensure_keeps_key [OF v] show ?thesis by simp
qed

lemma no_mkdir_below:
  assumes "f p = None" and "length d < length p" and "mkdir_all d f = Inr g"
  shows "g p = None"
proof -
  have "p \<notin> set (ancestors d)"
    using ancestors_above [of p d] assms(2) by (auto simp: below_def dest!: prefix_length_le)
  with assms(1) mkdir_all_Inr [OF assms(3)] show ?thesis by simp
qed

definition no_dkim_files :: "string \<Rightarrow> int \<Rightarrow> world \<Rightarrow> bool" where
  "no_dkim_files d c w \<longleftrightarrow> fs w (keyPath d) = None \<and> fs w (recordPath d) = None \<and> clock w = c"

lemma rotate_ensure:
  assumes d: "ValidateDomain d = Inr ()" and w: "no_dkim_files d c w"
  shows "after (ensureDKIMAndDNSRecords L d) (\<lambda>r w'. case r of
       Inl e \<Rightarrow> True
     | Inr _ \<Rightarrow> (\<exists>key out. dkim_keygen L d c = Some (key, out) \<and> node (keyPath d) (File 0 key) w')) w"
    (is "after _ ?Q w")
proof -
  have len: "length DKIMDir < length (keyPath d)" "length DKIMDir < length (recordPath d)"
    by (simp_all add: provision_paths [OF d])
  have ne: "keyPath d \<noteq> recordPath d" using keyPath_others [OF d] by simp
  let ?rest = "\<lambda>_ :: unit. andThen (wrap ''normalize DKIM record name'' (normalizeDKIMRecordName (recordPath d) d))
      (\<lambda>_. finishProvision L d)"
  have mk: "after (wrap m (MkdirAll DKIMDir)) (\<lambda>r w1. no_dkim_files d c w1) w" for m
    using w len no_mkdir_below [of "fs w"]
    by (auto simp: wrap_def wp MkdirAll_def no_dkim_files_def split: sum.splits)
  have stop: "after (?rest x) (\<lambda>r w'. \<exists>e. r = Inl e) w1" if "no_dkim_files d c w1" for x :: unit and w1
    using that by (auto simp: wp wrap_def normalizeDKIMRecordName_def ReadFile_def no_dkim_files_def split: sum.splits)
  have gen: "after (generateDKIM L d) (\<lambda>r w2. r = Inr () \<longrightarrow>
      (\<exists>key out. dkim_keygen L d c = Some (key, out) \<and> node (keyPath d) (File 0 key) w2)) w1"
    if "no_dkim_files d c w1" for w1
    using that ne
    by (auto simp: generateDKIM_def wp wrap_def dkim_keygen_cmd_def after_def andThen_def Attempt_def Return_def Raise_def
        WriteFile_def FsWrite_def write_file_def Chmod_def FsRead_def node_def no_dkim_files_def
        split: option.splits prod.splits sum.splits fnode.splits if_splits)
  have fin: "after (?rest x) ?Q w2"
    if "\<exists>key out. dkim_keygen L d c = Some (key, out) \<and> node (keyPath d) (File 0 key) w2" for x :: unit and w2
  proof -
    from that obtain key out where k: "dkim_keygen L d c = Some (key, out)" "node (keyPath d) (File 0 key) w2"
      by blast
    have "keeps (node (keyPath d) (File 0 key)) (?rest x)"
      using ne node_finish [OF d] by (intro keeps_ops) auto
    from keepsD [OF this k(2)] show ?thesis
      by (rule after_mono) (use k(1) in \<open>auto split: sum.split\<close>)
  qed
  show ?thesis
    unfolding ensure_unfold after_andThen [of "wrap m x" for m x]
  proof (rule after_mono [OF mk])
    fix r :: "error + unit" and w1 assume w1: "no_dkim_files d c w1"
    have "after (andThen (generateDKIM L d) ?rest) ?Q (tick w1)"
      unfolding after_andThen [of "generateDKIM L d"]
      by (rule after_mono [OF gen]) (use w1 fin in \<open>auto simp: no_dkim_files_def split: sum.split\<close>)
    moreover have "after (?rest ()) ?Q (tick w1)"
      by (rule after_mono [OF stop]) (use w1 in \<open>auto simp: no_dkim_files_def\<close>)
    ultimately show "case r of Inl e \<Rightarrow> ?Q (Inl e) w1
        | Inr x \<Rightarrow> after (andThen (Attempt (Exists (keyPath d))) (\<lambda>present.
            andThen (if present = Inr False then generateDKIM L d else Return ()) ?rest)) ?Q w1"
      using w1 by (cases r)
        (auto simp: after_andThen [of "Attempt m" for m] after_Attempt Exists_def after_FsRead
          after_andThen [of "Return ()"] after_Return no_dkim_files_def)
  qed
qed

text \<open>
  When rotating a DKIM key reports success, the private key on disk is the one the key generator has just written:
  a rotation in which removing the old files, looking at them or generating the key fails, and which would
  therefore go on with the old key or none, reports an error.
\<close>

theorem RotateDKIMKey_new_key:
  "after (RotateDKIMKey L d) (\<lambda>r w'. case r of
       Inl e \<Rightarrow> True
     | Inr _ \<Rightarrow> (\<exists>key out. dkim_keygen L d (clock w) = Some (key, out) \<and> fs w' (keyPath d) = Some (File 0 key))) w"
proof (cases "ValidateDomain d")
  case (Inl e)
  then show ?thesis by (simp add: RotateDKIMKey_def wp)
next
  case (Inr u)
  then have d: "ValidateDomain d = Inr ()" by simp
  let ?Q = "\<lambda>r w'. case r of Inl (e :: error) \<Rightarrow> True
     | Inr u \<Rightarrow> (\<exists>key out. dkim_keygen L d (clock w) = Some (key, out) \<and> fs w' (keyPath d) = Some (File 0 key))"
  have rm: "after (wrap m (RemoveFile p)) (\<lambda>r w2. case r of Inl e \<Rightarrow> True
      | Inr u \<Rightarrow> clock w2 = clock w1 \<and> (\<forall>q. fs w2 q = (if q = p then None else fs w1 q))) w1" for m p w1
    by (auto simp: wrap_def wp RemoveFile_def split: sum.splits option.splits fnode.splits)
  have two: "after (andThen (wrap m2 (RemoveFile (recordPath d))) (\<lambda>_. ensureDKIMAndDNSRecords L d)) ?Q w2"
    if "clock w2 = clock w" "fs w2 (keyPath d) = None" for m2 w2
  proof (rule after_seq [OF rm])
    fix x :: unit and w3 :: world
    assume a: "case Inr x of Inl e \<Rightarrow> True | Inr u \<Rightarrow> clock w3 = clock w2
      \<and> (\<forall>q. fs w3 q = (if q = recordPath d then None else fs w2 q))"
    with that have "no_dkim_files d (clock w) w3" by (simp add: no_dkim_files_def)
    from rotate_ensure [OF d this, unfolded node_def]
    show "after (ensureDKIMAndDNSRecords L d) ?Q w3" .
  qed simp
  have "after (andThen (wrap m1 (RemoveFile (keyPath d))) (\<lambda>_.
      andThen (wrap m2 (RemoveFile (recordPath d))) (\<lambda>_. ensureDKIMAndDNSRecords L d))) ?Q w" for m1 m2
    by (rule after_seq [OF rm]) (simp_all add: two)
  then show ?thesis
    by (simp add: RotateDKIMKey_def d after_andThen [of "Lift x" for x] after_Lift)
qed

end
