(* ===== verification/Mailbox.thy ===== *)
theory Mailbox
  imports Schema Sha512_Crypt Dkim_Provision
begin

text \<open>
  Package mailbox, file \<open>mailbox.go\<close>: the operations on domains, mailboxes and aliases. The type \<open>Mailbox\<close> is the
  record \<open>mailbox\<close>; the zero time stands for a \<open>CreatedAt\<close> that a query does not fetch.
\<close>

section \<open>Domains\<close>

definition DomainAdd :: "lib \<Rightarrow> string \<Rightarrow> unit op" where
  "DomainAdd L name =
     andThen (Lift (ValidateDomain name)) (\<lambda>_.
     andThen (Exec (ins_domain L name)) (\<lambda>_.
     wrap ''domain added, but DKIM key/DNS record generation failed'' (ensureDKIMAndDNSRecords L name)))"

definition DomainList :: "lib \<Rightarrow> domain_row list op" where
  "DomainList L = Query (\<lambda>w. sort_key (dkey L) (virtual_domains w))"

definition domainID :: "lib \<Rightarrow> string \<Rightarrow> nat op" where
  "domainID L name = andThen (Query (\<lambda>w. row_at (dkey L) (ck L name) (virtual_domains w))) (\<lambda>r. case r of
       None \<Rightarrow> Raise (ErrNotFound (''domain '' @ Quote (uni L) name @ '' is not registered (run: domain add ''
                 @ name @ '')''))
     | Some d \<Rightarrow> Return (d_id d))"

definition DomainRemove :: "lib \<Rightarrow> string \<Rightarrow> unit op" where
  "DomainRemove L name =
     andThen (Lift (ValidateDomain name)) (\<lambda>_.
     andThen (Exec (del_domain L name)) (\<lambda>_. Return ()))"

section \<open>Creating mailboxes\<close>

text \<open>\<open>fmt.Errorf("%w: mailbox %q", ErrNotFound, email)\<close> and the same with \<open>ErrExists\<close>.\<close>

definition mailbox_not_found :: "lib \<Rightarrow> string \<Rightarrow> error" where
  "mailbox_not_found L email = ErrNotFound (''mailbox '' @ Quote (uni L) email)"

definition mailbox_exists :: "lib \<Rightarrow> string \<Rightarrow> error" where
  "mailbox_exists L email = ErrExists (''mailbox '' @ Quote (uni L) email)"

text \<open>\<open>SELECT COUNT(*) FROM mail_groups WHERE email = ?\<close>\<close>

definition notAGroup :: "lib \<Rightarrow> string \<Rightarrow> unit op" where
  "notAGroup L email =
     andThen (Query (\<lambda>w. count_rows (\<lambda>g. gkey L g = ck L email) (mail_groups w))) (\<lambda>n.
     if n > 0 then Raise (ErrExists (email @ '' is a group address'')) else Return ())"

text \<open>The first row of the three selects \<open>AddressKind\<close> joins by \<open>UNION ALL\<close>; it is the one query of
  \<open>groups.go\<close> that mailboxes depend on.\<close>

definition AddressKind :: "lib \<Rightarrow> string \<Rightarrow> string op" where
  "AddressKind L email = Query (\<lambda>w.
     if ck L email \<in> ukey L ` set (virtual_users w) then ''user''
     else if ck L email \<in> gkey L ` set (mail_groups w) then ''group''
     else if ck L email \<in> (\<lambda>a. ck L (a_source a)) ` set (virtual_aliases w) then ''alias''
     else [])"

definition chownRecursive :: "string \<Rightarrow> nat \<Rightarrow> unit op" where
  "chownRecursive root u = FsWrite (\<lambda>f. if f root = None then Inl FSError
     else Inr (\<lambda>p. if below root p then map_option (set_owner u) (f p) else f p))"

definition createMaildir :: "string \<Rightarrow> string \<Rightarrow> unit op" where
  "createMaildir domain local =
     (let dir = mailboxDir domain local; mk = (\<lambda>sub. wrap (''create '' @ sub) (MkdirAll (Join_path [dir, sub]))) in
      andThen (mk ''Maildir/cur'') (\<lambda>_.
      andThen (mk ''Maildir/new'') (\<lambda>_.
      andThen (mk ''Maildir/tmp'') (\<lambda>_.
      andThen (mk ''sieve'') (\<lambda>_.
      wrap ''chown mailbox tree'' (chownRecursive (Join_path [VmailHome, domain]) VmailUID))))))"

definition maildirOf :: "string \<Rightarrow> string \<Rightarrow> string" where
  "maildirOf domain local = domain @ ''/'' @ local"

definition new_user :: "nat \<Rightarrow> string \<Rightarrow> string \<Rightarrow> string \<Rightarrow> string \<Rightarrow> int \<Rightarrow> int \<Rightarrow> user_row" where
  "new_user domID email displayName hash maildir quotaBytes now =
     \<lparr>u_domain_id = domID, u_email = email, u_display_name = displayName, u_password = hash, u_maildir = maildir,
      u_quota_bytes = quotaBytes, u_enabled = True, u_created_at = now\<rparr>"

definition MailboxAdd :: "lib \<Rightarrow> string \<Rightarrow> string \<Rightarrow> int \<Rightarrow> unit op" where
  "MailboxAdd L email password quotaBytes =
     andThen (Lift (SplitEmail email)) (\<lambda>(local, domain).
     andThen (domainID L domain) (\<lambda>domID.
     andThen (notAGroup L email) (\<lambda>_.
     andThen (hashPassword L password) (\<lambda>hash.
     andThen (Exec (\<lambda>w. upsert_user L
        (new_user domID email [] hash (maildirOf domain local) quotaBytes (clock w)) w)) (\<lambda>_.
     createMaildir domain local)))))"

definition MailboxCreate :: "lib \<Rightarrow> string \<Rightarrow> string \<Rightarrow> string \<Rightarrow> int \<Rightarrow> unit op" where
  "MailboxCreate L email password displayName quotaBytes =
     andThen (Lift (SplitEmail email)) (\<lambda>(local, domain).
     andThen (domainID L domain) (\<lambda>domID.
     andThen (AddressKind L email) (\<lambda>kind.
     if kind = ''group'' \<or> kind = ''user''
     then Raise (ErrExists (email @ '' is already in use by a '' @ kind))
     else andThen (hashPassword L password) (\<lambda>hash.
     andThen (Attempt (Exec (\<lambda>w. ins_user L
        (new_user domID email displayName hash (maildirOf domain local) quotaBytes (clock w)) w))) (\<lambda>r. case r of
         Inl DuplicateKey \<Rightarrow> Raise (mailbox_exists L email)
       | Inl e \<Rightarrow> Raise e
       | Inr n \<Rightarrow> createMaildir domain local)))))"

section \<open>Reading mailboxes\<close>

record mailbox =
  Email :: string
  DisplayName :: string
  IsEnabled :: bool
  QuotaBytes :: int
  CreatedAt :: int

definition scan_mailbox :: "user_row \<Rightarrow> mailbox" where
  "scan_mailbox u = \<lparr>Email = u_email u, DisplayName = u_display_name u, IsEnabled = u_enabled u,
     QuotaBytes = u_quota_bytes u, CreatedAt = 0\<rparr>"

definition MailboxList :: "lib \<Rightarrow> string \<Rightarrow> mailbox list op" where
  "MailboxList L domain = Query (\<lambda>w.
     let rows = (if domain \<noteq> [] then
            filter (\<lambda>u. list_ex (\<lambda>d. d_id d = u_domain_id u \<and> dkey L d = ck L domain) (virtual_domains w)) (virtual_users w)
          else virtual_users w)
     in map scan_mailbox (sort_key (ukey L) rows))"

definition MailboxGet :: "lib \<Rightarrow> string \<Rightarrow> mailbox op" where
  "MailboxGet L email =
     andThen (Lift (ValidateEmail email)) (\<lambda>_.
     andThen (Query (\<lambda>w. row_at (ukey L) (ck L email) (virtual_users w))) (\<lambda>r. case r of
         None \<Rightarrow> Raise (mailbox_not_found L email)
       | Some u \<Rightarrow> Return ((scan_mailbox u)\<lparr>CreatedAt := u_created_at u\<rparr>)))"

section \<open>Changing and removing mailboxes\<close>

definition MailboxRemove :: "lib \<Rightarrow> string \<Rightarrow> unit op" where
  "MailboxRemove L email =
     andThen (Lift (SplitEmail email)) (\<lambda>(local, domain).
     andThen (Exec (del_user L email)) (\<lambda>_.
     andThen (Exec (del_members (\<lambda>m. ck L (m_member m) = ck L email))) (\<lambda>_.
     RemoveAll (mailboxDir domain local))))"

definition MailboxPasswd :: "lib \<Rightarrow> string \<Rightarrow> string \<Rightarrow> unit op" where
  "MailboxPasswd L email password =
     andThen (Lift (ValidateEmail email)) (\<lambda>_.
     andThen (hashPassword L password) (\<lambda>hash.
     andThen (Exec (upd_user L email (\<lambda>u. u\<lparr>u_password := hash\<rparr>))) (\<lambda>n.
     if n = 0 then Raise (mailbox_not_found L email) else Return ())))"

definition updateMailbox :: "lib \<Rightarrow> string \<Rightarrow> (user_row \<Rightarrow> user_row) \<Rightarrow> unit op" where
  "updateMailbox L email f =
     andThen (Exec (upd_user L email f)) (\<lambda>n.
     if n = 0 then andThen (MailboxGet L email) (\<lambda>_. Return ()) else Return ())"

definition MailboxSetQuota :: "lib \<Rightarrow> string \<Rightarrow> int \<Rightarrow> unit op" where
  "MailboxSetQuota L email quotaBytes =
     andThen (Lift (ValidateEmail email)) (\<lambda>_.
     if quotaBytes \<le> 0 then Raise (ValidationError ''quota must be greater than zero'')
     else updateMailbox L email (\<lambda>u. u\<lparr>u_quota_bytes := quotaBytes\<rparr>))"

definition MailboxSetName :: "lib \<Rightarrow> string \<Rightarrow> string \<Rightarrow> unit op" where
  "MailboxSetName L email displayName =
     andThen (Lift (ValidateEmail email)) (\<lambda>_.
     if length displayName > 255 then Raise (ValidationError ''name must be at most 255 characters'')
     else updateMailbox L email (\<lambda>u. u\<lparr>u_display_name := displayName\<rparr>))"

definition MailboxSetEnabled :: "lib \<Rightarrow> string \<Rightarrow> bool \<Rightarrow> unit op" where
  "MailboxSetEnabled L email enabled =
     andThen (Lift (ValidateEmail email)) (\<lambda>_. updateMailbox L email (\<lambda>u. u\<lparr>u_enabled := enabled\<rparr>))"

section \<open>Aliases\<close>

record alias_entry =
  Source :: string
  Destination :: string

definition scan_alias :: "alias_row \<Rightarrow> alias_entry" where
  "scan_alias a = \<lparr>Source = a_source a, Destination = a_destination a\<rparr>"

definition AliasAdd :: "lib \<Rightarrow> string \<Rightarrow> string \<Rightarrow> unit op" where
  "AliasAdd L src destination =
     andThen (wrap ''invalid alias address'' (Lift (ValidateEmail src))) (\<lambda>_.
     andThen (wrap ''invalid target address'' (Lift (ValidateEmail destination))) (\<lambda>_.
     andThen (Lift (SplitEmail src)) (\<lambda>(local, domain).
     andThen (domainID L domain) (\<lambda>domID.
     andThen (notAGroup L src) (\<lambda>_.
     andThen (Exec (ins_alias_ignore L \<lparr>a_domain_id = domID, a_source = src, a_destination = destination\<rparr>)) (\<lambda>_.
     Return ()))))))"

text \<open>\<open>source NOT LIKE '@%'\<close>: a catch-all is not listed.\<close>

definition not_catchall :: "alias_row \<Rightarrow> bool" where
  "not_catchall a \<longleftrightarrow> \<not> HasPrefix (a_source a) ''@''"

definition AliasList :: "lib \<Rightarrow> string \<Rightarrow> alias_entry list op" where
  "AliasList L domain = Query (\<lambda>w.
     let rows = (if domain \<noteq> [] then
            filter (\<lambda>a. list_ex (\<lambda>d. d_id d = a_domain_id a \<and> dkey L d = ck L domain) (virtual_domains w)
              \<and> not_catchall a) (virtual_aliases w)
          else filter not_catchall (virtual_aliases w))
     in map scan_alias (sort_key (\<lambda>a. ck L (a_source a)) rows))"

definition AliasRemove :: "lib \<Rightarrow> string \<Rightarrow> string \<Rightarrow> unit op" where
  "AliasRemove L src destination =
     andThen (Exec (del_aliases (\<lambda>a. akey L a = (ck L src, ck L destination)))) (\<lambda>_. Return ())"

section \<open>The store stays consistent\<close>

lemma andThen_Lift:
  "andThen (Lift (Inr x)) f = f x" "andThen (Lift (Inl e)) f = Raise e"
  by (auto simp: andThen_def Lift_def Raise_def)

text \<open>
  A predicate on the world that looks neither at files nor at random bytes nor at the pattern of failures: every operation that writes no table and runs no command
  keeps it. A \<open>host_invariant\<close> does not look at the commands either.
\<close>

locale frame_invariant =
  fixes I :: "world \<Rightarrow> bool"
  assumes frame_tick: "I w \<Longrightarrow> I (tick w)"
    and frame_fs: "I w \<Longrightarrow> I (w\<lparr>fs := f\<rparr>)"
    and frame_entropy: "I w \<Longrightarrow> I (w\<lparr>entropy := b\<rparr>)"
begin

lemma frame_Query: "keeps I (Query q)"
  by (rule keeps_Query) (rule frame_tick)

lemma frame_files:
  "keeps I (MkdirAll p)" "keeps I (WriteFile p c)" "keeps I (ReadFile p)" "keeps I (RemoveFile p)" "keeps I (RemoveAll p)"
  "keeps I (Exists p)" "keeps I (Chmod p)" "keeps I (chownRecursive p u)"
  by (auto simp: keeps_def wp MkdirAll_def WriteFile_def ReadFile_def RemoveFile_def RemoveAll_def Exists_def Chmod_def
      chownRecursive_def frame_fs frame_tick split: sum.splits)

lemma frame_hashPassword: "keeps I (hashPassword L p)"
  by (rule keepsI, rule after_mono [OF hashPassword_frame]) (auto simp: frame_entropy)

lemma frame_keygen: "keeps I (dkim_keygen_cmd K d)"
  by (auto simp: keeps_def after_def dkim_keygen_cmd_def frame_fs frame_tick split: option.splits)

lemma frame_createMaildir: "keeps I (createMaildir d l)"
  unfolding createMaildir_def Let_def by (intro keeps_ops frame_files)

lemma frame_ensure: "keeps I (ensureDKIMAndDNSRecords K d)"
  unfolding ensureDKIMAndDNSRecords_def generateDKIM_def normalizeDKIMRecordName_def normalizeDKIMRecordQuoting_def
    installerConfig_def InstallerState_def WritePolicy_def writeDNSRecordsFile_def
  by (intro keeps_ops frame_files frame_keygen)

lemma frame_guards:
  "keeps I (domainID L d)" "keeps I (AddressKind L e)" "keeps I (notAGroup L e)" "keeps I (MailboxGet L e)"
  unfolding domainID_def AddressKind_def notAGroup_def MailboxGet_def by (intro keeps_ops frame_Query)+

lemmas frame_ops = frame_Query frame_files frame_hashPassword frame_keygen frame_createMaildir frame_ensure frame_guards

end

locale host_invariant = frame_invariant +
  assumes frame_outbound: "I w \<Longrightarrow> I (w\<lparr>outbound := cs\<rparr>)"
begin

lemma frame_RunHost: "keeps I (RunHost L c)"
  by (rule keeps_RunHost) (rule frame_outbound)

lemma frame_commands: "keeps I (CombinedOutput L c)" "keeps I (Output L c)"
  unfolding CombinedOutput_def Output_def by (intro keeps_ops frame_RunHost)+

lemmas host_ops = frame_ops frame_RunHost frame_commands

end

interpretation store_frame: host_invariant "store_ok L" for L
  by standard simp_all

lemmas ok_frame [keeps_ops] = store_frame.host_ops

lemma ok_Exec: "(\<And>w n w'. store_ok L w \<Longrightarrow> q w = Inr (n, w') \<Longrightarrow> store_ok L w') \<Longrightarrow> keeps (store_ok L) (Exec q)"
  by (rule keeps_Exec) auto

text \<open>The facts the guards establish and the later steps keep.\<close>

definition has_domain :: "lib \<Rightarrow> nat \<Rightarrow> string \<Rightarrow> world \<Rightarrow> bool" where
  "has_domain L i name w \<longleftrightarrow> (\<exists>d\<in>set (virtual_domains w). d_id d = i \<and> dkey L d = ck L name)"

definition no_group :: "lib \<Rightarrow> string \<Rightarrow> world \<Rightarrow> bool" where
  "no_group L e w \<longleftrightarrow> ck L e \<notin> gkey L ` set (mail_groups w)"

lemma guard_frame [simp]:
  "has_domain L i n (tick w) = has_domain L i n w" "no_group L e (tick w) = no_group L e w"
  "has_domain L i n (w\<lparr>entropy := b\<rparr>) = has_domain L i n w" "no_group L e (w\<lparr>entropy := b\<rparr>) = no_group L e w"
  by (simp_all add: has_domain_def no_group_def)

lemma domainID_after:
  "I w \<Longrightarrow> (\<And>w. I w \<Longrightarrow> I (tick w)) \<Longrightarrow>
     after (domainID L name) (\<lambda>r w'. I w' \<and> (case r of Inl e \<Rightarrow> True | Inr i \<Rightarrow> has_domain L i name w')) w"
  by (auto simp: domainID_def wp has_domain_def split: option.splits sum.splits dest!: row_at_Some)

lemma notAGroup_after:
  "I w \<Longrightarrow> (\<And>w. I w \<Longrightarrow> I (tick w)) \<Longrightarrow>
     after (notAGroup L e) (\<lambda>r w'. I w' \<and> (case r of Inl x \<Rightarrow> True | Inr u \<Rightarrow> no_group L e w')) w"
  unfolding notAGroup_def wp no_group_def
  by (cases "count_rows (\<lambda>g. gkey L g = ck L e) (mail_groups w) = 0") (auto simp: count_rows_zero)

lemma hashPassword_after:
  "I w \<Longrightarrow> (\<And>w b. I w \<Longrightarrow> I (w\<lparr>entropy := b\<rparr>)) \<Longrightarrow> after (hashPassword L p) (\<lambda>r. I) w"
  by (rule after_mono [OF hashPassword_frame]) auto

lemma ok_DomainAdd: "keeps (store_ok L) (DomainAdd L name)"
proof (cases "ValidateDomain name")
  case (Inr u)
  then show ?thesis
    unfolding DomainAdd_def Inr andThen_Lift by (intro keeps_ops ok_Exec) (rule ok_ins_domain, assumption+, simp add: Inr)
qed (simp add: DomainAdd_def andThen_Lift keeps_Raise)

lemma ok_DomainRemove: "keeps (store_ok L) (DomainRemove L name)"
  unfolding DomainRemove_def by (intro keeps_ops ok_Exec) (rule ok_del_domain)

lemma new_user_in_domain:
  "SplitEmail e = Inr (l, d) \<Longrightarrow> has_domain L i d w \<Longrightarrow> in_domain L i e w"
  using SplitEmail_Inr [of e l d] by (auto simp: has_domain_def in_domain_def)

lemma ok_MailboxAdd: "keeps (store_ok L) (MailboxAdd L e p q)"
proof (rule keepsI)
  fix w assume w: "store_ok L w"
  show "after (MailboxAdd L e p q) (\<lambda>_. store_ok L) w"
  proof (cases "SplitEmail e")
    case (Inl err)
    with w show ?thesis by (simp add: MailboxAdd_def wp)
  next
    case (Inr ld)
    then obtain l d where s: "SplitEmail e = Inr (l, d)" by (cases ld) auto
    let ?J = "\<lambda>i w. store_ok L w \<and> has_domain L i d w \<and> no_group L e w"
    let ?row = "\<lambda>i h w. new_user i e [] h (maildirOf d l) q (clock w)"
    have exec: "after (andThen (Exec (\<lambda>w. upsert_user L (?row i h w) w)) (\<lambda>_. createMaildir d l)) (\<lambda>_. store_ok L) w1"
      if "?J i w1" for i h w1
    proof -
      have "store_ok L w'" if "upsert_user L (?row i h (tick w1)) (tick w1) = Inr (n, w')" for n w'
        by (rule ok_upsert_user [OF _ that])
           (use \<open>?J i w1\<close> new_user_in_domain [OF s] in \<open>simp_all add: new_user_def no_group_def ukey_def\<close>)
      with \<open>?J i w1\<close> have "after (Exec (\<lambda>w. upsert_user L (?row i h w) w)) (\<lambda>_. store_ok L) w1"
        by (auto simp: wp split: sum.split)
      then show ?thesis by (rule after_seq) (auto intro: keepsD store_frame.frame_createMaildir)
    qed
    have hash: "after (andThen (hashPassword L p) (\<lambda>h. andThen (Exec (\<lambda>w. upsert_user L (?row i h w) w))
        (\<lambda>_. createMaildir d l))) (\<lambda>_. store_ok L) w1" if "?J i w1" for i w1
      by (rule after_seq [OF hashPassword_after [of "?J i"]]) (use that exec in auto)
    have grp: "after (andThen (notAGroup L e) (\<lambda>_. andThen (hashPassword L p) (\<lambda>h. andThen (Exec (\<lambda>w. upsert_user L (?row i h w) w))
        (\<lambda>_. createMaildir d l)))) (\<lambda>_. store_ok L) w1" if "store_ok L w1" "has_domain L i d w1" for i w1
      by (rule after_seq [OF notAGroup_after [of "\<lambda>w. store_ok L w \<and> has_domain L i d w"]]) (use that hash in auto)
    show ?thesis
      unfolding MailboxAdd_def s after_andThen [of "Lift x" for x] after_Lift
      by (simp, rule after_seq [OF domainID_after [of "store_ok L"]]) (use w grp in auto)
  qed
qed

lemma AddressKind_after:
  "I w \<Longrightarrow> (\<And>w. I w \<Longrightarrow> I (tick w)) \<Longrightarrow>
     after (AddressKind L e) (\<lambda>r w'. I w' \<and> (case r of Inl x \<Rightarrow> True
       | Inr k \<Rightarrow> (k \<noteq> ''group'' \<longrightarrow> k \<noteq> ''user'' \<longrightarrow> no_group L e w' \<and> ck L e \<notin> ukey L ` set (virtual_users w'))
           \<and> (k = [] \<longrightarrow> ck L e \<notin> (\<lambda>a. ck L (a_source a)) ` set (virtual_aliases w')))) w"
  unfolding AddressKind_def wp no_group_def by (auto simp del: image_iff)

lemma ok_MailboxCreate: "keeps (store_ok L) (MailboxCreate L e p n q)"
proof (rule keepsI)
  fix w assume w: "store_ok L w"
  show "after (MailboxCreate L e p n q) (\<lambda>_. store_ok L) w"
  proof (cases "SplitEmail e")
    case (Inl err)
    with w show ?thesis by (simp add: MailboxCreate_def wp)
  next
    case (Inr ld)
    then obtain l d where s: "SplitEmail e = Inr (l, d)" by (cases ld) auto
    let ?J = "\<lambda>i w. store_ok L w \<and> has_domain L i d w \<and> no_group L e w"
    let ?row = "\<lambda>i h w. new_user i e n h (maildirOf d l) q (clock w)"
    let ?after_insert = "\<lambda>r. case r of Inl DuplicateKey \<Rightarrow> Raise (mailbox_exists L e)
       | Inl err \<Rightarrow> Raise err | Inr n \<Rightarrow> createMaildir d l"
    have exec: "after (andThen (Attempt (Exec (\<lambda>w. ins_user L (?row i h w) w))) ?after_insert) (\<lambda>_. store_ok L) w1"
      if "?J i w1" for i h w1
    proof -
      have "store_ok L w'" if "ins_user L (?row i h (tick w1)) (tick w1) = Inr (n, w')" for n w'
        by (rule ok_ins_user [OF _ that])
           (use \<open>?J i w1\<close> new_user_in_domain [OF s] in \<open>simp_all add: new_user_def no_group_def ukey_def\<close>)
      with \<open>?J i w1\<close> have "after (Attempt (Exec (\<lambda>w. ins_user L (?row i h w) w))) (\<lambda>_. store_ok L) w1"
        by (auto simp: wp split: sum.split)
      then show ?thesis
        by (rule after_seq) (auto intro: keepsD store_frame.frame_createMaildir simp: wp split: sum.split error.split)
    qed
    have hash: "after (andThen (hashPassword L p) (\<lambda>h. andThen (Attempt (Exec (\<lambda>w. ins_user L (?row i h w) w)))
        ?after_insert)) (\<lambda>_. store_ok L) w1" if "?J i w1" for i w1
      by (rule after_seq [OF hashPassword_after [of "?J i"]]) (use that exec in auto)
    have kind: "after (andThen (AddressKind L e) (\<lambda>k. if k = ''group'' \<or> k = ''user''
        then Raise (ErrExists (e @ '' is already in use by a '' @ k))
        else andThen (hashPassword L p) (\<lambda>h. andThen (Attempt (Exec (\<lambda>w. ins_user L (?row i h w) w)))
        ?after_insert))) (\<lambda>_. store_ok L) w1" if "store_ok L w1" "has_domain L i d w1" for i w1
      by (rule after_seq [OF AddressKind_after [of "\<lambda>w. store_ok L w \<and> has_domain L i d w"]])
         (use that in \<open>auto simp: after_Raise after_if intro: hash\<close>)
    show ?thesis
      unfolding MailboxCreate_def s after_andThen [of "Lift x" for x] after_Lift
      by (simp, rule after_seq [OF domainID_after [of "store_ok L"]]) (use w kind in auto)
  qed
qed

lemma ok_MailboxRemove: "keeps (store_ok L) (MailboxRemove L e)"
  unfolding MailboxRemove_def by (intro keeps_ops ok_Exec) (erule ok_del_user ok_del_members, assumption)+

lemma ok_MailboxPasswd: "keeps (store_ok L) (MailboxPasswd L e p)"
  unfolding MailboxPasswd_def by (intro keeps_ops ok_Exec) (erule ok_upd_user, assumption, simp)

lemma ok_updateMailbox:
  "(\<And>u. u_email (f u) = u_email u \<and> u_domain_id (f u) = u_domain_id u) \<Longrightarrow> keeps (store_ok L) (updateMailbox L e f)"
  unfolding updateMailbox_def by (intro keeps_ops ok_Exec) (erule ok_upd_user, assumption, simp)

lemma ok_MailboxSet:
  "keeps (store_ok L) (MailboxSetQuota L e q)" "keeps (store_ok L) (MailboxSetName L e n)"
  "keeps (store_ok L) (MailboxSetEnabled L e b)"
  unfolding MailboxSetQuota_def MailboxSetName_def MailboxSetEnabled_def
  by (intro keeps_ops ok_updateMailbox; simp)+

lemma ok_AliasRemove: "keeps (store_ok L) (AliasRemove L s t)"
  unfolding AliasRemove_def by (intro keeps_ops ok_Exec) (erule ok_del_aliases, assumption)

lemma ok_AliasAdd: "keeps (store_ok L) (AliasAdd L s t)"
proof (rule keepsI)
  fix w assume w: "store_ok L w"
  have grp: "after (andThen (notAGroup L s) (\<lambda>_. andThen (Exec (ins_alias_ignore L
      \<lparr>a_domain_id = i, a_source = s, a_destination = t\<rparr>)) (\<lambda>_. Return ()))) (\<lambda>_. store_ok L) w1" if "store_ok L w1" for i w1
  proof (rule after_seq [OF notAGroup_after [of "store_ok L"]])
    fix u :: unit and w2
    assume "store_ok L w2 \<and> (case Inr u of Inl x \<Rightarrow> True | Inr u \<Rightarrow> no_group L s w2)"
    then have g: "store_ok L w2" "no_group L s w2" by auto
    have "store_ok L w'" if "ins_alias_ignore L \<lparr>a_domain_id = i, a_source = s, a_destination = t\<rparr> (tick w2) = Inr (n, w')"
      for n w'
      by (rule ok_ins_alias_ignore [OF _ that]) (use g in \<open>simp_all add: no_group_def\<close>)
    with g(1) show "after (andThen (Exec (ins_alias_ignore L \<lparr>a_domain_id = i, a_source = s, a_destination = t\<rparr>))
        (\<lambda>_. Return ())) (\<lambda>_. store_ok L) w2"
      by (auto simp: wp split: sum.split)
  qed (use that in auto)
  have dom: "after (andThen (domainID L d) (\<lambda>i. andThen (notAGroup L s) (\<lambda>_. andThen (Exec (ins_alias_ignore L
      \<lparr>a_domain_id = i, a_source = s, a_destination = t\<rparr>)) (\<lambda>_. Return ())))) (\<lambda>_. store_ok L) w" for d
    by (rule after_seq [OF domainID_after [of "store_ok L"]]) (use w grp in auto)
  then show "after (AliasAdd L s t) (\<lambda>_. store_ok L) w"
    using w by (auto simp: AliasAdd_def wrap_def wp(1-5) split: sum.split prod.split)
qed

section \<open>What an operation touches\<close>

text \<open>\<open>touches b w\<close>: \<open>w\<close> differs from \<open>b\<close> at most in its files, its commands and requests, its random bytes and the pattern of failures.\<close>

definition touches :: "world \<Rightarrow> world \<Rightarrow> bool" where
  "touches b w \<longleftrightarrow> virtual_domains w = virtual_domains b \<and> virtual_users w = virtual_users b
     \<and> virtual_aliases w = virtual_aliases b \<and> mail_groups w = mail_groups b
     \<and> mail_group_members w = mail_group_members b \<and> mailbox_forwards w = mailbox_forwards b
     \<and> audit_log w = audit_log b \<and> api_tokens w = api_tokens b \<and> admin_users w = admin_users b
     \<and> admin_sessions w = admin_sessions b \<and> domain_api_keys w = domain_api_keys b \<and> cloudflare_settings w = cloudflare_settings b
     \<and> next_id w = next_id b \<and> clock w = clock b"

lemma touches_refl [simp]: "touches b b"
  by (simp add: touches_def)

lemma touches_step [simp]:
  "touches b (tick w) = touches b w" "touches b (w\<lparr>fs := f\<rparr>) = touches b w"
  "touches b (w\<lparr>entropy := e\<rparr>) = touches b w" "touches b (w\<lparr>outbound := cs\<rparr>) = touches b w"
  by (simp_all add: touches_def)

interpretation touches_frame: host_invariant "touches b" for b
  by standard simp_all

lemmas touches_ops [keeps_ops] = touches_frame.host_ops

lemma touches_fields:
  assumes "touches b w"
  shows "virtual_users w = virtual_users b" "virtual_domains w = virtual_domains b" "clock w = clock b"
    "mail_groups w = mail_groups b" "virtual_aliases w = virtual_aliases b"
    "mail_group_members w = mail_group_members b" "mailbox_forwards w = mailbox_forwards b"
  using assms by (auto simp: touches_def)

section \<open>Properties\<close>

text \<open>What creating a mailbox does to the tables.\<close>

lemma MailboxCreate_frame:
  "after (MailboxCreate L email password name quota) (\<lambda>r w'.
     (touches w w' \<and> (case r of Inl e \<Rightarrow> True | Inr u \<Rightarrow> False))
     \<or> (\<exists>l d i h. SplitEmail email = Inr (l, d)
          \<and> touches (w\<lparr>virtual_users := virtual_users w @ [new_user i email name h (maildirOf d l) quota (clock w)]\<rparr>) w'
          \<and> ck L email \<notin> ukey L ` set (virtual_users w) \<and> ck L email \<notin> gkey L ` set (mail_groups w))) w"
    (is "after _ ?Q w")
proof (cases "SplitEmail email")
  case (Inl err)
  then show ?thesis by (simp add: MailboxCreate_def andThen_Lift wp)
next
  case (Inr ld)
  then obtain l d where s: "SplitEmail email = Inr (l, d)" by (cases ld) auto
  let ?row = "\<lambda>i h. new_user i email name h (maildirOf d l) quota (clock w)"
  define Q where "Q = ?Q"
  have Qerr: "Q (Inl e) w1" if "touches w w1" for e w1 using that by (simp add: Q_def)
  let ?J = "\<lambda>w1. touches w w1 \<and> ck L email \<notin> ukey L ` set (virtual_users w) \<and> ck L email \<notin> gkey L ` set (mail_groups w)"
  let ?handle = "\<lambda>r. case r of Inl DuplicateKey \<Rightarrow> Raise (mailbox_exists L email)
       | Inl err \<Rightarrow> Raise err | Inr n \<Rightarrow> createMaildir d l"
  have exec: "after (andThen (Attempt (Exec (\<lambda>w1. ins_user L
      (new_user i email name h (maildirOf d l) quota (clock w1)) w1))) ?handle) Q w1" if J: "?J w1" for i h w1
  proof (rule after_seq)
    let ?b = "w\<lparr>virtual_users := virtual_users w @ [?row i h]\<rparr>"
    show "after (Attempt (Exec (\<lambda>w1. ins_user L (new_user i email name h (maildirOf d l) quota (clock w1)) w1)))
        (\<lambda>r w2. case r of Inl x \<Rightarrow> False | Inr (Inl e) \<Rightarrow> touches w w2 | Inr (Inr n) \<Rightarrow> touches ?b w2) w1"
      using J by (auto simp: wp ins_user_def insert_row_def touches_def split: sum.split)
    fix x :: "error + nat" and w2
    assume x: "case Inr x of Inl x \<Rightarrow> False | Inr (Inl e) \<Rightarrow> touches w w2 | Inr (Inr n) \<Rightarrow> touches ?b w2"
    show "after (?handle x) Q w2"
    proof (cases x)
      case (Inl e)
      with x show ?thesis by (cases e) (auto simp: wp Qerr)
    next
      case (Inr n)
      with x have "after (createMaildir d l) (\<lambda>r. touches ?b) w2"
        by (auto intro: keepsD touches_frame.frame_createMaildir)
      then show ?thesis
        by (simp add: Inr) (rule after_mono, assumption, use J s in \<open>auto simp: Q_def\<close>)
    qed
  qed (auto simp: Qerr)
  have hash: "after (andThen (hashPassword L password) (\<lambda>h. andThen (Attempt (Exec (\<lambda>w1. ins_user L
      (new_user i email name h (maildirOf d l) quota (clock w1)) w1))) ?handle)) Q w1" if J: "?J w1" for i w1
    by (rule after_seq [OF hashPassword_after [of ?J]]) (use J exec in \<open>auto simp: Qerr\<close>)
  have kind: "after (andThen (AddressKind L email) (\<lambda>k. if k = ''group'' \<or> k = ''user''
      then Raise (ErrExists (email @ '' is already in use by a '' @ k))
      else andThen (hashPassword L password) (\<lambda>h. andThen (Attempt (Exec (\<lambda>w1. ins_user L
        (new_user i email name h (maildirOf d l) quota (clock w1)) w1))) ?handle))) Q w1" if "touches w w1" for i w1
    by (rule after_seq [OF AddressKind_after [of "touches w"]])
       (use that in \<open>auto simp: after_Raise after_if no_group_def touches_fields Qerr intro!: hash\<close>)
  show ?thesis
    unfolding Q_def [symmetric] unfolding MailboxCreate_def s andThen_Lift prod.case
    by (rule after_seq [OF domainID_after [of "touches w"]]) (auto simp: Qerr intro: kind)
qed


text \<open>
  A mailbox that was created can be read back: when \<open>MailboxCreate\<close> succeeds, \<open>MailboxGet\<close> of the same address
  returns the address, the name and the quota it was created with, enabled, unless the database fails.
\<close>

theorem MailboxCreate_then_Get:
  "after (MailboxCreate L email password name quota) (\<lambda>r w'. case r of
       Inl e \<Rightarrow> True
     | Inr u \<Rightarrow> fault w' \<or> fst (MailboxGet L email w') =
         Inr \<lparr>Email = email, DisplayName = name, IsEnabled = True, QuotaBytes = quota, CreatedAt = clock w\<rparr>) w"
proof (rule after_mono [OF MailboxCreate_frame])
  fix r :: "error + unit" and w'
  assume *: "(touches w w' \<and> (case r of Inl e \<Rightarrow> True | Inr u \<Rightarrow> False))
     \<or> (\<exists>l d i h. SplitEmail email = Inr (l, d)
          \<and> touches (w\<lparr>virtual_users := virtual_users w @ [new_user i email name h (maildirOf d l) quota (clock w)]\<rparr>) w'
          \<and> ck L email \<notin> ukey L ` set (virtual_users w) \<and> ck L email \<notin> gkey L ` set (mail_groups w))"
  show "case r of Inl e \<Rightarrow> True | Inr u \<Rightarrow> fault w' \<or> fst (MailboxGet L email w') =
      Inr \<lparr>Email = email, DisplayName = name, IsEnabled = True, QuotaBytes = quota, CreatedAt = clock w\<rparr>"
  proof (cases r)
    case (Inr u)
    with * obtain l d i h where s: "SplitEmail email = Inr (l, d)"
      and t: "touches (w\<lparr>virtual_users := virtual_users w @ [new_user i email name h (maildirOf d l) quota (clock w)]\<rparr>) w'"
      and new: "ck L email \<notin> ukey L ` set (virtual_users w)" by auto
    let ?row = "new_user i email name h (maildirOf d l) quota (clock w)"
    have k: "ukey L ?row = ck L email" by (simp add: ukey_def new_user_def)
    with new have "insert_row (ukey L) ?row (virtual_users w) = Inr (virtual_users w')"
      using t by (simp add: insert_row_def touches_def)
    from row_at_insert_row [OF this, of "ck L email"] k
    have "row_at (ukey L) (ck L email) (virtual_users w') = Some ?row" by simp
    moreover have "ValidateEmail email = Inr ()" using SplitEmail_Inr [OF s] by blast
    ultimately show ?thesis
      by (auto simp: Inr MailboxGet_def andThen_def Lift_def Query_def Return_def scan_mailbox_def new_user_def)
  qed simp
qed

text \<open>
  Setting the quota of a mailbox, without database failures, succeeds exactly when the mailbox exists, also
  when the new quota is the old one (for which MariaDB reports no changed row); the row then has the new quota and is otherwise the
  same, and every other row is untouched. A quota that is not positive is refused.
\<close>

theorem MailboxSetQuota_exact:
  assumes "ValidateEmail email = Inr ()" and "faults w = []" and "keyed (ukey L) (virtual_users w)"
  shows "after (MailboxSetQuota L email quota) (\<lambda>r w'.
     (r = (if quota \<le> 0 then Inl (ValidationError ''quota must be greater than zero'')
           else if ck L email \<in> ukey L ` set (virtual_users w) then Inr () else Inl (mailbox_not_found L email)))
     \<and> (\<forall>k. row_at (ukey L) k (virtual_users w') = (if 0 < quota \<and> k = ck L email
          then map_option (\<lambda>u. u\<lparr>u_quota_bytes := quota\<rparr>) (row_at (ukey L) k (virtual_users w))
          else row_at (ukey L) k (virtual_users w)))) w"
proof (cases "quota \<le> 0")
  case True
  with assms show ?thesis by (simp add: MailboxSetQuota_def wp)
next
  case False
  let ?f = "\<lambda>u :: user_row. u\<lparr>u_quota_bytes := quota\<rparr>" and ?P = "\<lambda>u. ukey L u = ck L email"
  have nf: "\<not> fault w" "\<not> fault (tick w)" "\<And>x. \<not> fault ((tick w)\<lparr>virtual_users := x\<rparr>)"
    using assms(2) by (simp_all add: fault_def tick_def)
  have rows: "row_at (ukey L) k (update_rows ?P ?f (virtual_users w)) =
      (if k = ck L email then map_option ?f (row_at (ukey L) k (virtual_users w)) else row_at (ukey L) k (virtual_users w))" for k
  proof -
    have "row_at (ukey L) k (update_rows ?P ?f (virtual_users w)) =
        map_option (\<lambda>u. if ?P u then ?f u else u) (row_at (ukey L) k (virtual_users w))"
      by (rule row_at_update_rows) (simp add: ukey_def)
    then show ?thesis
      by (cases "row_at (ukey L) k (virtual_users w)") (auto dest: row_at_Some)
  qed
  have hit: "changed_rows ?P ?f (virtual_users w) \<noteq> 0 \<Longrightarrow> ck L email \<in> ukey L ` set (virtual_users w)"
    by (auto simp: changed_rows_def count_rows_zero) (metis imageI)
  have found: "row_at (ukey L) (ck L email) (update_rows ?P ?f (virtual_users w)) = None
      \<longleftrightarrow> ck L email \<notin> ukey L ` set (virtual_users w)"
    by (simp add: rows row_at_None)
  show ?thesis
    using False assms nf rows hit found
    by (auto simp: MailboxSetQuota_def updateMailbox_def MailboxGet_def upd_user_def wp Let_def andThen_Lift
        split: option.splits)
qed

theorem MailboxSetQuota_exact_witness:
  "let u = new_user 7 ''bob@example.com'' [] ''H'' ''example.com/bob'' 5 0;
       w = empty_world\<lparr>virtual_users := [u]\<rparr> in
   after (MailboxSetQuota example_lib ''BOB@example.com'' 5) (\<lambda>r w'. r = Inr ()) w
   \<and> after (MailboxSetQuota example_lib ''BOB@example.com'' 7) (\<lambda>r w'.
        map_option u_quota_bytes (row_at (ukey example_lib) ''bob@example.com'' (virtual_users w')) = Some 7) w"
proof -
  let ?u = "new_user 7 ''bob@example.com'' [] ''H'' ''example.com/bob'' 5 0"
  let ?w = "empty_world\<lparr>virtual_users := [?u]\<rparr>"
  have v: "ValidateEmail ''BOB@example.com'' = Inr ()" by code_simp
  have f: "faults ?w = []" by (simp add: empty_world_def)
  have k: "keyed (ukey example_lib) (virtual_users ?w)" by (simp add: keyed_def)
  have c: "ck example_lib ''BOB@example.com'' = ''bob@example.com''" by code_simp
  have ku: "ukey example_lib ?u = ''bob@example.com''" by code_simp
  have q: "u_quota_bytes ?u = 5" by (simp add: new_user_def)
  have "after (MailboxSetQuota example_lib ''BOB@example.com'' 5) (\<lambda>r w'. r = Inr ()) ?w"
    by (rule after_mono [OF MailboxSetQuota_exact [OF v f k, of 5]]) (simp add: c ku)
  moreover have "after (MailboxSetQuota example_lib ''BOB@example.com'' 7) (\<lambda>r w'.
      map_option u_quota_bytes (row_at (ukey example_lib) ''bob@example.com'' (virtual_users w')) = Some 7) ?w"
    by (rule after_mono [OF MailboxSetQuota_exact [OF v f k, of 7]]) (simp add: c ku row_at_def)
  ultimately show ?thesis by (simp add: Let_def)
qed

text \<open>
  Removing a mailbox removes all of it and nothing else: when \<open>MailboxRemove\<close> succeeds the address has no mailbox, no forwarding rule
  and no membership in any group left, its directory and everything below it is gone, and every file outside that directory and
  every other mailbox is as it was.
\<close>

theorem MailboxRemove_effect:
  "after (MailboxRemove L email) (\<lambda>r w'. case r of
       Inl e \<Rightarrow> True
     | Inr u \<Rightarrow> (\<exists>l d. SplitEmail email = Inr (l, d)
         \<and> (\<forall>p. fs w' p = (if below (mailboxDir d l) p then None else fs w p)))
       \<and> virtual_users w' = filter (\<lambda>u. ukey L u \<noteq> ck L email) (virtual_users w)
       \<and> mail_group_members w' = filter (\<lambda>m. ck L (m_member m) \<noteq> ck L email) (mail_group_members w)
       \<and> mailbox_forwards w' = filter (\<lambda>f. \<not> (fkey L f = ck L email \<and> ck L email \<in> ukey L ` set (virtual_users w))) (mailbox_forwards w)) w"
proof (cases "SplitEmail email")
  case (Inl err)
  then show ?thesis by (simp add: MailboxRemove_def wp)
next
  case (Inr ld)
  then obtain l d where s: "SplitEmail email = Inr (l, d)" by (cases ld) auto
  have "(\<not> (\<exists>u\<in>set (virtual_users w). ukey L u = ck L email \<and> ukey L u = fkey L f)) \<longleftrightarrow>
      \<not> (fkey L f = ck L email \<and> ck L email \<in> ukey L ` set (virtual_users w))" for f
    by (auto simp: image_iff)
  then show ?thesis
    by (simp add: MailboxRemove_def s wp del_user_def drop_users_def del_members_def RemoveAll_def remove_all_def
        delete_rows_def Let_def)
qed

text \<open>
  The directory is named by the letters of the request, the row is found by the collation: removing \<open>bob@example.com\<close> when the mailbox
  is \<open>Bob@example.com\<close> deletes the row, reports success and leaves the mail of \<open>Bob\<close> on the disk.
\<close>

theorem MailboxRemove_keeps_mail_of_other_case:
  "let u = new_user 1 ''Bob@example.com'' [] ''H'' ''example.com/Bob'' 5 0;
       w = empty_world\<lparr>virtual_users := [u], fs := [''/var/mail/vhosts/example.com/Bob'' \<mapsto> Dir 5000]\<rparr> in
   after (MailboxRemove example_lib ''bob@example.com'') (\<lambda>r w'.
     r = Inr () \<and> virtual_users w' = [] \<and> fs w' ''/var/mail/vhosts/example.com/Bob'' = Some (Dir 5000)) w"
  by code_simp

end
