(* ===== verification/Mail_Groups.thy ===== *)
theory Mail_Groups
  imports Mailbox
begin

text \<open>
  Package mailbox, file \<open>groups.go\<close>: distribution lists, their settings and their members.
\<close>

section \<open>Types\<close>

definition PostPolicies :: "string list" where
  "PostPolicies = [''anyone'', ''organization'', ''members'', ''owners'']"

definition ValidPostPolicy :: "string \<Rightarrow> bool" where
  "ValidPostPolicy p \<longleftrightarrow> list_ex (\<lambda>v. v = p) PostPolicies"

definition RoleMember :: string where "RoleMember = ''member''"
definition RoleOwner :: string where "RoleOwner = ''owner''"

record group_info =
  G_ID :: nat
  G_Email :: string
  G_Name :: string
  G_Description :: string
  G_PostPolicy :: string
  G_AllowExternal :: bool
  G_MemberCount :: nat
  G_CreatedAt :: int

record group_member =
  GM_Address :: string
  GM_Role :: string
  GM_Kind :: string
  GM_Name :: string
  GM_Suspended :: bool
  GM_CreatedAt :: int

record group_settings =
  S_Name :: string
  S_Description :: string
  S_PostPolicy :: string
  S_AllowExternal :: bool

definition validate_settings :: "lib \<Rightarrow> group_settings \<Rightarrow> error + unit" where
  "validate_settings L g =
     (if TrimSpace (S_Name g) = [] then Inl (ValidationError ''group name is required'')
      else if length (S_Name g) > 255 then Inl (ValidationError ''group name must be at most 255 characters'')
      else if length (S_Description g) > 1000 then Inl (ValidationError ''description must be at most 1000 characters'')
      else if \<not> ValidPostPolicy (S_PostPolicy g)
        then Inl (ValidationError (''invalid posting policy '' @ Quote (uni L) (S_PostPolicy g) @ '' (expected one of ''
               @ Join PostPolicies '', '' @ '')''))
      else Inr ())"

definition group_not_found :: "lib \<Rightarrow> string \<Rightarrow> error" where
  "group_not_found L email = ErrNotFound (''group '' @ Quote (uni L) email)"

section \<open>Creating, reading, deleting\<close>

definition GroupCreate :: "lib \<Rightarrow> string \<Rightarrow> group_settings \<Rightarrow> unit op" where
  "GroupCreate L email0 settings =
     (let email = ToLower (uni L) (TrimSpace email0) in
      andThen (Lift (SplitEmail email)) (\<lambda>(local, domain).
      andThen (Lift (validate_settings L settings)) (\<lambda>_.
      andThen (domainID L domain) (\<lambda>domID.
      andThen (AddressKind L email) (\<lambda>kind.
      if kind \<noteq> [] then Raise (ErrExists (email @ '' is already in use by a '' @ kind))
      else andThen (Attempt (Exec (\<lambda>w. ins_group L
          \<lparr>g_id = 0, g_domain_id = domID, g_email = email, g_name = TrimSpace (S_Name settings),
           g_description = TrimSpace (S_Description settings), g_post_policy = S_PostPolicy settings,
           g_allow_external = S_AllowExternal settings, g_created_at = clock w\<rparr> w))) (\<lambda>r. case r of
          Inl DuplicateKey \<Rightarrow> Raise (ErrExists (''group '' @ Quote (uni L) email))
        | Inl e \<Rightarrow> Raise e
        | Inr n \<Rightarrow> Return ()))))))"

definition scan_group :: "world \<Rightarrow> group_row \<Rightarrow> group_info" where
  "scan_group w g = \<lparr>G_ID = g_id g, G_Email = g_email g, G_Name = g_name g, G_Description = g_description g,
     G_PostPolicy = g_post_policy g, G_AllowExternal = g_allow_external g,
     G_MemberCount = count_rows (\<lambda>m. m_group_id m = g_id g) (mail_group_members w), G_CreatedAt = g_created_at g\<rparr>"

definition GroupGet :: "lib \<Rightarrow> string \<Rightarrow> group_info op" where
  "GroupGet L email =
     andThen (Query (\<lambda>w. map_option (scan_group w) (row_at (gkey L) (ck L (ToLower (uni L) email)) (mail_groups w)))) (\<lambda>r.
     case r of None \<Rightarrow> Raise (group_not_found L email) | Some g \<Rightarrow> Return g)"

definition escapeLike :: "string \<Rightarrow> string" where
  "escapeLike s = concat (map (\<lambda>c. if c = CHR 0x5C \<or> c = CHR ''%'' \<or> c = CHR ''_'' then [CHR 0x5C, c] else [c]) s)"

text \<open>\<open>(SELECT id FROM virtual_domains WHERE name = ?)\<close> compared with a column.\<close>

definition of_domain :: "lib \<Rightarrow> world \<Rightarrow> string \<Rightarrow> nat \<Rightarrow> bool" where
  "of_domain L w domain i \<longleftrightarrow> (case row_at (dkey L) (ck L domain) (virtual_domains w) of None \<Rightarrow> False | Some d \<Rightarrow> d_id d = i)"

definition GroupList :: "lib \<Rightarrow> string \<Rightarrow> string \<Rightarrow> group_info list op" where
  "GroupList L domain query0 = Query (\<lambda>w.
     let q = TrimSpace query0;
         pat = ''%'' @ escapeLike q @ ''%'';
         rows = filter (\<lambda>g. (domain \<noteq> [] \<longrightarrow> of_domain L w domain (g_domain_id g))
             \<and> (q \<noteq> [] \<longrightarrow> like L (g_email g) pat \<or> like L (g_name g) pat)) (mail_groups w)
     in map (scan_group w) (sort_key (gkey L) rows))"

definition GroupDelete :: "lib \<Rightarrow> string \<Rightarrow> unit op" where
  "GroupDelete L email =
     andThen (Exec (del_group L (ToLower (uni L) email))) (\<lambda>n.
     if n = 0 then Raise (group_not_found L email)
     else andThen (Exec (del_members (\<lambda>m. ck L (m_member m) = ck L (ToLower (uni L) email)))) (\<lambda>_. Return ()))"

section \<open>Members\<close>

text \<open>\<open>SUBSTRING_INDEX(s, '@', -1)\<close>: the part after the last \<open>@\<close>, all of it when there is none.\<close>

definition after_at :: "string \<Rightarrow> string" where
  "after_at s = rev (takeWhile (\<lambda>c. c \<noteq> CHR ''@'') (rev s))"

definition member_kind :: "lib \<Rightarrow> world \<Rightarrow> string \<Rightarrow> string" where
  "member_kind L w a =
     (if ck L a \<in> ukey L ` set (virtual_users w) then ''user''
      else if ck L a \<in> gkey L ` set (mail_groups w) then ''group''
      else if ck L a \<in> (\<lambda>x. ck L (a_source x)) ` set (virtual_aliases w) then ''alias''
      else if ck L (after_at a) \<in> dkey L ` set (virtual_domains w) then ''missing''
      else ''external'')"

definition scan_member :: "lib \<Rightarrow> world \<Rightarrow> member_row \<Rightarrow> group_member" where
  "scan_member L w m =
     (let u = row_at (ukey L) (ck L (m_member m)) (virtual_users w);
          sg = row_at (gkey L) (ck L (m_member m)) (mail_groups w)
      in \<lparr>GM_Address = m_member m, GM_Role = m_role m, GM_Kind = member_kind L w (m_member m),
          GM_Name = (case u of Some r \<Rightarrow> u_display_name r | None \<Rightarrow> (case sg of Some g \<Rightarrow> g_name g | None \<Rightarrow> [])),
          GM_Suspended = (case u of Some r \<Rightarrow> \<not> u_enabled r | None \<Rightarrow> False), GM_CreatedAt = m_created_at m\<rparr>)"

text \<open>\<open>ORDER BY m.role = 'owner' DESC, m.member\<close>: sorting is stable, so sorting by the second criterion first is the same.\<close>

definition order_members :: "lib \<Rightarrow> member_row list \<Rightarrow> member_row list" where
  "order_members L ms =
     sort_key (\<lambda>m. if m_role m = ''owner'' then (0 :: nat) else 1) (sort_key (\<lambda>m. ck L (m_member m)) ms)"

definition GroupMembers :: "lib \<Rightarrow> string \<Rightarrow> group_member list op" where
  "GroupMembers L email =
     andThen (GroupGet L email) (\<lambda>g.
     Query (\<lambda>w. map (scan_member L w) (order_members L (filter (\<lambda>m. m_group_id m = G_ID g) (mail_group_members w)))))"

definition GroupUpdate :: "lib \<Rightarrow> string \<Rightarrow> group_settings \<Rightarrow> unit op" where
  "GroupUpdate L email settings =
     andThen (Lift (validate_settings L settings)) (\<lambda>_.
     andThen (GroupGet L email) (\<lambda>g.
     andThen (if \<not> S_AllowExternal settings \<and> G_AllowExternal g
              then andThen (GroupMembers L email) (\<lambda>members.
                let external = length (filter (\<lambda>m. GM_Kind m = ''external'') members) in
                if external > 0
                then Raise (ValidationError (''remove the group'' @ [CHR 0x27] @ ''s '' @ nat_itoa external
                       @ '' external member(s) before disallowing external members''))
                else Return ())
              else Return ()) (\<lambda>_.
     andThen (Exec (upd_group (G_ID g) (\<lambda>r. r\<lparr>g_name := TrimSpace (S_Name settings),
         g_description := TrimSpace (S_Description settings), g_post_policy := S_PostPolicy settings,
         g_allow_external := S_AllowExternal settings\<rparr>))) (\<lambda>_. Return ()))))"

definition hostedDomains :: "lib \<Rightarrow> string list op" where
  "hostedDomains L = andThen (DomainList L) (\<lambda>ds. Return (map (\<lambda>d. ToLower (uni L) (d_name d)) ds))"

record member_result =
  MR_Address :: string
  MR_Added :: bool
  MR_Error :: string

definition invalid_role :: "lib \<Rightarrow> string \<Rightarrow> error" where
  "invalid_role L role = ValidationError (''invalid role '' @ Quote (uni L) role @ '' (expected member or owner)'')"

text \<open>The check of one address: the text of the error, empty when there is none.\<close>

definition check_member :: "lib \<Rightarrow> group_info \<Rightarrow> string list \<Rightarrow> string \<Rightarrow> string op" where
  "check_member L g hosted addr = (case SplitEmail addr of
       Inl _ \<Rightarrow> Return ''not a valid email address''
     | Inr (local, domain) \<Rightarrow>
         if addr = G_Email g then Return (''a group can'' @ [CHR 0x27] @ ''t be a member of itself'')
         else if domain \<in> set hosted then andThen (AddressKind L addr) (\<lambda>kind.
           Return (if kind = [] then ''no mailbox, group or alias with this address exists on this server'' else []))
         else if \<not> G_AllowExternal g then Return (''external addresses aren'' @ [CHR 0x27]
           @ ''t allowed in this group (change it in the group'' @ [CHR 0x27] @ ''s settings)'')
         else Return [])"

fun add_members :: "lib \<Rightarrow> group_info \<Rightarrow> string list \<Rightarrow> string \<Rightarrow> string list \<Rightarrow> member_result list op" where
  "add_members L g hosted role [] = Return []"
| "add_members L g hosted role (a # rest) =
     (let addr = ToLower (uni L) (TrimSpace a) in
      if addr = [] then add_members L g hosted role rest
      else andThen (check_member L g hosted addr) (\<lambda>err.
        andThen (if err = []
                 then Exec (\<lambda>w. upsert_member L
                   \<lparr>m_group_id = G_ID g, m_member = addr, m_role = role, m_created_at = clock w\<rparr> w)
                 else Return 0) (\<lambda>_.
        andThen (add_members L g hosted role rest) (\<lambda>results.
        Return (\<lparr>MR_Address = addr, MR_Added = (err = []), MR_Error = err\<rparr> # results)))))"

definition GroupAddMembers :: "lib \<Rightarrow> string \<Rightarrow> string list \<Rightarrow> string \<Rightarrow> member_result list op" where
  "GroupAddMembers L email addresses role =
     (if role \<noteq> RoleMember \<and> role \<noteq> RoleOwner then Raise (invalid_role L role)
      else andThen (GroupGet L email) (\<lambda>g.
           andThen (hostedDomains L) (\<lambda>hosted.
           add_members L g hosted role addresses)))"

definition is_member :: "lib \<Rightarrow> nat \<Rightarrow> string \<Rightarrow> member_row \<Rightarrow> bool" where
  "is_member L i member m \<longleftrightarrow> mkey L m = (i, ck L (ToLower (uni L) member))"

definition not_a_member :: "string \<Rightarrow> string \<Rightarrow> error" where
  "not_a_member member email = ErrNotFound (member @ '' is not a member of '' @ email)"

definition GroupRemoveMember :: "lib \<Rightarrow> string \<Rightarrow> string \<Rightarrow> unit op" where
  "GroupRemoveMember L email member =
     andThen (GroupGet L email) (\<lambda>g.
     andThen (Exec (del_members (is_member L (G_ID g) member))) (\<lambda>n.
     if n = 0 then Raise (not_a_member member email) else Return ()))"

definition GroupSetMemberRole :: "lib \<Rightarrow> string \<Rightarrow> string \<Rightarrow> string \<Rightarrow> unit op" where
  "GroupSetMemberRole L email member role =
     (if role \<noteq> RoleMember \<and> role \<noteq> RoleOwner then Raise (invalid_role L role)
      else andThen (GroupGet L email) (\<lambda>g.
        andThen (Exec (upd_members (is_member L (G_ID g) member) (\<lambda>m. m\<lparr>m_role := role\<rparr>))) (\<lambda>n.
        if n = 0
        then andThen (Attempt (Query (\<lambda>w. list_ex (is_member L (G_ID g) member) (mail_group_members w)))) (\<lambda>ex.
          if ex = Inr True then Return () else Raise (not_a_member member email))
        else Return ())))"

definition GroupsOf :: "lib \<Rightarrow> string \<Rightarrow> group_info list op" where
  "GroupsOf L address = Query (\<lambda>w.
     map (scan_group w) (sort_key (gkey L) (filter (\<lambda>g. list_ex (\<lambda>m. m_group_id m = g_id g
       \<and> ck L (m_member m) = ck L (ToLower (uni L) address)) (mail_group_members w)) (mail_groups w))))"

section \<open>The store stays consistent\<close>

lemma ok_GroupGet [keeps_ops]: "keeps (store_ok L) (GroupGet K e)"
  unfolding GroupGet_def by (intro keeps_ops)

lemma ok_GroupMembers [keeps_ops]: "keeps (store_ok L) (GroupMembers K e)"
  unfolding GroupMembers_def by (intro keeps_ops)

lemma ok_hostedDomains [keeps_ops]: "keeps (store_ok L) (hostedDomains K)"
  unfolding hostedDomains_def DomainList_def by (intro keeps_ops)

lemma ok_check_member [keeps_ops]: "keeps (store_ok L) (check_member K g h a)"
  unfolding check_member_def AddressKind_def by (intro keeps_ops)

lemma ok_add_members [keeps_ops]: "keeps (store_ok L) (add_members L g h r as)"
proof (induction as)
  case (Cons a as)
  then show ?case unfolding add_members.simps by (intro keeps_ops ok_Exec) (assumption | erule ok_upsert_member, assumption)+
qed (simp add: keeps_Return)

lemma ok_GroupAddMembers: "keeps (store_ok L) (GroupAddMembers L e as r)"
  unfolding GroupAddMembers_def by (intro keeps_ops)

lemma ok_GroupUpdate: "keeps (store_ok L) (GroupUpdate L e s)"
  unfolding GroupUpdate_def by (intro keeps_ops ok_Exec) (erule ok_upd_group, assumption, simp)

lemma ok_GroupDelete: "keeps (store_ok L) (GroupDelete L e)"
  unfolding GroupDelete_def by (intro keeps_ops ok_Exec) (erule ok_del_group ok_del_members, assumption)+

lemma ok_GroupRemoveMember: "keeps (store_ok L) (GroupRemoveMember L e m)"
  unfolding GroupRemoveMember_def by (intro keeps_ops ok_Exec) (erule ok_del_members, assumption)

lemma ok_GroupSetMemberRole: "keeps (store_ok L) (GroupSetMemberRole L e m r)"
  unfolding GroupSetMemberRole_def by (intro keeps_ops ok_Exec) (erule ok_upd_members, assumption, simp)

lemma ok_GroupCreate: "keeps (store_ok L) (GroupCreate L e0 s)"
proof (rule keepsI)
  fix w assume w: "store_ok L w"
  define e where "e = ToLower (uni L) (TrimSpace e0)"
  show "after (GroupCreate L e0 s) (\<lambda>_. store_ok L) w"
  proof (cases "SplitEmail e")
    case (Inl err)
    with w show ?thesis by (simp add: GroupCreate_def Let_def andThen_Lift wp flip: e_def)
  next
    case (Inr ld)
    then obtain l d where sp: "SplitEmail e = Inr (l, d)" by (cases ld) auto
    let ?row = "\<lambda>i w. \<lparr>g_id = 0, g_domain_id = i, g_email = e, g_name = TrimSpace (S_Name s),
           g_description = TrimSpace (S_Description s), g_post_policy = S_PostPolicy s,
           g_allow_external = S_AllowExternal s, g_created_at = clock w\<rparr>"
    let ?handle = "\<lambda>r. case r of Inl DuplicateKey \<Rightarrow> Raise (ErrExists (''group '' @ Quote (uni L) e))
        | Inl e \<Rightarrow> Raise e | Inr n \<Rightarrow> Return ()"
    have exec: "after (andThen (Attempt (Exec (\<lambda>w. ins_group L (?row i w) w))) ?handle) (\<lambda>_. store_ok L) w1"
      if ok: "store_ok L w1" and dom: "has_domain L i d w1" and g: "ck L e \<notin> ukey L ` set (virtual_users w1)"
        and a: "ck L e \<notin> (\<lambda>a. ck L (a_source a)) ` set (virtual_aliases w1)" for i w1
    proof -
      have "store_ok L w'" if "ins_group L (?row i (tick w1)) (tick w1) = Inr (n, w')" for n w'
        by (rule ok_ins_group [OF _ that])
           (use ok g a new_user_in_domain [OF sp dom] in \<open>simp_all add: gkey_def\<close>)
      with ok have "after (Attempt (Exec (\<lambda>w. ins_group L (?row i w) w))) (\<lambda>_. store_ok L) w1"
        by (auto simp: wp split: sum.split)
      then show ?thesis by (rule after_seq) (auto simp: wp split: sum.split error.split)
    qed
    have kind: "after (andThen (AddressKind L e) (\<lambda>k. if k \<noteq> [] then Raise (ErrExists (e @ '' is already in use by a '' @ k))
        else andThen (Attempt (Exec (\<lambda>w. ins_group L (?row i w) w))) ?handle)) (\<lambda>_. store_ok L) w1"
      if "store_ok L w1" "has_domain L i d w1" for i w1
    proof (rule after_seq [OF AddressKind_after [of "\<lambda>w. store_ok L w \<and> has_domain L i d w"]])
      fix k w2
      assume k: "(store_ok L w2 \<and> has_domain L i d w2) \<and> (case Inr k of Inl x \<Rightarrow> True
        | Inr k \<Rightarrow> (k \<noteq> ''group'' \<longrightarrow> k \<noteq> ''user'' \<longrightarrow> no_group L e w2 \<and> ck L e \<notin> ukey L ` set (virtual_users w2))
           \<and> (k = [] \<longrightarrow> ck L e \<notin> (\<lambda>a. ck L (a_source a)) ` set (virtual_aliases w2)))"
      show "after (if k \<noteq> [] then Raise (ErrExists (e @ '' is already in use by a '' @ k))
        else andThen (Attempt (Exec (\<lambda>w. ins_group L (?row i w) w))) ?handle) (\<lambda>_. store_ok L) w2"
      proof (cases "k = []")
        case True
        then have "(k \<noteq> []) = False" by simp
        then show ?thesis
          unfolding if_False by (simp only: if_False) (rule exec, use k True in auto)
      qed (use k in \<open>simp add: wp\<close>)
    qed (use that in auto)
    have dom: "after (andThen (domainID L d) (\<lambda>i. andThen (AddressKind L e) (\<lambda>k. if k \<noteq> [] then Raise (ErrExists (e @ '' is already in use by a '' @ k))
        else andThen (Attempt (Exec (\<lambda>w. ins_group L (?row i w) w))) ?handle))) (\<lambda>_. store_ok L) w"
      by (rule after_seq [OF domainID_after [of "store_ok L"]]) (use w kind in auto)
    show ?thesis
      unfolding GroupCreate_def Let_def e_def [symmetric] sp andThen_Lift prod.case
      by (rule after_seq [of "Lift x" "\<lambda>r w1. w1 = w" for x]) (use w dom in \<open>auto simp: wp(3)\<close>)
  qed
qed

section \<open>Adding members\<close>

text \<open>What an address must be to be added to a group.\<close>

definition may_join :: "lib \<Rightarrow> world \<Rightarrow> group_info \<Rightarrow> string list \<Rightarrow> string \<Rightarrow> bool" where
  "may_join L w g hosted a \<longleftrightarrow> (\<exists>l d. SplitEmail a = Inr (l, d) \<and> a \<noteq> G_Email g
     \<and> (if d \<in> set hosted then member_kind L w a \<in> {''user'', ''group'', ''alias''} else G_AllowExternal g))"

text \<open>The tables the check of an address looks at.\<close>

definition same_names :: "world \<Rightarrow> world \<Rightarrow> bool" where
  "same_names w w1 \<longleftrightarrow> virtual_domains w1 = virtual_domains w \<and> virtual_users w1 = virtual_users w
     \<and> virtual_aliases w1 = virtual_aliases w \<and> mail_groups w1 = mail_groups w"

lemma same_names_simps [simp]:
  "same_names w w" "same_names w (tick w1) = same_names w w1"
  "same_names w (w1\<lparr>mail_group_members := ms\<rparr>) = same_names w w1"
  by (simp_all add: same_names_def)

lemma same_names_kind: "same_names w w1 \<Longrightarrow> member_kind L w1 = member_kind L w"
  by (rule ext) (simp add: same_names_def member_kind_def)

lemma same_names_join: "same_names w w1 \<Longrightarrow> may_join L w1 = may_join L w"
  by (intro ext) (simp add: may_join_def same_names_kind)

definition members_step :: "lib \<Rightarrow> world \<Rightarrow> group_info \<Rightarrow> string list \<Rightarrow> string \<Rightarrow> member_row list \<Rightarrow> bool" where
  "members_step L w g hosted role ms \<longleftrightarrow> (\<forall>m\<in>set ms. m \<in> set (mail_group_members w)
     \<or> m_group_id m = G_ID g \<and> m_role m = role
       \<and> (may_join L w g hosted (m_member m)
          \<or> (\<exists>m0\<in>set (mail_group_members w). m_group_id m0 = G_ID g \<and> m_member m0 = m_member m)))"

lemma check_member_after:
  assumes "same_names w w1" and "I w1" and "\<And>w. I w \<Longrightarrow> I (tick w)"
  shows "after (check_member L g hosted a) (\<lambda>r w2. same_names w w2 \<and> I w2
      \<and> (case r of Inl e \<Rightarrow> True | Inr err \<Rightarrow> (if err = [] then may_join L w g hosted a else True))) w1"
proof (cases "SplitEmail a")
  case (Inr ld)
  then obtain l d where "SplitEmail a = Inr (l, d)" by (cases ld) auto
  with assms show ?thesis
    by (auto simp: check_member_def AddressKind_def wp may_join_def member_kind_def same_names_def)
qed (use assms in \<open>auto simp: check_member_def wp\<close>)

lemma upsert_member_step:
  assumes "members_step L w g hosted role (mail_group_members w1)" and "may_join L w g hosted a"
    and "upsert_member L \<lparr>m_group_id = G_ID g, m_member = a, m_role = role, m_created_at = t\<rparr> w1 = Inr (n, w2)"
  shows "members_step L w g hosted role (mail_group_members w2)"
  unfolding members_step_def
proof
  let ?m = "\<lparr>m_group_id = G_ID g, m_member = a, m_role = role, m_created_at = t\<rparr>"
  fix m assume "m \<in> set (mail_group_members w2)"
  with assms(3) have "m \<in> set (upsert_row (mkey L) ?m (\<lambda>x. x\<lparr>m_role := role\<rparr>) (mail_group_members w1))"
    by (auto simp: upsert_member_def split: if_splits)
  then consider "m = ?m" | "m \<in> set (mail_group_members w1)"
    | y where "y \<in> set (mail_group_members w1)" "m = y\<lparr>m_role := role\<rparr>" "m_group_id y = G_ID g"
    by (auto dest!: set_upsert_row simp: mkey_def)
  then show "m \<in> set (mail_group_members w) \<or> m_group_id m = G_ID g \<and> m_role m = role
      \<and> (may_join L w g hosted (m_member m)
         \<or> (\<exists>m0\<in>set (mail_group_members w). m_group_id m0 = G_ID g \<and> m_member m0 = m_member m))"
  proof cases
    case 1
    with assms(2) show ?thesis by simp
  next
    case 2
    with assms(1) show ?thesis by (auto simp: members_step_def)
  next
    case 3
    with assms(1) show ?thesis by (fastforce simp: members_step_def)
  qed
qed

lemma add_members_step:
  assumes "same_names w w1" and "members_step L w g hosted role (mail_group_members w1)"
  shows "after (add_members L g hosted role as) (\<lambda>r w2. same_names w w2
      \<and> members_step L w g hosted role (mail_group_members w2)) w1"
  using assms
proof (induction as arbitrary: w1)
  case Nil
  then show ?case by (simp add: wp)
next
  case (Cons a as)
  let ?I = "\<lambda>w1. members_step L w g hosted role (mail_group_members w1)"
  let ?addr = "ToLower (uni L) (TrimSpace a)"
  show ?case
  proof (cases "?addr = []")
    case True
    with Cons show ?thesis by simp
  next
    case False
    have tail: "after (andThen (add_members L g hosted role as) (\<lambda>rs. Return (f rs))) (\<lambda>r w2. same_names w w2 \<and> ?I w2) w2"
      if "same_names w w2" "?I w2" for w2 and f :: "member_result list \<Rightarrow> member_result list"
      by (rule after_seq [OF Cons.IH [OF that]]) (auto simp: wp)
    have ins: "after (Exec (\<lambda>w. upsert_member L \<lparr>m_group_id = G_ID g, m_member = ?addr, m_role = role,
        m_created_at = clock w\<rparr> w)) (\<lambda>r w3. same_names w w3 \<and> ?I w3) w2"
      if "same_names w w2" "?I w2" "may_join L w g hosted ?addr" for w2
      using that upsert_member_step [of L w g hosted role "tick w2" ?addr]
      by (auto simp: wp upsert_member_def split: if_splits)
    show ?thesis
      using False
      unfolding add_members.simps Let_def
      apply (simp only: if_False)
      apply (rule after_seq [OF check_member_after [where I = ?I, OF Cons.prems]])
        apply simp
       apply simp
      subgoal for err w2
        apply (rule after_seq [where P = "\<lambda>r w3. same_names w w3 \<and> ?I w3"])
          apply (cases "err = []")
           apply (auto simp: after_Return intro!: ins tail)
        done
      done
  qed
qed

text \<open>
  C20: Adding members never lets in what the group does not allow. Whatever fails on the way, every row of
  \<open>mail_group_members\<close> is an old row, or belongs to this group, carries the requested role and holds an address that was a member before
  or is a valid address, not the group's own, that exists on this server, or lies outside the hosted domains
  while the group allows external members.
\<close>

theorem GroupAddMembers_allowed:
  "after (GroupAddMembers L email addresses role) (\<lambda>r w'.
     list_all (\<lambda>m. m \<in> set (mail_group_members w)
       \<or> (\<exists>g\<in>set (mail_groups w). m_group_id m = g_id g \<and> gkey L g = ck L (ToLower (uni L) email)
            \<and> m_role m = role \<and> role \<in> {''member'', ''owner''}
            \<and> (may_join L w (scan_group w g) (map (\<lambda>d. ToLower (uni L) (d_name d)) (sort_key (dkey L) (virtual_domains w))) (m_member m)
               \<or> (\<exists>m0\<in>set (mail_group_members w). m_group_id m0 = g_id g \<and> m_member m0 = m_member m))))
       (mail_group_members w')) w"
proof (cases "role \<noteq> RoleMember \<and> role \<noteq> RoleOwner")
  case True
  then show ?thesis by (simp add: GroupAddMembers_def wp list_all_iff)
next
  case False
  then have role: "role \<in> {''member'', ''owner''}" by (auto simp: RoleMember_def RoleOwner_def)
  let ?hosted = "map (\<lambda>d. ToLower (uni L) (d_name d)) (sort_key (dkey L) (virtual_domains w))"
  show ?thesis
  proof (cases "row_at (gkey L) (ck L (ToLower (uni L) email)) (mail_groups w)")
    case None
    with False show ?thesis by (auto simp: GroupAddMembers_def GroupGet_def wp list_all_iff)
  next
    case (Some g)
    note g = row_at_Some [OF Some]
    have "after (add_members L (scan_group w g) ?hosted role addresses) (\<lambda>r w2. same_names w w2
        \<and> members_step L w (scan_group w g) ?hosted role (mail_group_members w2)) (tick (tick w))"
      by (rule add_members_step) (auto simp: members_step_def)
    then have "after (add_members L (scan_group w g) ?hosted role addresses) (\<lambda>r w'.
       list_all (\<lambda>m. m \<in> set (mail_group_members w)
       \<or> (\<exists>g\<in>set (mail_groups w). m_group_id m = g_id g \<and> gkey L g = ck L (ToLower (uni L) email)
            \<and> m_role m = role \<and> role \<in> {''member'', ''owner''}
            \<and> (may_join L w (scan_group w g) ?hosted (m_member m)
               \<or> (\<exists>m0\<in>set (mail_group_members w). m_group_id m0 = g_id g \<and> m_member m0 = m_member m))))
       (mail_group_members w')) (tick (tick w))"
      by (rule after_mono) (use g role in \<open>fastforce simp: members_step_def list_all_iff scan_group_def\<close>)
    with False Some show ?thesis
      by (auto simp: GroupAddMembers_def GroupGet_def hostedDomains_def DomainList_def wp list_all_iff)
  qed
qed

text \<open>What a result claims about a world.\<close>

definition reported :: "lib \<Rightarrow> nat \<Rightarrow> string \<Rightarrow> world \<Rightarrow> member_result \<Rightarrow> bool" where
  "reported L i role w x \<longleftrightarrow> MR_Added x = (MR_Error x = [])
     \<and> (if MR_Added x then \<exists>m\<in>set (mail_group_members w). mkey L m = (i, ck L (MR_Address x)) \<and> m_role m = role else True)"

lemma reported_tick [simp]: "reported L i role (tick w) = reported L i role w"
  by (rule ext) (simp add: reported_def)

lemma upsert_member_present:
  assumes "upsert_member L m w = Inr (n, w')"
  shows "\<exists>x\<in>set (mail_group_members w'). mkey L x = mkey L m \<and> m_role x = m_role m"
proof -
  have w': "mail_group_members w' = upsert_row (mkey L) m (\<lambda>x. x\<lparr>m_role := m_role m\<rparr>) (mail_group_members w)"
    using assms by (auto simp: upsert_member_def split: if_splits)
  show ?thesis
  proof (cases "mkey L m \<in> mkey L ` set (mail_group_members w)")
    case True
    then obtain y where y: "y \<in> set (mail_group_members w)" "mkey L y = mkey L m" by auto
    then have "y\<lparr>m_role := m_role m\<rparr> \<in> set (mail_group_members w')"
      using True by (force simp: w' upsert_row_def)
    moreover have "mkey L (y\<lparr>m_role := m_role m\<rparr>) = mkey L m" using y by (simp add: mkey_def)
    ultimately show ?thesis by force
  next
    case False
    then show ?thesis by (auto simp: w' upsert_row_new)
  qed
qed

lemma upsert_member_reported:
  assumes "upsert_member L m w = Inr (n, w')" and "m_role m = role" and "reported L i role w x"
  shows "reported L i role w' x"
proof -
  have w': "mail_group_members w' = upsert_row (mkey L) m (\<lambda>x. x\<lparr>m_role := role\<rparr>) (mail_group_members w)"
    using assms(1,2) by (auto simp: upsert_member_def split: if_splits)
  have "\<exists>z\<in>set (mail_group_members w'). mkey L z = mkey L y \<and> m_role z = role"
    if "y \<in> set (mail_group_members w)" "m_role y = role" for y
  proof (cases "mkey L m \<in> mkey L ` set (mail_group_members w) \<and> mkey L y = mkey L m")
    case True
    then have "y\<lparr>m_role := role\<rparr> \<in> set (mail_group_members w')"
      using that by (force simp: w' upsert_row_def)
    then show ?thesis by (rule bexI [rotated]) (simp add: mkey_def)
  next
    case False
    then have "y \<in> set (mail_group_members w')"
      using that by (force simp: w' upsert_row_def)
    with that show ?thesis by blast
  qed
  with assms(3) show ?thesis by (fastforce simp: reported_def)
qed

lemma add_members_reports:
  "after (add_members L g hosted role as) (\<lambda>r w2.
     (\<forall>x. reported L (G_ID g) role w1 x \<longrightarrow> reported L (G_ID g) role w2 x)
     \<and> (case r of Inl e \<Rightarrow> True | Inr results \<Rightarrow>
          map MR_Address results = filter (\<lambda>a. a \<noteq> []) (map (\<lambda>a. ToLower (uni L) (TrimSpace a)) as)
          \<and> list_all (reported L (G_ID g) role w2) results)) w1"
proof (induction as arbitrary: w1)
  case Nil
  then show ?case by (simp add: wp)
next
  case (Cons a as)
  let ?addr = "ToLower (uni L) (TrimSpace a)"
  let ?R = "reported L (G_ID g) role"
  let ?Q = "\<lambda>b r w2. (\<forall>x. ?R w1 x \<longrightarrow> ?R w2 x) \<and> (case r of Inl e \<Rightarrow> True | Inr results \<Rightarrow>
          map MR_Address results = filter (\<lambda>a. a \<noteq> []) (map (\<lambda>a. ToLower (uni L) (TrimSpace a)) b)
          \<and> list_all (?R w2) results)"
  show ?case
  proof (cases "?addr = []")
    case True
    with Cons.IH [of w1] show ?thesis
      by (simp only: add_members.simps Let_def if_True list.map filter.simps simp_thms if_False)
  next
    case False
    have chk: "after (check_member L g hosted ?addr) (\<lambda>r w2. \<forall>x. ?R w1 x \<longrightarrow> ?R w2 x) w1"
      by (auto simp: check_member_def AddressKind_def wp split: sum.split prod.split)
    have tail: "after (andThen (add_members L g hosted role as) (\<lambda>rs.
        Return (\<lparr>MR_Address = ?addr, MR_Added = (err = []), MR_Error = err\<rparr> # rs))) (?Q (a # as)) w3"
      if "\<forall>x. ?R w1 x \<longrightarrow> ?R w3 x" "?R w3 \<lparr>MR_Address = ?addr, MR_Added = (err = []), MR_Error = err\<rparr>" for w3 err
      by (rule after_seq [OF Cons.IH]) (use that False in \<open>auto simp: wp\<close>)
    have rest: "after (andThen (if err = [] then Exec (\<lambda>w. upsert_member L
           \<lparr>m_group_id = G_ID g, m_member = ?addr, m_role = role, m_created_at = clock w\<rparr> w) else Return 0)
        (\<lambda>_. andThen (add_members L g hosted role as) (\<lambda>rs.
        Return (\<lparr>MR_Address = ?addr, MR_Added = (err = []), MR_Error = err\<rparr> # rs)))) (?Q (a # as)) w2"
      if w2: "\<forall>x. ?R w1 x \<longrightarrow> ?R w2 x" for err w2
    proof (rule after_seq [where P = "\<lambda>r w3. (\<forall>x. ?R w1 x \<longrightarrow> ?R w3 x) \<and> (case r of Inl e \<Rightarrow> True
        | Inr n \<Rightarrow> ?R w3 \<lparr>MR_Address = ?addr, MR_Added = (err = []), MR_Error = err\<rparr>)"])
      let ?m = "\<lambda>t. \<lparr>m_group_id = G_ID g, m_member = ?addr, m_role = role, m_created_at = t\<rparr>"
      have new: "?R w3 \<lparr>MR_Address = ?addr, MR_Added = True, MR_Error = []\<rparr>"
        if "upsert_member L (?m t) w = Inr (n, w3)" for t w n w3
        using upsert_member_present [OF that] by (simp add: reported_def mkey_def)
      have old: "?R w3 x" if "upsert_member L (?m t) w = Inr (n, w3)" "?R w x" for t w n w3 x
        by (rule upsert_member_reported [OF that(1) _ that(2)]) simp
      show "after (if err = [] then Exec (\<lambda>w. upsert_member L
           \<lparr>m_group_id = G_ID g, m_member = ?addr, m_role = role, m_created_at = clock w\<rparr> w) else Return 0)
        (\<lambda>r w3. (\<forall>x. ?R w1 x \<longrightarrow> ?R w3 x) \<and> (case r of Inl e \<Rightarrow> True
        | Inr n \<Rightarrow> ?R w3 \<lparr>MR_Address = ?addr, MR_Added = (err = []), MR_Error = err\<rparr>)) w2"
        using w2 new old by (auto simp: wp reported_def [of _ _ _ _ "\<lparr>MR_Address = a, MR_Added = False, MR_Error = e\<rparr>" for a e]
            split: sum.split)
    qed (auto intro: tail)
    show ?thesis
      using False unfolding add_members.simps Let_def
      by (simp only: if_False) (rule after_seq [OF chk], simp, erule rest)
  qed
qed

text \<open>
  Adding members reports on every address: the results are, in order, the non-blank addresses that were given, lower-cased and
  trimmed; an address counts as added exactly when its error text is empty; and every address reported as added is a member of the group,
  with the requested role, when the operation returns.
\<close>

theorem GroupAddMembers_reports:
  "after (GroupAddMembers L email addresses role) (\<lambda>r w'. case r of
       Inl e \<Rightarrow> True
     | Inr results \<Rightarrow>
         map MR_Address results = filter (\<lambda>a. a \<noteq> []) (map (\<lambda>a. ToLower (uni L) (TrimSpace a)) addresses)
         \<and> (\<exists>g\<in>set (mail_groups w). gkey L g = ck L (ToLower (uni L) email)
              \<and> list_all (reported L (g_id g) role w') results)) w"
proof (cases "role \<noteq> RoleMember \<and> role \<noteq> RoleOwner")
  case True
  then show ?thesis by (simp add: GroupAddMembers_def wp)
next
  case False
  show ?thesis
  proof (cases "row_at (gkey L) (ck L (ToLower (uni L) email)) (mail_groups w)")
    case None
    with False show ?thesis by (auto simp: GroupAddMembers_def GroupGet_def wp)
  next
    case (Some g)
    let ?hosted = "map (\<lambda>d. ToLower (uni L) (d_name d)) (sort_key (dkey L) (virtual_domains w))"
    have "after (add_members L (scan_group w g) ?hosted role addresses) (\<lambda>r w'. case r of
       Inl e \<Rightarrow> True
     | Inr results \<Rightarrow>
         map MR_Address results = filter (\<lambda>a. a \<noteq> []) (map (\<lambda>a. ToLower (uni L) (TrimSpace a)) addresses)
         \<and> (\<exists>g\<in>set (mail_groups w). gkey L g = ck L (ToLower (uni L) email)
              \<and> list_all (reported L (g_id g) role w') results)) (tick (tick w))"
      by (rule after_mono [OF add_members_reports])
         (use row_at_Some [OF Some] in \<open>auto simp: scan_group_def split: sum.splits\<close>)
    with False Some show ?thesis
      by (auto simp: GroupAddMembers_def GroupGet_def hostedDomains_def DomainList_def wp)
  qed
qed

text \<open>
  C21: Changing a group's settings changes no table, no file and nothing outside when it reports an error; when it succeeds exactly that group's name, description,
  policy and openness are the new ones and everything else is as it was, and a group that was open to external addresses has become closed only because it has no
  external member.
\<close>

theorem GroupUpdate_guarded:
  "after (GroupUpdate L email s) (\<lambda>r w'. (case r of
       Inl e \<Rightarrow> touches w w'
     | Inr u \<Rightarrow> (\<exists>g. row_at (gkey L) (ck L (ToLower (uni L) email)) (mail_groups w) = Some g
         \<and> validate_settings L s = Inr ()
         \<and> touches (w\<lparr>mail_groups := map (\<lambda>x. if g_id x = g_id g
              then x\<lparr>g_name := TrimSpace (S_Name s), g_description := TrimSpace (S_Description s),
                     g_post_policy := S_PostPolicy s, g_allow_external := S_AllowExternal s\<rparr>
              else x) (mail_groups w)\<rparr>) w'
         \<and> (if g_allow_external g \<and> \<not> S_AllowExternal s
            then list_all (\<lambda>m. member_kind L w (m_member m) \<noteq> ''external'')
                   (filter (\<lambda>m. m_group_id m = g_id g) (mail_group_members w))
            else True)))
     \<and> fs w' = fs w \<and> outbound w' = outbound w) w"
proof (cases "row_at (gkey L) (ck L (ToLower (uni L) email)) (mail_groups w)")
  case None
  then show ?thesis by (auto simp: GroupUpdate_def GroupGet_def wp split: sum.split)
next
  case (Some g)
  have mk: "member_kind L (tick v) = member_kind L v" "scan_group (tick v) = scan_group v" "scan_member L (tick v) = scan_member L v" for v
    by (auto simp: member_kind_def scan_group_def scan_member_def Let_def fun_eq_iff)
  have none: "(\<forall>m\<in>set (order_members L ms). member_kind L w (m_member m) \<noteq> ''external'')
      = list_all (\<lambda>m. member_kind L w (m_member m) \<noteq> ''external'') ms" for ms
    by (simp add: order_members_def list_all_iff)
  have ext: "filter (\<lambda>m. GM_Kind m = ''external'') (map (scan_member L w) (order_members L ms)) = []
      \<longleftrightarrow> list_all (\<lambda>m. member_kind L w (m_member m) \<noteq> ''external'') ms" for ms
    by (auto simp: filter_empty_conv scan_member_def Let_def simp flip: none)
  show ?thesis
    using Some
    by (auto simp: GroupUpdate_def GroupGet_def GroupMembers_def wp mk upd_group_def update_rows_def Let_def
        scan_group_def ext touches_def split: sum.split intro!: exI [of _ g])
qed

end
