(* ===== verification/Routing.thy ===== *)
theory Routing
  imports Mail_Groups "HOL-Library.AList"
begin

text \<open>
  Package mailbox, file \<open>routing.go\<close>: forwarding, alternate addresses, catch-all addresses, disk usage, the search of the
  dashboard and its counters.
\<close>

section \<open>Forwarding\<close>

record forward =
  F_Destination :: string
  F_KeepCopy :: bool

definition ForwardGet :: "lib \<Rightarrow> string \<Rightarrow> forward option op" where
  "ForwardGet L email = Query (\<lambda>w. map_option (\<lambda>f. \<lparr>F_Destination = f_destination f, F_KeepCopy = f_keep_copy f\<rparr>)
     (row_at (fkey L) (ck L email) (mailbox_forwards w)))"

definition ForwardSet :: "lib \<Rightarrow> string \<Rightarrow> string \<Rightarrow> bool \<Rightarrow> unit op" where
  "ForwardSet L email destination0 keepCopy =
     (let destination = ToLower (uni L) (TrimSpace destination0) in
      if ValidateEmail destination \<noteq> Inr ()
      then Raise (ValidationError (''invalid forwarding address: '' @ destination))
      else if EqualFold (uni L) destination email
      then Raise (ValidationError (''a mailbox can'' @ [CHR 0x27] @ ''t forward to itself''))
      else andThen (MailboxGet L email) (\<lambda>_.
           andThen (Exec (upsert_forward L \<lparr>f_email = email, f_destination = destination, f_keep_copy = keepCopy\<rparr>)) (\<lambda>_.
           Return ())))"

definition ForwardClear :: "lib \<Rightarrow> string \<Rightarrow> unit op" where
  "ForwardClear L email = andThen (Exec (del_forward L email)) (\<lambda>_. Return ())"

section \<open>Aliases to an address and catch-all addresses\<close>

definition AliasesTo :: "lib \<Rightarrow> string \<Rightarrow> string list op" where
  "AliasesTo L destination = Query (\<lambda>w. map a_source (sort_key (\<lambda>a. ck L (a_source a))
     (filter (\<lambda>a. ck L (a_destination a) = ck L destination \<and> not_catchall a) (virtual_aliases w))))"

definition CatchAllGet :: "lib \<Rightarrow> string \<Rightarrow> string op" where
  "CatchAllGet L domain = Query (\<lambda>w. case find (\<lambda>a. ck L (a_source a) = ck L (''@'' @ domain)) (virtual_aliases w) of
       None \<Rightarrow> [] | Some a \<Rightarrow> a_destination a)"

definition del_catchall :: "lib \<Rightarrow> string \<Rightarrow> nat op" where
  "del_catchall L domain = Exec (del_aliases (\<lambda>a. ck L (a_source a) = ck L (''@'' @ domain)))"

definition CatchAllSet :: "lib \<Rightarrow> string \<Rightarrow> string \<Rightarrow> unit op" where
  "CatchAllSet L domain destination0 =
     andThen (domainID L domain) (\<lambda>domID.
     if destination0 = [] then andThen (del_catchall L domain) (\<lambda>_. Return ())
     else (let destination = ToLower (uni L) (TrimSpace destination0) in
       if ValidateEmail destination \<noteq> Inr ()
       then Raise (ValidationError (''invalid catch-all address: '' @ destination))
       else Transaction (
         andThen (del_catchall L domain) (\<lambda>_.
         andThen (Exec (ins_alias L \<lparr>a_domain_id = domID, a_source = ''@'' @ domain, a_destination = destination\<rparr>)) (\<lambda>_.
         Return ())))))"

section \<open>Disk usage\<close>

text \<open>
  \<open>bufio.Scanner\<close> over a file: the lines, each without a carriage return at its end, up to the first that does not fit the
  buffer of 64 KiB.
\<close>

definition raw_lines :: "string \<Rightarrow> string list" where
  "raw_lines s = (let ls = split_on (CHR 0x0A) s in if last ls = [] then butlast ls else ls)"

definition scan_lines :: "string \<Rightarrow> string list" where
  "scan_lines s = map (\<lambda>l. TrimSuffix l [CHR 0x0D]) (takeWhile (\<lambda>l. length l < 65536) (raw_lines s))"

text \<open>What one line adds to the total.\<close>

definition line_bytes :: "string \<Rightarrow> int" where
  "line_bytes l = (case Fields l of [] \<Rightarrow> 0 | f # rest \<Rightarrow> (case ParseInt64 f of Some n \<Rightarrow> n | None \<Rightarrow> 0))"

definition usage_of :: "string \<Rightarrow> int" where
  "usage_of c = (let sum = foldl (\<lambda>t l. i64 (t + line_bytes l)) 0 (drop 1 (scan_lines c)) in if sum < 0 then 0 else sum)"

definition UsageBytes :: "string \<Rightarrow> int op" where
  "UsageBytes email = (case SplitEmail email of
       Inl e \<Rightarrow> Return 0
     | Inr (local, domain) \<Rightarrow>
         andThen (Attempt (ReadFile (Join_path [mailboxDir domain local, ''Maildir'', ''maildirsize'']))) (\<lambda>r. case r of
             Inl e \<Rightarrow> Return 0
           | Inr c \<Rightarrow> Return (usage_of c)))"

section \<open>Searching\<close>

record mailbox_filter =
  MF_Domain :: string
  MF_Query :: string
  MF_Status :: string
  MF_Limit :: int
  MF_Offset :: int

definition search_cond :: "lib \<Rightarrow> world \<Rightarrow> mailbox_filter \<Rightarrow> user_row \<Rightarrow> bool" where
  "search_cond L w f u \<longleftrightarrow>
     (MF_Domain f \<noteq> [] \<longrightarrow> of_domain L w (MF_Domain f) (u_domain_id u))
   \<and> (let q = TrimSpace (MF_Query f); pat = ''%'' @ escapeLike q @ ''%'' in
      q \<noteq> [] \<longrightarrow> like L (u_email u) pat \<or> like L (u_display_name u) pat)
   \<and> (MF_Status f = ''active'' \<longrightarrow> u_enabled u) \<and> (MF_Status f = ''suspended'' \<longrightarrow> \<not> u_enabled u)"

definition scan_mailbox_full :: "user_row \<Rightarrow> mailbox" where
  "scan_mailbox_full u = (scan_mailbox u)\<lparr>CreatedAt := u_created_at u\<rparr>"

text \<open>\<open>LIMIT ? OFFSET ?\<close>; MariaDB refuses a negative offset.\<close>

definition page :: "int \<Rightarrow> int \<Rightarrow> 'a list \<Rightarrow> 'a list" where
  "page limit offset xs = take (nat limit) (drop (nat offset) xs)"

definition MailboxSearch :: "lib \<Rightarrow> mailbox_filter \<Rightarrow> (mailbox list \<times> nat) op" where
  "MailboxSearch L f =
     andThen (Query (\<lambda>w. count_rows (search_cond L w f) (virtual_users w))) (\<lambda>hits.
     let limit = (if MF_Limit f \<le> 0 then 50 else MF_Limit f) in
     if MF_Offset f < 0 then Raise DBError
     else andThen (Query (\<lambda>w. map scan_mailbox_full (page limit (MF_Offset f)
            (sort_key (ukey L) (filter (search_cond L w f) (virtual_users w)))))) (\<lambda>rows.
          Return (rows, hits)))"

record domain_stats =
  DS_Users :: nat
  DS_Suspended :: nat
  DS_Groups :: nat
  DS_Aliases :: nat

definition domain_stats_of :: "world \<Rightarrow> nat \<Rightarrow> domain_stats" where
  "domain_stats_of w i = \<lparr>DS_Users = count_rows (\<lambda>u. u_domain_id u = i) (virtual_users w),
     DS_Suspended = count_rows (\<lambda>u. u_domain_id u = i \<and> \<not> u_enabled u) (virtual_users w),
     DS_Groups = count_rows (\<lambda>g. g_domain_id g = i) (mail_groups w),
     DS_Aliases = count_rows (\<lambda>a. a_domain_id a = i \<and> not_catchall a) (virtual_aliases w)\<rparr>"

text \<open>The map the source returns, as the list of its entries.\<close>

definition DomainStatsAll :: "(string \<times> domain_stats) list op" where
  "DomainStatsAll = Query (\<lambda>w. fold (\<lambda>d. AList.update (d_name d) (domain_stats_of w (d_id d))) (virtual_domains w) [])"

section \<open>The store stays consistent\<close>

lemma ok_ForwardSet: "keeps (store_ok L) (ForwardSet L e d k)"
  unfolding ForwardSet_def by (intro keeps_ops ok_Exec) (erule ok_upsert_forward, assumption)

lemma ok_ForwardClear: "keeps (store_ok L) (ForwardClear L e)"
  unfolding ForwardClear_def by (intro keeps_ops ok_Exec) (erule ok_del_forward, assumption)

lemma keeps_Transaction:
  assumes "keeps I m" and "\<And>w. I w \<Longrightarrow> I (tick w)" and "\<And>w fl. I w \<Longrightarrow> I (w\<lparr>faults := fl\<rparr>)"
  shows "keeps I (Transaction m)"
  using assms unfolding keeps_def after_def Transaction_def
  by (auto split: prod.splits sum.splits)

text \<open>A catch-all never has the address of a group: a group's address does not start with an \<open>@\<close>.\<close>

lemma catchall_not_a_group:
  assumes "collation_ok L" and "store_ok L w"
  shows "ck L (''@'' @ domain) \<notin> gkey L ` set (mail_groups w)"
proof
  assume "ck L (''@'' @ domain) \<in> gkey L ` set (mail_groups w)"
  then obtain g where g: "g \<in> set (mail_groups w)" "sql_eq L (CHR ''@'' # domain) (g_email g)"
    by (auto simp: gkey_def sql_eq_def)
  then have "ValidateEmail (g_email g) = Inr ()"
    using assms(2) SplitEmail_Inr by (fastforce simp: store_ok_def names_ok_def in_domain_def)
  then obtain l d where e: "g_email g = l @ CHR ''@'' # d" "safe_comp l" "\<forall>c\<in>set l. plain_byte c"
    by (rule ValidateEmail_shape)
  then obtain c cs where c: "l = c # cs" by (cases l) (auto simp: safe_comp_def)
  have "printable c" "c \<noteq> CHR '' ''" "c \<noteq> CHR ''@''"
    using e(3) by (auto simp: c plain_byte_def is_space_def printable_def)
  with assms(1) g(2) show False by (auto simp: e(1) c collation_ok_def)
qed

lemma ok_CatchAllSet:
  assumes "collation_ok L"
  shows "keeps (store_ok L) (CatchAllSet L domain destination)"
proof -
  have group: "ck L (''@'' @ domain) \<notin> gkey L ` set (mail_groups w)" if "store_ok L w" for w
    using assms that by (rule catchall_not_a_group)
  have ins: "keeps (store_ok L) (Exec (ins_alias L \<lparr>a_domain_id = i, a_source = ''@'' @ domain, a_destination = d\<rparr>))" for i d
    by (rule ok_Exec, frule group, erule (1) ok_ins_alias) simp
  have del: "keeps (store_ok L) (del_catchall L domain)"
    unfolding del_catchall_def by (intro ok_Exec) (erule ok_del_aliases, assumption)
  show ?thesis
    unfolding CatchAllSet_def domainID_def
    by (intro keeps_ops keeps_Transaction ins del) simp_all
qed

section \<open>Properties\<close>

text \<open>
  C22: Changing a catch-all is all or nothing. When \<open>CatchAllSet\<close> reports an error, at whatever statement, the aliases are as they were;
  when it succeeds the domain has exactly the new catch-all (none, when the destination is empty), and every other alias is untouched.
\<close>

theorem CatchAllSet_atomic:
  "after (CatchAllSet L domain destination) (\<lambda>r w'. case r of
       Inl e \<Rightarrow> virtual_aliases w' = virtual_aliases w
     | Inr u \<Rightarrow> (\<exists>i. has_domain L i domain w \<and> virtual_aliases w' =
           filter (\<lambda>a. ck L (a_source a) \<noteq> ck L (''@'' @ domain)) (virtual_aliases w)
           @ (if destination = [] then []
              else [\<lparr>a_domain_id = i, a_source = ''@'' @ domain, a_destination = ToLower (uni L) (TrimSpace destination)\<rparr>]))) w"
    (is "after _ ?Q w")
proof -
  let ?dest = "ToLower (uni L) (TrimSpace destination)"
  let ?new = "\<lambda>i. \<lparr>a_domain_id = i, a_source = ''@'' @ domain, a_destination = ?dest\<rparr>"
  let ?same = "\<lambda>w1 :: world. virtual_aliases w1 = virtual_aliases w \<and> virtual_domains w1 = virtual_domains w"
  define body where "body i = andThen (del_catchall L domain) (\<lambda>_. andThen (Exec (ins_alias L (?new i))) (\<lambda>_. Return ()))" for i
  have body: "after (body i) (\<lambda>r w2. case r of Inl e \<Rightarrow> True
      | Inr u \<Rightarrow> virtual_aliases w2 = filter (\<lambda>a. ck L (a_source a) \<noteq> ck L (''@'' @ domain)) (virtual_aliases w) @ [?new i]) w1"
    if "?same w1" for i w1
    using that by (auto simp: body_def wp del_catchall_def del_aliases_def ins_alias_def insert_row_def delete_rows_def
        split: sum.split)
  have tx: "after (Transaction (body i)) ?Q w1" if "?same w1" "has_domain L i domain w" "destination \<noteq> []" for i w1
    using body [of "tick w1" i] that
    by (auto simp: after_def Transaction_def split: prod.splits sum.splits)
  have dom: "after (domainID L domain) (\<lambda>r w1. ?same w1 \<and> (case r of Inl e \<Rightarrow> True | Inr i \<Rightarrow> has_domain L i domain w)) w"
    by (rule after_mono [OF domainID_after [of ?same]]) (auto simp: has_domain_def split: sum.splits)
  show ?thesis
    unfolding CatchAllSet_def Let_def body_def [symmetric]
  proof (rule after_seq [OF dom])
    fix i w1
    assume w1: "?same w1 \<and> (case Inr i of Inl e \<Rightarrow> True | Inr i \<Rightarrow> has_domain L i domain w)"
    show "after (if destination = [] then andThen (del_catchall L domain) (\<lambda>_. Return ())
        else if ValidateEmail ?dest \<noteq> Inr () then Raise (ValidationError (''invalid catch-all address: '' @ ?dest))
        else Transaction (body i)) ?Q w1"
      using w1 tx [of w1 i]
      by (auto simp: after_Raise after_andThen after_Return del_catchall_def after_Exec del_aliases_def delete_rows_def)
  qed auto
qed

text \<open>
  Forwarding is set for exactly one mailbox: when \<open>ForwardSet\<close> succeeds the mailbox exists, its rule is the lower-cased, trimmed, valid
  destination with the requested choice about the copy, and every other mailbox's rule is as it was; when it reports an error no rule has
  changed.
\<close>

lemma ForwardSet_effect:
  "after (ForwardSet L email destination keep) (\<lambda>r w'. case r of
       Inl e \<Rightarrow> mailbox_forwards w' = mailbox_forwards w
     | Inr u \<Rightarrow> ck L email \<in> ukey L ` set (virtual_users w)
         \<and> ValidateEmail (ToLower (uni L) (TrimSpace destination)) = Inr ()
         \<and> \<not> EqualFold (uni L) (ToLower (uni L) (TrimSpace destination)) email
         \<and> map_option (\<lambda>f. (f_destination f, f_keep_copy f)) (row_at (fkey L) (ck L email) (mailbox_forwards w'))
             = Some (ToLower (uni L) (TrimSpace destination), keep)
         \<and> filter (\<lambda>f. fkey L f \<noteq> ck L email) (mailbox_forwards w') = filter (\<lambda>f. fkey L f \<noteq> ck L email) (mailbox_forwards w)) w"
proof -
  let ?dest = "ToLower (uni L) (TrimSpace destination)"
  let ?row = "\<lparr>f_email = email, f_destination = ?dest, f_keep_copy = keep\<rparr>"
  let ?f = "\<lambda>x. x\<lparr>f_destination := ?dest, f_keep_copy := keep\<rparr>"
  let ?up = "upsert_row (fkey L) ?row ?f"
  have k: "fkey L ?row = ck L email" "\<And>x. fkey L (?f x) = fkey L x" by (simp_all add: fkey_def)
  have found: "map_option (\<lambda>f. (f_destination f, f_keep_copy f)) (row_at (fkey L) (ck L email) (?up t)) = Some (?dest, keep)" for t
  proof (cases "ck L email \<in> fkey L ` set t")
    case True
    have "row_at (fkey L) (ck L email) (?up t) = map_option (\<lambda>r. if fkey L r = ck L email then ?f r else r) (row_at (fkey L) (ck L email) t)"
      using True k by (subst upsert_row_old) (simp_all add: row_at_update_rows)
    moreover obtain r where "row_at (fkey L) (ck L email) t = Some r"
      using True by (metis not_None_eq row_at_None)
    ultimately show ?thesis using row_at_Some by fastforce
  next
    case False
    then have "insert_row (fkey L) ?row t = Inr (?up t)" by (simp add: insert_row_def upsert_row_new k)
    from row_at_insert_row [OF this, of "ck L email"] show ?thesis by (simp add: k)
  qed
  have others: "filter (\<lambda>f. fkey L f \<noteq> ck L email) (?up t) = filter (\<lambda>f. fkey L f \<noteq> ck L email) t" for t
  proof -
    have "filter (\<lambda>f. fkey L f \<noteq> ck L email) (map (\<lambda>x. if fkey L x = ck L email then ?f x else x) t)
        = filter (\<lambda>f. fkey L f \<noteq> ck L email) t"
      by (induction t) (simp_all add: fkey_def)
    then show ?thesis by (simp add: upsert_row_def k)
  qed
  show ?thesis
    using found others
    by (auto simp: ForwardSet_def MailboxGet_def Let_def wp upsert_forward_def fkey_def split: sum.split option.split)
qed

text \<open>
  Disk usage is the sum of all the deltas Dovecot recorded after the header line, in 64-bit arithmetic, and never negative: lines without a
  number count as nothing.
\<close>

lemma usage_of_sum:
  "usage_of c = max 0 (i64 (sum_list (map line_bytes (drop 1 (scan_lines c)))))"
proof -
  have "foldl (\<lambda>t l. i64 (t + line_bytes l)) (i64 a) ls = i64 (a + sum_list (map line_bytes ls))" for a ls
  proof (induction ls arbitrary: a)
    case (Cons l ls)
    have "i64 (i64 a + line_bytes l) = i64 (a + line_bytes l)" by (rule i64_add)
    with Cons [of "a + line_bytes l"] show ?case by (simp add: add.assoc)
  qed simp
  from this [of 0] show ?thesis by (simp add: usage_of_def Let_def i64_def)
qed

text \<open>
  A page of a search holds matching mailboxes only, at most as many as asked for (50 when the limit is not positive), and the pages
  fit together: the rows are exactly the stretch of the sorted matches that starts at the offset, and the total reported beside them is the number
  of all matches.
\<close>

lemma MailboxSearch_page:
  "after (MailboxSearch L f) (\<lambda>r w'. case r of
       Inl e \<Rightarrow> True
     | Inr (rows, hits) \<Rightarrow>
         hits = length (filter (search_cond L w f) (virtual_users w))
         \<and> length rows = min (nat (if MF_Limit f \<le> 0 then 50 else MF_Limit f)) (hits - nat (MF_Offset f))
         \<and> (\<exists>before beyond. map scan_mailbox_full (sort_key (ukey L) (filter (search_cond L w f) (virtual_users w)))
               = before @ rows @ beyond \<and> length before = min hits (nat (MF_Offset f)))) w"
proof -
  have c: "search_cond L (tick w) f = search_cond L w f"
    by (rule ext) (simp add: search_cond_def of_domain_def)
  let ?xs = "map scan_mailbox_full (sort_key (ukey L) (filter (search_cond L w f) (virtual_users w)))"
  let ?n = "nat (if MF_Limit f \<le> 0 then 50 else MF_Limit f)" and ?o = "nat (MF_Offset f)"
  have split: "\<exists>before beyond. ?xs = before @ take ?n (drop ?o ?xs) @ beyond \<and> length before = min (length ?xs) ?o"
    by (rule exI [of _ "take ?o ?xs"], rule exI [of _ "drop ?n (drop ?o ?xs)"]) (metis append_take_drop_id length_take)
  show ?thesis
    using split by (auto simp: MailboxSearch_def Let_def wp c count_rows_def page_def min.commute take_map drop_map)
qed

end
