(* ===== verification/Audit_Log.thy ===== *)
theory Audit_Log
  imports Routing
begin

text \<open>
  Package audit: the log of administrative changes. \<open>Record\<close> is \<open>AuditRecord\<close> and \<open>List\<close> is \<open>AuditList\<close>. Recording is best-effort: a failing
  statement is only logged, so the operation never returns an error.
\<close>

record audit_entry =
  AE_ID :: nat
  AE_At :: int
  AE_Actor :: string
  AE_Action :: string
  AE_Target :: string
  AE_Detail :: string
  AE_IP :: string

definition clip :: "string \<Rightarrow> nat \<Rightarrow> string" where
  "clip s n = (if length s \<le> n then s else take n s)"

text \<open>\<open>id\<close> is \<open>AUTO_INCREMENT\<close> and \<open>at\<close> is \<open>CURRENT_TIMESTAMP\<close>.\<close>

definition ins_audit :: "string \<Rightarrow> string \<Rightarrow> string \<Rightarrow> string \<Rightarrow> string \<Rightarrow> stmt" where
  "ins_audit actor action target detail ip w =
     Inr (1, w\<lparr>audit_log := audit_log w @ [\<lparr>au_id = next_id w, au_at = clock w, au_actor = actor, au_action = action,
                 au_target = target, au_detail = detail, au_ip = ip\<rparr>],
               next_id := Suc (next_id w)\<rparr>)"

definition AuditRecord :: "string \<Rightarrow> string \<Rightarrow> string \<Rightarrow> string \<Rightarrow> string \<Rightarrow> unit op" where
  "AuditRecord actor action target detail ip =
     andThen (Attempt (Exec (ins_audit (clip actor 255) (clip action 64) (clip target 255) (clip detail 1000) (clip ip 64)))) (\<lambda>_.
     Return ())"

record audit_filter =
  AF_Query :: string
  AF_Limit :: int
  AF_Offset :: int

definition audit_cond :: "lib \<Rightarrow> audit_filter \<Rightarrow> audit_row \<Rightarrow> bool" where
  "audit_cond L f e \<longleftrightarrow> (let q = TrimSpace (AF_Query f); pat = ''%'' @ escapeLike q @ ''%'' in
     q \<noteq> [] \<longrightarrow> like L (au_actor e) pat \<or> like L (au_action e) pat \<or> like L (au_target e) pat \<or> like L (au_detail e) pat)"

definition scan_entry :: "audit_row \<Rightarrow> audit_entry" where
  "scan_entry e = \<lparr>AE_ID = au_id e, AE_At = au_at e, AE_Actor = au_actor e, AE_Action = au_action e, AE_Target = au_target e,
     AE_Detail = au_detail e, AE_IP = au_ip e\<rparr>"

text \<open>\<open>ORDER BY id DESC LIMIT ? OFFSET ?\<close>; MariaDB refuses a negative offset.\<close>

definition AuditList :: "lib \<Rightarrow> audit_filter \<Rightarrow> (audit_entry list \<times> nat) op" where
  "AuditList L f =
     andThen (Query (\<lambda>w. count_rows (audit_cond L f) (audit_log w))) (\<lambda>hits.
     let limit = (if AF_Limit f \<le> 0 then 50 else AF_Limit f) in
     if AF_Offset f < 0 then Raise DBError
     else andThen (Query (\<lambda>w. map scan_entry (page limit (AF_Offset f)
            (sort_key (\<lambda>e. - int (au_id e)) (filter (audit_cond L f) (audit_log w)))))) (\<lambda>rows.
          Return (rows, hits)))"

section \<open>What is recorded is listed first\<close>

lemma AuditRecord_total: "\<exists>w'. AuditRecord a b c d e w = (Inr (), w')"
  by (auto simp: AuditRecord_def andThen_def Attempt_def Return_def split: prod.splits)

lemma AuditRecord_not_Inl [simp]: "AuditRecord a b c d e w \<noteq> (Inl x, w')"
  using AuditRecord_total [of a b c d e w] by auto

lemma length_clip [simp]: "length (clip s n) \<le> n"
  by (simp add: clip_def)

text \<open>The identifiers of the log come from the supply.\<close>

definition audit_ids_ok :: "world \<Rightarrow> bool" where
  "audit_ids_ok w \<longleftrightarrow> (\<forall>e\<in>set (audit_log w). au_id e < next_id w)"

lemma sort_key_least_last:
  fixes f :: "'a \<Rightarrow> int"
  assumes "\<And>x. x \<in> set xs \<Longrightarrow> f y < f x"
  shows "sort_key f (xs @ [y]) = y # sort_key f xs"
  using assms
proof (induction xs)
  case (Cons a xs)
  then have "sort_key f (xs @ [y]) = y # sort_key f xs" "f y < f a" by auto
  then show ?case by simp
qed simp

text \<open>
  What was recorded is the first entry of the log. When no statement fails, listing the log without a query right after a change was recorded
  gives that change first, with the actor, the action, the target and the time it was recorded with, before everything that was recorded earlier.
\<close>

lemma recorded_is_listed_first:
  assumes "audit_ids_ok w" and "faults w = []" and "TrimSpace (AF_Query f) = []" and "AF_Offset f = 0"
  shows "after (andThen (AuditRecord actor action target detail ip) (\<lambda>_. AuditList L f)) (\<lambda>r w'. audit_ids_ok w' \<and>
     (\<exists>older. r = Inr (\<lparr>AE_ID = next_id w, AE_At = clock w, AE_Actor = clip actor 255, AE_Action = clip action 64, AE_Target = clip target 255,
          AE_Detail = clip detail 1000, AE_IP = clip ip 64\<rparr> # older, Suc (length (audit_log w)))
        \<and> older = map scan_entry (take (nat (if AF_Limit f \<le> 0 then 50 else AF_Limit f) - 1)
            (sort_key (\<lambda>e. - int (au_id e)) (audit_log w))))) w"
proof -
  let ?e = "\<lparr>au_id = next_id w, au_at = clock w, au_actor = clip actor 255, au_action = clip action 64, au_target = clip target 255,
      au_detail = clip detail 1000, au_ip = clip ip 64\<rparr>"
  have all: "audit_cond L f = (\<lambda>e. True)" using assms(3) by (simp add: audit_cond_def fun_eq_iff)
  have first: "sort_key (\<lambda>e. - int (au_id e)) (audit_log w @ [?e]) = ?e # sort_key (\<lambda>e. - int (au_id e)) (audit_log w)"
    by (rule sort_key_least_last) (use assms(1) in \<open>auto simp: audit_ids_ok_def\<close>)
  obtain n where n: "nat (if AF_Limit f \<le> 0 then 50 else AF_Limit f) = Suc n"
    by (metis not_gr0 Suc_pred' not_less zero_less_nat_eq zero_less_numeral)
  show ?thesis
    using assms(1)
    by (simp add: AuditRecord_def AuditList_def wp assms(2,4) fault_def tick_def ins_audit_def all page_def n first Let_def count_rows_def
        scan_entry_def audit_ids_ok_def less_SucI)
qed

end
