(* ===== verification/Http.thy ===== *)
theory Http
  imports Audit_Log
begin

text \<open>
  What the servers share: requests, replies, and the decoding of a JSON value into the fields of a Go struct as \<open>encoding/json\<close> does it. The text of
  a body is turned into a value by a parameter, the function \<open>J\<close>: the first JSON value the bytes hold, or \<open>None\<close>.
\<close>

section \<open>Requests and replies\<close>

text \<open>
  \<open>Rq_Path\<close> is the list of the unescaped segments of the URL's path; header names are the canonical ones; \<open>Rq_Query\<close> is the first value of a query
  parameter, empty when it is missing.
\<close>

record http_request =
  Rq_Method :: string
  Rq_Host :: string
  Rq_Path :: "string list"
  Rq_Query :: "string \<Rightarrow> string"
  Rq_Header :: "string \<Rightarrow> string"
  Rq_RemoteAddr :: string
  Rq_Body :: string

datatype 'v payload = NoBody | ErrorBody string | Body 'v

datatype 'v reply = Reply (status: nat) (payload: "'v payload")

definition writeJSON :: "nat \<Rightarrow> 'v \<Rightarrow> 'v reply" where
  "writeJSON s v = Reply s (Body v)"

definition writeError :: "nat \<Rightarrow> string \<Rightarrow> 'v reply" where
  "writeError s msg = Reply s (ErrorBody msg)"

definition noContent :: "'v reply" where
  "noContent = Reply 204 NoBody"

text \<open>\<open>if v, err := m; err != nil { report err; return }\<close>, then the rest.\<close>

definition checked :: "'a op \<Rightarrow> (error \<Rightarrow> 'r) \<Rightarrow> ('a \<Rightarrow> 'r op) \<Rightarrow> 'r op" where
  "checked m report k = andThen (Attempt m) (\<lambda>r. case r of Inl e \<Rightarrow> Return (report e) | Inr x \<Rightarrow> k x)"

text \<open>An early return for a value that is not there.\<close>

definition given :: "'a option \<Rightarrow> 'r \<Rightarrow> ('a \<Rightarrow> 'r op) \<Rightarrow> 'r op" where
  "given x early k = (case x of None \<Rightarrow> Return early | Some y \<Rightarrow> k y)"

lemma after_checked [wp]:
  "after (checked m report k) Q w =
     after m (\<lambda>r w'. case r of Inl e \<Rightarrow> Q (Inr (report e)) w' | Inr x \<Rightarrow> after (k x) Q w') w"
  unfolding checked_def after_andThen after_Attempt by (rule arg_cong [of _ _ "\<lambda>q. after m q w"]) (auto simp: wp fun_eq_iff split: sum.split)

lemma after_given [wp]: "after (given x early k) Q w = (case x of None \<Rightarrow> Q (Inr early) w | Some y \<Rightarrow> after (k y) Q w)"
  by (simp add: given_def wp split: option.split)

lemma keeps_checked [keeps_ops]: "keeps I m \<Longrightarrow> (\<And>x. keeps I (k x)) \<Longrightarrow> keeps I (checked m report k)"
  unfolding checked_def by (intro keeps_ops)

lemma keeps_given [keeps_ops]: "(\<And>y. x = Some y \<Longrightarrow> keeps I (k y)) \<Longrightarrow> keeps I (given x early k)"
  unfolding given_def by (intro keeps_ops)

section \<open>Every request is answered\<close>

text \<open>A handler always writes a reply; it has no error of its own.\<close>

definition answers :: "'r op \<Rightarrow> bool" where
  "answers h \<longleftrightarrow> (\<forall>w. after h (\<lambda>r w'. \<exists>a. r = Inr a) w)"

named_theorems answering \<open>the ways a handler is put together\<close>

lemma answers_Return [answering]: "answers (Return a)"
  by (simp add: answers_def wp)

lemma answers_checked [answering]: "(\<And>x. answers (k x)) \<Longrightarrow> answers (checked m report k)"
  unfolding answers_def after_checked by (auto simp: after_def [of m] split: prod.split sum.split)

lemma answers_given [answering]: "(\<And>y. answers (k y)) \<Longrightarrow> answers (given x early k)"
  by (simp add: answers_def wp split: option.split)

lemma answers_Record [answering]: "answers k \<Longrightarrow> answers (andThen (AuditRecord a b c d e) (\<lambda>_. k))"
  unfolding answers_def after_andThen by (auto simp: after_def [of "AuditRecord a b c d e"] split: prod.split sum.split)

lemma answers_if [answering]: "answers m \<Longrightarrow> answers n \<Longrightarrow> answers (if b then m else n)"
  by simp

lemma answers_Let [answering]: "(\<And>x. answers (f x)) \<Longrightarrow> answers (Let v f)"
  by (simp add: Let_def)

lemma answers_prod [answering]: "(\<And>a b. answers (f a b)) \<Longrightarrow> answers (case p of (a, b) \<Rightarrow> f a b)"
  by (simp split: prod.split)

section \<open>JSON values into structs\<close>

text \<open>
  What \<open>Decode\<close> does to a field that holds \<open>old\<close> when its key comes with the value \<open>v\<close>: \<open>null\<close> leaves a string, a boolean or a number alone and
  clears a pointer or a slice; a value of another type is an error.
\<close>

fun set_string :: "json \<Rightarrow> string \<Rightarrow> string option" where
  "set_string (JStr s) old = Some s"
| "set_string JNull old = Some old"
| "set_string v old = None"

fun set_bool :: "json \<Rightarrow> bool \<Rightarrow> bool option" where
  "set_bool (JBool b) old = Some b"
| "set_bool JNull old = Some old"
| "set_bool v old = None"

fun set_int :: "json \<Rightarrow> int \<Rightarrow> int option" where
  "set_int (JNum n) old = ParseInt64 n"
| "set_int JNull old = Some old"
| "set_int v old = None"

fun set_bool_ptr :: "json \<Rightarrow> bool option \<Rightarrow> bool option option" where
  "set_bool_ptr (JBool b) old = Some (Some b)"
| "set_bool_ptr JNull old = Some None"
| "set_bool_ptr v old = None"

text \<open>The elements of a slice are decoded into empty strings.\<close>

fun set_strings :: "json \<Rightarrow> string list \<Rightarrow> string list option" where
  "set_strings (JArr vs) old = those (map (\<lambda>v. set_string v []) vs)"
| "set_strings JNull old = Some []"
| "set_strings v old = None"

text \<open>A key names a field when they are equal up to letter case; the members are taken in order, so later ones win.\<close>

definition field :: "unicode \<Rightarrow> (string \<times> json) list \<Rightarrow> string \<Rightarrow> (json \<Rightarrow> 'a \<Rightarrow> 'a option) \<Rightarrow> 'a \<Rightarrow> 'a option" where
  "field U ms name upd old =
     foldl (\<lambda>acc (k, v). if EqualFold U k name then Option.bind acc (upd v) else acc) (Some old) ms"

text \<open>The members a value decodes into a struct: those of an object, none of \<open>null\<close>, and nothing else can be decoded.\<close>

fun members_of :: "json \<Rightarrow> (string \<times> json) list option" where
  "members_of (JObj ms) = Some ms"
| "members_of JNull = Some []"
| "members_of v = None"

definition decode_into :: "(string \<Rightarrow> json option) \<Rightarrow> string \<Rightarrow> ((string \<times> json) list \<Rightarrow> 'b option) \<Rightarrow> 'b option" where
  "decode_into J body get = Option.bind (Option.bind (J body) members_of) get"

end
