(* ===== verification/Credentials.thy ===== *)
theory Credentials
  imports Tables
begin

text \<open>
  What the three stores of credentials have in common: the API tokens (package authtoken), the keys of the domains (package
  domainkey) and the sessions of the dashboard (package adminauth). Each keeps the digest of a random text in a table; a
  caller presents the text, and the store says whom it stands for. The interface is stated with a function \<open>lookup\<close> that
  reads this off the tables; the laws say what verifying, issuing and revoking do to it.
\<close>

text \<open>\<open>hashToken\<close> and \<open>hashKey\<close>: SHA-256 in hexadecimal.\<close>

definition hashToken :: "lib \<Rightarrow> string \<Rightarrow> string" where
  "hashToken L plaintext = hex_encode (sha256 L plaintext)"

text \<open>Random bytes behind a prefix, in hexadecimal.\<close>

definition generatePlaintext :: "string \<Rightarrow> string op" where
  "generatePlaintext pre = andThen (RandRead 32) (\<lambda>b. Return (pre @ hex_encode b))"

lemma generatePlaintext_after:
  assumes "I w" and "\<And>w b. I w \<Longrightarrow> I (w\<lparr>entropy := b\<rparr>)"
  shows "after (generatePlaintext pre) (\<lambda>r w'. I w' \<and> (case r of Inl e \<Rightarrow> True | Inr p \<Rightarrow> prefix pre p \<and> length p = length pre + 64)) w"
  using assms by (auto simp: generatePlaintext_def wp)

text \<open>Two predicates that an operation keeps.\<close>

lemma keeps_conj: "keeps A m \<Longrightarrow> keeps B m \<Longrightarrow> keeps (\<lambda>w. A w \<and> B w) m"
  by (auto simp: keeps_def after_def)

section \<open>The interface\<close>

locale credential_store =
  fixes inv :: "world \<Rightarrow> bool"
    and lookup :: "world \<Rightarrow> string \<Rightarrow> 'who option"
    and verify :: "string \<Rightarrow> 'who op"
  assumes verify_sound: "after (verify p) (\<lambda>r w'. lookup w' = lookup w
        \<and> (case r of Inl e \<Rightarrow> True | Inr u \<Rightarrow> lookup w p = Some u)) w"
    and verify_known: "lookup w p = Some u \<Longrightarrow> after (verify p) (\<lambda>r w'. r = (if fault w then Inl DBError else Inr u)) w"
    and verify_unknown: "\<not> fault w \<Longrightarrow> lookup w p = None \<Longrightarrow> after (verify p) (\<lambda>r w'. \<exists>s. r = Inl (ErrInvalid s)) w"
    and verify_inv: "keeps inv (verify p)"
begin

lemma not_accepted:
  assumes "lookup w p = None"
  shows "after (verify p) (\<lambda>r w'. lookup w' = lookup w \<and> (\<exists>e. r = Inl e)) w"
  by (rule after_mono [OF verify_sound]) (use assms in \<open>auto split: sum.splits\<close>)

lemma verify_decides:
  assumes "\<not> fault w"
  shows "after (verify p) (\<lambda>r w'. case lookup w p of Some u \<Rightarrow> r = Inr u | None \<Rightarrow> (\<exists>s. r = Inl (ErrInvalid s))) w"
proof (cases "lookup w p")
  case (Some u)
  from verify_known [OF this] assms Some show ?thesis by simp
qed (simp add: verify_unknown assms)

text \<open>Verifying is repeatable: a second verification of any text is decided by the same table.\<close>

lemma verify_twice:
  "after (andThen (Attempt (verify p)) (\<lambda>_. verify q)) (\<lambda>r w'. lookup w' = lookup w
      \<and> (case r of Inl e \<Rightarrow> True | Inr u \<Rightarrow> lookup w q = Some u)) w"
proof (rule after_seq [where P = "\<lambda>r w1. (\<exists>x. r = Inr x) \<and> lookup w1 = lookup w"])
  show "after (Attempt (verify p)) (\<lambda>r w1. (\<exists>x. r = Inr x) \<and> lookup w1 = lookup w) w"
    unfolding after_Attempt by (rule after_mono [OF verify_sound]) auto
next
  fix x w1 assume "(\<exists>y. Inr x = Inr y) \<and> lookup w1 = lookup w"
  then have eq: "lookup w1 = lookup w" by simp
  show "after (verify q) (\<lambda>r w'. lookup w' = lookup w \<and> (case r of Inl e \<Rightarrow> True | Inr u \<Rightarrow> lookup w q = Some u)) w1"
    using verify_sound [of q w1] unfolding eq .
qed auto

end

text \<open>
  Issuing a credential returns a text; from then on this text, and every other text \<open>same\<close> as it (with the same digest), stands for what was
  asked for. \<open>replaced\<close> are the credentials that the new one takes the place of.
\<close>

locale issuing_store = credential_store inv lookup verify
  for inv :: "world \<Rightarrow> bool" and lookup :: "world \<Rightarrow> string \<Rightarrow> 'who option" and verify :: "string \<Rightarrow> 'who op" +
  fixes issue :: "'req \<Rightarrow> string op"
    and stands_for :: "world \<Rightarrow> 'req \<Rightarrow> 'who \<Rightarrow> bool"
    and same :: "string \<Rightarrow> string \<Rightarrow> bool"
    and replaced :: "world \<Rightarrow> 'req \<Rightarrow> string \<Rightarrow> bool"
  assumes issue_effect: "inv w \<Longrightarrow> after (issue q) (\<lambda>r w'. inv w' \<and> (case r of Inl e \<Rightarrow> lookup w' = lookup w
      | Inr p \<Rightarrow> same p p \<and> (\<exists>u. stands_for w q u
          \<and> lookup w' = (\<lambda>x. if same x p then Some u else if replaced w q x then None else lookup w x)))) w"
begin

text \<open>The new text is accepted, unless the statement that looks it up fails, and it is accepted for what was asked for; nothing else is changed but what it replaces.\<close>

lemma issue_then_verify:
  assumes "inv w"
  shows "after (issue q) (\<lambda>r w1. case r of Inl e \<Rightarrow> lookup w1 = lookup w
    | Inr p \<Rightarrow> (\<exists>u. stands_for w q u \<and> after (verify p) (\<lambda>r' w2. r' = (if fault w1 then Inl DBError else Inr u)) w1)
        \<and> (\<forall>x. \<not> same x p \<longrightarrow> lookup w1 x = (if replaced w q x then None else lookup w x))) w"
proof (rule after_mono [OF issue_effect [OF assms]])
  fix r w1
  assume issued: "inv w1 \<and> (case r of Inl e \<Rightarrow> lookup w1 = lookup w | Inr p \<Rightarrow> same p p \<and> (\<exists>u. stands_for w q u
      \<and> lookup w1 = (\<lambda>x. if same x p then Some u else if replaced w q x then None else lookup w x)))"
  show "case r of Inl e \<Rightarrow> lookup w1 = lookup w
    | Inr p \<Rightarrow> (\<exists>u. stands_for w q u \<and> after (verify p) (\<lambda>r' w2. r' = (if fault w1 then Inl DBError else Inr u)) w1)
        \<and> (\<forall>x. \<not> same x p \<longrightarrow> lookup w1 x = (if replaced w q x then None else lookup w x))"
  proof (cases r)
    case (Inr p)
    with issued obtain u where u: "stands_for w q u" "same p p"
      and look: "lookup w1 = (\<lambda>x. if same x p then Some u else if replaced w q x then None else lookup w x)" by auto
    then have "lookup w1 p = Some u" by simp
    from verify_known [OF this] u(1) show ?thesis by (auto simp: Inr look)
  qed (use issued in simp)
qed

text \<open>What was accepted before and is not replaced is accepted after.\<close>

lemma issue_keeps_others:
  assumes "inv w" and "lookup w x = Some v" and "\<not> replaced w q x"
  shows "after (issue q) (\<lambda>r w'. case r of Inl e \<Rightarrow> lookup w' x = Some v | Inr p \<Rightarrow> same x p \<or> lookup w' x = Some v) w"
  by (rule after_mono [OF issue_effect [OF assms(1)]]) (use assms in \<open>auto split: sum.splits if_splits\<close>)

lemma issue_replaces:
  assumes "inv w" and "replaced w q x"
  shows "after (issue q) (\<lambda>r w'. case r of Inl e \<Rightarrow> True | Inr p \<Rightarrow> same x p \<or> lookup w' x = None) w"
  by (rule after_mono [OF issue_effect [OF assms(1)]]) (use assms in \<open>auto split: sum.splits if_splits\<close>)

end

text \<open>Revoking: \<open>named w n p\<close> says that the credential of text \<open>p\<close> is the one that is revoked under the name \<open>n\<close>.\<close>

locale revocable_store = credential_store inv lookup verify
  for inv :: "world \<Rightarrow> bool" and lookup :: "world \<Rightarrow> string \<Rightarrow> 'who option" and verify :: "string \<Rightarrow> 'who op" +
  fixes revoke :: "'name \<Rightarrow> unit op"
    and named :: "world \<Rightarrow> 'name \<Rightarrow> string \<Rightarrow> bool"
  assumes revoke_effect: "inv w \<Longrightarrow> after (revoke n) (\<lambda>r w'. inv w' \<and> (case r of Inl e \<Rightarrow> lookup w' = lookup w
      | Inr u \<Rightarrow> lookup w' = (\<lambda>p. if named w n p then None else lookup w p))) w"
begin

lemma revoked_is_refused:
  assumes "inv w" and "named w n p"
  shows "after (andThen (revoke n) (\<lambda>_. verify p)) (\<lambda>r w'. \<exists>e. r = Inl e) w"
proof (rule after_seq [OF revoke_effect [OF assms(1)]])
  fix x w1
  assume "inv w1 \<and> (case Inr x of Inl e \<Rightarrow> lookup w1 = lookup w
      | Inr u \<Rightarrow> lookup w1 = (\<lambda>p. if named w n p then None else lookup w p))"
  with assms(2) have "lookup w1 p = None" by simp
  from not_accepted [OF this] show "after (verify p) (\<lambda>r w'. \<exists>e. r = Inl e) w1"
    by (rule after_mono) simp
qed auto

lemma revoke_keeps_others:
  assumes "inv w" and "\<not> named w n p"
  shows "after (revoke n) (\<lambda>r w'. lookup w' p = lookup w p) w"
  by (rule after_mono [OF revoke_effect [OF assms(1)]]) (use assms(2) in \<open>auto split: sum.splits\<close>)

end

section \<open>Histories\<close>

text \<open>The four operations in one interface.\<close>

locale full_store = issuing_store inv lookup verify issue stands_for same replaced
    + revocable_store inv lookup verify revoke named
  for inv :: "world \<Rightarrow> bool" and lookup :: "world \<Rightarrow> string \<Rightarrow> 'who option" and verify :: "string \<Rightarrow> 'who op"
    and issue :: "'req \<Rightarrow> string op" and stands_for :: "world \<Rightarrow> 'req \<Rightarrow> 'who \<Rightarrow> bool" and same :: "string \<Rightarrow> string \<Rightarrow> bool"
    and replaced :: "world \<Rightarrow> 'req \<Rightarrow> string \<Rightarrow> bool" and revoke :: "'name \<Rightarrow> unit op"
    and named :: "world \<Rightarrow> 'name \<Rightarrow> string \<Rightarrow> bool"

text \<open>
  The states a store runs through, beside the set of the texts it has handed out: it starts without any credential, and every step issues, verifies or revokes, or is one
  of \<open>others\<close>, the steps of the rest of the program and of the time.
\<close>

inductive history :: "(world \<Rightarrow> bool) \<Rightarrow> (world \<Rightarrow> string \<Rightarrow> 'who option) \<Rightarrow> (string \<Rightarrow> 'who op) \<Rightarrow> ('req \<Rightarrow> string op)
    \<Rightarrow> ('name \<Rightarrow> unit op) \<Rightarrow> (world \<Rightarrow> world \<Rightarrow> bool) \<Rightarrow> string set \<Rightarrow> world \<Rightarrow> bool"
  for inv lookup verify issue revoke others where
  fresh: "inv w \<Longrightarrow> lookup w = (\<lambda>p. None) \<Longrightarrow> history inv lookup verify issue revoke others {} w"
| issued: "history inv lookup verify issue revoke others S w \<Longrightarrow> issue q w = (Inr p, w') \<Longrightarrow> history inv lookup verify issue revoke others (insert p S) w'"
| refused: "history inv lookup verify issue revoke others S w \<Longrightarrow> issue q w = (Inl e, w') \<Longrightarrow> history inv lookup verify issue revoke others S w'"
| verified: "history inv lookup verify issue revoke others S w \<Longrightarrow> verify p w = (r, w') \<Longrightarrow> history inv lookup verify issue revoke others S w'"
| revoked: "history inv lookup verify issue revoke others S w \<Longrightarrow> revoke n w = (r, w') \<Longrightarrow> history inv lookup verify issue revoke others S w'"
| other: "history inv lookup verify issue revoke others S w \<Longrightarrow> others w w' \<Longrightarrow> history inv lookup verify issue revoke others S w'"

text \<open>A store among steps that let nobody in: what is accepted after such a step was accepted before.\<close>

locale lived_store = full_store inv lookup verify issue stands_for same replaced revoke named
  for inv :: "world \<Rightarrow> bool" and lookup :: "world \<Rightarrow> string \<Rightarrow> 'who option" and verify :: "string \<Rightarrow> 'who op"
    and issue :: "'req \<Rightarrow> string op" and stands_for :: "world \<Rightarrow> 'req \<Rightarrow> 'who \<Rightarrow> bool" and same :: "string \<Rightarrow> string \<Rightarrow> bool"
    and replaced :: "world \<Rightarrow> 'req \<Rightarrow> string \<Rightarrow> bool" and revoke :: "'name \<Rightarrow> unit op"
    and named :: "world \<Rightarrow> 'name \<Rightarrow> string \<Rightarrow> bool" +
  fixes others :: "world \<Rightarrow> world \<Rightarrow> bool"
  assumes others_inv: "others w w' \<Longrightarrow> inv w \<Longrightarrow> inv w'"
    and others_admit_none: "others w w' \<Longrightarrow> inv w \<Longrightarrow> lookup w x = None \<Longrightarrow> lookup w' x = None"
begin

text \<open>Nobody gets in with a text that was never handed out, up to collisions of the digest.\<close>

lemma history_lookup:
  "history inv lookup verify issue revoke others S w \<Longrightarrow> inv w \<and> (\<forall>x u. lookup w x = Some u \<longrightarrow> (\<exists>p\<in>S. same x p))"
proof (induction rule: history.induct)
  case (issued S w q p w')
  from issue_effect [of w q] issued show ?case
    by (fastforce dest: afterD split: if_splits)
next
  case (refused S w q e w')
  from issue_effect [of w q] refused show ?case by (auto dest: afterD)
next
  case (verified S w p r w')
  from afterD [OF verify_sound verified(2)] keeps_run [OF verify_inv _ verified(2)] verified show ?case by simp
next
  case (revoked S w n r w')
  from revoke_effect [of w n] revoked have e: "inv w' \<and> (case r of Inl e \<Rightarrow> lookup w' = lookup w
      | Inr u \<Rightarrow> lookup w' = (\<lambda>p. if named w n p then None else lookup w p))"
    by (auto dest: afterD)
  with revoked(3) show ?case by (cases r) (auto split: if_splits)
next
  case (other S w w')
  then show ?case using others_inv others_admit_none by (metis option.exhaust)
qed simp

lemma only_issued_accepted:
  assumes "history inv lookup verify issue revoke others S w"
  shows "after (verify x) (\<lambda>r w'. case r of Inl e \<Rightarrow> True | Inr u \<Rightarrow> \<exists>p\<in>S. same x p) w"
  by (rule after_mono [OF verify_sound]) (use history_lookup [OF assms] in \<open>auto split: sum.splits\<close>)

end

end
