(* ===== verification/Domainkey.thy ===== *)
theory Domainkey
  imports Credentials Mailbox
begin

text \<open>
  Package domainkey: at most one API key for each domain. The table is part of the store of package mailbox (its rows go when their domain
  goes), so the invariant of these operations is \<open>store_ok\<close>.
\<close>

definition keyPrefix :: string where "keyPrefix = ''pbd_''"

record key_info =
  KI_Domain :: string
  KI_Hint :: string
  KI_CreatedAt :: int
  KI_LastUsedAt :: "int option"

definition ErrInvalidKey :: error where
  "ErrInvalidKey = ErrInvalid ''invalid or revoked API key''"

definition KeyGenerate :: "lib \<Rightarrow> string \<Rightarrow> string op" where
  "KeyGenerate L domain =
     andThen (Query (\<lambda>w. map_option d_id (row_at (dkey L) (ck L domain) (virtual_domains w)))) (\<lambda>row. case row of
         None \<Rightarrow> Raise (ErrText (''domain '' @ Quote (uni L) domain @ '' is not registered''))
       | Some domID \<Rightarrow>
           andThen (generatePlaintext keyPrefix) (\<lambda>plaintext.
           andThen (Exec (\<lambda>w. upsert_key L \<lparr>k_domain_id = domID, k_key_hash = hashToken L plaintext,
               k_key_hint = drop (length plaintext - 6) plaintext, k_created_at = clock w, k_last_used_at = None\<rparr> w)) (\<lambda>_.
           Return plaintext)))"

text \<open>The join of the keys with the names of their domains.\<close>

definition domain_name :: "world \<Rightarrow> nat \<Rightarrow> string option" where
  "domain_name w i = map_option d_name (row_at d_id i (virtual_domains w))"

definition KeyList :: "lib \<Rightarrow> key_info list op" where
  "KeyList L = Query (\<lambda>w. sort_key (\<lambda>k. ck L (KI_Domain k)) (List.map_filter (\<lambda>k. map_option (\<lambda>n.
     \<lparr>KI_Domain = n, KI_Hint = k_key_hint k, KI_CreatedAt = k_created_at k, KI_LastUsedAt = k_last_used_at k\<rparr>)
     (domain_name w (k_domain_id k))) (domain_api_keys w)))"

definition key_of :: "lib \<Rightarrow> world \<Rightarrow> string \<Rightarrow> key_row \<Rightarrow> bool" where
  "key_of L w domain k \<longleftrightarrow> (case domain_name w (k_domain_id k) of None \<Rightarrow> False | Some n \<Rightarrow> ck L n = ck L domain)"

definition del_keys :: "(key_row \<Rightarrow> bool) \<Rightarrow> stmt" where
  "del_keys P w = Inr (count_rows P (domain_api_keys w), w\<lparr>domain_api_keys := delete_rows P (domain_api_keys w)\<rparr>)"

definition KeyRevoke :: "lib \<Rightarrow> string \<Rightarrow> unit op" where
  "KeyRevoke L domain =
     andThen (Exec (\<lambda>w. del_keys (key_of L w domain) w)) (\<lambda>n.
     if n = 0 then Raise (ErrText (''domain '' @ Quote (uni L) domain @ '' has no API key'')) else Return ())"

definition use_key :: "nat \<Rightarrow> stmt" where
  "use_key i w = (let P = (\<lambda>k. k_domain_id k = i); f = (\<lambda>k. k\<lparr>k_last_used_at := Some (clock w)\<rparr>) in
     Inr (changed_rows P f (domain_api_keys w), w\<lparr>domain_api_keys := update_rows P f (domain_api_keys w)\<rparr>))"

definition KeyVerify :: "lib \<Rightarrow> string \<Rightarrow> string op" where
  "KeyVerify L plaintext =
     (if \<not> prefix keyPrefix plaintext then Raise ErrInvalidKey
      else andThen (Query (\<lambda>w. case row_at (hkey L) (ck L (hashToken L plaintext)) (domain_api_keys w) of
             None \<Rightarrow> None
           | Some k \<Rightarrow> map_option (\<lambda>n. (k_domain_id k, n)) (domain_name w (k_domain_id k)))) (\<lambda>row. case row of
          None \<Rightarrow> Raise ErrInvalidKey
        | Some (domID, domain) \<Rightarrow> andThen (Attempt (Exec (use_key domID))) (\<lambda>_. Return domain)))"

section \<open>The store stays consistent\<close>

lemma ok_generatePlaintext [keeps_ops]: "keeps (store_ok L) (generatePlaintext pre)"
  by (auto simp: keeps_def generatePlaintext_def wp)

lemma ok_KeyGenerate: "keeps (store_ok L) (KeyGenerate L d)"
  unfolding KeyGenerate_def by (intro keeps_ops ok_Exec) (erule ok_upsert_key, assumption)

lemma ok_KeyRevoke: "keeps (store_ok L) (KeyRevoke L d)"
  unfolding KeyRevoke_def by (intro keeps_ops ok_Exec) (auto simp: del_keys_def ok_delete_keys)

lemma ok_KeyVerify [keeps_ops]: "keeps (store_ok L) (KeyVerify L p)"
  unfolding KeyVerify_def by (intro keeps_ops ok_Exec) (auto simp: use_key_def Let_def intro: ok_update_keys)

section \<open>The store of keys is a store of credentials\<close>

definition key_id :: "lib \<Rightarrow> key_row list \<Rightarrow> string \<Rightarrow> nat option" where
  "key_id L ks p = (if prefix keyPrefix p then map_option k_domain_id (row_at (hkey L) (ck L (hashToken L p)) ks) else None)"

definition key_lookup :: "lib \<Rightarrow> world \<Rightarrow> string \<Rightarrow> string option" where
  "key_lookup L w p = Option.bind (key_id L (domain_api_keys w) p) (domain_name w)"

definition same_key :: "lib \<Rightarrow> string \<Rightarrow> string \<Rightarrow> bool" where
  "same_key L x p \<longleftrightarrow> prefix keyPrefix x \<and> ck L (hashToken L x) = ck L (hashToken L p)"

definition key_asked :: "lib \<Rightarrow> world \<Rightarrow> string \<Rightarrow> string \<Rightarrow> bool" where
  "key_asked L w q u \<longleftrightarrow> map_option d_name (row_at (dkey L) (ck L q) (virtual_domains w)) = Some u"

definition key_named :: "lib \<Rightarrow> world \<Rightarrow> string \<Rightarrow> string \<Rightarrow> bool" where
  "key_named L w q p \<longleftrightarrow> (case key_lookup L w p of None \<Rightarrow> False | Some u \<Rightarrow> ck L u = ck L q)"

lemma key_frame [simp]:
  "domain_name (tick w) = domain_name w" "domain_name (w\<lparr>entropy := b\<rparr>) = domain_name w"
  "domain_name (w\<lparr>domain_api_keys := ks\<rparr>) = domain_name w"
  "key_lookup L (tick w) = key_lookup L w" "key_lookup L (w\<lparr>entropy := b\<rparr>) = key_lookup L w"
  "key_of L (tick w) = key_of L w"
  by (auto simp: domain_name_def key_lookup_def key_of_def fun_eq_iff split: bind_splits option.split)

lemma key_lookup_eq:
  "domain_api_keys w1 = domain_api_keys w \<Longrightarrow> domain_name w1 = domain_name w \<Longrightarrow> key_lookup L w1 = key_lookup L w"
  by (rule ext) (simp add: key_lookup_def)

lemma key_id_used [simp]: "key_id L (update_rows P (\<lambda>k. k\<lparr>k_last_used_at := u\<rparr>) ks) = key_id L ks"
proof
  have "row_at (hkey L) h (update_rows P (\<lambda>k. k\<lparr>k_last_used_at := u\<rparr>) ks)
      = map_option (\<lambda>k. if P k then k\<lparr>k_last_used_at := u\<rparr> else k) (row_at (hkey L) h ks)" for h
    by (rule row_at_update_rows) (simp add: hkey_def)
  then show "key_id L (update_rows P (\<lambda>k. k\<lparr>k_last_used_at := u\<rparr>) ks) p = key_id L ks p" for p
    by (auto simp: key_id_def option.map_comp comp_def intro!: map_option_cong)
qed

lemma row_at_iff: "keyed key t \<Longrightarrow> row_at key k t = Some r \<longleftrightarrow> r \<in> set t \<and> key r = k"
  using row_at_unique row_at_Some by metis

text \<open>A new key takes the place of the old key of its domain, and of no other.\<close>

lemma key_id_upsert:
  assumes ok: "store_ok L w" and up: "upsert_key L k w = Inr (n, w')" and h: "k_key_hash k = hashToken L p"
  shows "key_id L (domain_api_keys w') x = (if same_key L x p then Some (k_domain_id k)
     else case key_id L (domain_api_keys w) x of None \<Rightarrow> None | Some j \<Rightarrow> if j = k_domain_id k then None else Some j)"
proof -
  let ?ks = "domain_api_keys w" and ?ks' = "domain_api_keys w'" and ?i = "k_domain_id k" and ?h = "ck L (hashToken L p)"
  have kd: "keyed (hkey L) ?ks" "keyed (hkey L) ?ks'"
    using ok ok_upsert_key [OF ok up] by (simp_all add: store_ok_def unique_ok_def)
  have ks': "?ks' = upsert_row k_domain_id k (\<lambda>x. x\<lparr>k_key_hash := k_key_hash k, k_key_hint := k_key_hint k,
      k_created_at := k_created_at k, k_last_used_at := None\<rparr>) ?ks"
    using up by (auto simp: upsert_key_def split: if_splits)
  have new: "\<exists>r\<in>set ?ks'. k_domain_id r = ?i \<and> hkey L r = ?h"
  proof (cases "?i \<in> k_domain_id ` set ?ks")
    case True
    then obtain y where y: "y \<in> set ?ks" "k_domain_id y = ?i" by auto
    then have "y\<lparr>k_key_hash := k_key_hash k, k_key_hint := k_key_hint k, k_created_at := k_created_at k,
        k_last_used_at := None\<rparr> \<in> set ?ks'"
      unfolding ks' using True by (force simp: upsert_row_def)
    with y show ?thesis by (intro bexI) (auto simp: hkey_def h)
  qed (rule bexI [of _ k], auto simp: ks' upsert_row_new hkey_def h)
  have old: "y \<in> set ?ks'" if "y \<in> set ?ks" "k_domain_id y \<noteq> ?i" for y
    using that unfolding ks' upsert_row_def by (auto intro: rev_image_eqI)
  have only: "k_domain_id r = ?i \<and> hkey L r = ?h \<or> r \<in> set ?ks \<and> k_domain_id r \<noteq> ?i" if "r \<in> set ?ks'" for r
  proof (cases "?i \<in> k_domain_id ` set ?ks")
    case False
    with that have "r = k \<or> r \<in> set ?ks" by (auto simp: ks' upsert_row_new)
    with False show ?thesis by (metis h hkey_def imageI)
  qed (use that in \<open>auto simp: ks' upsert_row_def hkey_def h split: if_splits\<close>)
  have clash: "hkey L y \<noteq> ?h" if "y \<in> set ?ks" "k_domain_id y \<noteq> ?i" for y
    using up that by (auto simp: upsert_key_def hkey_def h split: if_splits)
  let ?x = "ck L (hashToken L x)"
  have "map_option k_domain_id (row_at (hkey L) ?x ?ks') = (if ?x = ?h then Some ?i
     else case map_option k_domain_id (row_at (hkey L) ?x ?ks) of None \<Rightarrow> None | Some j \<Rightarrow> if j = ?i then None else Some j)"
  proof (cases "?x = ?h")
    case True
    with new obtain r where r: "r \<in> set ?ks'" "k_domain_id r = ?i" "hkey L r = ?x" by auto
    then have "row_at (hkey L) ?x ?ks' = Some r" using row_at_iff [OF kd(2)] by blast
    with True r show ?thesis by simp
  next
    case False
    show ?thesis
    proof (cases "row_at (hkey L) ?x ?ks'")
      case (Some r)
      then have "r \<in> set ?ks'" "hkey L r = ?x" using row_at_Some [OF Some] by auto
      with only [of r] False have "row_at (hkey L) ?x ?ks = Some r \<and> k_domain_id r \<noteq> ?i"
        using row_at_iff [OF kd(1)] by auto
      with Some False show ?thesis by simp
    next
      case None
      have old_id: "k_domain_id y = ?i" if "row_at (hkey L) ?x ?ks = Some y" for y
      proof (rule ccontr)
        assume "k_domain_id y \<noteq> ?i"
        then have "y \<in> set ?ks'" "hkey L y = ?x" using row_at_Some [OF that] old by auto
        with None show False unfolding row_at_None by (metis imageI)
      qed
      show ?thesis
      proof (cases "row_at (hkey L) ?x ?ks = None")
        case True
        with None False show ?thesis by simp
      next
        assume "row_at (hkey L) ?x ?ks \<noteq> None"
        then obtain y where y: "row_at (hkey L) ?x ?ks = Some y" by blast
        from old_id [OF y] None False y show ?thesis by simp
      qed
    qed
  qed
  then show ?thesis by (auto simp: key_id_def same_key_def)
qed

lemma domain_name_unique:
  assumes "store_ok L w" and "d \<in> set (virtual_domains w)"
  shows "domain_name w (d_id d) = Some (d_name d)"
    and "domain_name w i = Some n \<Longrightarrow> ck L n = ck L (d_name d) \<longleftrightarrow> i = d_id d"
proof -
  have k: "keyed d_id (virtual_domains w)" "keyed (dkey L) (virtual_domains w)"
    using assms(1) by (simp_all add: store_ok_def unique_ok_def)
  show "domain_name w (d_id d) = Some (d_name d)"
    using row_at_unique [OF k(1) assms(2)] by (simp add: domain_name_def)
  show "ck L n = ck L (d_name d) \<longleftrightarrow> i = d_id d" if n: "domain_name w i = Some n"
  proof -
    from n obtain e where e: "e \<in> set (virtual_domains w)" "d_id e = i" "d_name e = n"
      using row_at_Some by (fastforce simp: domain_name_def)
    have "e = d" if "dkey L e = dkey L d"
      using k(2) e(1) assms(2) that by (auto simp: keyed_def distinct_map dest: inj_onD)
    moreover have "e = d" if "d_id e = d_id d"
      using k(1) e(1) assms(2) that by (auto simp: keyed_def distinct_map dest: inj_onD)
    ultimately show ?thesis using e by (auto simp: dkey_def)
  qed
qed

lemma KeyGenerate_effect:
  assumes "store_ok L w"
  shows "after (KeyGenerate L q) (\<lambda>r w'. store_ok L w' \<and> (case r of Inl e \<Rightarrow> key_lookup L w' = key_lookup L w
      | Inr p \<Rightarrow> same_key L p p \<and> (\<exists>u. key_asked L w q u
          \<and> key_lookup L w' = (\<lambda>x. if same_key L x p then Some u else if key_named L w q x then None else key_lookup L w x)))) w"
    (is "after _ ?Q w")
proof (cases "row_at (dkey L) (ck L q) (virtual_domains w)")
  case None
  with assms show ?thesis by (simp add: KeyGenerate_def wp)
next
  case (Some d)
  have d: "d \<in> set (virtual_domains w)" "ck L (d_name d) = ck L q"
    using row_at_Some [OF Some] by (auto simp: dkey_def)
  let ?same = "\<lambda>w1. store_ok L w1 \<and> domain_api_keys w1 = domain_api_keys w \<and> domain_name w1 = domain_name w"
  let ?row = "\<lambda>p t. \<lparr>k_domain_id = d_id d, k_key_hash = hashToken L p,
               k_key_hint = drop (length p - 6) p, k_created_at = t, k_last_used_at = None\<rparr>"
  have "?Q (Inr p) w2" if up: "upsert_key L (?row p t) v = Inr (n, w2)" and v: "?same v" and p: "prefix keyPrefix p" for p t v n w2
  proof -
    have ok: "store_ok L w2" using ok_upsert_key [OF _ up] v by simp
    have self: "same_key L p p" using p by (simp add: same_key_def)
    have asked: "key_asked L w q (d_name d)" by (simp add: key_asked_def Some)
    have "domain_name w2 = domain_name v" using up by (auto simp: upsert_key_def split: if_splits)
    then have name: "domain_name w2 = domain_name w" using v by simp
    have id: "key_id L (domain_api_keys w2) x = (if same_key L x p then Some (d_id d)
        else case key_id L (domain_api_keys w) x of None \<Rightarrow> None | Some j \<Rightarrow> if j = d_id d then None else Some j)" for x
      using key_id_upsert [OF _ up, of p x] v by (simp split: bind_splits option.split)
    have look: "key_lookup L w2 = (\<lambda>x. if same_key L x p then Some (d_name d) else if key_named L w q x then None else key_lookup L w x)"
    proof
      fix x
      show "key_lookup L w2 x = (if same_key L x p then Some (d_name d) else if key_named L w q x then None else key_lookup L w x)"
        using domain_name_unique [OF assms d(1)] d(2)
        by (auto simp: key_lookup_def id name key_named_def split: bind_splits option.splits)
    qed
    show ?thesis unfolding sum.case by (intro conjI ok self exI [of _ "d_name d"] asked look)
  qed
  then have exec: "after (andThen (Exec (\<lambda>w. upsert_key L (?row p (clock w)) w)) (\<lambda>_. Return p)) ?Q w1"
    if "?same w1" "prefix keyPrefix p" for p w1
    using that by (auto simp: wp key_lookup_def split: sum.split)
  have "after (andThen (generatePlaintext keyPrefix)
      (\<lambda>p. andThen (Exec (\<lambda>w. upsert_key L (?row p (clock w)) w)) (\<lambda>_. Return p))) ?Q (tick w)"
  proof (rule after_seq [OF generatePlaintext_after [of ?same]])
    fix p w1
    assume "?same w1 \<and> (case Inr p of Inl e \<Rightarrow> True | Inr p \<Rightarrow> prefix keyPrefix p \<and> length p = length keyPrefix + 64)"
    then show "after (andThen (Exec (\<lambda>w. upsert_key L (?row p (clock w)) w)) (\<lambda>_. Return p)) ?Q w1"
      by (intro exec) simp_all
  next
    fix e :: error and w1
    assume "?same w1 \<and> (case Inl e of Inl e \<Rightarrow> True | Inr p \<Rightarrow> prefix keyPrefix p \<and> length p = length keyPrefix + 64)"
    then show "?Q (Inl e) w1" using key_lookup_eq [of w1 w] by simp
  qed (simp_all add: assms)
  with Some assms show ?thesis by (simp add: KeyGenerate_def wp)
qed

lemma KeyRevoke_effect:
  assumes "store_ok L w"
  shows "after (KeyRevoke L q) (\<lambda>r w'. store_ok L w' \<and> (case r of Inl e \<Rightarrow> key_lookup L w' = key_lookup L w
      | Inr u \<Rightarrow> key_lookup L w' = (\<lambda>p. if key_named L w q p then None else key_lookup L w p))) w"
proof -
  have kd: "keyed (hkey L) (domain_api_keys w)" using assms by (simp add: store_ok_def unique_ok_def)
  have look: "key_lookup L (v\<lparr>domain_api_keys := delete_rows (key_of L w q) (domain_api_keys w)\<rparr>)
      = (\<lambda>p. if key_named L w q p then None else key_lookup L w p)" if "domain_name v = domain_name w" for v
    using that
    by (auto simp: fun_eq_iff key_lookup_def key_id_def key_named_def key_of_def row_at_delete_rows [OF kd] split: bind_splits option.splits)
  have ok: "store_ok L (tick w\<lparr>domain_api_keys := delete_rows P (domain_api_keys w)\<rparr>)" for P
    using ok_delete_keys [of L "tick w" P] assms by simp
  show ?thesis
  proof (cases "count_rows (key_of L w q) (domain_api_keys w) = 0")
    case True
    with assms ok [of "\<lambda>k. False"] show ?thesis
      by (simp add: KeyRevoke_def wp del_keys_def count_rows_zero delete_rows_none key_lookup_def fun_eq_iff delete_rows_def)
  next
    case False
    with assms ok look show ?thesis by (simp add: KeyRevoke_def wp del_keys_def)
  qed
qed

interpretation key_store: full_store "store_ok L" "key_lookup L" "KeyVerify L" "KeyGenerate L"
    "key_asked L" "same_key L" "key_named L" "KeyRevoke L" "key_named L"
  for L
proof
  show "after (KeyVerify L p) (\<lambda>r w'. key_lookup L w' = key_lookup L w
      \<and> (case r of Inl e \<Rightarrow> True | Inr u \<Rightarrow> key_lookup L w p = Some u)) w" for p w
    by (auto simp: KeyVerify_def wp use_key_def Let_def key_lookup_def key_id_def [of L "domain_api_keys w" p] split: bind_splits option.split)
  show "key_lookup L w p = Some u \<Longrightarrow> after (KeyVerify L p) (\<lambda>r w'. r = (if fault w then Inl DBError else Inr u)) w" for w p u
    by (auto simp: KeyVerify_def wp use_key_def Let_def key_lookup_def key_id_def fault_def split: if_splits bind_splits option.splits)
  show "\<not> fault w \<Longrightarrow> key_lookup L w p = None \<Longrightarrow> after (KeyVerify L p) (\<lambda>r w'. \<exists>s. r = Inl (ErrInvalid s)) w" for w p
    by (auto simp: KeyVerify_def wp key_lookup_def key_id_def fault_def ErrInvalidKey_def split: if_splits option.splits)
qed (rule ok_KeyVerify KeyGenerate_effect KeyRevoke_effect, assumption?)+

section \<open>Properties\<close>

text \<open>
  C17: Generating a key for a domain revokes the one it had. When \<open>Generate\<close> succeeds, the new key verifies as the domain it was generated for (unless the statement that
  looks it up fails); the key that was accepted for the domain before is refused, unless it has the digest of the new one; and every key of another domain is accepted as
  before. When it reports an error, the same keys are accepted as before.
\<close>

theorem key_generated_replaces:
  assumes "store_ok L w" and "key_named L w domain old"
  shows "after (KeyGenerate L domain) (\<lambda>r w1. case r of Inl e \<Rightarrow> key_lookup L w1 = key_lookup L w
    | Inr new \<Rightarrow> (\<exists>u. key_asked L w domain u \<and> after (KeyVerify L new) (\<lambda>a w2. a = (if fault w1 then Inl DBError else Inr u)) w1)
        \<and> (\<not> same_key L old new \<longrightarrow> after (KeyVerify L old) (\<lambda>a w2. \<exists>e. a = Inl e) w1)
        \<and> (\<forall>x. \<not> same_key L x new \<longrightarrow> \<not> key_named L w domain x \<longrightarrow> key_lookup L w1 x = key_lookup L w x)) w"
proof (rule after_mono [OF key_store.issue_then_verify [OF assms(1)]])
  fix r w1
  assume new: "case r of Inl e \<Rightarrow> key_lookup L w1 = key_lookup L w
    | Inr p \<Rightarrow> (\<exists>u. key_asked L w domain u \<and> after (KeyVerify L p) (\<lambda>r' w2. r' = (if fault w1 then Inl DBError else Inr u)) w1)
        \<and> (\<forall>x. \<not> same_key L x p \<longrightarrow> key_lookup L w1 x = (if key_named L w domain x then None else key_lookup L w x))"
  have refused: "key_lookup L w1 old = None \<Longrightarrow> after (KeyVerify L old) (\<lambda>a w2. \<exists>e. a = Inl e) w1"
    by (erule after_mono [OF key_store.not_accepted]) simp
  show "case r of Inl e \<Rightarrow> key_lookup L w1 = key_lookup L w
    | Inr new \<Rightarrow> (\<exists>u. key_asked L w domain u \<and> after (KeyVerify L new) (\<lambda>a w2. a = (if fault w1 then Inl DBError else Inr u)) w1)
        \<and> (\<not> same_key L old new \<longrightarrow> after (KeyVerify L old) (\<lambda>a w2. \<exists>e. a = Inl e) w1)
        \<and> (\<forall>x. \<not> same_key L x new \<longrightarrow> \<not> key_named L w domain x \<longrightarrow> key_lookup L w1 x = key_lookup L w x)"
    using new assms(2) by (cases r) (simp_all add: refused)
qed

text \<open>A store with the domain \<open>example.com\<close> and a key for it.\<close>

definition keyed_world :: world where
  "keyed_world = empty_world\<lparr>virtual_domains := [\<lparr>d_id = 0, d_name = ''example.com''\<rparr>],
     domain_api_keys := [\<lparr>k_domain_id = 0, k_key_hash = hashToken example_lib ''pbd_old'', k_key_hint = ''bd_old'', k_created_at = 0,
       k_last_used_at = None\<rparr>]\<rparr>"

lemma keyed_world_ok: "store_ok example_lib keyed_world"
  by (simp add: store_defs keyed_world_def empty_world_def keyed_def domain_ids_def group_ids_def example_domain)

theorem key_generated_replaces_witness:
  "store_ok example_lib keyed_world \<and> key_named example_lib keyed_world ''example.com'' ''pbd_old''
   \<and> (\<exists>new w1. KeyGenerate example_lib ''example.com'' keyed_world = (Inr new, w1) \<and> \<not> fault w1 \<and> \<not> same_key example_lib ''pbd_old'' new
       \<and> after (KeyVerify example_lib new) (\<lambda>a w2. a = Inr ''example.com'') w1
       \<and> after (KeyVerify example_lib ''pbd_old'') (\<lambda>a w2. \<exists>e. a = Inl e) w1)"
proof (intro conjI)
  show ok: "store_ok example_lib keyed_world" by (rule keyed_world_ok)
  show named: "key_named example_lib keyed_world ''example.com'' ''pbd_old''" by code_simp
  obtain r w1 where run: "KeyGenerate example_lib ''example.com'' keyed_world = (r, w1)" by fastforce
  define new where "new = keyPrefix @ hex_encode (replicate 32 (CHR 0x07))"
  have "r = Inr new \<and> faults w1 = []"
    using arg_cong [OF run, of "\<lambda>x. (fst x, faults (snd x))"]
    by (simp add: new_def KeyGenerate_def andThen_def Query_def Exec_def Return_def fault_def row_at_def keyed_world_def empty_world_def
        generatePlaintext_def RandRead_def upsert_key_def dkey_def example_lib_def domain_ids_def tick_def)
  then have r: "r = Inr new" "\<not> fault w1" by (simp_all add: fault_def)
  have other: "\<not> same_key example_lib ''pbd_old'' new" unfolding new_def by code_simp
  have asked: "u = ''example.com''" if "key_asked example_lib keyed_world ''example.com'' u" for u
  proof -
    have "map_option d_name (row_at (dkey example_lib) (ck example_lib ''example.com'') (virtual_domains keyed_world)) = Some ''example.com''" by code_simp
    with that show ?thesis by (simp add: key_asked_def)
  qed
  from afterD [OF key_generated_replaces [OF ok named] run] r other asked
  show "\<exists>new w1. KeyGenerate example_lib ''example.com'' keyed_world = (Inr new, w1) \<and> \<not> fault w1 \<and> \<not> same_key example_lib ''pbd_old'' new
       \<and> after (KeyVerify example_lib new) (\<lambda>a w2. a = Inr ''example.com'') w1
       \<and> after (KeyVerify example_lib ''pbd_old'') (\<lambda>a w2. \<exists>e. a = Inl e) w1"
    using run by (intro exI [of _ new] exI [of _ w1]) auto
qed

end
