(* ===== verification/Publicapi.thy ===== *)
theory Publicapi
  imports Http Domainkey
begin

text \<open>
  Package publicapi: the API a domain's own key gives access to. A handler is an operation on the world that writes a reply; \<open>D\<close> is the domain of the
  request's key (\<open>domainOf\<close>), \<open>L\<close> and \<open>J\<close> are the libraries and the JSON parser.
\<close>

definition maxBodyBytes :: nat where "maxBodyBytes = 65536"
definition minPasswordLength :: nat where "minPasswordLength = 8"
definition maxPasswordLength :: nat where "maxPasswordLength = 128"
definition defaultQuota :: string where "defaultQuota = ''1G''"

text \<open>\<open>^[a-z0-9]([a-z0-9._-]{0,62}[a-z0-9])?$\<close>\<close>

definition lower_alnum :: "(char \<times> char) list" where
  "lower_alnum = [(CHR ''a'', CHR ''z''), (CHR ''0'', CHR ''9'')]"

definition usernameRe :: regex where
  "usernameRe = Seq (Cls lower_alnum) (Opt (Seq
     (Rep (Cls (lower_alnum @ [(CHR ''.'', CHR ''.''), (CHR ''_'', CHR ''_''), (CHR ''-'', CHR ''-'')])) 0 62) (Cls lower_alnum)))"

section \<open>Authentication\<close>

definition bearer :: string where "bearer = ''Bearer ''"

definition presentedKey :: "http_request \<Rightarrow> string" where
  "presentedKey r =
     (let k = TrimSpace (Rq_Header r ''X-Api-Key'') in
      if k \<noteq> [] then k
      else let auth = Rq_Header r ''Authorization'' in
        if prefix bearer auth then TrimSpace (TrimPrefix auth bearer) else [])"

definition clientIP :: "http_request \<Rightarrow> string" where
  "clientIP r = (let host = Rq_RemoteAddr r in
     Trim (case LastIndexByte host (CHR '':'') of Some i \<Rightarrow> take i host | None \<Rightarrow> host) ''[]'')"

definition missing_key :: string where
  "missing_key = ''missing API key (send it as '' @ [CHR 0x27] @ ''Authorization: Bearer <key>'' @ [CHR 0x27] @ '' or '' @ [CHR 0x27]
     @ ''X-API-Key: <key>'' @ [CHR 0x27] @ '')''"

text \<open>\<open>auth\<close>: the handler \<open>h\<close> is called with the domain of the key.\<close>

definition auth :: "lib \<Rightarrow> http_request \<Rightarrow> string \<Rightarrow> (string \<Rightarrow> 'v reply op) \<Rightarrow> 'v reply op" where
  "auth L r pathDomain h =
     (let domain = ToLower (uni L) pathDomain; key = presentedKey r in
      if key = [] then Return (writeError 401 missing_key)
      else checked (KeyVerify L key)
        (\<lambda>err. if err \<noteq> ErrInvalidKey then writeError 500 ''internal error'' else writeError 401 ''invalid or revoked API key'')
        (\<lambda>keyDomain.
           if \<not> EqualFold (uni L) keyDomain domain
           then Return (writeError 403 (''this API key is not valid for domain '' @ domain))
           else h keyDomain))"

section \<open>Helpers\<close>

definition record_change :: "http_request \<Rightarrow> string \<Rightarrow> string \<Rightarrow> string \<Rightarrow> string \<Rightarrow> unit op" where
  "record_change r D action target detail = AuditRecord (''apikey:'' @ D) action target detail (clientIP r)"

definition plural :: "int \<Rightarrow> string \<Rightarrow> string" where
  "plural n noun = (if n = 1 then ''1 '' @ noun else itoa n @ '' '' @ noun @ ''s'')"

definition writeStoreError :: "error \<Rightarrow> 'v reply" where
  "writeStoreError err =
     (if is_not_found err then writeError 404 (err_text err)
      else if is_exists err then writeError 409 (err_text err)
      else if is_validation err then writeError 400 (err_text err)
      else writeError 500 ''internal error'')"

definition bad_username :: "'v reply" where
  "bad_username = writeError 400 (''invalid username: use 1-64 lowercase letters, digits, '' @ [CHR 0x27] @ ''.'' @ [CHR 0x27] @ '', ''
     @ [CHR 0x27] @ ''_'' @ [CHR 0x27] @ '' or '' @ [CHR 0x27] @ ''-'' @ [CHR 0x27] @ '', starting and ending with a letter or digit'')"

definition address :: "lib \<Rightarrow> string \<Rightarrow> string \<Rightarrow> string option" where
  "address L D username0 =
     (let username = ToLower (uni L) (TrimSpace username0) in
      if \<not> MatchString usernameRe username \<or> Contains username ''..'' then None
      else Some (username @ ''@'' @ D))"

definition validPassword :: "string \<Rightarrow> bool" where
  "validPassword password = (let n = RuneCountInString password in \<not> (n < minPasswordLength \<or> n > maxPasswordLength))"

definition bad_password :: "'v reply" where
  "bad_password = writeError 400 ''password must be between 8 and 128 characters''"

definition validName :: "string \<Rightarrow> bool" where
  "validName name \<longleftrightarrow> \<not> (RuneCountInString name > 255 \<or> list_ex (\<lambda>c. c = CHR 0x0D \<or> c = CHR 0x0A) name)"

definition bad_name :: "'v reply" where
  "bad_name = writeError 400 ''name must be a single line of at most 255 characters''"

definition bad_json :: "'v reply" where
  "bad_json = writeError 400 ''invalid JSON body''"

definition bad_quota :: "'v reply" where
  "bad_quota = writeError 400 ''invalid quota (expected e.g. 500M, 2G)''"

text \<open>The body is read through \<open>http.MaxBytesReader\<close>, so the parser sees at most its first 64 KiB.\<close>

definition decode :: "(string \<Rightarrow> json option) \<Rightarrow> http_request \<Rightarrow> ((string \<times> json) list \<Rightarrow> 'b option) \<Rightarrow> 'b option" where
  "decode J r get = decode_into J (take maxBodyBytes (Rq_Body r)) get"

record mailbox_view =
  V_Email :: string
  V_Username :: string
  V_Name :: string
  V_Enabled :: bool
  V_QuotaBytes :: int

definition viewOf :: "mailbox \<Rightarrow> mailbox_view" where
  "viewOf m = (case Cut (Email m) ''@'' of (local, _, _) \<Rightarrow>
     \<lparr>V_Email = Email m, V_Username = local, V_Name = DisplayName m, V_Enabled = IsEnabled m, V_QuotaBytes = QuotaBytes m\<rparr>)"

text \<open>What the replies carry.\<close>

datatype public_body =
    Mailboxes "mailbox_view list"
  | OneMailbox mailbox_view
  | Aliases "alias_entry list"
  | OneAlias alias_entry
  | Groups "group_info list"
  | OneGroup group_info "group_member list"
  | AddResults "member_result list" nat nat
  | OneForward forward

type_synonym handler = "public_body reply op"

section \<open>Mailboxes\<close>

definition handleMailboxList :: "lib \<Rightarrow> string \<Rightarrow> handler" where
  "handleMailboxList L D =
     checked (MailboxList L D) writeStoreError (\<lambda>list. Return (writeJSON 200 (Mailboxes (map viewOf list))))"

definition respondMailbox :: "lib \<Rightarrow> nat \<Rightarrow> string \<Rightarrow> handler" where
  "respondMailbox L stat email =
     checked (MailboxGet L email) writeStoreError (\<lambda>m. Return (writeJSON stat (OneMailbox (viewOf m))))"

definition create_fields :: "unicode \<Rightarrow> (string \<times> json) list \<Rightarrow> (string \<times> string \<times> string \<times> string) option" where
  "create_fields U ms =
     Option.bind (field U ms ''username'' set_string []) (\<lambda>username.
     Option.bind (field U ms ''password'' set_string []) (\<lambda>password.
     Option.bind (field U ms ''name'' set_string []) (\<lambda>name.
     Option.bind (field U ms ''quota'' set_string []) (\<lambda>quota. Some (username, password, name, quota)))))"

definition handleMailboxCreate :: "lib \<Rightarrow> (string \<Rightarrow> json option) \<Rightarrow> http_request \<Rightarrow> string \<Rightarrow> handler" where
  "handleMailboxCreate L J r D =
     given (decode J r (create_fields (uni L))) bad_json (\<lambda>(username, password, name, quota0).
     given (address L D username) bad_username (\<lambda>email.
     if \<not> validPassword password then Return bad_password
     else if \<not> validName name then Return bad_name
     else case ParseQuota L (if quota0 = [] then defaultQuota else quota0) of
         Inl e \<Rightarrow> Return bad_quota
       | Inr quota \<Rightarrow>
           if quota \<le> 0 then Return bad_quota
           else checked (MailboxCreate L email password (TrimSpace name) quota) writeStoreError (\<lambda>_.
             respondMailbox L 201 email)))"

definition handleMailboxGet :: "lib \<Rightarrow> string \<Rightarrow> string \<Rightarrow> handler" where
  "handleMailboxGet L D username = given (address L D username) bad_username (\<lambda>email. respondMailbox L 200 email)"

definition handleMailboxDelete :: "lib \<Rightarrow> string \<Rightarrow> string \<Rightarrow> handler" where
  "handleMailboxDelete L D username =
     given (address L D username) bad_username (\<lambda>email.
     checked (MailboxGet L email) writeStoreError (\<lambda>_.
     checked (MailboxRemove L email) writeStoreError (\<lambda>_. Return noContent)))"

definition handleMailboxPassword :: "lib \<Rightarrow> (string \<Rightarrow> json option) \<Rightarrow> http_request \<Rightarrow> string \<Rightarrow> string \<Rightarrow> handler" where
  "handleMailboxPassword L J r D username =
     given (address L D username) bad_username (\<lambda>email.
     given (decode J r (\<lambda>ms. field (uni L) ms ''password'' set_string [])) bad_json (\<lambda>password.
     if \<not> validPassword password then Return bad_password
     else checked (MailboxPasswd L email password) writeStoreError (\<lambda>_. respondMailbox L 200 email)))"

definition handleMailboxName :: "lib \<Rightarrow> (string \<Rightarrow> json option) \<Rightarrow> http_request \<Rightarrow> string \<Rightarrow> string \<Rightarrow> handler" where
  "handleMailboxName L J r D username =
     given (address L D username) bad_username (\<lambda>email.
     given (decode J r (\<lambda>ms. field (uni L) ms ''name'' set_string [])) bad_json (\<lambda>name.
     if \<not> validName name then Return bad_name
     else checked (MailboxSetName L email (TrimSpace name)) writeStoreError (\<lambda>_. respondMailbox L 200 email)))"

definition handleMailboxQuota :: "lib \<Rightarrow> (string \<Rightarrow> json option) \<Rightarrow> http_request \<Rightarrow> string \<Rightarrow> string \<Rightarrow> handler" where
  "handleMailboxQuota L J r D username =
     given (address L D username) bad_username (\<lambda>email.
     given (decode J r (\<lambda>ms. field (uni L) ms ''quota'' set_string [])) bad_json (\<lambda>text.
     case ParseQuota L text of
         Inl e \<Rightarrow> Return bad_quota
       | Inr quota \<Rightarrow>
           if text = [] \<or> quota \<le> 0 then Return bad_quota
           else checked (MailboxSetQuota L email quota) writeStoreError (\<lambda>_. respondMailbox L 200 email)))"

definition enabled_required :: "'v reply" where
  "enabled_required = writeError 400 ([CHR 0x22] @ ''enabled'' @ [CHR 0x22] @ '' (true or false) is required'')"

definition handleMailboxStatus :: "lib \<Rightarrow> (string \<Rightarrow> json option) \<Rightarrow> http_request \<Rightarrow> string \<Rightarrow> string \<Rightarrow> handler" where
  "handleMailboxStatus L J r D username =
     given (address L D username) bad_username (\<lambda>email.
     given (decode J r (\<lambda>ms. field (uni L) ms ''enabled'' set_bool_ptr None)) bad_json (\<lambda>enabled.
     given enabled enabled_required (\<lambda>b.
     checked (MailboxSetEnabled L email b) writeStoreError (\<lambda>_. respondMailbox L 200 email))))"

section \<open>Aliases\<close>

definition handleAliasList :: "lib \<Rightarrow> string \<Rightarrow> handler" where
  "handleAliasList L D = checked (AliasList L D) writeStoreError (\<lambda>list. Return (writeJSON 200 (Aliases list)))"

text \<open>\<open>aliasFromBody\<close>: the two addresses, or the reply that was written instead.\<close>

definition aliasFromBody :: "lib \<Rightarrow> (string \<Rightarrow> json option) \<Rightarrow> http_request \<Rightarrow> string \<Rightarrow> 'v reply + string \<times> string" where
  "aliasFromBody L J r D =
     (case decode J r (\<lambda>ms. Option.bind (field (uni L) ms ''source'' set_string []) (\<lambda>src.
        Option.bind (field (uni L) ms ''destination'' set_string []) (\<lambda>dst. Some (src, dst)))) of
       None \<Rightarrow> Inl bad_json
     | Some (src, dst) \<Rightarrow> (case address L D src of
           None \<Rightarrow> Inl bad_username
         | Some source \<Rightarrow> (let destination = ToLower (uni L) (TrimSpace dst) in
             case ValidateEmail destination of
               Inl e \<Rightarrow> Inl (writeError 400 ''invalid destination address'')
             | Inr _ \<Rightarrow> Inr (source, destination))))"

definition handleAliasCreate :: "lib \<Rightarrow> (string \<Rightarrow> json option) \<Rightarrow> http_request \<Rightarrow> string \<Rightarrow> handler" where
  "handleAliasCreate L J r D = (case aliasFromBody L J r D of
       Inl a \<Rightarrow> Return a
     | Inr (source, destination) \<Rightarrow> checked (AliasAdd L source destination) writeStoreError (\<lambda>_.
         Return (writeJSON 201 (OneAlias \<lparr>Source = source, Destination = destination\<rparr>))))"

definition handleAliasDelete :: "lib \<Rightarrow> (string \<Rightarrow> json option) \<Rightarrow> http_request \<Rightarrow> string \<Rightarrow> handler" where
  "handleAliasDelete L J r D = (case aliasFromBody L J r D of
       Inl a \<Rightarrow> Return a
     | Inr (source, destination) \<Rightarrow> checked (AliasRemove L source destination) writeStoreError (\<lambda>_. Return noContent))"

section \<open>Groups\<close>

definition respondGroup :: "lib \<Rightarrow> nat \<Rightarrow> string \<Rightarrow> handler" where
  "respondGroup L stat email =
     checked (GroupGet L email) writeStoreError (\<lambda>g.
     checked (GroupMembers L email) writeStoreError (\<lambda>members.
     Return (writeJSON stat (OneGroup g members))))"

definition handleGroupList :: "lib \<Rightarrow> string \<Rightarrow> handler" where
  "handleGroupList L D = checked (GroupList L D []) writeStoreError (\<lambda>list. Return (writeJSON 200 (Groups list)))"

text \<open>\<open>groupBody\<close> with its \<open>settings()\<close>: the name and the settings, decoded over the values it held before.\<close>

definition group_fields :: "unicode \<Rightarrow> group_settings \<Rightarrow> (string \<times> json) list \<Rightarrow> (string \<times> group_settings) option" where
  "group_fields U old ms =
     Option.bind (field U ms ''name'' set_string []) (\<lambda>name.
     Option.bind (field U ms ''display_name'' set_string (S_Name old)) (\<lambda>display.
     Option.bind (field U ms ''description'' set_string (S_Description old)) (\<lambda>description.
     Option.bind (field U ms ''post_policy'' set_string (S_PostPolicy old)) (\<lambda>policy.
     Option.bind (field U ms ''allow_external'' set_bool (S_AllowExternal old)) (\<lambda>ext.
     Some (name, \<lparr>S_Name = display, S_Description = description, S_PostPolicy = policy, S_AllowExternal = ext\<rparr>))))))"

definition no_settings :: group_settings where
  "no_settings = \<lparr>S_Name = [], S_Description = [], S_PostPolicy = [], S_AllowExternal = False\<rparr>"

definition handleGroupCreate :: "lib \<Rightarrow> (string \<Rightarrow> json option) \<Rightarrow> http_request \<Rightarrow> string \<Rightarrow> handler" where
  "handleGroupCreate L J r D =
     given (decode J r (group_fields (uni L) no_settings)) bad_json (\<lambda>(name, settings0).
     given (address L D name) bad_username (\<lambda>email.
     let settings1 = (if S_Name settings0 = [] then settings0\<lparr>S_Name := ToLower (uni L) (TrimSpace name)\<rparr> else settings0);
         settings = (if S_PostPolicy settings1 = [] then settings1\<lparr>S_PostPolicy := ''organization''\<rparr> else settings1)
     in checked (GroupCreate L email settings) writeStoreError (\<lambda>_.
        andThen (record_change r D ''group.create'' email []) (\<lambda>_. respondGroup L 201 email))))"

definition handleGroupGet :: "lib \<Rightarrow> string \<Rightarrow> string \<Rightarrow> handler" where
  "handleGroupGet L D name = given (address L D name) bad_username (\<lambda>email. respondGroup L 200 email)"

definition handleGroupUpdate :: "lib \<Rightarrow> (string \<Rightarrow> json option) \<Rightarrow> http_request \<Rightarrow> string \<Rightarrow> string \<Rightarrow> handler" where
  "handleGroupUpdate L J r D name =
     given (address L D name) bad_username (\<lambda>email.
     checked (GroupGet L email) writeStoreError (\<lambda>g.
     given (decode J r (group_fields (uni L) \<lparr>S_Name = G_Name g, S_Description = G_Description g, S_PostPolicy = G_PostPolicy g,
         S_AllowExternal = G_AllowExternal g\<rparr>)) bad_json (\<lambda>(_, settings).
     checked (GroupUpdate L email settings) writeStoreError (\<lambda>_.
     andThen (record_change r D ''group.update'' email (''post_policy='' @ S_PostPolicy settings)) (\<lambda>_.
     respondGroup L 200 email)))))"

definition handleGroupDelete :: "lib \<Rightarrow> http_request \<Rightarrow> string \<Rightarrow> string \<Rightarrow> handler" where
  "handleGroupDelete L r D name =
     given (address L D name) bad_username (\<lambda>email.
     checked (GroupDelete L email) writeStoreError (\<lambda>_.
     andThen (record_change r D ''group.delete'' email []) (\<lambda>_. Return noContent)))"

definition no_members :: "'v reply" where
  "no_members = writeError 400 ([CHR 0x22] @ ''members'' @ [CHR 0x22] @ '' must list at least one address'')"

definition handleGroupAddMembers :: "lib \<Rightarrow> (string \<Rightarrow> json option) \<Rightarrow> http_request \<Rightarrow> string \<Rightarrow> string \<Rightarrow> handler" where
  "handleGroupAddMembers L J r D name =
     given (address L D name) bad_username (\<lambda>email.
     given (decode J r (\<lambda>ms. Option.bind (field (uni L) ms ''members'' set_strings []) (\<lambda>members.
         Option.bind (field (uni L) ms ''role'' set_string []) (\<lambda>role. Some (members, role))))) bad_json (\<lambda>(members, role).
     if length members = 0 then Return no_members
     else if length members > 1000 then Return (writeError 400 ''at most 1000 members per request'')
     else checked (GroupAddMembers L email members (if role = [] then RoleMember else role)) writeStoreError (\<lambda>results.
       let added = length (filter MR_Added results) in
       andThen (record_change r D ''group.members.add'' email (plural (int added) ''member'')) (\<lambda>_.
       Return (writeJSON 200 (AddResults results added (length results - added)))))))"

definition handleGroupRemoveMember :: "lib \<Rightarrow> http_request \<Rightarrow> string \<Rightarrow> string \<Rightarrow> string \<Rightarrow> handler" where
  "handleGroupRemoveMember L r D name addr =
     given (address L D name) bad_username (\<lambda>email.
     let member = ToLower (uni L) addr in
     checked (GroupRemoveMember L email member) writeStoreError (\<lambda>_.
     andThen (record_change r D ''group.members.remove'' email member) (\<lambda>_. Return noContent)))"

section \<open>Forwards\<close>

definition handleForwardSet :: "lib \<Rightarrow> (string \<Rightarrow> json option) \<Rightarrow> http_request \<Rightarrow> string \<Rightarrow> string \<Rightarrow> handler" where
  "handleForwardSet L J r D username =
     given (address L D username) bad_username (\<lambda>email.
     given (decode J r (\<lambda>ms. Option.bind (field (uni L) ms ''destination'' set_string []) (\<lambda>destination.
         Option.bind (field (uni L) ms ''keep_copy'' set_bool_ptr None) (\<lambda>keep. Some (destination, keep))))) bad_json (\<lambda>(destination, keep0).
     let keep = (case keep0 of None \<Rightarrow> True | Some b \<Rightarrow> b) in
     checked (ForwardSet L email destination keep) writeStoreError (\<lambda>_.
     andThen (record_change r D ''user.forward.set'' email destination) (\<lambda>_.
     Return (writeJSON 200 (OneForward \<lparr>F_Destination = ToLower (uni L) (TrimSpace destination), F_KeepCopy = keep\<rparr>))))))"

definition handleForwardClear :: "lib \<Rightarrow> http_request \<Rightarrow> string \<Rightarrow> string \<Rightarrow> handler" where
  "handleForwardClear L r D username =
     given (address L D username) bad_username (\<lambda>email.
     checked (MailboxGet L email) writeStoreError (\<lambda>_.
     checked (ForwardClear L email) writeStoreError (\<lambda>_.
     andThen (record_change r D ''user.forward.clear'' email []) (\<lambda>_. Return noContent))))"

section \<open>Routes\<close>

text \<open>
  The patterns registered with \<open>http.ServeMux\<close>, on the segments of a path below \<open>/api/\<close>. A \<open>GET\<close> pattern also takes \<open>HEAD\<close>. The last pattern takes every
  request that no other one takes, whatever its method. Paths are clean (the multiplexer redirects others), and only paths below \<open>/api/\<close> are handed to
  this server.
\<close>

definition no_endpoint :: "'v reply" where
  "no_endpoint = writeError 404 ''no such endpoint''"

definition mailbox_routes :: "lib \<Rightarrow> (string \<Rightarrow> json option) \<Rightarrow> http_request \<Rightarrow> string \<Rightarrow> string list \<Rightarrow> (string \<Rightarrow> handler) option" where
  "mailbox_routes L J r meth segs =
     (case segs of
        [] \<Rightarrow> (if meth = ''GET'' then Some (handleMailboxList L)
               else if meth = ''POST'' then Some (handleMailboxCreate L J r) else None)
      | [username] \<Rightarrow> (if meth = ''GET'' then Some (\<lambda>D. handleMailboxGet L D username)
               else if meth = ''DELETE'' then Some (\<lambda>D. handleMailboxDelete L D username) else None)
      | [username, what] \<Rightarrow>
          (if meth = ''PUT'' \<and> what = ''password'' then Some (\<lambda>D. handleMailboxPassword L J r D username)
           else if meth = ''PUT'' \<and> what = ''name'' then Some (\<lambda>D. handleMailboxName L J r D username)
           else if meth = ''PUT'' \<and> what = ''quota'' then Some (\<lambda>D. handleMailboxQuota L J r D username)
           else if meth = ''PUT'' \<and> what = ''status'' then Some (\<lambda>D. handleMailboxStatus L J r D username)
           else if meth = ''PUT'' \<and> what = ''forward'' then Some (\<lambda>D. handleForwardSet L J r D username)
           else if meth = ''DELETE'' \<and> what = ''forward'' then Some (\<lambda>D. handleForwardClear L r D username)
           else None)
      | _ \<Rightarrow> None)"

definition group_routes :: "lib \<Rightarrow> (string \<Rightarrow> json option) \<Rightarrow> http_request \<Rightarrow> string \<Rightarrow> string list \<Rightarrow> (string \<Rightarrow> handler) option" where
  "group_routes L J r meth segs =
     (case segs of
        [] \<Rightarrow> (if meth = ''GET'' then Some (handleGroupList L)
               else if meth = ''POST'' then Some (handleGroupCreate L J r) else None)
      | [name] \<Rightarrow> (if meth = ''GET'' then Some (\<lambda>D. handleGroupGet L D name)
               else if meth = ''PUT'' then Some (\<lambda>D. handleGroupUpdate L J r D name)
               else if meth = ''DELETE'' then Some (\<lambda>D. handleGroupDelete L r D name) else None)
      | [name, what] \<Rightarrow>
          (if meth = ''POST'' \<and> what = ''members'' then Some (\<lambda>D. handleGroupAddMembers L J r D name) else None)
      | [name, what, member] \<Rightarrow>
          (if meth = ''DELETE'' \<and> what = ''members'' then Some (\<lambda>D. handleGroupRemoveMember L r D name member) else None)
      | _ \<Rightarrow> None)"

definition alias_routes :: "lib \<Rightarrow> (string \<Rightarrow> json option) \<Rightarrow> http_request \<Rightarrow> string \<Rightarrow> string list \<Rightarrow> (string \<Rightarrow> handler) option" where
  "alias_routes L J r meth segs =
     (if segs \<noteq> [] then None
      else if meth = ''GET'' then Some (handleAliasList L)
      else if meth = ''POST'' then Some (handleAliasCreate L J r)
      else if meth = ''DELETE'' then Some (handleAliasDelete L J r)
      else None)"

definition ServeHTTP :: "lib \<Rightarrow> (string \<Rightarrow> json option) \<Rightarrow> http_request \<Rightarrow> handler" where
  "ServeHTTP L J r =
     (let meth = (if Rq_Method r = ''HEAD'' then ''GET'' else Rq_Method r) in
      case Rq_Path r of
        api # domain # kind # segs \<Rightarrow>
          (case (if api \<noteq> ''api'' \<or> [] \<in> set (domain # segs) then None
                 else if kind = ''mailbox'' then mailbox_routes L J r meth segs
                 else if kind = ''alias'' then alias_routes L J r meth segs
                 else if kind = ''group'' then group_routes L J r meth segs
                 else None) of
             None \<Rightarrow> Return no_endpoint
           | Some h \<Rightarrow> auth L r domain h)
      | _ \<Rightarrow> Return no_endpoint)"

end
