(* ===== verification/Go_Library.thy ===== *)
theory Go_Library
  imports RE2_Regexp Complex_Main
begin

text \<open>
  More of Go's standard library, as far as the dashboard and the server tools use it: splitting and trimming of texts, numbers read without looking at the error,
  escaping in URLs, 64-bit floating-point numbers and the verbs of \<open>fmt\<close> that print them.
\<close>

section \<open>Texts\<close>

definition apos :: string where "apos = [CHR 0x27]"

definition lf :: string where "lf = [CHR 0x0A]"

text \<open>\<open>strings.Split(s, sep)\<close> for a separator of twice the same character.\<close>

fun SplitTwo :: "char \<Rightarrow> string \<Rightarrow> string list" where
  "SplitTwo c [] = [[]]"
| "SplitTwo c [x] = [[x]]"
| "SplitTwo c (x # y # s) = (if x = c \<and> y = c then [] # SplitTwo c s
     else (case SplitTwo c (y # s) of p # ps \<Rightarrow> (x # p) # ps | [] \<Rightarrow> [[x]]))"

text \<open>\<open>strings.SplitN(s, sep, n)\<close> for a separator of one character and \<open>n > 0\<close>.\<close>

fun SplitN :: "char \<Rightarrow> string \<Rightarrow> nat \<Rightarrow> string list" where
  "SplitN c s (Suc (Suc n)) = (case Cut s [c] of (a, b, found) \<Rightarrow> if found then a # SplitN c b (Suc n) else [s])"
| "SplitN c s n = [s]"

text \<open>\<open>strings.FieldsFunc\<close> for a predicate that holds of ASCII characters only.\<close>

function FieldsFunc :: "(char \<Rightarrow> bool) \<Rightarrow> string \<Rightarrow> string list" where
  "FieldsFunc P [] = []"
| "FieldsFunc P (c # s) = (if P c then FieldsFunc P s
     else (c # takeWhile (\<lambda>x. \<not> P x) s) # FieldsFunc P (dropWhile (\<lambda>x. \<not> P x) s))"
  by pat_completeness auto
termination
  by (relation "measure (length \<circ> snd)") (simp_all add: le_imp_less_Suc length_dropWhile_le)

definition TrimLeft :: "string \<Rightarrow> string \<Rightarrow> string" where
  "TrimLeft s cutset = dropWhile (\<lambda>c. c \<in> set cutset) s"

text \<open>\<open>bufio.Scanner\<close> with a buffer of \<open>n\<close> bytes: the lines up to the first that does not fit.\<close>

definition ScanLines :: "nat \<Rightarrow> string \<Rightarrow> string list" where
  "ScanLines n s = (let ls = split_on (CHR 0x0A) s; full = (if last ls = [] then butlast ls else ls)
     in map (\<lambda>l. TrimSuffix l [CHR 0x0D]) (takeWhile (\<lambda>l. length l < n) full))"

lemma FieldsFunc_words: "\<forall>w\<in>set (FieldsFunc P s). w \<noteq> [] \<and> (\<forall>c\<in>set w. \<not> P c)"
proof (induction s rule: length_induct)
  case (1 s)
  then have IH: "\<forall>w\<in>set (FieldsFunc P t). w \<noteq> [] \<and> (\<forall>c\<in>set w. \<not> P c)" if "length t < length s" for t
    using that by blast
  show ?case
  proof (cases s)
    case (Cons c t)
    show ?thesis
    proof (cases "P c")
      case True
      then have "FieldsFunc P s = FieldsFunc P t" by (simp only: Cons FieldsFunc.simps if_True)
      with IH [of t] Cons show ?thesis by simp
    next
      case False
      define u where "u = takeWhile (\<lambda>x. \<not> P x) t"
      have u: "\<forall>x\<in>set u. \<not> P x" unfolding u_def using set_takeWhileD by fast
      have "FieldsFunc P s = (c # u) # FieldsFunc P (dropWhile (\<lambda>x. \<not> P x) t)"
        using False by (simp only: Cons FieldsFunc.simps if_False u_def)
      moreover have "\<forall>w\<in>set (FieldsFunc P (dropWhile (\<lambda>x. \<not> P x) t)). w \<noteq> [] \<and> (\<forall>c\<in>set w. \<not> P c)"
        by (rule IH) (simp add: Cons le_imp_less_Suc length_dropWhile_le)
      ultimately show ?thesis using u False by (metis list.distinct(1) set_ConsD)
    qed
  qed simp
qed

section \<open>Numbers\<close>

text \<open>\<open>n, _ := strconv.Atoi(s)\<close>: a number out of range gives the nearest one in range, any other error 0.\<close>

definition AtoiValue :: "string \<Rightarrow> int" where
  "AtoiValue s =
     (let (neg, ds) = (case s of c # cs \<Rightarrow>
            if c = CHR ''+'' then (False, cs) else if c = CHR ''-'' then (True, cs) else (False, s)
          | [] \<Rightarrow> (False, []));
          n = int (digits_val ds)
      in if ds = [] \<or> \<not> list_all is_digit ds then 0
         else if neg then max (- (2 ^ 63)) (- n) else min (2 ^ 63 - 1) n)"

lemma AtoiValue_range: "- (2 ^ 63) \<le> AtoiValue s \<and> AtoiValue s < 2 ^ 63"
  by (auto simp: AtoiValue_def Let_def split: list.splits)

text \<open>Division of integers in Go, towards zero.\<close>

definition quot :: "int \<Rightarrow> int \<Rightarrow> int" where
  "quot a b = (if (a < 0) = (b < 0) then \<bar>a\<bar> div \<bar>b\<bar> else - (\<bar>a\<bar> div \<bar>b\<bar>))"

section \<open>URLs\<close>

text \<open>What \<open>url.PathEscape\<close> leaves alone in a segment of a path.\<close>

definition PathEscape :: "string \<Rightarrow> string" where
  "PathEscape s = concat (map (\<lambda>c. if is_digit c \<or> is_upper c \<or> is_lower c
      \<or> c \<in> {CHR ''-'', CHR ''_'', CHR ''.'', CHR ''~'', CHR ''$'', CHR ''&'', CHR ''+'', CHR ''='', CHR '':'', CHR ''@''}
    then [c] else CHR ''%'' # map upper_byte (hex_byte c)) s)"

definition hex_nibble :: "char \<Rightarrow> nat option" where
  "hex_nibble c = (if is_digit c then Some (byte c - 48)
     else if 97 \<le> byte c \<and> byte c \<le> 102 then Some (byte c - 87)
     else if 65 \<le> byte c \<and> byte c \<le> 70 then Some (byte c - 55) else None)"

text \<open>\<open>url.QueryUnescape\<close>; \<open>None\<close> for its error.\<close>

fun QueryUnescape :: "string \<Rightarrow> string option" where
  "QueryUnescape [] = Some []"
| "QueryUnescape (c # s) =
     (if c = CHR ''%'' then (case s of a # b # t \<Rightarrow> (case (hex_nibble a, hex_nibble b) of
            (Some m, Some n) \<Rightarrow> map_option ((#) (char_of (m * 16 + n))) (QueryUnescape t) | _ \<Rightarrow> None) | _ \<Rightarrow> None)
      else map_option ((#) (if c = CHR ''+'' then CHR '' '' else c)) (QueryUnescape s))"

section \<open>Floating-point numbers\<close>

text \<open>
  \<open>float64\<close> values as the rational numbers they are: \<open>f64 q\<close> is the nearest number with 53 significant bits, the even one of two. Overflow
  and denormal numbers, which the values of the source cannot reach, are left out.
\<close>

function bit_length :: "int \<Rightarrow> int" where
  "bit_length n = (if n \<le> 0 then 0 else 1 + bit_length (n div 2))"
  by pat_completeness auto
termination
  by (relation "measure nat") auto

declare bit_length.simps [simp del]

definition half_even :: "rat \<Rightarrow> int" where
  "half_even x = (let n = \<lfloor>x\<rfloor>; d = x - of_int n in
     if d < 1 / 2 then n else if d > 1 / 2 then n + 1 else if even n then n else n + 1)"

definition scaled :: "rat \<Rightarrow> int \<Rightarrow> rat" where
  "scaled q e = (if e \<ge> 0 then q * 2 ^ nat e else q / 2 ^ nat (- e))"

definition f64 :: "rat \<Rightarrow> rat" where
  "f64 q = (if q = 0 then 0 else (case quotient_of \<bar>q\<bar> of (a, b) \<Rightarrow>
     let e0 = 52 - (bit_length a - bit_length b);
         e = (if scaled \<bar>q\<bar> e0 < 2 ^ 52 then e0 + 1 else e0);
         r = scaled (of_int (half_even (scaled \<bar>q\<bar> e))) (- e)
     in if q < 0 then - r else r))"

text \<open>\<open>%.1f\<close> and \<open>%.0f\<close> of a number that is not negative.\<close>

definition fmt_fixed1 :: "rat \<Rightarrow> string" where
  "fmt_fixed1 v = (let n = nat (half_even (v * 10)) in nat_itoa (n div 10) @ ''.'' @ nat_itoa (n mod 10))"

definition fmt_fixed0 :: "rat \<Rightarrow> string" where
  "fmt_fixed0 v = nat_itoa (nat (half_even v))"

text \<open>\<open>strconv.ParseFloat\<close> of digits and dots.\<close>

definition ParseDecimal :: "string \<Rightarrow> rat" where
  "ParseDecimal s = (case Cut s ''.'' of (a, b, dot) \<Rightarrow>
     if a @ b = [] \<or> \<not> list_all is_digit (a @ b) then 0 else f64 (of_nat (digits_val (a @ b)) / 10 ^ length b))"

lemma half_even_of_int [simp]: "half_even (of_int n) = n"
  by (simp add: half_even_def)

end
