(* ===== verification/Base64.thy ===== *)
theory Base64
  imports Go_Prelude
begin

text \<open>
  \<open>encoding/base64\<close>: the standard alphabet, with and without padding. Decoding skips line breaks, as Go's decoder does.
\<close>

definition b64_char :: "nat \<Rightarrow> char" where
  "b64_char n = (if n < 26 then char_of (65 + n) else if n < 52 then char_of (71 + n)
     else if n < 62 then char_of (n - 4) else if n = 62 then CHR ''+'' else CHR ''/'')"

definition b64_val :: "char \<Rightarrow> nat option" where
  "b64_val c = (if is_upper c then Some (byte c - 65) else if is_lower c then Some (byte c - 71)
     else if is_digit c then Some (byte c + 4) else if c = CHR ''+'' then Some 62 else if c = CHR ''/'' then Some 63 else None)"

fun b64_pack :: "string \<Rightarrow> nat list" where
  "b64_pack [] = []"
| "b64_pack [a] = [byte a div 4, byte a mod 4 * 16]"
| "b64_pack [a, b] = [byte a div 4, byte a mod 4 * 16 + byte b div 16, byte b mod 16 * 4]"
| "b64_pack (a # b # c # r) = byte a div 4 # (byte a mod 4 * 16 + byte b div 16) # (byte b mod 16 * 4 + byte c div 64) # byte c mod 64
     # b64_pack r"

fun b64_unpack :: "nat list \<Rightarrow> string option" where
  "b64_unpack [] = Some []"
| "b64_unpack [a] = None"
| "b64_unpack [a, b] = Some [char_of (a * 4 + b div 16)]"
| "b64_unpack [a, b, c] = Some [char_of (a * 4 + b div 16), char_of (b mod 16 * 16 + c div 4)]"
| "b64_unpack (a # b # c # d # r) = map_option (\<lambda>s. char_of (a * 4 + b div 16) # char_of (b mod 16 * 16 + c div 4)
     # char_of (c mod 4 * 64 + d) # s) (b64_unpack r)"

definition RawEncode :: "string \<Rightarrow> string" where
  "RawEncode s = map b64_char (b64_pack s)"

definition RawDecode :: "string \<Rightarrow> string option" where
  "RawDecode s = (case those (map b64_val (filter (\<lambda>c. c \<noteq> CHR 0x0A \<and> c \<noteq> CHR 0x0D) s)) of
       None \<Rightarrow> None | Some ds \<Rightarrow> b64_unpack ds)"

definition b64_pad :: "nat \<Rightarrow> string" where
  "b64_pad n = (if n mod 3 = 0 then [] else if n mod 3 = 1 then ''=='' else ''='')"

definition StdEncode :: "string \<Rightarrow> string" where
  "StdEncode s = RawEncode s @ b64_pad (length s)"

definition StdDecode :: "string \<Rightarrow> string option" where
  "StdDecode s = (let t = filter (\<lambda>c. c \<noteq> CHR 0x0A \<and> c \<noteq> CHR 0x0D) s;
       pads = (if suffix ''=='' t then 2 else if suffix ''='' t then 1 else 0)
     in if length t mod 4 \<noteq> 0 then None else RawDecode (take (length t - pads) t))"

section \<open>Decoding inverts encoding\<close>

lemma b64_char_ok:
  assumes "n < 64"
  shows "b64_val (b64_char n) = Some n \<and> b64_char n \<notin> {CHR 0x0A, CHR 0x0D, CHR ''$'', CHR ''=''}"
proof -
  have other: "b64_val (CHR 0x0A) = None" "b64_val (CHR 0x0D) = None" "b64_val (CHR ''$'') = None" "b64_val (CHR ''='') = None"
    by (simp_all add: b64_val_def is_upper_def is_lower_def is_digit_def)
  have "b64_val (b64_char n) = Some n"
  proof -
    consider "n < 26" | "26 \<le> n \<and> n < 52" | "52 \<le> n \<and> n < 62" | "n = 62" | "n = 63" using assms by linarith
    then show ?thesis
      by cases (auto simp: b64_char_def b64_val_def is_upper_def is_lower_def is_digit_def)
  qed
  then show ?thesis using other by auto
qed

lemma byte_less [simp]: "byte c < 256"
  using of_char_of [of "of_char c :: nat"] by (metis of_char_mod_256 mod_less_divisor zero_less_numeral)

lemma b64_bounds [simp]:
  "byte a div 4 < 64" "byte a mod 4 * 16 + byte b div 16 < 64" "byte b mod 16 * 4 + byte c div 64 < 64"
  "byte a mod 4 * 16 < 64" "byte b mod 16 * 4 < 64"
proof -
  show "byte a div 4 < 64" using byte_less [of a] by (simp add: less_mult_imp_div_less)
  have "byte b div 16 < 16" "byte c div 64 < 4" using byte_less [of b] byte_less [of c] by (simp_all add: less_mult_imp_div_less)
  moreover have "byte a mod 4 < 4" "byte b mod 16 < 16" by simp_all
  ultimately show "byte a mod 4 * 16 + byte b div 16 < 64" "byte b mod 16 * 4 + byte c div 64 < 64"
    "byte a mod 4 * 16 < 64" "byte b mod 16 * 4 < 64" by linarith+
qed

lemma b64_pack_digits: "\<forall>n\<in>set (b64_pack s). n < 64"
  by (induction s rule: b64_pack.induct) simp_all

lemma b64_unpack_pack [simp]: "b64_unpack (b64_pack s) = Some s"
proof (induction s rule: b64_pack.induct)
  case (2 a)
  then show ?case by simp
next
  case (3 a b)
  have "byte a div 4 * 4 + (byte a mod 4 * 16 + byte b div 16) div 16 = byte a"
    using byte_less [of b] by (simp add: less_mult_imp_div_less)
  moreover have "(byte a mod 4 * 16 + byte b div 16) mod 16 = byte b div 16"
    using byte_less [of b] by (simp add: less_mult_imp_div_less)
  ultimately show ?case by simp
next
  case (4 a b c r)
  have "byte a div 4 * 4 + (byte a mod 4 * 16 + byte b div 16) div 16 = byte a"
    using byte_less [of b] by (simp add: less_mult_imp_div_less)
  moreover have "(byte a mod 4 * 16 + byte b div 16) mod 16 = byte b div 16"
    using byte_less [of b] by (simp add: less_mult_imp_div_less)
  moreover have "byte b div 16 * 16 + (byte b mod 16 * 4 + byte c div 64) div 4 = byte b"
    using byte_less [of c] by (simp add: less_mult_imp_div_less)
  moreover have "(byte b mod 16 * 4 + byte c div 64) mod 4 = byte c div 64"
    using byte_less [of c] by (simp add: less_mult_imp_div_less)
  ultimately show ?case using 4 by simp
qed simp

lemma those_map_Some: "(\<And>x. x \<in> set xs \<Longrightarrow> f x = Some (g x)) \<Longrightarrow> those (map f xs) = Some (map g xs)"
  by (induction xs) auto

lemma RawEncode_chars: "c \<in> set (RawEncode s) \<Longrightarrow> c \<notin> {CHR 0x0A, CHR 0x0D, CHR ''$'', CHR ''=''}"
  using b64_pack_digits [of s] b64_char_ok by (fastforce simp: RawEncode_def)

lemma RawDecode_RawEncode [simp]: "RawDecode (RawEncode s) = Some s"
proof -
  have "filter (\<lambda>c. c \<noteq> CHR 0x0A \<and> c \<noteq> CHR 0x0D) (RawEncode s) = RawEncode s"
    using RawEncode_chars [of _ s] by (auto simp: filter_id_conv)
  moreover have "those (map b64_val (RawEncode s)) = Some (map (\<lambda>n. n) (b64_pack s))"
    unfolding RawEncode_def map_map by (rule those_map_Some) (use b64_pack_digits b64_char_ok in auto)
  ultimately show ?thesis by (simp add: RawDecode_def)
qed

lemma length_b64_pack: "length (b64_pack s) = (4 * length s + 2) div 3"
  by (induction s rule: b64_pack.induct) simp_all

lemma length_StdEncode: "length (StdEncode s) mod 4 = 0"
proof (induction s rule: b64_pack.induct)
  case (4 a b c r)
  have "b64_pad (length (a # b # c # r)) = b64_pad (length r)"
    by (simp add: b64_pad_def)
  with 4 show ?case by (simp add: StdEncode_def RawEncode_def)
qed (simp_all add: StdEncode_def RawEncode_def b64_pad_def)

lemma StdDecode_StdEncode [simp]: "StdDecode (StdEncode s) = Some s"
proof -
  have clean: "filter (\<lambda>c. c \<noteq> CHR 0x0A \<and> c \<noteq> CHR 0x0D) (StdEncode s) = StdEncode s"
    using RawEncode_chars [of _ s] by (auto simp: filter_id_conv StdEncode_def b64_pad_def split: if_splits)
  have last: "\<not> suffix ''='' (RawEncode s)"
    using RawEncode_chars [of "CHR ''=''" s] by (auto simp: suffix_def)
  have "suffix ''=='' (RawEncode s @ ''='') = False"
    using last by (auto simp: suffix_def append_eq_append_conv2 Cons_eq_append_conv append_eq_Cons_conv)
  then have pads: "(if suffix ''=='' (StdEncode s) then 2 else if suffix ''='' (StdEncode s) then 1 else 0) = length (b64_pad (length s))"
    using last suffix_order.trans [of "''=''" "''==''" "RawEncode s"]
    by (auto simp: StdEncode_def b64_pad_def suffix_def)
  have "take (length (StdEncode s) - length (b64_pad (length s))) (StdEncode s) = RawEncode s"
    by (simp add: StdEncode_def)
  then show ?thesis unfolding StdDecode_def Let_def clean pads by (simp add: length_StdEncode)
qed

end
