(* ===== verification/Adminauth.thy ===== *)
theory Adminauth
  imports Credentials Base64
begin

text \<open>
  Package adminauth: the accounts of the dashboard with their Argon2id password hashes, and the sessions of the signed-in users.
  \<open>argon2\<close> is a parameter; \<open>argon2_ok\<close> is what its documentation promises about the length of its result.
\<close>

section \<open>Passwords\<close>

definition argonTime :: nat where "argonTime = 3"
definition argonMemory :: nat where "argonMemory = 65536"
definition argonThreads :: nat where "argonThreads = 2"
definition argonKeyLen :: nat where "argonKeyLen = 32"
definition saltLen :: nat where "saltLen = 16"
definition sessionTTL :: int where "sessionTTL = 7 * 24 * 3600"

definition ErrInvalidCredentials :: error where
  "ErrInvalidCredentials = ErrInvalid ''invalid username or password''"

definition ErrInvalidSession :: error where
  "ErrInvalidSession = ErrInvalid ''invalid or expired session''"

definition ErrUserExists :: error where
  "ErrUserExists = ErrText ''username already exists''"

text \<open>The text of a hash: the parameters, the salt and the digest between dollar signs.\<close>

definition encode_hash :: "string \<Rightarrow> string \<Rightarrow> string" where
  "encode_hash salt hash = ''$argon2id$v='' @ nat_itoa 19 @ ''$m='' @ nat_itoa argonMemory @ '',t='' @ nat_itoa argonTime
     @ '',p='' @ nat_itoa argonThreads @ ''$'' @ RawEncode salt @ ''$'' @ RawEncode hash"

definition HashPassword :: "lib \<Rightarrow> string \<Rightarrow> string op" where
  "HashPassword L password = andThen (RandRead saltLen) (\<lambda>salt.
     Return (encode_hash salt (argon2 L password salt argonTime argonMemory argonThreads argonKeyLen)))"

text \<open>
  \<open>fmt.Sscanf\<close>, as far as the two formats need it: text of the format is matched as it stands, a \<open>%d\<close> skips blanks and reads digits (with a
  sign, for a signed target). What is left of the input after the last verb is ignored.
\<close>

definition scan_lit :: "string \<Rightarrow> string \<Rightarrow> string option" where
  "scan_lit l s = (if prefix l s then Some (drop (length l) s) else None)"

definition skip_space :: "string \<Rightarrow> string" where
  "skip_space s = trim_left (filter (\<lambda>p. p \<noteq> [CHR 0x0A]) space_seqs) s"

definition scan_uint :: "nat \<Rightarrow> string \<Rightarrow> (nat \<times> string) option" where
  "scan_uint width s = (let t = skip_space s; ds = takeWhile is_digit t in
     if ds = [] \<or> digits_val ds \<ge> 2 ^ width then None else Some (digits_val ds, drop (length ds) t))"

definition scan_int :: "string \<Rightarrow> int option" where
  "scan_int s = (let t = skip_space s;
       sign = (case t of c # cs \<Rightarrow> if c = CHR ''+'' \<or> c = CHR ''-'' then [c] else [] | [] \<Rightarrow> [])
     in ParseInt64 (sign @ takeWhile is_digit (drop (length sign) t)))"

definition scan_params :: "string \<Rightarrow> (nat \<times> nat \<times> nat) option" where
  "scan_params s = (case Option.bind (scan_lit ''m='' s) (scan_uint 32) of None \<Rightarrow> None
     | Some (m, s1) \<Rightarrow> (case Option.bind (scan_lit '',t='' s1) (scan_uint 32) of None \<Rightarrow> None
     | Some (t, s2) \<Rightarrow> (case Option.bind (scan_lit '',p='' s2) (scan_uint 32) of None \<Rightarrow> None
     | Some (p, s3) \<Rightarrow> Some (m, t, p))))"

definition scan_error :: error where "scan_error = ErrText ''input does not match format''"
definition base64_error :: error where "base64_error = ErrText ''illegal base64 data''"

definition VerifyPassword :: "lib \<Rightarrow> string \<Rightarrow> string \<Rightarrow> error + bool" where
  "VerifyPassword L password encoded =
     (let parts = split_on (CHR ''$'') encoded in
      if length parts \<noteq> 6 \<or> parts ! 1 \<noteq> ''argon2id'' then Inl (ErrText ''unrecognized password hash format'')
      else if Option.bind (scan_lit ''v='' (parts ! 2)) scan_int = None then Inl scan_error
      else (case scan_params (parts ! 3) of None \<Rightarrow> Inl scan_error
      | Some (mem, time, threads) \<Rightarrow> (case RawDecode (parts ! 4) of None \<Rightarrow> Inl base64_error
      | Some salt \<Rightarrow> (case RawDecode (parts ! 5) of None \<Rightarrow> Inl base64_error
      | Some want \<Rightarrow> Inr (argon2 L password salt time mem (threads mod 256) (length want) = want)))))"

section \<open>Accounts\<close>

record admin_user =
  AU_ID :: nat
  AU_Username :: string

definition adkey :: "lib \<Rightarrow> admin_row \<Rightarrow> string" where "adkey L a = ck L (ad_username a)"
definition skey :: "lib \<Rightarrow> session_row \<Rightarrow> string" where "skey L s = ck L (s_token_hash s)"

type_synonym admin_stmt = "world \<Rightarrow> error + nat \<times> world"

definition ins_admin :: "lib \<Rightarrow> admin_row \<Rightarrow> admin_stmt" where
  "ins_admin L a w = (case insert_row (adkey L) (a\<lparr>ad_id := next_id w\<rparr>) (admin_users w) of
       Inl e \<Rightarrow> Inl e
     | Inr t \<Rightarrow> Inr (1, w\<lparr>admin_users := t, next_id := Suc (next_id w)\<rparr>))"

text \<open>The sessions of a deleted account go with it.\<close>

definition del_admins :: "(admin_row \<Rightarrow> bool) \<Rightarrow> admin_stmt" where
  "del_admins P w = Inr (count_rows P (admin_users w), w\<lparr>admin_users := delete_rows P (admin_users w),
     admin_sessions := delete_rows (\<lambda>s. \<exists>a\<in>set (admin_users w). P a \<and> ad_id a = s_admin_user_id s) (admin_sessions w)\<rparr>)"

definition upd_admins :: "(admin_row \<Rightarrow> bool) \<Rightarrow> (admin_row \<Rightarrow> admin_row) \<Rightarrow> admin_stmt" where
  "upd_admins P f w = Inr (changed_rows P f (admin_users w), w\<lparr>admin_users := update_rows P f (admin_users w)\<rparr>)"

definition ins_session :: "lib \<Rightarrow> session_row \<Rightarrow> admin_stmt" where
  "ins_session L s w = (case insert_row (skey L) s (admin_sessions w) of
       Inl e \<Rightarrow> Inl e
     | Inr t \<Rightarrow> if s_admin_user_id s \<in> ad_id ` set (admin_users w) then Inr (1, w\<lparr>admin_sessions := t\<rparr>) else Inl DBError)"

definition del_sessions :: "(session_row \<Rightarrow> bool) \<Rightarrow> admin_stmt" where
  "del_sessions P w = Inr (count_rows P (admin_sessions w), w\<lparr>admin_sessions := delete_rows P (admin_sessions w)\<rparr>)"

definition CreateUser :: "lib \<Rightarrow> string \<Rightarrow> string \<Rightarrow> unit op" where
  "CreateUser L username password =
     andThen (HashPassword L password) (\<lambda>hash.
     andThen (Attempt (Exec (ins_admin L \<lparr>ad_id = 0, ad_username = username, ad_password_hash = hash, ad_last_login_at = None\<rparr>))) (\<lambda>r.
     case r of Inl e \<Rightarrow> if Contains (err_text e) ''Duplicate entry'' then Raise ErrUserExists else Raise e
       | Inr n \<Rightarrow> Return ()))"

definition scan_admin :: "admin_row \<Rightarrow> admin_user" where
  "scan_admin a = \<lparr>AU_ID = ad_id a, AU_Username = ad_username a\<rparr>"

definition ListUsers :: "lib \<Rightarrow> admin_user list op" where
  "ListUsers L = Query (\<lambda>w. map scan_admin (sort_key (adkey L) (admin_users w)))"

definition CountUsers :: "nat op" where
  "CountUsers = Query (\<lambda>w. length (admin_users w))"

definition no_admin :: "lib \<Rightarrow> string \<Rightarrow> error" where
  "no_admin L username = ErrText (''no admin user named '' @ Quote (uni L) username)"

definition DeleteUser :: "lib \<Rightarrow> string \<Rightarrow> unit op" where
  "DeleteUser L username = andThen (Exec (del_admins (\<lambda>a. adkey L a = ck L username))) (\<lambda>n.
     if n = 0 then Raise (no_admin L username) else Return ())"

text \<open>The join of a session with the account it belongs to.\<close>

definition session_of :: "lib \<Rightarrow> world \<Rightarrow> string \<Rightarrow> session_row \<Rightarrow> bool" where
  "session_of L w username s \<longleftrightarrow> (\<exists>a\<in>set (admin_users w). ad_id a = s_admin_user_id s \<and> adkey L a = ck L username)"

definition ChangePassword :: "lib \<Rightarrow> string \<Rightarrow> string \<Rightarrow> unit op" where
  "ChangePassword L username newPassword =
     andThen (HashPassword L newPassword) (\<lambda>hash.
     andThen (Exec (upd_admins (\<lambda>a. adkey L a = ck L username) (\<lambda>a. a\<lparr>ad_password_hash := hash\<rparr>))) (\<lambda>n.
     if n = 0 then Raise (no_admin L username)
     else andThen (Exec (\<lambda>w. del_sessions (session_of L w username) w)) (\<lambda>_. Return ())))"

definition dummyHash :: string where
  "dummyHash = ''$argon2id$v=19$m=65536,t=3,p=2$AAAAAAAAAAAAAAAAAAAAAA$AAAAAAAAAAAAAAAAAAAAAAAAAAAAAAAAAAAAAAAAAAA''"

definition Authenticate :: "lib \<Rightarrow> string \<Rightarrow> string \<Rightarrow> admin_user op" where
  "Authenticate L username password =
     andThen (Query (\<lambda>w. row_at (adkey L) (ck L username) (admin_users w))) (\<lambda>row. case row of
         None \<Rightarrow> (let ignored = VerifyPassword L password dummyHash in Raise ErrInvalidCredentials)
       | Some a \<Rightarrow> if VerifyPassword L password (ad_password_hash a) \<noteq> Inr True then Raise ErrInvalidCredentials
           else andThen (Attempt (Exec (\<lambda>w. upd_admins (\<lambda>x. ad_id x = ad_id a) (\<lambda>x. x\<lparr>ad_last_login_at := Some (clock w)\<rparr>) w)))
             (\<lambda>_. Return (scan_admin a)))"

section \<open>Sessions\<close>

definition CreateSession :: "lib \<Rightarrow> nat \<Rightarrow> string \<Rightarrow> string \<Rightarrow> (string \<times> int) op" where
  "CreateSession L userID ip userAgent =
     andThen (Attempt (Exec (\<lambda>w. del_sessions (\<lambda>s. s_expires_at s < clock w) w))) (\<lambda>_.
     andThen (generatePlaintext []) (\<lambda>token.
     andThen Now (\<lambda>now. let expiresAt = now + sessionTTL in
     andThen (Exec (ins_session L \<lparr>s_admin_user_id = userID, s_token_hash = hashToken L token, s_expires_at = expiresAt,
         s_ip_address = ip, s_user_agent = userAgent\<rparr>)) (\<lambda>_. Return (token, expiresAt)))))"

text \<open>The account a session that has not expired stands for.\<close>

definition session_at :: "lib \<Rightarrow> admin_row list \<Rightarrow> int \<Rightarrow> session_row list \<Rightarrow> string \<Rightarrow> admin_user option" where
  "session_at L admins now sessions token = (case row_at (skey L) (ck L (hashToken L token)) sessions of
       None \<Rightarrow> None
     | Some s \<Rightarrow> if s_expires_at s > now then map_option scan_admin (row_at ad_id (s_admin_user_id s) admins) else None)"

definition session_user :: "lib \<Rightarrow> world \<Rightarrow> string \<Rightarrow> admin_user option" where
  "session_user L w token = session_at L (admin_users w) (clock w) (admin_sessions w) token"

definition VerifySession :: "lib \<Rightarrow> string \<Rightarrow> admin_user op" where
  "VerifySession L token =
     (if token = [] then Raise ErrInvalidSession
      else andThen (Query (\<lambda>w. session_user L w token)) (\<lambda>row. case row of
          None \<Rightarrow> Raise ErrInvalidSession
        | Some u \<Rightarrow> Return u))"

definition RevokeSession :: "lib \<Rightarrow> string \<Rightarrow> unit op" where
  "RevokeSession L token =
     andThen (Exec (del_sessions (\<lambda>s. skey L s = ck L (hashToken L token)))) (\<lambda>_. Return ())"

section \<open>A hash verifies its password\<close>

lemma encode_hash_parts:
  "split_on (CHR ''$'') (encode_hash salt h) = [[], ''argon2id'', ''v=19'', ''m=65536,t=3,p=2'', RawEncode salt, RawEncode h]"
proof -
  have "encode_hash salt h = Join [[], ''argon2id'', ''v=19'', ''m=65536,t=3,p=2'', RawEncode salt, RawEncode h] ''$''"
    by (simp add: encode_hash_def argonMemory_def argonTime_def argonThreads_def itoa_eval)
  moreover have "CHR ''$'' \<notin> set (RawEncode s)" for s using RawEncode_chars by blast
  ultimately show ?thesis by (simp only:) (subst split_on_Join, auto)
qed

lemma skip_space_digit: "ds \<noteq> [] \<Longrightarrow> is_digit (hd ds) \<Longrightarrow> skip_space ds = ds"
  unfolding skip_space_def
  by (rule trim_left_stop) (cases ds, auto simp: space_seqs_def is_digit_def prefix_def)

lemma scan_params_default: "scan_params ''m=65536,t=3,p=2'' = Some (argonMemory, argonTime, argonThreads)"
proof -
  have d: "is_digit (CHR ''0'')" "is_digit (CHR ''2'')" "is_digit (CHR ''3'')" "is_digit (CHR ''5'')" "is_digit (CHR ''6'')"
    "\<not> is_digit (CHR '','')"
    by (simp_all add: is_digit_def)
  show ?thesis
    by (simp add: scan_params_def scan_lit_def scan_uint_def skip_space_digit d digits_val_def Let_def
        argonMemory_def argonTime_def argonThreads_def)
qed

lemma scan_version: "Option.bind (scan_lit ''v='' ''v=19'') scan_int = Some 19"
proof -
  have d: "is_digit (CHR ''1'')" "is_digit (CHR ''9'')" by (simp_all add: is_digit_def)
  show ?thesis
    by (simp add: scan_lit_def scan_int_def skip_space_digit d Let_def ParseInt64_def digits_val_def)
qed

lemma VerifyPassword_encode:
  "VerifyPassword L p (encode_hash salt h) = Inr (argon2 L p salt argonTime argonMemory argonThreads (length h) = h)"
  by (simp add: VerifyPassword_def encode_hash_parts scan_params_default scan_version Let_def argonThreads_def)

text \<open>The documented length of an Argon2 digest.\<close>

definition argon2_ok :: "lib \<Rightarrow> bool" where
  "argon2_ok L \<longleftrightarrow> (\<forall>p s t m k n. length (argon2 L p s t m k n) = n)"

section \<open>The store of sessions is a store of credentials\<close>

definition admins_ok :: "lib \<Rightarrow> world \<Rightarrow> bool" where
  "admins_ok L w \<longleftrightarrow> keyed (skey L) (admin_sessions w) \<and> keyed ad_id (admin_users w) \<and> keyed (adkey L) (admin_users w)
     \<and> s_admin_user_id ` set (admin_sessions w) \<subseteq> ad_id ` set (admin_users w)"

definition session_lookup :: "lib \<Rightarrow> world \<Rightarrow> string \<Rightarrow> admin_user option" where
  "session_lookup L w token = (if token = [] then None else session_user L w token)"

definition same_session :: "lib \<Rightarrow> string \<Rightarrow> string \<Rightarrow> bool" where
  "same_session L x p \<longleftrightarrow> x \<noteq> [] \<and> ck L (hashToken L x) = ck L (hashToken L p)"

definition session_asked :: "lib \<Rightarrow> world \<Rightarrow> nat \<times> string \<times> string \<Rightarrow> admin_user \<Rightarrow> bool" where
  "session_asked L w q u \<longleftrightarrow> map_option scan_admin (row_at ad_id (fst q) (admin_users w)) = Some u"

definition session_named :: "lib \<Rightarrow> world \<Rightarrow> string \<Rightarrow> string \<Rightarrow> bool" where
  "session_named L w n p \<longleftrightarrow> ck L (hashToken L p) = ck L (hashToken L n)"

definition issue_session :: "lib \<Rightarrow> nat \<times> string \<times> string \<Rightarrow> string op" where
  "issue_session L q = andThen (CreateSession L (fst q) (fst (snd q)) (snd (snd q))) (\<lambda>r. Return (fst r))"

lemma session_frame [simp]:
  "session_user L (tick w) = session_user L w" "session_lookup L (tick w) = session_lookup L w"
  "session_lookup L (w\<lparr>entropy := b\<rparr>) = session_lookup L w"
  "admins_ok L (tick w) = admins_ok L w" "admins_ok L (w\<lparr>entropy := b\<rparr>) = admins_ok L w"
  by (auto simp: session_lookup_def session_user_def admins_ok_def fun_eq_iff)

lemma session_at_delete:
  assumes "keyed (skey L) ss"
  shows "session_at L as now (delete_rows P ss) p = (case row_at (skey L) (ck L (hashToken L p)) ss of
      None \<Rightarrow> None | Some s \<Rightarrow> if P s then None else session_at L as now ss p)"
  using assms by (auto simp: session_at_def row_at_delete_rows split: option.split)

lemma admins_ok_delete_sessions:
  "admins_ok L w \<Longrightarrow> admins_ok L (w\<lparr>admin_sessions := delete_rows P (admin_sessions w)\<rparr>)"
  by (auto simp: admins_ok_def)

text \<open>Removing what has expired changes nothing about who is signed in.\<close>

lemma cleanup_after:
  assumes "admins_ok L w"
  shows "after (Attempt (Exec (\<lambda>w. del_sessions (\<lambda>s. s_expires_at s < clock w) w)))
    (\<lambda>r w'. (\<exists>x. r = Inr x) \<and> admins_ok L w' \<and> session_lookup L w' = session_lookup L w
       \<and> admin_users w' = admin_users w \<and> clock w' = clock w) w"
proof -
  have k: "keyed (skey L) (admin_sessions w)" using assms by (simp add: admins_ok_def)
  have "session_at L as (clock w) (delete_rows (\<lambda>s. s_expires_at s < clock w) (admin_sessions w)) p
      = session_at L as (clock w) (admin_sessions w) p" for as p
    by (simp add: session_at_delete [OF k]) (auto simp: session_at_def split: option.split)
  then show ?thesis
    using assms admins_ok_delete_sessions [of L "tick w"]
    by (auto simp: wp del_sessions_def session_lookup_def session_user_def fun_eq_iff)
qed

lemma session_at_insert:
  assumes "insert_row (skey L) s ss = Inr ss'" and "s_token_hash s = hashToken L p"
  shows "session_at L as now ss' x = (if ck L (hashToken L x) = ck L (hashToken L p)
     then (if s_expires_at s > now then map_option scan_admin (row_at ad_id (s_admin_user_id s) as) else None)
     else session_at L as now ss x)"
  using row_at_insert_row [OF assms(1)] assms(2) by (simp add: session_at_def skey_def)

lemma issue_session_effect:
  assumes "admins_ok L w"
  shows "after (issue_session L q) (\<lambda>r w'. admins_ok L w' \<and> (case r of Inl e \<Rightarrow> session_lookup L w' = session_lookup L w
      | Inr p \<Rightarrow> same_session L p p \<and> (\<exists>u. session_asked L w q u
          \<and> session_lookup L w' = (\<lambda>x. if same_session L x p then Some u else session_lookup L w x)))) w"
    (is "after _ ?Q w")
proof -
  let ?same = "\<lambda>w1. admins_ok L w1 \<and> session_lookup L w1 = session_lookup L w \<and> admin_users w1 = admin_users w \<and> clock w1 = clock w"
  let ?row = "\<lambda>p. \<lparr>s_admin_user_id = fst q, s_token_hash = hashToken L p, s_expires_at = clock w + sessionTTL,
         s_ip_address = fst (snd q), s_user_agent = snd (snd q)\<rparr>"
  have insert: "?Q (Inr p) w2" if v: "?same v" and p: "p \<noteq> []" and ins: "ins_session L (?row p) v = Inr (n, w2)" for v p n w2
  proof -
    obtain t where t: "insert_row (skey L) (?row p) (admin_sessions v) = Inr t" and w2: "w2 = v\<lparr>admin_sessions := t\<rparr>"
      and u: "fst q \<in> ad_id ` set (admin_users v)"
      using ins by (auto simp: ins_session_def split: sum.splits if_splits)
    have "row_at ad_id (fst q) (admin_users w) \<noteq> None" using u v unfolding row_at_None by simp
    then obtain a where a: "row_at ad_id (fst q) (admin_users w) = Some a" by blast
    have ok: "admins_ok L w2"
      using v u keyed_insert_row [OF _ t] by (auto simp: admins_ok_def w2 set_insert_row [OF t])
    have look: "session_lookup L w2 = (\<lambda>x. if same_session L x p then Some (scan_admin a) else session_lookup L v x)"
    proof
      have e: "row_at ad_id (fst q) (admin_users v) = Some a" "clock v = clock w" using v a by simp_all
      show "session_lookup L w2 x = (if same_session L x p then Some (scan_admin a) else session_lookup L v x)" for x
        by (simp add: session_lookup_def session_user_def session_at_insert [OF t] same_session_def w2 sessionTTL_def e)
    qed
    have "session_lookup L v = session_lookup L w" using v by simp
    then have "session_lookup L w2 = (\<lambda>x. if same_session L x p then Some (scan_admin a) else session_lookup L w x)"
      using look by (simp only:)
    then show ?thesis
      unfolding sum.case using ok p a
      by (intro conjI exI [of _ "scan_admin a"]) (simp_all add: same_session_def session_asked_def)
  qed
  have store: "after (andThen (andThen Now (\<lambda>now. let expiresAt = now + sessionTTL in
       andThen (Exec (ins_session L \<lparr>s_admin_user_id = fst q, s_token_hash = hashToken L p, s_expires_at = expiresAt,
         s_ip_address = fst (snd q), s_user_agent = snd (snd q)\<rparr>)) (\<lambda>_. Return (p, expiresAt)))) (\<lambda>r. Return (fst r))) ?Q w1"
    if "?same w1" "p \<noteq> []" for p w1
    using that insert [of "tick w1" p] by (auto simp: wp Let_def split: sum.split)
  have assoc: "andThen (andThen m f) g = andThen m (\<lambda>x. andThen (f x) g)" for m :: "'a op" and f :: "'a \<Rightarrow> 'b op" and g :: "'b \<Rightarrow> 'c op"
    by (rule ext) (simp add: andThen_def split: prod.split sum.split)
  show ?thesis
    unfolding issue_session_def CreateSession_def assoc [of "Attempt m" for m] assoc [of "generatePlaintext []"]
  proof (rule after_seq [OF cleanup_after [OF assms]])
    fix x w1
    assume w1: "(\<exists>y. Inr x = Inr y) \<and> admins_ok L w1 \<and> session_lookup L w1 = session_lookup L w
       \<and> admin_users w1 = admin_users w \<and> clock w1 = clock w"
    show "after (andThen (generatePlaintext []) (\<lambda>p. andThen (andThen Now (\<lambda>now. let expiresAt = now + sessionTTL in
       andThen (Exec (ins_session L \<lparr>s_admin_user_id = fst q, s_token_hash = hashToken L p, s_expires_at = expiresAt,
         s_ip_address = fst (snd q), s_user_agent = snd (snd q)\<rparr>)) (\<lambda>_. Return (p, expiresAt)))) (\<lambda>r. Return (fst r)))) ?Q w1"
    proof (rule after_seq [OF generatePlaintext_after [of ?same]])
      fix p :: string and w2
      assume "?same w2 \<and> (case Inr p of Inl e \<Rightarrow> True | Inr p \<Rightarrow> prefix [] p \<and> length p = length ([] :: string) + 64)"
      then show "after (andThen (andThen Now (\<lambda>now. let expiresAt = now + sessionTTL in
       andThen (Exec (ins_session L \<lparr>s_admin_user_id = fst q, s_token_hash = hashToken L p, s_expires_at = expiresAt,
         s_ip_address = fst (snd q), s_user_agent = snd (snd q)\<rparr>)) (\<lambda>_. Return (p, expiresAt)))) (\<lambda>r. Return (fst r))) ?Q w2"
        by (intro store) auto
    qed (use w1 in auto)
  qed simp
qed

lemma RevokeSession_effect:
  assumes "admins_ok L w"
  shows "after (RevokeSession L n) (\<lambda>r w'. admins_ok L w' \<and> (case r of Inl e \<Rightarrow> session_lookup L w' = session_lookup L w
      | Inr u \<Rightarrow> session_lookup L w' = (\<lambda>p. if session_named L w n p then None else session_lookup L w p))) w"
proof -
  have k: "keyed (skey L) (admin_sessions w)" using assms by (simp add: admins_ok_def)
  have "session_at L as now (delete_rows (\<lambda>s. skey L s = ck L (hashToken L n)) (admin_sessions w)) p
      = (if session_named L w n p then None else session_at L as now (admin_sessions w) p)" for as now p
  proof (cases "row_at (skey L) (ck L (hashToken L p)) (admin_sessions w)")
    case (Some s)
    have "skey L s = ck L (hashToken L p)" using row_at_Some [OF Some] by simp
    with Some show ?thesis by (simp add: session_at_delete [OF k] session_named_def)
  qed (simp add: session_at_delete [OF k] session_named_def, simp add: session_at_def)
  then show ?thesis
    using assms admins_ok_delete_sessions [of L "tick w"]
    by (auto simp: RevokeSession_def wp del_sessions_def session_lookup_def session_user_def fun_eq_iff)
qed

interpretation session_store: full_store "admins_ok L" "session_lookup L" "VerifySession L" "issue_session L"
    "session_asked L" "same_session L" "\<lambda>w q x. False" "RevokeSession L" "session_named L"
  for L
proof
  show "after (VerifySession L p) (\<lambda>r w'. session_lookup L w' = session_lookup L w
      \<and> (case r of Inl e \<Rightarrow> True | Inr u \<Rightarrow> session_lookup L w p = Some u)) w" for p w
    by (auto simp: VerifySession_def wp session_lookup_def [of L w p] split: option.split)
  show "session_lookup L w p = Some u \<Longrightarrow> after (VerifySession L p) (\<lambda>r w'. r = (if fault w then Inl DBError else Inr u)) w" for w p u
    by (auto simp: VerifySession_def wp session_lookup_def fault_def split: if_splits)
  show "\<not> fault w \<Longrightarrow> session_lookup L w p = None \<Longrightarrow> after (VerifySession L p) (\<lambda>r w'. \<exists>s. r = Inl (ErrInvalid s)) w" for w p
    by (auto simp: VerifySession_def wp session_lookup_def fault_def ErrInvalidSession_def split: if_splits)
  show "keeps (admins_ok L) (VerifySession L p)" for p
    by (auto simp: keeps_def VerifySession_def wp split: option.split)
  show "admins_ok L w \<Longrightarrow> after (issue_session L q) (\<lambda>r w'. admins_ok L w' \<and> (case r of
         Inl e \<Rightarrow> session_lookup L w' = session_lookup L w
       | Inr p \<Rightarrow> same_session L p p \<and> (\<exists>u. session_asked L w q u
          \<and> session_lookup L w' = (\<lambda>x. if same_session L x p then Some u else if False then None else session_lookup L w x)))) w" for w q
    by (simp only: if_False) (rule issue_session_effect)
qed (rule RevokeSession_effect)

section \<open>Properties\<close>

lemma HashPassword_after:
  assumes "I w" and "\<And>w b. I w \<Longrightarrow> I (w\<lparr>entropy := b\<rparr>)"
  shows "after (HashPassword L pw) (\<lambda>r w'. I w' \<and> (case r of Inl e \<Rightarrow> True
    | Inr enc \<Rightarrow> \<exists>salt. enc = encode_hash salt (argon2 L pw salt argonTime argonMemory argonThreads argonKeyLen))) w"
  using assms by (auto simp: HashPassword_def wp)

text \<open>When two passwords have the same digest under a salt.\<close>

definition same_digest :: "lib \<Rightarrow> string \<Rightarrow> string \<Rightarrow> string \<Rightarrow> bool" where
  "same_digest L salt p q \<longleftrightarrow> argon2 L p salt argonTime argonMemory argonThreads argonKeyLen
      = argon2 L q salt argonTime argonMemory argonThreads argonKeyLen"

lemma VerifyPassword_hashed:
  assumes "argon2_ok L"
  shows "VerifyPassword L p (encode_hash salt (argon2 L q salt argonTime argonMemory argonThreads argonKeyLen)) = Inr (same_digest L salt p q)"
  using assms by (simp add: VerifyPassword_encode same_digest_def argon2_ok_def)

text \<open>
  C19: An account that was created can sign in with its password, and with no other whose digest differs: after \<open>CreateUser\<close> succeeds,
  \<open>Authenticate\<close> under that name answers with the new account exactly for the passwords with the same digest under the account's salt, and with
  the one error for bad credentials otherwise.
\<close>

theorem created_user_signs_in:
  assumes "argon2_ok L"
  shows "after (CreateUser L username password) (\<lambda>r w'. case r of Inl e \<Rightarrow> True
    | Inr u \<Rightarrow> (\<exists>salt. after (Authenticate L username attempt) (\<lambda>r' w''. (if fault w' then r' = Inl DBError
         else if same_digest L salt attempt password then r' = Inr \<lparr>AU_ID = next_id w, AU_Username = username\<rparr>
         else r' = Inl ErrInvalidCredentials)) w')) w"
proof -
  define answer where "answer salt w' = after (Authenticate L username attempt) (\<lambda>r' w''. (if fault w' then r' = Inl DBError
         else if same_digest L salt attempt password then r' = Inr \<lparr>AU_ID = next_id w, AU_Username = username\<rparr>
         else r' = Inl ErrInvalidCredentials)) w'" for salt w'
  define Q where "Q r w' = (case r of Inl e \<Rightarrow> True | Inr u \<Rightarrow> \<exists>salt. answer salt w')" for r :: "error + unit" and w'
  let ?J = "\<lambda>w1. next_id w1 = next_id w"
  let ?handle = "\<lambda>r. case r of Inl e \<Rightarrow> if Contains (err_text e) ''Duplicate entry'' then Raise ErrUserExists else Raise e
       | Inr n \<Rightarrow> Return ()"
  let ?hash = "\<lambda>salt. encode_hash salt (argon2 L password salt argonTime argonMemory argonThreads argonKeyLen)"
  have "after (andThen (Attempt (Exec (ins_admin L \<lparr>ad_id = 0, ad_username = username, ad_password_hash = ?hash salt,
      ad_last_login_at = None\<rparr>))) ?handle) Q w1" if "?J w1" for salt w1
  proof -
    let ?row = "\<lparr>ad_id = next_id w, ad_username = username, ad_password_hash = ?hash salt, ad_last_login_at = None\<rparr>"
    have look: "row_at (adkey L) (ck L username) t = Some ?row" if "insert_row (adkey L) ?row (admin_users w1) = Inr t" for t
      using row_at_insert_row [OF that] by (simp add: adkey_def)
    have auth: "answer salt w2" if "row_at (adkey L) (ck L username) (admin_users w2) = Some ?row" for w2
      using that by (simp add: answer_def Authenticate_def wp VerifyPassword_hashed [OF assms] scan_admin_def upd_admins_def)
    show ?thesis
      using that look by (auto simp: Q_def wp ins_admin_def intro!: exI [of _ salt] auth split: sum.split)
  qed
  then have "after (CreateUser L username password) Q w"
    unfolding CreateUser_def
    by (intro after_seq [OF HashPassword_after [of ?J]]) (auto simp: Q_def [of "Inl e" for e])
  then show ?thesis unfolding Q_def answer_def .
qed

theorem created_user_signs_in_witness:
  "argon2_ok example_lib
   \<and> after (CreateUser example_lib ''root'' ''correct horse'') (\<lambda>r w'. case r of Inl e \<Rightarrow> True
    | Inr u \<Rightarrow> (\<exists>salt. after (Authenticate example_lib ''root'' ''correct horse'') (\<lambda>r' w''. (if fault w' then r' = Inl DBError
         else if same_digest example_lib salt ''correct horse'' ''correct horse'' then r' = Inr \<lparr>AU_ID = next_id empty_world, AU_Username = ''root''\<rparr>
         else r' = Inl ErrInvalidCredentials)) w')) empty_world
   \<and> fst (CreateUser example_lib ''root'' ''correct horse'' empty_world) = Inr ()"
proof (intro conjI)
  show ok: "argon2_ok example_lib" by (auto simp: argon2_ok_def example_lib_def min_def)
  show "after (CreateUser example_lib ''root'' ''correct horse'') (\<lambda>r w'. case r of Inl e \<Rightarrow> True
    | Inr u \<Rightarrow> (\<exists>salt. after (Authenticate example_lib ''root'' ''correct horse'') (\<lambda>r' w''. (if fault w' then r' = Inl DBError
         else if same_digest example_lib salt ''correct horse'' ''correct horse'' then r' = Inr \<lparr>AU_ID = next_id empty_world, AU_Username = ''root''\<rparr>
         else r' = Inl ErrInvalidCredentials)) w')) empty_world"
    by (rule created_user_signs_in [OF ok])
  show "fst (CreateUser example_lib ''root'' ''correct horse'' empty_world) = Inr ()"
    by (simp add: CreateUser_def HashPassword_def andThen_def Attempt_def Exec_def RandRead_def Return_def fault_def ins_admin_def
        insert_row_def empty_world_def saltLen_def tick_def)
qed

text \<open>
  C15: Changing a password signs the account out everywhere. When \<open>ChangePassword\<close> succeeds, no session of the account is accepted any more,
  every session of every other account is accepted as before, and the new password verifies against the stored hash. When it reports an error
  nobody has been signed out.
\<close>

theorem ChangePassword_ends_sessions:
  assumes "admins_ok L w" and "argon2_ok L"
  shows "after (ChangePassword L username pw) (\<lambda>r w'. case r of
      Inl e \<Rightarrow> session_lookup L w' = session_lookup L w
    | Inr u \<Rightarrow> session_lookup L w' = (\<lambda>t. case session_lookup L w t of None \<Rightarrow> None
          | Some a \<Rightarrow> if ck L (AU_Username a) = ck L username then None else Some a)
        \<and> map_option (\<lambda>a. VerifyPassword L pw (ad_password_hash a)) (row_at (adkey L) (ck L username) (admin_users w')) = Some (Inr True)) w"
    (is "after _ ?Q w")
proof -
  have kd: "keyed (skey L) (admin_sessions w)" "keyed ad_id (admin_users w)"
    using assms(1) by (simp_all add: admins_ok_def)
  let ?J = "\<lambda>w1. admin_users w1 = admin_users w \<and> admin_sessions w1 = admin_sessions w \<and> clock w1 = clock w"
  let ?P = "\<lambda>a. adkey L a = ck L username"
  let ?up = "\<lambda>h. update_rows ?P (\<lambda>a. a\<lparr>ad_password_hash := h\<rparr>) (admin_users w)"
  have row: "row_at ad_id i (?up h) = map_option (\<lambda>a. if ?P a then a\<lparr>ad_password_hash := h\<rparr> else a) (row_at ad_id i (admin_users w))" for i h
    by (rule row_at_update_rows) simp
  have name: "row_at (adkey L) k (?up h) = map_option (\<lambda>a. if ?P a then a\<lparr>ad_password_hash := h\<rparr> else a) (row_at (adkey L) k (admin_users w))" for k h
    by (rule row_at_update_rows) (simp add: adkey_def)
  have at: "session_at L (?up h) now ss t = session_at L (admin_users w) now ss t" for h now ss t
    by (auto simp: session_at_def row scan_admin_def option.map_comp comp_def split: option.split intro!: map_option_cong)
  have of_user: "session_of L v username s \<longleftrightarrow> (case row_at ad_id (s_admin_user_id s) (admin_users w) of None \<Rightarrow> False | Some a \<Rightarrow> ?P a)"
    if "admin_users v = ?up h" for v h s
  proof -
    have "session_of L v username s \<longleftrightarrow> (\<exists>a\<in>set (admin_users w). ad_id a = s_admin_user_id s \<and> ?P a)"
      unfolding session_of_def that set_update_rows bex_simps by (rule bex_cong) (auto simp: adkey_def)
    also have "\<dots> \<longleftrightarrow> (case row_at ad_id (s_admin_user_id s) (admin_users w) of None \<Rightarrow> False | Some a \<Rightarrow> ?P a)"
    proof (cases "row_at ad_id (s_admin_user_id s) (admin_users w)")
      case None
      then have "s_admin_user_id s \<notin> ad_id ` set (admin_users w)" by (simp add: row_at_None)
      with None show ?thesis by force
    next
      case (Some a)
      with row_at_Some [OF Some] row_at_unique [OF kd(2)] show ?thesis by (simp, metis option.inject)
    qed
    finally show ?thesis .
  qed
  have gone: "session_at L (admin_users w) (clock w) (delete_rows (session_of L v username) (admin_sessions w)) t
      = (case session_at L (admin_users w) (clock w) (admin_sessions w) t of None \<Rightarrow> None
          | Some a \<Rightarrow> if ck L (AU_Username a) = ck L username then None else Some a)" if "admin_users v = ?up h" for v h t
    by (simp add: session_at_delete [OF kd(1)])
       (auto simp: of_user [OF that] session_at_def scan_admin_def adkey_def split: option.splits)
  have store: "after (andThen (Exec (upd_admins ?P (\<lambda>a. a\<lparr>ad_password_hash := enc\<rparr>))) (\<lambda>n.
     if n = 0 then Raise (no_admin L username)
     else andThen (Exec (\<lambda>w. del_sessions (session_of L w username) w)) (\<lambda>_. Return ()))) ?Q w1"
    if w1: "?J w1" and enc: "VerifyPassword L pw enc = Inr True" for enc w1
  proof -
    let ?w2 = "tick w1\<lparr>admin_users := ?up enc\<rparr>"
    let ?w3 = "tick ?w2\<lparr>admin_sessions := delete_rows (session_of L (tick ?w2) username) (admin_sessions w)\<rparr>"
    have s1: "session_lookup L w1 = session_lookup L w" and s2: "session_lookup L ?w2 = session_lookup L w"
      using w1 by (auto simp: fun_eq_iff session_lookup_def session_user_def at)
    have s3: "session_lookup L ?w3 = (\<lambda>t. case session_lookup L w t of None \<Rightarrow> None
          | Some a \<Rightarrow> if ck L (AU_Username a) = ck L username then None else Some a)"
      using w1 gone [of "tick ?w2" enc] by (auto simp: fun_eq_iff session_lookup_def session_user_def at)
    have found: "\<exists>a. row_at (adkey L) (ck L username) (admin_users w) = Some a \<and> adkey L a = ck L username"
      if "0 < changed_rows ?P (\<lambda>a. a\<lparr>ad_password_hash := enc\<rparr>) (admin_users w)"
    proof -
      from that have "\<exists>a\<in>set (admin_users w). ?P a"
        by (auto simp: changed_rows_def count_rows_def filter_empty_conv)
      then have "row_at (adkey L) (ck L username) (admin_users w) \<noteq> None" unfolding row_at_None by (metis imageI)
      then show ?thesis using row_at_Some by fastforce
    qed
    show ?thesis
    proof (cases "changed_rows ?P (\<lambda>a. a\<lparr>ad_password_hash := enc\<rparr>) (admin_users w) = 0")
      case True
      with w1 s1 s2 show ?thesis by (simp add: wp upd_admins_def)
    next
      case False
      with found obtain a where "row_at (adkey L) (ck L username) (admin_users w) = Some a" "adkey L a = ck L username" by auto
      with False w1 s1 s2 s3 show ?thesis by (simp add: wp upd_admins_def del_sessions_def name enc)
    qed
  qed
  have "after (HashPassword L pw) (\<lambda>r w'. ?J w' \<and> (case r of Inl e \<Rightarrow> True | Inr enc \<Rightarrow> VerifyPassword L pw enc = Inr True)) w"
    by (rule after_mono [OF HashPassword_after [of ?J]])
       (auto simp: VerifyPassword_hashed [OF assms(2)] same_digest_def split: sum.splits)
  then show ?thesis
    unfolding ChangePassword_def
    by (rule after_seq) (use store in \<open>auto simp: fun_eq_iff session_lookup_def session_user_def\<close>)
qed

text \<open>A dashboard with two accounts, each with a session.\<close>

definition signed_in :: world where
  "signed_in = empty_world\<lparr>admin_users := [\<lparr>ad_id = 0, ad_username = ''root'', ad_password_hash = [], ad_last_login_at = None\<rparr>,
       \<lparr>ad_id = 1, ad_username = ''eve'', ad_password_hash = [], ad_last_login_at = None\<rparr>],
     admin_sessions := [\<lparr>s_admin_user_id = 0, s_token_hash = hashToken example_lib ''a'', s_expires_at = 9, s_ip_address = [], s_user_agent = []\<rparr>]\<rparr>"

lemma signed_in_ok: "admins_ok example_lib signed_in"
  by (simp add: admins_ok_def signed_in_def empty_world_def keyed_def adkey_def example_lib_def ascii_key_def TrimRight_def lower_byte_def)

theorem ChangePassword_ends_sessions_witness:
  "admins_ok example_lib signed_in \<and> argon2_ok example_lib
   \<and> after (ChangePassword example_lib ''root'' ''new secret'') (\<lambda>r w'. case r of
      Inl e \<Rightarrow> session_lookup example_lib w' = session_lookup example_lib signed_in
    | Inr u \<Rightarrow> session_lookup example_lib w' = (\<lambda>t. case session_lookup example_lib signed_in t of None \<Rightarrow> None
          | Some a \<Rightarrow> if ck example_lib (AU_Username a) = ck example_lib ''root'' then None else Some a)
        \<and> map_option (\<lambda>a. VerifyPassword example_lib ''new secret'' (ad_password_hash a))
            (row_at (adkey example_lib) (ck example_lib ''root'') (admin_users w')) = Some (Inr True)) signed_in
   \<and> session_lookup example_lib signed_in ''a'' = Some \<lparr>AU_ID = 0, AU_Username = ''root''\<rparr>"
proof (intro conjI)
  show a: "argon2_ok example_lib" by (auto simp: argon2_ok_def example_lib_def min_def)
  show "after (ChangePassword example_lib ''root'' ''new secret'') (\<lambda>r w'. case r of
      Inl e \<Rightarrow> session_lookup example_lib w' = session_lookup example_lib signed_in
    | Inr u \<Rightarrow> session_lookup example_lib w' = (\<lambda>t. case session_lookup example_lib signed_in t of None \<Rightarrow> None
          | Some a \<Rightarrow> if ck example_lib (AU_Username a) = ck example_lib ''root'' then None else Some a)
        \<and> map_option (\<lambda>a. VerifyPassword example_lib ''new secret'' (ad_password_hash a))
            (row_at (adkey example_lib) (ck example_lib ''root'') (admin_users w')) = Some (Inr True)) signed_in"
    by (rule ChangePassword_ends_sessions [OF signed_in_ok a])
  show "session_lookup example_lib signed_in ''a'' = Some \<lparr>AU_ID = 0, AU_Username = ''root''\<rparr>"
    by (simp add: session_lookup_def session_user_def session_at_def signed_in_def row_at_def skey_def empty_world_def scan_admin_def)
qed (rule signed_in_ok)

section \<open>What else happens to sessions\<close>

text \<open>
  The steps beside those on sessions: accounts are created, sign in, get new passwords and are deleted; and whatever else the program does may happen, as long as it leaves
  the two tables alone: the time goes on, other tables and files change, identifiers are used up, statements begin to fail.
\<close>

inductive account_step :: "lib \<Rightarrow> world \<Rightarrow> world \<Rightarrow> bool" for L where
  elsewhere: "admin_users w' = admin_users w \<Longrightarrow> admin_sessions w' = admin_sessions w \<Longrightarrow> clock w \<le> clock w' \<Longrightarrow> next_id w \<le> next_id w'
    \<Longrightarrow> account_step L w w'"
| created: "CreateUser L username pw w = (r, w') \<Longrightarrow> account_step L w w'"
| signed_in: "Authenticate L username pw w = (r', w') \<Longrightarrow> account_step L w w'"
| changed: "ChangePassword L username pw w = (r, w') \<Longrightarrow> account_step L w w'"
| deleted: "DeleteUser L username w = (r, w') \<Longrightarrow> account_step L w w'"

text \<open>The identifiers of accounts come from the supply.\<close>

definition accounts_ok :: "lib \<Rightarrow> world \<Rightarrow> bool" where
  "accounts_ok L w \<longleftrightarrow> admins_ok L w \<and> (\<forall>a\<in>set (admin_users w). ad_id a < next_id w)"

text \<open>What such a step does: it keeps the tables in order and at most removes sessions.\<close>

definition fewer_sessions :: "lib \<Rightarrow> world \<Rightarrow> world \<Rightarrow> bool" where
  "fewer_sessions L b w \<longleftrightarrow> accounts_ok L w \<and> clock b \<le> clock w \<and> (\<exists>P. admin_sessions w = delete_rows P (admin_sessions b))"

lemma fewer_frame [simp]:
  "fewer_sessions L b (tick w) = fewer_sessions L b w" "fewer_sessions L b (w\<lparr>entropy := e\<rparr>) = fewer_sessions L b w"
  by (simp_all add: fewer_sessions_def accounts_ok_def admins_ok_def)

lemma fewer_refl: "accounts_ok L w \<Longrightarrow> fewer_sessions L w w"
  by (auto simp: fewer_sessions_def delete_rows_def intro!: exI [of _ "\<lambda>s. False"])

lemma delete_twice: "delete_rows P (delete_rows Q t) = delete_rows (\<lambda>r. Q r \<or> P r) t"
  by (auto simp: delete_rows_def intro: filter_cong)

lemma fewer_steps:
  assumes "fewer_sessions L b w"
  shows "ins_admin L a w = Inr (n, w') \<Longrightarrow> fewer_sessions L b w'"
    and "del_admins P w = Inr (n, w') \<Longrightarrow> fewer_sessions L b w'"
    and "del_sessions Q w = Inr (n, w') \<Longrightarrow> fewer_sessions L b w'"
    and "(\<And>a. ad_id (f a) = ad_id a \<and> ad_username (f a) = ad_username a) \<Longrightarrow> upd_admins P f w = Inr (n, w') \<Longrightarrow> fewer_sessions L b w'"
proof -
  have ok: "admins_ok L w" and ids: "\<forall>a\<in>set (admin_users w). ad_id a < next_id w" and time: "clock b \<le> clock w"
    using assms by (simp_all add: fewer_sessions_def accounts_ok_def)
  obtain R where R: "admin_sessions w = delete_rows R (admin_sessions b)" using assms by (auto simp: fewer_sessions_def)
  have kept: "fewer_sessions L b v" if "admins_ok L v" "\<forall>a\<in>set (admin_users v). ad_id a < next_id v" "clock v = clock w"
    "admin_sessions v = delete_rows S (admin_sessions w)" for v S
    using that time by (auto simp: fewer_sessions_def accounts_ok_def R delete_twice)
  have none: "delete_rows (\<lambda>s. False) t = t" for t :: "session_row list" by (simp add: delete_rows_def)
  show "fewer_sessions L b w'" if ins: "ins_admin L a w = Inr (n, w')"
  proof -
    obtain t where t: "insert_row (adkey L) (a\<lparr>ad_id := next_id w\<rparr>) (admin_users w) = Inr t"
      and w': "w' = w\<lparr>admin_users := t, next_id := Suc (next_id w)\<rparr>"
      using ins by (auto simp: ins_admin_def split: sum.splits)
    have "t = admin_users w @ [a\<lparr>ad_id := next_id w\<rparr>]" using t by (auto simp: insert_row_def split: if_splits)
    moreover have "next_id w \<notin> ad_id ` set (admin_users w)" using ids by auto
    ultimately have "keyed ad_id t" using ok by (simp add: admins_ok_def keyed_def)
    with ok ids show ?thesis
      by (intro kept [where S = "\<lambda>s. False"]) (auto simp: w' none admins_ok_def set_insert_row [OF t] less_SucI intro: keyed_insert_row [OF _ t])
  qed
  show "fewer_sessions L b w'" if "del_admins P w = Inr (n, w')"
  proof -
    have owned: "s_admin_user_id s \<in> ad_id ` {a \<in> set (admin_users w). \<not> P a}"
      if "s \<in> set (admin_sessions w)" "\<not> (\<exists>a\<in>set (admin_users w). P a \<and> ad_id a = s_admin_user_id s)" for s
    proof -
      have "s_admin_user_id s \<in> ad_id ` set (admin_users w)"
        using ok that(1) unfolding admins_ok_def by (meson imageI subsetD)
      then obtain a where a: "a \<in> set (admin_users w)" "s_admin_user_id s = ad_id a" by (rule imageE)
      with that(2) have "\<not> P a" by metis
      with a show ?thesis by simp
    qed
    have w': "w' = w\<lparr>admin_users := delete_rows P (admin_users w),
        admin_sessions := delete_rows (\<lambda>s. \<exists>a\<in>set (admin_users w). P a \<and> ad_id a = s_admin_user_id s) (admin_sessions w)\<rparr>"
      using that by (simp add: del_admins_def)
    have sub: "s_admin_user_id ` set (admin_sessions w') \<subseteq> ad_id ` set (admin_users w')"
      unfolding w' by (rule image_subsetI) (use owned in simp)
    show ?thesis
      using ok ids sub
      by (intro kept [where S = "\<lambda>s. \<exists>a\<in>set (admin_users w). P a \<and> ad_id a = s_admin_user_id s"]) (auto simp: w' admins_ok_def intro!: keyed_delete_rows)
  qed
  show "fewer_sessions L b w'" if "del_sessions Q w = Inr (n, w')"
    using that ok ids by (intro kept [where S = Q]) (auto simp: del_sessions_def admins_ok_delete_sessions)
  show "fewer_sessions L b w'" if f: "\<And>a. ad_id (f a) = ad_id a \<and> ad_username (f a) = ad_username a" and up: "upd_admins P f w = Inr (n, w')"
  proof -
    have w': "w' = w\<lparr>admin_users := update_rows P f (admin_users w)\<rparr>" using up by (simp add: upd_admins_def)
    have names: "adkey L (f a) = adkey L a" for a using f by (simp add: adkey_def)
    have "map ad_id (update_rows P f (admin_users w)) = map ad_id (admin_users w)" using f by (simp add: update_rows_def)
    then have "ad_id ` set (update_rows P f (admin_users w)) = ad_id ` set (admin_users w)" by (metis set_map)
    moreover have "\<forall>a\<in>set (update_rows P f (admin_users w)). ad_id a < next_id w"
      using f ids by (auto simp: set_update_rows)
    ultimately show ?thesis
      using ok f names by (intro kept [where S = "\<lambda>s. False"]) (auto simp: w' none admins_ok_def)
  qed
qed

lemma fewer_operations:
  "keeps (fewer_sessions L b) (CreateUser L username pw)" "keeps (fewer_sessions L b) (Authenticate L username pw)"
  "keeps (fewer_sessions L b) (ChangePassword L username pw)" "keeps (fewer_sessions L b) (DeleteUser L username)"
proof -
  have hash: "keeps (fewer_sessions L b) (HashPassword L pw)"
    by (rule keepsI, rule after_mono [OF HashPassword_after [where I = "fewer_sessions L b"]]) simp_all
  have exec: "keeps (fewer_sessions L b) (Exec q)" if "\<And>w n w'. fewer_sessions L b w \<Longrightarrow> q w = Inr (n, w') \<Longrightarrow> fewer_sessions L b w'" for q
    by (rule keeps_Exec) (use that in simp_all)
  have query: "keeps (fewer_sessions L b) (Query q)" for q :: "world \<Rightarrow> 'x" by (rule keeps_Query) simp
  show "keeps (fewer_sessions L b) (CreateUser L username pw)" "keeps (fewer_sessions L b) (Authenticate L username pw)"
    "keeps (fewer_sessions L b) (ChangePassword L username pw)" "keeps (fewer_sessions L b) (DeleteUser L username)"
    unfolding CreateUser_def Authenticate_def ChangePassword_def DeleteUser_def
    by (intro hash query exec keeps_ops; (erule (1) fewer_steps | erule fewer_steps(4) [rotated 2], simp, simp))+
qed

lemma fewer_account_step:
  assumes "account_step L w w'" and "accounts_ok L w"
  shows "fewer_sessions L w w'"
  using assms(1)
proof cases
  case elsewhere
  with assms(2) show ?thesis
    by (auto simp: fewer_sessions_def accounts_ok_def admins_ok_def delete_rows_def intro!: exI [of _ "\<lambda>s. False"] intro: less_le_trans)
qed (erule keeps_run [OF fewer_operations(1) fewer_refl [OF assms(2)]] keeps_run [OF fewer_operations(2) fewer_refl [OF assms(2)]]
  keeps_run [OF fewer_operations(3) fewer_refl [OF assms(2)]] keeps_run [OF fewer_operations(4) fewer_refl [OF assms(2)]])+

lemma fewer_lookup:
  assumes "admins_ok L b" and "fewer_sessions L b w" and "session_lookup L b x = None"
  shows "session_lookup L w x = None"
proof (rule ccontr)
  assume "session_lookup L w x \<noteq> None"
  then obtain u where x: "x \<noteq> []" and u: "session_at L (admin_users w) (clock w) (admin_sessions w) x = Some u"
    by (auto simp: session_lookup_def session_user_def split: if_splits)
  obtain P where P: "admin_sessions w = delete_rows P (admin_sessions b)" and time: "clock b \<le> clock w"
    using assms(2) by (auto simp: fewer_sessions_def)
  have k: "keyed (skey L) (admin_sessions b)" using assms(1) by (simp add: admins_ok_def)
  obtain s where s: "row_at (skey L) (ck L (hashToken L x)) (admin_sessions b) = Some s" and later: "s_expires_at s > clock w"
    using u unfolding P session_at_delete [OF k] by (auto simp: session_at_def split: option.splits if_splits)
  then have "s_admin_user_id s \<in> ad_id ` set (admin_users b)"
    using assms(1) row_at_Some [OF s] by (auto simp: admins_ok_def)
  then have "row_at ad_id (s_admin_user_id s) (admin_users b) \<noteq> None" by (simp add: row_at_None)
  with s later time x have "session_lookup L b x \<noteq> None"
    by (auto simp: session_lookup_def session_user_def session_at_def)
  with assms(3) show False by simp
qed

text \<open>The operations on sessions keep the supply of identifiers ahead of the accounts.\<close>

lemma ids_sessions:
  "keeps (\<lambda>w. \<forall>a\<in>set (admin_users w). ad_id a < next_id w) (VerifySession L p)"
  "keeps (\<lambda>w. \<forall>a\<in>set (admin_users w). ad_id a < next_id w) (issue_session L q)"
  "keeps (\<lambda>w. \<forall>a\<in>set (admin_users w). ad_id a < next_id w) (RevokeSession L p)"
proof -
  let ?I = "\<lambda>w. \<forall>a\<in>set (admin_users w). ad_id a < next_id w"
  have exec: "keeps ?I (Exec q)" if "\<And>w n w'. q w = Inr (n, w') \<Longrightarrow> admin_users w' = admin_users w \<and> next_id w' = next_id w" for q
    by (rule keeps_Exec) (auto dest: that)
  have query: "keeps ?I (Query q)" for q :: "world \<Rightarrow> 'x" by (rule keeps_Query) simp
  have bytes: "keeps ?I (generatePlaintext pre)" for pre by (auto simp: keeps_def generatePlaintext_def wp)
  show "keeps ?I (VerifySession L p)" "keeps ?I (issue_session L q)" "keeps ?I (RevokeSession L p)"
    unfolding VerifySession_def issue_session_def CreateSession_def RevokeSession_def
    by (intro query bytes exec keeps_ops; auto simp: del_sessions_def ins_session_def split: sum.splits if_splits)+
qed

interpretation living_sessions: lived_store "accounts_ok L" "session_lookup L" "VerifySession L" "issue_session L"
    "session_asked L" "same_session L" "\<lambda>w q x. False" "RevokeSession L" "session_named L" "account_step L"
  for L
proof
  let ?I = "\<lambda>w. \<forall>a\<in>set (admin_users w). ad_id a < next_id w"
  have both: "keeps (accounts_ok L) m" if "keeps (admins_ok L) m" "keeps ?I m" for m :: "'x op"
    using keeps_conj [OF that] by (simp add: accounts_ok_def [abs_def])
  show "keeps (accounts_ok L) (VerifySession L p)" for p
    by (rule both [OF session_store.verify_inv ids_sessions(1)])
  show "after (issue_session L q) (\<lambda>r w'. accounts_ok L w' \<and> (case r of Inl e \<Rightarrow> session_lookup L w' = session_lookup L w
       | Inr p \<Rightarrow> same_session L p p \<and> (\<exists>u. session_asked L w q u
          \<and> session_lookup L w' = (\<lambda>x. if same_session L x p then Some u else if False then None else session_lookup L w x)))) w"
    if "accounts_ok L w" for w q
    using that session_store.issue_effect [of L w q] keepsD [OF ids_sessions(2), of w L q] by (auto simp: after_def accounts_ok_def split: prod.splits)
  show "after (RevokeSession L n) (\<lambda>r w'. accounts_ok L w' \<and> (case r of Inl e \<Rightarrow> session_lookup L w' = session_lookup L w
       | Inr u \<Rightarrow> session_lookup L w' = (\<lambda>p. if session_named L w n p then None else session_lookup L w p))) w"
    if "accounts_ok L w" for w n
    using that session_store.revoke_effect [of L w n] keepsD [OF ids_sessions(3), of w L n] by (auto simp: after_def accounts_ok_def split: prod.splits)
  show "accounts_ok L w'" if "account_step L w w'" "accounts_ok L w" for w w'
    using fewer_account_step [OF that] by (simp add: fewer_sessions_def)
  show "session_lookup L w' x = None" if "account_step L w w'" "accounts_ok L w" "session_lookup L w x = None" for w w' x
    using fewer_lookup [OF _ fewer_account_step [OF that(1,2)] that(3)] that(2) by (simp add: accounts_ok_def)
qed (rule session_store.verify_sound session_store.verify_known session_store.verify_unknown, assumption?)+

text \<open>
  C16: Nobody is signed in with a cookie that was never handed out. Take any history that starts without sessions and in which sessions are created, verified and revoked,
  accounts are created, sign in, change their passwords and are deleted, time passes, statements fail and anything else happens outside the two tables, in any order: a
  text that is accepted as a session has the digest of a token that \<open>CreateSession\<close> returned in that history.
\<close>

theorem session_handed_out:
  assumes "history (accounts_ok L) (session_lookup L) (VerifySession L) (issue_session L) (RevokeSession L) (account_step L) S w"
  shows "after (VerifySession L x) (\<lambda>r w'. case r of Inl e \<Rightarrow> True | Inr u \<Rightarrow> \<exists>p\<in>S. same_session L x p) w"
  using assms by (rule living_sessions.only_issued_accepted)

text \<open>A session is created, a day passes, and its cookie is accepted.\<close>

theorem session_handed_out_witness:
  "\<exists>p w. history (accounts_ok example_lib) (session_lookup example_lib) (VerifySession example_lib) (issue_session example_lib)
      (RevokeSession example_lib) (account_step example_lib) {p} w
    \<and> clock w = 86400 \<and> session_lookup example_lib w p \<noteq> None
    \<and> after (VerifySession example_lib p) (\<lambda>r w'. case r of Inl e \<Rightarrow> True | Inr u \<Rightarrow> \<exists>q\<in>{p}. same_session example_lib p q) w"
proof -
  let ?h = "history (accounts_ok example_lib) (session_lookup example_lib) (VerifySession example_lib) (issue_session example_lib) (RevokeSession example_lib)
    (account_step example_lib)"
  let ?w = "signed_in\<lparr>admin_sessions := [], next_id := 2\<rparr>"
  have ok: "accounts_ok example_lib ?w" using signed_in_ok by (auto simp: accounts_ok_def admins_ok_def signed_in_def)
  have fresh: "?h {} ?w"
    by (rule history.fresh, rule ok) (simp add: fun_eq_iff session_lookup_def session_user_def session_at_def row_at_def)
  obtain r w' where run: "issue_session example_lib (0, ''::1'', ''test'') ?w = (r, w')" by fastforce
  define token where "token = hex_encode (replicate 32 (CHR 0x07))"
  have made: "r = Inr token" "clock w' = 0" "admin_users w' = admin_users signed_in"
      "admin_sessions w' = [\<lparr>s_admin_user_id = 0, s_token_hash = hashToken example_lib token, s_expires_at = 604800, s_ip_address = ''::1'', s_user_agent = ''test''\<rparr>]"
    using arg_cong [OF run, of "\<lambda>x. (fst x, clock (snd x), admin_users (snd x), admin_sessions (snd x))"]
    by (simp_all add: token_def issue_session_def CreateSession_def generatePlaintext_def andThen_def Attempt_def Exec_def RandRead_def Now_def Return_def
        fault_def del_sessions_def ins_session_def insert_row_def signed_in_def empty_world_def tick_def Let_def delete_rows_def sessionTTL_def)
  have "?h {token} w'" by (rule history.issued, rule fresh, rule run [unfolded made(1)])
  then have h: "?h {token} (w'\<lparr>clock := 86400\<rparr>)" by (rule history.other) (rule account_step.elsewhere, simp_all add: made)
  have "token \<noteq> []" unfolding token_def by code_simp
  then have "session_lookup example_lib (w'\<lparr>clock := 86400\<rparr>) token \<noteq> None"
    by (simp add: session_lookup_def session_user_def session_at_def made row_at_def skey_def signed_in_def)
  with h session_handed_out [OF h, of token] show ?thesis by (intro exI [of _ token] exI [of _ "w'\<lparr>clock := 86400\<rparr>"]) simp
qed

end
