(* ===== verification/Cloudflare_Apply.thy ===== *)
theory Cloudflare_Apply
  imports Mtasts
begin

text \<open>
  Package cloudflare, file \<open>apply.go\<close>: the DNS records a mail domain needs are created or updated in its zone. The zone lives at the provider: its state has
  any type \<open>'z\<close>, and the three requests of the client are parameters, the record \<open>zone_client\<close>. \<open>zone_ok\<close> is what the provider's documentation says of them.
\<close>

record dns_record =
  DR_ID :: string
  DR_Type :: string
  DR_Name :: string
  DR_Content :: string
  DR_TTL :: int
  DR_Priority :: int
  DR_Proxied :: bool

record 'z zone_client =
  list_records :: "string \<Rightarrow> string \<Rightarrow> string \<Rightarrow> 'z \<Rightarrow> (error + dns_record list) \<times> 'z"
  create_record :: "string \<Rightarrow> dns_record \<Rightarrow> 'z \<Rightarrow> error option \<times> 'z"
  update_record :: "string \<Rightarrow> string \<Rightarrow> dns_record \<Rightarrow> 'z \<Rightarrow> error option \<times> 'z"

record apply_result =
  AR_Label :: string
  AR_Action :: string
  AR_Detail :: string
  AR_Err :: "error option"

definition apply_error :: "string \<Rightarrow> error \<Rightarrow> apply_result" where
  "apply_error label e = \<lparr>AR_Label = label, AR_Action = ''error'', AR_Detail = [], AR_Err = Some e\<rparr>"

definition applied :: "string \<Rightarrow> string \<Rightarrow> string \<Rightarrow> apply_result" where
  "applied label action detail = \<lparr>AR_Label = label, AR_Action = action, AR_Detail = detail, AR_Err = None\<rparr>"

definition ended :: "string \<Rightarrow> string \<Rightarrow> string \<Rightarrow> error option \<times> 'z \<Rightarrow> apply_result \<times> 'z" where
  "ended label action detail r = (case r of (None, z) \<Rightarrow> (applied label action detail, z) | (Some e, z) \<Rightarrow> (apply_error label e, z))"

definition new_record :: "string \<Rightarrow> string \<Rightarrow> string \<Rightarrow> int \<Rightarrow> dns_record" where
  "new_record t name value priority =
     \<lparr>DR_ID = [], DR_Type = t, DR_Name = name, DR_Content = value, DR_TTL = 300, DR_Priority = priority, DR_Proxied = False\<rparr>"

definition too_many :: "string \<Rightarrow> string \<Rightarrow> string" where
  "too_many what name = ''multiple existing '' @ what @ '' records at '' @ name @ '' already '' @ dash @ '' add/fix manually''"

definition upsertSingleHost :: "'z zone_client \<Rightarrow> string \<Rightarrow> string \<Rightarrow> string \<Rightarrow> string \<Rightarrow> string \<Rightarrow> int \<Rightarrow> 'z \<Rightarrow> apply_result \<times> 'z" where
  "upsertSingleHost C zoneID label recordType name value priority z = (case list_records C zoneID recordType name z of
       (Inl e, z1) \<Rightarrow> (apply_error label e, z1)
     | (Inr existing, z1) \<Rightarrow>
         if list_ex (\<lambda>r. DR_Content r = value) existing then (applied label ''unchanged'' value, z1)
         else (case existing of
             [] \<Rightarrow> ended label ''created'' value (create_record C zoneID (new_record recordType name value priority) z1)
           | [rec] \<Rightarrow> ended label ''updated'' value (update_record C zoneID (DR_ID rec) (rec\<lparr>DR_Content := value\<rparr>) z1)
           | _ \<Rightarrow> (applied label ''skipped'' (too_many recordType name), z1)))"

definition upsertMX :: "lib \<Rightarrow> 'z zone_client \<Rightarrow> string \<Rightarrow> string \<Rightarrow> string \<Rightarrow> 'z \<Rightarrow> apply_result \<times> 'z" where
  "upsertMX L C zoneID domain mailHost z = (case list_records C zoneID ''MX'' domain z of
       (Inl e, z1) \<Rightarrow> (apply_error ''MX record'' e, z1)
     | (Inr existing, z1) \<Rightarrow> (let target = TrimSuffix mailHost ''.'' in
         if list_ex (\<lambda>r. EqualFold (uni L) (TrimSuffix (DR_Content r) ''.'') target) existing
         then (applied ''MX record'' ''unchanged'' mailHost, z1)
         else ended ''MX record'' ''created'' mailHost (create_record C zoneID (new_record ''MX'' domain mailHost 10) z1)))"

text \<open>Only the TXT records that already start with the prefix, whatever quotes are around them.\<close>

definition has_text :: "string \<Rightarrow> dns_record \<Rightarrow> bool" where
  "has_text pre r \<longleftrightarrow> HasPrefix (Trim (DR_Content r) [CHR 0x22]) pre"

definition upsertTXTByPrefix :: "'z zone_client \<Rightarrow> string \<Rightarrow> string \<Rightarrow> string \<Rightarrow> string \<Rightarrow> string \<Rightarrow> 'z \<Rightarrow> apply_result \<times> 'z" where
  "upsertTXTByPrefix C zoneID label name pre value z = (case list_records C zoneID ''TXT'' name z of
       (Inl e, z1) \<Rightarrow> (apply_error label e, z1)
     | (Inr existing, z1) \<Rightarrow> (let found = filter (has_text pre) existing in
         if list_ex (\<lambda>r. DR_Content r = value) found then (applied label ''unchanged'' value, z1)
         else (case found of
             [] \<Rightarrow> ended label ''created'' value (create_record C zoneID (new_record ''TXT'' name value 0) z1)
           | [rec] \<Rightarrow> ended label ''updated'' value (update_record C zoneID (DR_ID rec) (rec\<lparr>DR_Content := value\<rparr>) z1)
           | _ \<Rightarrow> (applied label ''skipped'' (too_many pre name), z1))))"

fun run_steps :: "('z \<Rightarrow> 'r \<times> 'z) list \<Rightarrow> 'z \<Rightarrow> 'r list \<times> 'z" where
  "run_steps [] z = ([], z)"
| "run_steps (s # ss) z = (case s z of (r, z1) \<Rightarrow> (case run_steps ss z1 of (rs, z2) \<Rightarrow> (r # rs, z2)))"

definition sts_value :: "lib \<Rightarrow> string \<Rightarrow> string" where
  "sts_value L mailHost = ''v=STSv1; id='' @ PolicyID L (PolicyContent mailHost)"

definition mail_steps :: "lib \<Rightarrow> 'z zone_client \<Rightarrow> string \<Rightarrow> string \<Rightarrow> string \<Rightarrow> string \<Rightarrow> string \<Rightarrow> string \<Rightarrow> ('z \<Rightarrow> apply_result \<times> 'z) list" where
  "mail_steps L C zoneID domain mailHost serverIP dkimValue dmarcValue =
     [upsertSingleHost C zoneID ''A record'' ''A'' mailHost serverIP 0,
      upsertMX L C zoneID domain mailHost,
      upsertTXTByPrefix C zoneID ''SPF'' domain ''v=spf1'' ''v=spf1 mx -all'',
      upsertTXTByPrefix C zoneID ''DMARC'' (''_dmarc.'' @ domain) ''v=DMARC1'' dmarcValue,
      upsertTXTByPrefix C zoneID ''DKIM'' (''mail._domainkey.'' @ domain) ''v=DKIM1'' dkimValue,
      upsertSingleHost C zoneID ''MTA-STS A record'' ''A'' (Hostname domain) serverIP 0,
      upsertTXTByPrefix C zoneID ''MTA-STS TXT'' (''_mta-sts.'' @ domain) ''v=STSv1'' (sts_value L mailHost)]"

definition ApplyMailRecords :: "lib \<Rightarrow> 'z zone_client \<Rightarrow> string \<Rightarrow> string \<Rightarrow> string \<Rightarrow> string \<Rightarrow> string \<Rightarrow> string \<Rightarrow> 'z \<Rightarrow> apply_result list \<times> 'z" where
  "ApplyMailRecords L C zoneID domain mailHost serverIP dkimValue dmarcValue =
     run_steps (mail_steps L C zoneID domain mailHost serverIP dkimValue dmarcValue)"

section \<open>What the provider promises\<close>

text \<open>Names in the DNS are compared without regard to letter case.\<close>

definition dns_name :: "string \<Rightarrow> string" where
  "dns_name n = map lower_byte n"

definition in_slot :: "string \<Rightarrow> string \<Rightarrow> dns_record \<Rightarrow> bool" where
  "in_slot t name r \<longleftrightarrow> DR_Type r = t \<and> dns_name (DR_Name r) = dns_name name"

text \<open>A record that was stored holds what was sent; the provider may choose its identifier and the rest.\<close>

definition stored :: "dns_record \<Rightarrow> dns_record \<Rightarrow> bool" where
  "stored rec r \<longleftrightarrow> in_slot (DR_Type rec) (DR_Name rec) r \<and> DR_Content r = DR_Content rec"

text \<open>
  \<open>recs z\<close> are the records of the zone. Listing changes nothing and returns the records of a type and a name; creating adds one record under a new
  identifier; updating replaces the record with the identifier; a request that fails changes nothing.
\<close>

definition zone_ok :: "'z zone_client \<Rightarrow> string \<Rightarrow> ('z \<Rightarrow> dns_record list) \<Rightarrow> bool" where
  "zone_ok C zoneID recs \<longleftrightarrow>
     (\<forall>t n z. case list_records C zoneID t n z of
         (Inl e, z') \<Rightarrow> recs z' = recs z
       | (Inr rs, z') \<Rightarrow> recs z' = recs z \<and> rs = filter (in_slot t n) (recs z))
   \<and> (\<forall>rec z. case create_record C zoneID rec z of
         (Some e, z') \<Rightarrow> recs z' = recs z
       | (None, z') \<Rightarrow> \<exists>r. stored rec r \<and> DR_ID r \<notin> DR_ID ` set (recs z) \<and> recs z' = recs z @ [r])
   \<and> (\<forall>i rec z. case update_record C zoneID i rec z of
         (Some e, z') \<Rightarrow> recs z' = recs z
       | (None, z') \<Rightarrow> \<exists>r. stored rec r \<and> DR_ID r = i \<and> recs z' = map (\<lambda>x. if DR_ID x = i then r else x) (recs z))"

lemma zone_list:
  assumes "zone_ok C zid recs" and "list_records C zid t n z = (r, z')"
  shows "recs z' = recs z" and "r = Inr rs \<Longrightarrow> rs = filter (in_slot t n) (recs z)"
  using assms(1)[unfolded zone_ok_def, THEN conjunct1, rule_format, where t = t and n = n and z = z] assms(2) by (auto split: sum.splits)

lemma zone_create:
  assumes "zone_ok C zid recs" and "create_record C zid rec z = (e, z')"
  shows "case e of Some x \<Rightarrow> recs z' = recs z
    | None \<Rightarrow> \<exists>r. stored rec r \<and> DR_ID r \<notin> DR_ID ` set (recs z) \<and> recs z' = recs z @ [r]"
  using assms(1)[unfolded zone_ok_def, THEN conjunct2, THEN conjunct1, rule_format, where rec = rec and z = z] assms(2) by (auto split: option.splits)

lemma zone_update:
  assumes "zone_ok C zid recs" and "update_record C zid i rec z = (e, z')"
  shows "case e of Some x \<Rightarrow> recs z' = recs z
    | None \<Rightarrow> \<exists>r. stored rec r \<and> DR_ID r = i \<and> recs z' = map (\<lambda>x. if DR_ID x = i then r else x) (recs z)"
  using assms(1)[unfolded zone_ok_def, THEN conjunct2, THEN conjunct2, rule_format, where i = i and rec = rec and z = z] assms(2) by (auto split: option.splits)

section \<open>What one step does to the zone\<close>

text \<open>
  From \<open>rs\<close> to \<open>rs'\<close> some records that satisfy \<open>P\<close> were replaced, under their identifiers, by records that satisfy \<open>Q\<close> at the same place, and records
  that satisfy \<open>Q\<close> were added.
\<close>

definition swaps :: "(dns_record \<Rightarrow> bool) \<Rightarrow> (dns_record \<Rightarrow> bool) \<Rightarrow> (dns_record \<Rightarrow> dns_record) \<Rightarrow> bool" where
  "swaps P Q f \<longleftrightarrow> (\<forall>r. f r = r \<or> P r \<and> Q (f r) \<and> DR_ID (f r) = DR_ID r \<and> in_slot (DR_Type r) (DR_Name r) (f r))"

definition grown :: "(dns_record \<Rightarrow> bool) \<Rightarrow> (dns_record \<Rightarrow> bool) \<Rightarrow> dns_record list \<Rightarrow> dns_record list \<Rightarrow> bool" where
  "grown P Q rs rs' \<longleftrightarrow> (\<exists>f new. rs' = map f rs @ new \<and> (\<forall>r\<in>set new. Q r) \<and> distinct (map DR_ID rs') \<and> swaps P Q f)"

lemma swaps_id [simp]: "swaps P Q id"
  by (simp add: swaps_def)

lemma swaps_mono: "swaps P Q f \<Longrightarrow> (\<And>r. P r \<Longrightarrow> P' r) \<Longrightarrow> (\<And>r. Q r \<Longrightarrow> Q' r) \<Longrightarrow> swaps P' Q' f"
  unfolding swaps_def by meson

lemma swaps_keeps: "swaps P Q f \<Longrightarrow> Q r \<Longrightarrow> Q (f r)"
  unfolding swaps_def by metis

lemma swaps_comp:
  assumes "swaps P Q f" and "swaps P Q g"
  shows "swaps P Q (g \<circ> f)"
  unfolding swaps_def
proof
  fix r
  show "(g \<circ> f) r = r \<or> P r \<and> Q ((g \<circ> f) r) \<and> DR_ID ((g \<circ> f) r) = DR_ID r \<and> in_slot (DR_Type r) (DR_Name r) ((g \<circ> f) r)"
    using assms(1)[unfolded swaps_def, rule_format, of r] assms(2)[unfolded swaps_def, rule_format, of "f r"]
    by (auto simp: in_slot_def)
qed

lemma grown_refl: "distinct (map DR_ID rs) \<Longrightarrow> grown P Q rs rs"
  unfolding grown_def by (intro exI [of _ id] exI [of _ "[]"]) simp

lemma grown_add: "distinct (map DR_ID rs) \<Longrightarrow> Q r \<Longrightarrow> DR_ID r \<notin> DR_ID ` set rs \<Longrightarrow> grown P Q rs (rs @ [r])"
  unfolding grown_def by (intro exI [of _ id] exI [of _ "[r]"]) simp

lemma grown_replace:
  assumes "distinct (map DR_ID rs)" and "x \<in> set rs" and "P x" and "Q r" and "DR_ID r = DR_ID x" and "in_slot (DR_Type x) (DR_Name x) r"
  shows "grown P Q rs (map (\<lambda>y. if DR_ID y = DR_ID x then r else y) rs)"
proof -
  let ?f = "\<lambda>y. if y = x then r else y"
  have "map (\<lambda>y. if DR_ID y = DR_ID x then r else y) rs = map ?f rs @ []"
    using assms(1,2) by (auto simp: distinct_map inj_on_def)
  moreover have "map DR_ID (map ?f rs @ []) = map DR_ID rs" using assms(5) by (auto simp: comp_def)
  ultimately show ?thesis
    unfolding grown_def using assms by (intro exI [of _ ?f] exI [of _ "[]"]) (auto simp: swaps_def simp del: append_Nil2)
qed

lemma grown_mono:
  assumes "grown P Q rs rs'" and "\<And>r. P r \<Longrightarrow> P' r" and "\<And>r. Q r \<Longrightarrow> Q' r"
  shows "grown P' Q' rs rs'"
proof -
  from assms(1) obtain f new where "rs' = map f rs @ new" "\<forall>r\<in>set new. Q r" "distinct (map DR_ID rs')" and f: "swaps P Q f"
    unfolding grown_def by blast
  moreover have "swaps P' Q' f" by (rule swaps_mono [OF f assms(2,3)])
  moreover have "\<forall>r\<in>set new. Q' r" using calculation(2) assms(3) by blast
  ultimately show ?thesis unfolding grown_def by blast
qed

lemma grown_trans:
  assumes "grown P Q rs rs1" and "grown P Q rs1 rs2"
  shows "grown P Q rs rs2"
proof -
  from assms(1) obtain f1 new1 where 1: "rs1 = map f1 rs @ new1" "\<forall>r\<in>set new1. Q r" "swaps P Q f1" unfolding grown_def by blast
  from assms(2) obtain f2 new2 where 2: "rs2 = map f2 rs1 @ new2" "\<forall>r\<in>set new2. Q r" "distinct (map DR_ID rs2)" "swaps P Q f2"
    unfolding grown_def by blast
  have "rs2 = map (f2 \<circ> f1) rs @ (map f2 new1 @ new2)" by (simp add: 1(1) 2(1))
  moreover have "\<forall>r\<in>set (map f2 new1 @ new2). Q r" using 1(2) 2(2) swaps_keeps [OF 2(4)] by auto
  ultimately show ?thesis
    unfolding grown_def using 2(3) swaps_comp [OF 1(3) 2(4)] by blast
qed

text \<open>A step that reports success leaves a record that satisfies \<open>Q\<close> behind.\<close>

definition in_place :: "apply_result \<Rightarrow> bool" where
  "in_place res \<longleftrightarrow> AR_Action res \<in> {''created'', ''updated'', ''unchanged''}"

definition settles :: "(dns_record \<Rightarrow> bool) \<Rightarrow> (dns_record \<Rightarrow> bool) \<Rightarrow> ('z \<Rightarrow> dns_record list) \<Rightarrow> 'z \<Rightarrow> apply_result \<times> 'z \<Rightarrow> bool" where
  "settles P Q recs z out \<longleftrightarrow> grown P Q (recs z) (recs (snd out)) \<and> (in_place (fst out) \<longrightarrow> (\<exists>r\<in>set (recs (snd out)). Q r))"

lemma in_place_applied [simp]:
  "in_place (applied l a d) \<longleftrightarrow> a \<in> {''created'', ''updated'', ''unchanged''}" "\<not> in_place (apply_error l e)"
  by (simp_all add: in_place_def applied_def apply_error_def)

lemma settles_failed:
  "recs z' = recs z \<Longrightarrow> distinct (map DR_ID (recs z)) \<Longrightarrow> \<not> in_place res \<Longrightarrow> settles P Q recs z (res, z')"
  by (simp add: settles_def grown_refl)

lemma settles_found:
  "recs z' = recs z \<Longrightarrow> distinct (map DR_ID (recs z)) \<Longrightarrow> \<exists>r\<in>set (recs z). Q r \<Longrightarrow> settles P Q recs z (res, z')"
  by (simp add: settles_def grown_refl)

lemma settles_create:
  assumes ok: "zone_ok C zid recs" and z1: "recs z1 = recs z" and d: "distinct (map DR_ID (recs z))" and Q: "\<And>r. stored rec r \<Longrightarrow> Q r"
  shows "settles P Q recs z (ended label a v (create_record C zid rec z1))"
proof -
  obtain e z' where run: "create_record C zid rec z1 = (e, z')" by fastforce
  show ?thesis
    using zone_create [OF ok run] Q
    by (cases e) (auto simp: run ended_def settles_def z1 d intro!: grown_refl grown_add)
qed

lemma settles_update:
  assumes ok: "zone_ok C zid recs" and z1: "recs z1 = recs z" and d: "distinct (map DR_ID (recs z))"
    and x: "x \<in> set (recs z)" "P x" and Q: "\<And>r. stored (x\<lparr>DR_Content := v\<rparr>) r \<Longrightarrow> Q r"
  shows "settles P Q recs z (ended label a w (update_record C zid (DR_ID x) (x\<lparr>DR_Content := v\<rparr>) z1))"
proof -
  obtain e z' where run: "update_record C zid (DR_ID x) (x\<lparr>DR_Content := v\<rparr>) z1 = (e, z')" by fastforce
  show ?thesis
  proof (cases e)
    case None
    with zone_update [OF ok run] obtain r where r: "stored (x\<lparr>DR_Content := v\<rparr>) r" "DR_ID r = DR_ID x"
        "recs z' = map (\<lambda>y. if DR_ID y = DR_ID x then r else y) (recs z)" by (auto simp: z1)
    from r(1) have "in_slot (DR_Type x) (DR_Name x) r" by (simp add: stored_def)
    then have "grown P Q (recs z) (recs z')" unfolding r(3) using d x Q [OF r(1)] r(2) by (rule_tac grown_replace) auto
    moreover have "r \<in> set (recs z')" using x(1) by (force simp: r(3))
    ultimately show ?thesis using Q [OF r(1)] by (auto simp: run ended_def settles_def None)
  next
    case (Some err)
    with zone_update [OF ok run] show ?thesis by (simp add: run ended_def settles_failed d z1)
  qed
qed

text \<open>Both kinds of steps go on in the same way from the records they found.\<close>

lemma settles_choice:
  assumes ok: "zone_ok C zid recs" and z1: "recs z1 = recs z" and d: "distinct (map DR_ID (recs z))"
    and found: "found = filter P (recs z)" and P: "\<And>r. P r \<Longrightarrow> in_slot t name r" and Q: "\<And>r. in_slot t name r \<Longrightarrow> DR_Content r = v \<Longrightarrow> Q r"
  shows "settles P Q recs z
    (if list_ex (\<lambda>r. DR_Content r = v) found then (applied label ''unchanged'' v, z1)
     else (case found of [] \<Rightarrow> ended label ''created'' v (create_record C zid (new_record t name v p) z1)
       | [rec] \<Rightarrow> ended label ''updated'' v (update_record C zid (DR_ID rec) (rec\<lparr>DR_Content := v\<rparr>) z1)
       | _ \<Rightarrow> (applied label ''skipped'' (too_many what name), z1)))"
proof (cases "list_ex (\<lambda>r. DR_Content r = v) found")
  case True
  then have "\<exists>r\<in>set (recs z). Q r" using P Q by (auto simp: found list_ex_iff)
  with True z1 d show ?thesis by (simp add: settles_found)
next
  case no: False
  show ?thesis
  proof (cases found)
    case Nil
    have "stored (new_record t name v p) r \<Longrightarrow> Q r" for r using Q by (simp add: stored_def new_record_def)
    then show ?thesis using settles_create [where recs = recs and z = z and P = P and Q = Q, OF ok z1 d] Nil by simp
  next
    case (Cons x more)
    then have "x \<in> set (filter P (recs z))" using found by simp
    then have x: "x \<in> set (recs z)" "P x" by auto
    have "stored (x\<lparr>DR_Content := v\<rparr>) r \<Longrightarrow> Q r" for r using P [OF x(2)] Q by (simp add: stored_def in_slot_def)
    then show ?thesis
      using no Cons settles_update [where recs = recs and z = z and P = P and Q = Q, OF ok z1 d x] by (cases more) (auto simp: settles_failed z1 d)
  qed
qed

section \<open>The seven records\<close>

text \<open>For each step: the records it may replace, and what it wants there.\<close>

definition host_spec :: "string \<Rightarrow> string \<Rightarrow> (dns_record \<Rightarrow> bool) \<times> (dns_record \<Rightarrow> bool)" where
  "host_spec name v = (in_slot ''A'' name, \<lambda>r. in_slot ''A'' name r \<and> DR_Content r = v)"

definition mx_spec :: "lib \<Rightarrow> string \<Rightarrow> string \<Rightarrow> (dns_record \<Rightarrow> bool) \<times> (dns_record \<Rightarrow> bool)" where
  "mx_spec L domain mailHost =
     (\<lambda>r. False, \<lambda>r. in_slot ''MX'' domain r \<and> EqualFold (uni L) (TrimSuffix (DR_Content r) ''.'') (TrimSuffix mailHost ''.''))"

definition txt_spec :: "string \<Rightarrow> string \<Rightarrow> string \<Rightarrow> (dns_record \<Rightarrow> bool) \<times> (dns_record \<Rightarrow> bool)" where
  "txt_spec name pre v = (\<lambda>r. in_slot ''TXT'' name r \<and> has_text pre r, \<lambda>r. in_slot ''TXT'' name r \<and> DR_Content r = v)"

definition mail_specs :: "lib \<Rightarrow> string \<Rightarrow> string \<Rightarrow> string \<Rightarrow> string \<Rightarrow> string \<Rightarrow> ((dns_record \<Rightarrow> bool) \<times> (dns_record \<Rightarrow> bool)) list" where
  "mail_specs L domain mailHost serverIP dkimValue dmarcValue =
     [host_spec mailHost serverIP, mx_spec L domain mailHost, txt_spec domain ''v=spf1'' ''v=spf1 mx -all'',
      txt_spec (''_dmarc.'' @ domain) ''v=DMARC1'' dmarcValue, txt_spec (''mail._domainkey.'' @ domain) ''v=DKIM1'' dkimValue,
      host_spec (Hostname domain) serverIP, txt_spec (''_mta-sts.'' @ domain) ''v=STSv1'' (sts_value L mailHost)]"

definition managed :: "lib \<Rightarrow> string \<Rightarrow> string \<Rightarrow> string \<Rightarrow> string \<Rightarrow> string \<Rightarrow> dns_record \<Rightarrow> bool" where
  "managed L domain mailHost serverIP dkimValue dmarcValue r \<longleftrightarrow>
     list_ex (\<lambda>(P, Q). P r) (mail_specs L domain mailHost serverIP dkimValue dmarcValue)"

definition wanted :: "lib \<Rightarrow> string \<Rightarrow> string \<Rightarrow> string \<Rightarrow> string \<Rightarrow> string \<Rightarrow> dns_record \<Rightarrow> bool" where
  "wanted L domain mailHost serverIP dkimValue dmarcValue r \<longleftrightarrow>
     list_ex (\<lambda>(P, Q). Q r) (mail_specs L domain mailHost serverIP dkimValue dmarcValue)"

lemmas spec_defs = host_spec_def mx_spec_def txt_spec_def

text \<open>Each step does what its entry says.\<close>

definition follows :: "('z \<Rightarrow> dns_record list) \<Rightarrow> ('z \<Rightarrow> apply_result \<times> 'z) \<Rightarrow> (dns_record \<Rightarrow> bool) \<times> (dns_record \<Rightarrow> bool) \<Rightarrow> bool" where
  "follows recs s spec \<longleftrightarrow> (\<forall>z. distinct (map DR_ID (recs z)) \<longrightarrow> settles (fst spec) (snd spec) recs z (s z))"

lemma host_follows:
  assumes "zone_ok C zid recs"
  shows "follows recs (upsertSingleHost C zid label ''A'' name v p) (host_spec name v)"
  unfolding follows_def
proof (intro allI impI)
  fix z assume d: "distinct (map DR_ID (recs z))"
  obtain r z1 where run: "list_records C zid ''A'' name z = (r, z1)" by fastforce
  note got = zone_list [OF assms run]
  show "settles (fst (host_spec name v)) (snd (host_spec name v)) recs z (upsertSingleHost C zid label ''A'' name v p z)"
  proof (cases r)
    case (Inl e)
    then show ?thesis by (simp add: upsertSingleHost_def run settles_failed d got(1))
  next
    case (Inr existing)
    show ?thesis
      unfolding upsertSingleHost_def run Inr prod.case sum.case host_spec_def fst_conv snd_conv
      by (rule settles_choice [OF assms got(1) d got(2) [OF Inr]]) auto
  qed
qed

lemma txt_follows:
  assumes "zone_ok C zid recs"
  shows "follows recs (upsertTXTByPrefix C zid label name pre v) (txt_spec name pre v)"
  unfolding follows_def
proof (intro allI impI)
  fix z assume d: "distinct (map DR_ID (recs z))"
  obtain r z1 where run: "list_records C zid ''TXT'' name z = (r, z1)" by fastforce
  note got = zone_list [OF assms run]
  show "settles (fst (txt_spec name pre v)) (snd (txt_spec name pre v)) recs z (upsertTXTByPrefix C zid label name pre v z)"
  proof (cases r)
    case (Inl e)
    then show ?thesis by (simp add: upsertTXTByPrefix_def run settles_failed d got(1))
  next
    case (Inr existing)
    have found: "filter (has_text pre) existing = filter (\<lambda>r. in_slot ''TXT'' name r \<and> has_text pre r) (recs z)"
      using got(2) [OF Inr] by (auto intro: filter_cong)
    show ?thesis
      unfolding upsertTXTByPrefix_def run Inr prod.case sum.case txt_spec_def fst_conv snd_conv Let_def
      by (rule settles_choice [OF assms got(1) d found]) auto
  qed
qed

lemma mx_follows:
  assumes "zone_ok C zid recs"
  shows "follows recs (upsertMX L C zid domain mailHost) (mx_spec L domain mailHost)"
  unfolding follows_def
proof (intro allI impI)
  fix z assume d: "distinct (map DR_ID (recs z))"
  obtain r z1 where run: "list_records C zid ''MX'' domain z = (r, z1)" by fastforce
  note got = zone_list [OF assms run]
  let ?Q = "snd (mx_spec L domain mailHost)"
  show "settles (fst (mx_spec L domain mailHost)) ?Q recs z (upsertMX L C zid domain mailHost z)"
  proof (cases r)
    case (Inl e)
    then show ?thesis by (simp add: upsertMX_def run settles_failed d got(1))
  next
    case (Inr existing)
    have "list_ex (\<lambda>r. EqualFold (uni L) (TrimSuffix (DR_Content r) ''.'') (TrimSuffix mailHost ''.'')) existing \<longleftrightarrow> (\<exists>r\<in>set (recs z). ?Q r)"
      using got(2) [OF Inr] by (auto simp: mx_spec_def list_ex_iff)
    moreover have "fst (mx_spec L domain mailHost) = (\<lambda>r. False)" by (simp add: mx_spec_def)
    moreover have "stored (new_record ''MX'' domain mailHost 10) r \<Longrightarrow> ?Q r" for r
      by (simp add: stored_def new_record_def mx_spec_def)
    ultimately show ?thesis
      using settles_create [where recs = recs and z = z and P = "\<lambda>r. False" and Q = ?Q, OF assms got(1) d]
        settles_found [where recs = recs and z = z and P = "\<lambda>r. False" and Q = ?Q, OF got(1) d] by (simp add: upsertMX_def run Inr Let_def)
  qed
qed

lemma mail_follows:
  assumes "zone_ok C zid recs"
  shows "list_all2 (follows recs) (mail_steps L C zid domain mailHost serverIP dkimValue dmarcValue) (mail_specs L domain mailHost serverIP dkimValue dmarcValue)"
  unfolding mail_steps_def mail_specs_def by (simp add: host_follows [OF assms] txt_follows [OF assms] mx_follows [OF assms])

section \<open>The whole run\<close>

lemma grown_ids: "grown P Q rs rs' \<Longrightarrow> distinct (map DR_ID rs')"
  by (auto simp: grown_def)

lemma run_grown:
  assumes "list_all2 (follows recs) steps specs" and "distinct (map DR_ID (recs z))"
    and "\<And>P Q r. (P, Q) \<in> set specs \<Longrightarrow> (P r \<longrightarrow> M r) \<and> (Q r \<longrightarrow> W r)"
  shows "grown M W (recs z) (recs (snd (run_steps steps z)))"
  using assms
proof (induction steps specs arbitrary: z rule: list_all2_induct)
  case Nil
  then show ?case by (simp add: grown_refl)
next
  case (Cons s steps spec specs)
  obtain r z1 where run: "s z = (r, z1)" by fastforce
  from Cons.hyps(1) Cons.prems(1) have "grown (fst spec) (snd spec) (recs z) (recs z1)" by (auto simp: follows_def settles_def run)
  then have first: "grown M W (recs z) (recs z1)" by (rule grown_mono) (use Cons.prems(2) [of "fst spec" "snd spec"] in auto)
  have "grown M W (recs z1) (recs (snd (run_steps steps z1)))" by (rule Cons.IH [OF grown_ids [OF first]]) (use Cons.prems(2) in auto)
  with first show ?case by (auto simp: run split: prod.splits intro: grown_trans)
qed

text \<open>
  C28: Applying the mail records of a domain never disturbs anything else in its zone. Whatever the provider answers, no record is removed, no record changes its
  identifier, its type or its name, only the records that are the program's own (address records of the mail host and the policy host, TXT records
  with the right prefix at the four names) change their content, MX records never do, and whatever is new or changed is one of the seven records asked for.
\<close>

theorem ApplyMailRecords_conservative:
  assumes "zone_ok C zoneID recs" and "distinct (map DR_ID (recs z))"
  shows "grown (managed L domain mailHost serverIP dkimValue dmarcValue) (wanted L domain mailHost serverIP dkimValue dmarcValue) (recs z)
     (recs (snd (ApplyMailRecords L C zoneID domain mailHost serverIP dkimValue dmarcValue z)))"
  unfolding ApplyMailRecords_def
  by (rule run_grown [OF mail_follows [OF assms(1)] assms(2)]) (auto simp: managed_def wanted_def list_ex_iff)

section \<open>Applying twice\<close>

lemma dns_name_length: "dns_name a = dns_name b \<Longrightarrow> length a = length b"
  unfolding dns_name_def by (rule map_eq_imp_length_eq)

text \<open>At one place only one content is wanted.\<close>

lemma wanted_unique:
  assumes "(P, Q) \<in> set (mail_specs L domain mailHost serverIP dkimValue dmarcValue)" and "Q r" and "in_slot (DR_Type r) (DR_Name r) r'"
    and "wanted L domain mailHost serverIP dkimValue dmarcValue r'"
  shows "Q r'"
proof -
  have apart: "dns_name (''_dmarc.'' @ domain) \<noteq> dns_name domain" "dns_name (''mail._domainkey.'' @ domain) \<noteq> dns_name domain"
    "dns_name (''_mta-sts.'' @ domain) \<noteq> dns_name domain" "dns_name (''mail._domainkey.'' @ domain) \<noteq> dns_name (''_dmarc.'' @ domain)"
    "dns_name (''_mta-sts.'' @ domain) \<noteq> dns_name (''_dmarc.'' @ domain)" "dns_name (''mail._domainkey.'' @ domain) \<noteq> dns_name (''_mta-sts.'' @ domain)"
    by (auto dest!: dns_name_length)
  note away = apart apart [symmetric]
  show ?thesis
    using assms away unfolding wanted_def mail_specs_def spec_defs in_slot_def by auto
qed

lemma grown_keeps:
  assumes g: "grown M (wanted L domain mailHost serverIP dkimValue dmarcValue) rs rs'"
    and spec: "(P, Q) \<in> set (mail_specs L domain mailHost serverIP dkimValue dmarcValue)" and r: "r \<in> set rs" "Q r"
  shows "\<exists>r\<in>set rs'. Q r"
proof -
  from g obtain f new where f: "rs' = map f rs @ new" "swaps M (wanted L domain mailHost serverIP dkimValue dmarcValue) f" unfolding grown_def by blast
  have "f r = r \<or> wanted L domain mailHost serverIP dkimValue dmarcValue (f r) \<and> in_slot (DR_Type r) (DR_Name r) (f r)"
    using f(2) unfolding swaps_def by blast
  then have "Q (f r)" using wanted_unique [OF spec r(2)] r(2) by metis
  with f(1) r(1) show ?thesis by auto
qed

lemma run_in_place:
  fixes L domain mailHost serverIP dkimValue dmarcValue
  defines "all \<equiv> mail_specs L domain mailHost serverIP dkimValue dmarcValue"
  assumes "list_all2 (follows recs) steps specs" and "distinct (map DR_ID (recs z))" and "set specs \<subseteq> set all" and "run_steps steps z = (rs, z')"
  shows "list_all2 (\<lambda>res spec. in_place res \<longrightarrow> (\<exists>r\<in>set (recs z'). snd spec r)) rs specs"
  using assms(2-)
proof (induction steps specs arbitrary: z rs rule: list_all2_induct)
  case Nil
  then show ?case by simp
next
  case (Cons s steps spec specs)
  let ?M = "managed L domain mailHost serverIP dkimValue dmarcValue" and ?W = "wanted L domain mailHost serverIP dkimValue dmarcValue"
  obtain res z1 where run: "s z = (res, z1)" by fastforce
  obtain rest where rest: "run_steps steps z1 = (rest, z')" "rs = res # rest" using Cons.prems(3) run by (auto split: prod.splits)
  from Cons.hyps(1) Cons.prems(1) have "settles (fst spec) (snd spec) recs z (s z)" by (simp add: follows_def)
  then have s: "grown (fst spec) (snd spec) (recs z) (recs z1)" "in_place res \<longrightarrow> (\<exists>r\<in>set (recs z1). snd spec r)"
    unfolding settles_def run by simp_all
  have spec: "(fst spec, snd spec) \<in> set all" using Cons.prems(2) by simp
  have later: "grown ?M ?W (recs z1) (recs z')"
    using run_grown [OF Cons.hyps(2) grown_ids [OF s(1)], of ?M ?W] Cons.prems(2) rest(1)
    by (fastforce simp: managed_def wanted_def list_ex_iff all_def)
  have "in_place res \<longrightarrow> (\<exists>r\<in>set (recs z'). snd spec r)"
    using s(2) grown_keeps [OF later spec [unfolded all_def]] by blast
  moreover have "list_all2 (\<lambda>res spec. in_place res \<longrightarrow> (\<exists>r\<in>set (recs z'). snd spec r)) rest specs"
    by (rule Cons.IH [OF grown_ids [OF s(1)]]) (use Cons.prems(2) rest(1) in auto)
  ultimately show ?case by (simp add: rest(2))
qed

text \<open>A step that finds what it wants changes nothing.\<close>

definition rests :: "('z \<Rightarrow> dns_record list) \<Rightarrow> ('z \<Rightarrow> apply_result \<times> 'z) \<Rightarrow> (dns_record \<Rightarrow> bool) \<times> (dns_record \<Rightarrow> bool) \<Rightarrow> bool" where
  "rests recs s spec \<longleftrightarrow> (\<forall>z. (\<exists>r\<in>set (recs z). snd spec r) \<longrightarrow> recs (snd (s z)) = recs z
     \<and> (AR_Err (fst (s z)) = None \<longrightarrow> AR_Action (fst (s z)) = ''unchanged''))"

lemma restsI:
  assumes ok: "zone_ok C zid recs"
    and s: "\<And>z. s z = (case list_records C zid t name z of (Inl e, z1) \<Rightarrow> (apply_error label e, z1)
        | (Inr rs, z1) \<Rightarrow> if list_ex (\<lambda>r. sel r \<and> got r) rs then (applied label ''unchanged'' v, z1) else other rs z1)"
    and Q: "\<And>r. snd spec r \<Longrightarrow> in_slot t name r \<and> sel r \<and> got r"
  shows "rests recs s spec"
  unfolding rests_def
proof (intro allI impI)
  fix z assume "\<exists>r\<in>set (recs z). snd spec r"
  then obtain r where r: "r \<in> set (recs z)" "in_slot t name r \<and> sel r \<and> got r" using Q by blast
  obtain out z1 where run: "list_records C zid t name z = (out, z1)" by fastforce
  note got = zone_list [OF ok run]
  show "recs (snd (s z)) = recs z \<and> (AR_Err (fst (s z)) = None \<longrightarrow> AR_Action (fst (s z)) = ''unchanged'')"
  proof (cases out)
    case (Inl e)
    then show ?thesis by (simp add: s run got(1) apply_error_def)
  next
    case (Inr rs)
    then have "list_ex (\<lambda>r. sel r \<and> got r) rs" using got(2) [OF Inr] r by (auto simp: list_ex_iff)
    then show ?thesis by (simp add: s run got(1) Inr applied_def)
  qed
qed

lemma host_rests: "zone_ok C zid recs \<Longrightarrow> rests recs (upsertSingleHost C zid label ''A'' name v p) (host_spec name v)"
  by (rule restsI [where t = "''A''" and name = name and sel = "\<lambda>r. True" and got = "\<lambda>r. DR_Content r = v" and label = label and v = v])
     (auto simp: upsertSingleHost_def host_spec_def split: prod.split sum.split)

lemma mx_rests: "zone_ok C zid recs \<Longrightarrow> rests recs (upsertMX L C zid domain mailHost) (mx_spec L domain mailHost)"
  by (rule restsI [where t = "''MX''" and name = domain and sel = "\<lambda>r. True" and v = mailHost and label = "''MX record''"
        and got = "\<lambda>r. EqualFold (uni L) (TrimSuffix (DR_Content r) ''.'') (TrimSuffix mailHost ''.'')"])
     (auto simp: upsertMX_def mx_spec_def Let_def split: prod.split sum.split)

lemma txt_rests:
  assumes "zone_ok C zid recs" and "HasPrefix (Trim v [CHR 0x22]) pre"
  shows "rests recs (upsertTXTByPrefix C zid label name pre v) (txt_spec name pre v)"
proof -
  have "list_ex (\<lambda>r. DR_Content r = v) (filter (has_text pre) rs) = list_ex (\<lambda>r. has_text pre r \<and> DR_Content r = v) rs" for rs
    by (auto simp: list_ex_iff)
  then show ?thesis
    using assms(2)
    by (intro restsI [where t = "''TXT''" and name = name and sel = "has_text pre" and got = "\<lambda>r. DR_Content r = v" and label = label and v = v, OF assms(1)])
       (auto simp: upsertTXTByPrefix_def txt_spec_def Let_def has_text_def split: prod.split sum.split)
qed

lemma Trim_prefix:
  assumes "q \<notin> set p" and "p \<noteq> []"
  shows "HasPrefix (Trim (p @ s) [q]) p"
proof -
  have "last p \<noteq> q" "hd p \<noteq> q" using assms by (metis last_in_set, metis hd_in_set)
  then have front: "dropWhile (\<lambda>c. c \<in> set [q]) (p @ s) = p @ s" using assms(2) by (cases p) auto
  have tail: "dropWhile (\<lambda>c. c \<in> set [q]) (rev p) = rev p"
    using \<open>last p \<noteq> q\<close> assms(2) by (simp add: dropWhile_eq_self_iff hd_rev)
  have "\<exists>u. dropWhile (\<lambda>c. c \<in> set [q]) (rev s @ rev p) = u @ rev p"
  proof (cases "\<exists>x\<in>set (rev s). x \<notin> set [q]")
    case True
    then show ?thesis by (auto simp: dropWhile_append1)
  next
    case False
    then have "dropWhile (\<lambda>c. c \<in> set [q]) (rev s @ rev p) = dropWhile (\<lambda>c. c \<in> set [q]) (rev p)" by (intro dropWhile_append2) auto
    then show ?thesis unfolding tail by (intro exI [of _ "[]"]) simp
  qed
  then obtain u where "dropWhile (\<lambda>c. c \<in> set [q]) (rev s @ rev p) = u @ rev p" by blast
  then show ?thesis unfolding Trim_def front by (simp add: prefix_def)
qed

lemma Trim_text: "HasPrefix v pre \<Longrightarrow> CHR 0x22 \<notin> set pre \<Longrightarrow> pre \<noteq> [] \<Longrightarrow> HasPrefix (Trim v [CHR 0x22]) pre"
  by (auto simp: Trim_prefix elim!: prefixE)

lemma mail_rests:
  assumes "zone_ok C zid recs" and "HasPrefix dkimValue ''v=DKIM1''" and "HasPrefix dmarcValue ''v=DMARC1''"
  shows "list_all2 (rests recs) (mail_steps L C zid domain mailHost serverIP dkimValue dmarcValue) (mail_specs L domain mailHost serverIP dkimValue dmarcValue)"
proof -
  have "HasPrefix (Trim (sts_value L mailHost) [CHR 0x22]) ''v=STSv1''" "HasPrefix (Trim ''v=spf1 mx -all'' [CHR 0x22]) ''v=spf1''"
    "HasPrefix (Trim dkimValue [CHR 0x22]) ''v=DKIM1''" "HasPrefix (Trim dmarcValue [CHR 0x22]) ''v=DMARC1''"
    using assms(2,3) by (auto intro!: Trim_text simp: sts_value_def)
  then show ?thesis
    unfolding mail_steps_def mail_specs_def by (simp add: host_rests [OF assms(1)] txt_rests [OF assms(1)] mx_rests [OF assms(1)])
qed

lemma list_all2_given: "list_all2 (\<lambda>x y. A x \<longrightarrow> B y) xs ys \<Longrightarrow> list_all A xs \<Longrightarrow> y \<in> set ys \<Longrightarrow> B y"
  by (induction rule: list_all2_induct) auto

lemma run_rests:
  assumes "list_all2 (rests recs) steps specs" and "\<And>spec. spec \<in> set specs \<Longrightarrow> \<exists>r\<in>set (recs z). snd spec r"
    and "run_steps steps z = (rs, z')"
  shows "recs z' = recs z \<and> list_all (\<lambda>res. if AR_Err res = None then AR_Action res = ''unchanged'' else True) rs"
  using assms
proof (induction steps specs arbitrary: z rs rule: list_all2_induct)
  case Nil
  then show ?case by simp
next
  case (Cons s steps spec specs)
  obtain res z1 where run: "s z = (res, z1)" by fastforce
  obtain rest where rest: "run_steps steps z1 = (rest, z')" "rs = res # rest" using Cons.prems(2) run by (auto split: prod.splits)
  have s: "recs z1 = recs z" "AR_Err res = None \<longrightarrow> AR_Action res = ''unchanged''"
    using Cons.hyps(1) [unfolded rests_def, rule_format, of z] Cons.prems(1) [of spec] by (auto simp: run)
  have "recs z' = recs z1 \<and> list_all (\<lambda>res. if AR_Err res = None then AR_Action res = ''unchanged'' else True) rest"
    by (rule Cons.IH) (use Cons.prems(1) rest(1) s(1) in auto)
  with s rest(2) show ?case by simp
qed

text \<open>
  Applying the mail records again changes nothing. When every step of a first run succeeded and the DKIM and DMARC values are what they should be, a
  second run leaves all records of the zone as they are and reports each of its steps as unchanged, unless the provider refused a request.
\<close>

theorem ApplyMailRecords_again:
  assumes "zone_ok C zoneID recs" and "distinct (map DR_ID (recs z))" and "HasPrefix dkimValue ''v=DKIM1''" and "HasPrefix dmarcValue ''v=DMARC1''"
    and "ApplyMailRecords L C zoneID domain mailHost serverIP dkimValue dmarcValue z = (rs, z1)" and "list_all in_place rs"
    and "ApplyMailRecords L C zoneID domain mailHost serverIP dkimValue dmarcValue z1 = (rs2, z2)"
  shows "recs z2 = recs z1 \<and> list_all (\<lambda>res. if AR_Err res = None then AR_Action res = ''unchanged'' else True) rs2"
proof (rule run_rests [OF mail_rests [OF assms(1,3,4)] _ assms(7) [unfolded ApplyMailRecords_def]])
  have "list_all2 (\<lambda>res spec. in_place res \<longrightarrow> (\<exists>r\<in>set (recs z1). snd spec r)) rs (mail_specs L domain mailHost serverIP dkimValue dmarcValue)"
    by (rule run_in_place [OF mail_follows [OF assms(1)] assms(2) subset_refl assms(5) [unfolded ApplyMailRecords_def]])
  from list_all2_given [OF this assms(6)]
  show "\<exists>r\<in>set (recs z1). snd spec r" if "spec \<in> set (mail_specs L domain mailHost serverIP dkimValue dmarcValue)" for spec
    using that .
qed

section \<open>A provider\<close>

text \<open>A provider that keeps the records in a list and never fails.\<close>

definition example_zone :: "dns_record list zone_client" where
  "example_zone = \<lparr>list_records = (\<lambda>i t n z. (Inr (filter (in_slot t n) z), z)),
     create_record = (\<lambda>i rec z. (None, z @ [rec\<lparr>DR_ID := concat (map DR_ID z) @ ''x''\<rparr>])),
     update_record = (\<lambda>i j rec z. (None, map (\<lambda>x. if DR_ID x = j then rec\<lparr>DR_ID := j\<rparr> else x) z))\<rparr>"

lemma example_zone_ok: "zone_ok example_zone i id"
proof -
  have "concat (map DR_ID z) @ ''x'' \<notin> DR_ID ` set z" for z
  proof
    assume "concat (map DR_ID z) @ ''x'' \<in> DR_ID ` set z"
    then obtain r where r: "r \<in> set z" "DR_ID r = concat (map DR_ID z) @ ''x''" by auto
    have "length (DR_ID r) \<le> length (concat (map DR_ID z))" using r(1) by (auto simp: length_concat intro: member_le_sum_list)
    then show False by (simp add: r(2))
  qed
  then show ?thesis
    unfolding zone_ok_def
    by (auto simp: example_zone_def stored_def in_slot_def intro: exI [where x = "rec\<lparr>DR_ID := i\<rparr>" for rec i])
qed

text \<open>A zone with the record of some other service at the name of the domain.\<close>

definition verified_zone :: "dns_record list" where
  "verified_zone = [new_record ''TXT'' ''example.com'' ''site-verification=1'' 0]"

theorem ApplyMailRecords_conservative_witness:
  "grown (managed example_lib ''example.com'' ''mail.example.com'' ''192.0.2.1'' ''v=DKIM1; p=QUJD'' ''v=DMARC1; p=none'')
     (wanted example_lib ''example.com'' ''mail.example.com'' ''192.0.2.1'' ''v=DKIM1; p=QUJD'' ''v=DMARC1; p=none'') verified_zone
     (snd (ApplyMailRecords example_lib example_zone ''z1'' ''example.com'' ''mail.example.com'' ''192.0.2.1'' ''v=DKIM1; p=QUJD'' ''v=DMARC1; p=none'' verified_zone))"
  using ApplyMailRecords_conservative [OF example_zone_ok, of verified_zone] by (simp add: verified_zone_def)

theorem ApplyMailRecords_again_witness:
  "\<exists>rs z rs2. ApplyMailRecords example_lib example_zone ''z1'' ''example.com'' ''mail.example.com'' ''192.0.2.1'' ''v=DKIM1; p=QUJD'' ''v=DMARC1; p=none''
       verified_zone = (rs, z)
     \<and> ApplyMailRecords example_lib example_zone ''z1'' ''example.com'' ''mail.example.com'' ''192.0.2.1'' ''v=DKIM1; p=QUJD'' ''v=DMARC1; p=none'' z = (rs2, z)
     \<and> length z = 8 \<and> list_all (\<lambda>res. if AR_Err res = None then AR_Action res = ''unchanged'' else True) rs2"
proof -
  let ?run = "ApplyMailRecords example_lib example_zone ''z1'' ''example.com'' ''mail.example.com'' ''192.0.2.1'' ''v=DKIM1; p=QUJD'' ''v=DMARC1; p=none''"
  obtain rs z where first: "?run verified_zone = (rs, z)" by fastforce
  have "list_all in_place (fst (?run verified_zone)) \<and> length (snd (?run verified_zone)) = 8" by code_simp
  then have ok: "list_all in_place rs" "length z = 8" by (simp_all add: first)
  obtain rs2 z2 where second: "?run z = (rs2, z2)" by fastforce
  have "distinct (map DR_ID (id verified_zone))" "HasPrefix ''v=DKIM1; p=QUJD'' ''v=DKIM1''" "HasPrefix ''v=DMARC1; p=none'' ''v=DMARC1''"
    by (simp_all add: verified_zone_def)
  from ApplyMailRecords_again [OF example_zone_ok this first ok(1) second] first second ok(2) show ?thesis by auto
qed

text \<open>
  Without a DKIM key the source still calls \<open>ApplyMailRecords\<close>, with an empty value: the record that is published then loses its content.
\<close>

lemma empty_value_overwrites:
  assumes "zone_ok C zoneID recs" and "filter (in_slot ''TXT'' name) (recs z) = [r]" and "has_text pre r" and "DR_Content r \<noteq> []"
    and "upsertTXTByPrefix C zoneID label name pre [] z = (res, z')" and "AR_Err res = None"
  shows "\<exists>r'. DR_ID r' = DR_ID r \<and> DR_Content r' = [] \<and> r' \<in> set (recs z')"
proof -
  obtain out z1 where run: "list_records C zoneID ''TXT'' name z = (out, z1)" by fastforce
  note got = zone_list [OF assms(1) run]
  obtain rs where rs: "out = Inr rs" using assms(5,6) by (cases out) (auto simp: upsertTXTByPrefix_def run apply_error_def)
  have "rs = [r]" using got(2) [OF rs] assms(2) by simp
  obtain e z2 where up: "update_record C zoneID (DR_ID r) (r\<lparr>DR_Content := []\<rparr>) z1 = (e, z2)" by fastforce
  have e: "e = None" "z' = z2"
    using assms(3-6) by (auto simp: upsertTXTByPrefix_def run rs \<open>rs = [r]\<close> up ended_def apply_error_def split: option.splits)
  from zone_update [OF assms(1) up] e obtain r' where r': "DR_Content r' = []" "DR_ID r' = DR_ID r"
      "recs z' = map (\<lambda>x. if DR_ID x = DR_ID r then r' else x) (recs z)" by (auto simp: got(1) stored_def)
  have "r \<in> set (recs z)" using arg_cong [OF assms(2), of set] by auto
  then have "r' \<in> set (recs z')" by (force simp: r'(3))
  with r' show ?thesis by blast
qed

end
