(* ===== verification/Cloudflare_Client.thy ===== *)
theory Cloudflare_Client
  imports Cloudflare_Apply Http
begin

text \<open>
  Package cloudflare, files \<open>client.go\<close> and \<open>oauth.go\<close>: the requests to the provider and the OAuth exchange. Sending a request is a parameter; a body is the
  JSON value of its text, \<open>None\<close> when the text is no JSON.
\<close>

section \<open>Package url\<close>

definition url_plain :: "char \<Rightarrow> bool" where
  "url_plain c \<longleftrightarrow> is_digit c \<or> is_upper c \<or> is_lower c \<or> c \<in> {CHR ''-'', CHR ''_'', CHR ''.'', CHR ''~''}"

definition QueryEscape :: "string \<Rightarrow> string" where
  "QueryEscape s = concat (map (\<lambda>c. if url_plain c then [c] else if c = CHR '' '' then ''+'' else CHR ''%'' # map upper_byte (hex_byte c)) s)"

text \<open>\<open>Values.Encode\<close> for keys with one value each: sorted by key.\<close>

definition url_Encode :: "(string \<times> string) list \<Rightarrow> string" where
  "url_Encode kvs = Join (map (\<lambda>(k, v). QueryEscape k @ ''='' @ QueryEscape v) (sort_key fst kvs)) ''&''"

section \<open>Requests\<close>

text \<open>\<open>cf_send token method path body\<close>: the status and the body of the answer.\<close>

record 'z cf_net =
  cf_send :: "string \<Rightarrow> string \<Rightarrow> string \<Rightarrow> json option \<Rightarrow> 'z \<Rightarrow> (error + nat \<times> json option) \<times> 'z"

text \<open>
  Into \<open>apiMeta\<close> the answer is decoded without looking at the error, so a value of a wrong type just leaves its field alone. Of the errors only the
  first is used.
\<close>

definition lenient :: "unicode \<Rightarrow> (string \<times> json) list \<Rightarrow> string \<Rightarrow> (json \<Rightarrow> 'a \<Rightarrow> 'a option) \<Rightarrow> 'a \<Rightarrow> 'a" where
  "lenient U ms name upd old = foldl (\<lambda>acc (k, v). if EqualFold U k name then (case upd v acc of None \<Rightarrow> acc | Some x \<Rightarrow> x) else acc) old ms"

definition json_members :: "json option \<Rightarrow> (string \<times> json) list" where
  "json_members doc = (case doc of Some (JObj ms) \<Rightarrow> ms | _ \<Rightarrow> [])"

definition meta_error :: "unicode \<Rightarrow> json \<Rightarrow> int \<times> string" where
  "meta_error U v = (let ms = json_members (Some v) in (lenient U ms ''code'' set_int 0, lenient U ms ''message'' set_string []))"

fun set_errors :: "unicode \<Rightarrow> json \<Rightarrow> (int \<times> string) list \<Rightarrow> (int \<times> string) list option" where
  "set_errors U (JArr vs) old = Some (map (meta_error U) vs)"
| "set_errors U JNull old = Some []"
| "set_errors U v old = None"

definition meta_success :: "unicode \<Rightarrow> json option \<Rightarrow> bool" where
  "meta_success U doc = lenient U (json_members doc) ''success'' set_bool False"

definition meta_errors :: "unicode \<Rightarrow> json option \<Rightarrow> (int \<times> string) list" where
  "meta_errors U doc = lenient U (json_members doc) ''errors'' (set_errors U) []"

definition api_failure :: "unicode \<Rightarrow> nat \<Rightarrow> json option \<Rightarrow> error" where
  "api_failure U code doc = (case meta_errors U doc of
       (c, msg) # _ \<Rightarrow> ErrText (''cloudflare API error: '' @ msg @ '' (code '' @ itoa c @ '')'')
     | [] \<Rightarrow> ErrText (''cloudflare API request failed (HTTP '' @ nat_itoa code @ '')''))"

text \<open>\<open>do\<close>: \<open>get\<close> decodes the members of the answer into \<open>out\<close>.\<close>

definition api_do :: "unicode \<Rightarrow> 'z cf_net \<Rightarrow> string \<Rightarrow> string \<Rightarrow> string \<Rightarrow> json option \<Rightarrow> ((string \<times> json) list \<Rightarrow> 'b option) \<Rightarrow> 'z \<Rightarrow> (error + 'b) \<times> 'z" where
  "api_do U N token method path body get z = (case cf_send N token method path body z of
       (Inl e, z1) \<Rightarrow> (Inl (Wrapped ''cloudflare API request'' e), z1)
     | (Inr (code, doc), z1) \<Rightarrow>
         if \<not> meta_success U doc then (Inl (api_failure U code doc), z1)
         else (case Option.bind (Option.bind doc members_of) get of
             None \<Rightarrow> (Inl (Wrapped ''decode cloudflare response'' (ErrText ''json'')), z1)
           | Some x \<Rightarrow> (Inr x, z1)))"

fun set_structs :: "((string \<times> json) list \<Rightarrow> 'b option) \<Rightarrow> json \<Rightarrow> 'b list \<Rightarrow> 'b list option" where
  "set_structs get (JArr vs) old = those (map (\<lambda>v. Option.bind (members_of v) get) vs)"
| "set_structs get JNull old = Some []"
| "set_structs get v old = None"

fun set_status :: "unicode \<Rightarrow> json \<Rightarrow> string \<Rightarrow> string option" where
  "set_status U (JObj ms) old = field U ms ''status'' set_string old"
| "set_status U JNull old = Some old"
| "set_status U v old = None"

definition VerifyToken :: "unicode \<Rightarrow> 'z cf_net \<Rightarrow> string \<Rightarrow> 'z \<Rightarrow> (error + unit) \<times> 'z" where
  "VerifyToken U N token z = (case api_do U N token ''GET'' ''/user/tokens/verify'' None (\<lambda>ms. field U ms ''result'' (set_status U) []) z of
       (Inl e, z1) \<Rightarrow> (Inl e, z1)
     | (Inr st, z1) \<Rightarrow>
         if st \<noteq> ''active'' then (Inl (ErrText (''token status is '' @ Quote U st @ '', expected active'')), z1) else (Inr (), z1))"

section \<open>Zones\<close>

definition zone_fields :: "unicode \<Rightarrow> (string \<times> json) list \<Rightarrow> (string \<times> string) option" where
  "zone_fields U ms = Option.bind (field U ms ''id'' set_string []) (\<lambda>i. Option.bind (field U ms ''name'' set_string []) (\<lambda>n. Some (i, n)))"

definition ask_zone :: "unicode \<Rightarrow> 'z cf_net \<Rightarrow> string \<Rightarrow> string \<Rightarrow> 'z \<Rightarrow> (error + (string \<times> string) list) \<times> 'z" where
  "ask_zone U N token candidate = api_do U N token ''GET'' (''/zones?name='' @ QueryEscape candidate) None
     (\<lambda>ms. field U ms ''result'' (set_structs (zone_fields U)) [])"

text \<open>The loop over the start of the candidate: at least two labels are left.\<close>

fun find_zone_from :: "unicode \<Rightarrow> 'z cf_net \<Rightarrow> string \<Rightarrow> string list \<Rightarrow> 'z \<Rightarrow> (error + (string \<times> string) option) \<times> 'z" where
  "find_zone_from U N token (l # m # ls) z = (case ask_zone U N token (Join (l # m # ls) ''.'') z of
       (Inl e, z1) \<Rightarrow> (Inl e, z1)
     | (Inr [], z1) \<Rightarrow> find_zone_from U N token (m # ls) z1
     | (Inr (found # _), z1) \<Rightarrow> (Inr (Some found), z1))"
| "find_zone_from U N token ls z = (Inr None, z)"

definition FindZone :: "unicode \<Rightarrow> 'z cf_net \<Rightarrow> string \<Rightarrow> string \<Rightarrow> 'z \<Rightarrow> (error + (string \<times> string) option) \<times> 'z" where
  "FindZone U N token domain z = find_zone_from U N token (split_on (CHR ''.'') (TrimSuffix domain ''.'')) z"

section \<open>Records\<close>

text \<open>\<open>omitempty\<close> leaves out an empty identifier, a TTL of zero and a priority of zero.\<close>

definition record_json :: "dns_record \<Rightarrow> json" where
  "record_json r = JObj ((if DR_ID r = [] then [] else [(''id'', JStr (DR_ID r))])
     @ [(''type'', JStr (DR_Type r)), (''name'', JStr (DR_Name r)), (''content'', JStr (DR_Content r))]
     @ (if DR_TTL r = 0 then [] else [(''ttl'', JNum (itoa (DR_TTL r)))])
     @ (if DR_Priority r = 0 then [] else [(''priority'', JNum (itoa (DR_Priority r)))])
     @ [(''proxied'', JBool (DR_Proxied r))])"

definition record_fields :: "unicode \<Rightarrow> (string \<times> json) list \<Rightarrow> dns_record option" where
  "record_fields U ms =
     Option.bind (field U ms ''id'' set_string []) (\<lambda>i. Option.bind (field U ms ''type'' set_string []) (\<lambda>t.
     Option.bind (field U ms ''name'' set_string []) (\<lambda>n. Option.bind (field U ms ''content'' set_string []) (\<lambda>c.
     Option.bind (field U ms ''ttl'' set_int 0) (\<lambda>ttl. Option.bind (field U ms ''priority'' set_int 0) (\<lambda>p.
     Option.bind (field U ms ''proxied'' set_bool False) (\<lambda>x.
     Some \<lparr>DR_ID = i, DR_Type = t, DR_Name = n, DR_Content = c, DR_TTL = ttl, DR_Priority = p, DR_Proxied = x\<rparr>)))))))"

definition listRecords :: "unicode \<Rightarrow> 'z cf_net \<Rightarrow> string \<Rightarrow> string \<Rightarrow> string \<Rightarrow> string \<Rightarrow> 'z \<Rightarrow> (error + dns_record list) \<times> 'z" where
  "listRecords U N token zoneID recordType name = api_do U N token ''GET''
     (''/zones/'' @ zoneID @ ''/dns_records?type='' @ QueryEscape recordType @ ''&name='' @ QueryEscape name) None
     (\<lambda>ms. field U ms ''result'' (set_structs (record_fields U)) [])"

text \<open>Without an \<open>out\<close> the answer is not decoded.\<close>

definition error_of :: "(error + 'b) \<times> 'z \<Rightarrow> error option \<times> 'z" where
  "error_of r = (case r of (Inl e, z) \<Rightarrow> (Some e, z) | (Inr x, z) \<Rightarrow> (None, z))"

definition createRecord :: "unicode \<Rightarrow> 'z cf_net \<Rightarrow> string \<Rightarrow> string \<Rightarrow> dns_record \<Rightarrow> 'z \<Rightarrow> error option \<times> 'z" where
  "createRecord U N token zoneID rec z =
     error_of (api_do U N token ''POST'' (''/zones/'' @ zoneID @ ''/dns_records'') (Some (record_json rec)) (\<lambda>ms. Some ()) z)"

definition updateRecord :: "unicode \<Rightarrow> 'z cf_net \<Rightarrow> string \<Rightarrow> string \<Rightarrow> string \<Rightarrow> dns_record \<Rightarrow> 'z \<Rightarrow> error option \<times> 'z" where
  "updateRecord U N token zoneID recordID rec z =
     error_of (api_do U N token ''PUT'' (''/zones/'' @ zoneID @ ''/dns_records/'' @ recordID) (Some (record_json rec)) (\<lambda>ms. Some ()) z)"

text \<open>The client with a token, as \<open>ApplyMailRecords\<close> uses it.\<close>

definition cf_client :: "unicode \<Rightarrow> 'z cf_net \<Rightarrow> string \<Rightarrow> 'z zone_client" where
  "cf_client U N token = \<lparr>list_records = listRecords U N token, create_record = createRecord U N token, update_record = updateRecord U N token\<rparr>"

section \<open>Facts\<close>

text \<open>Reading a member of an object with distinct keys, when no key is another one in different letters.\<close>

lemma field_Nil [simp]: "field U [] name upd old = Some old"
  by (simp add: field_def)

lemma field_skip: "\<not> EqualFold U k name \<Longrightarrow> field U ((k, v) # ms) name upd old = field U ms name upd old"
  by (simp add: field_def)

lemma field_take: "EqualFold U name name \<Longrightarrow> upd v old = Some x \<Longrightarrow> field U ((name, v) # ms) name upd old = field U ms name upd x"
  by (simp add: field_def)

text \<open>What is sent as a record is read as that record.\<close>

lemma record_json_fields:
  assumes "- (2 ^ 63) \<le> DR_TTL r" and "DR_TTL r < 2 ^ 63" and "- (2 ^ 63) \<le> DR_Priority r" and "DR_Priority r < 2 ^ 63"
  shows "Option.bind (members_of (record_json r)) (record_fields U) = Some r"
proof -
  have ints: "ParseInt64 (itoa (DR_TTL r)) = Some (DR_TTL r)" "ParseInt64 (itoa (DR_Priority r)) = Some (DR_Priority r)"
    using assms by (simp_all add: ParseInt64_itoa)
  have keys: "EqualFold U a b \<longleftrightarrow> a = b" if "list_all (\<lambda>c. is_ascii c \<and> \<not> is_upper c) a" "list_all (\<lambda>c. is_ascii c \<and> \<not> is_upper c) b" for a b
  proof -
    have "map lower_byte a = a" if "list_all (\<lambda>c. is_ascii c \<and> \<not> is_upper c) a" for a
      using that by (induction a) (auto simp: lower_byte_def)
    then show ?thesis using that by (simp add: EqualFold_ascii list_all_iff)
  qed
  show ?thesis
    using ints by (cases r) (simp add: record_json_def record_fields_def field_def keys is_ascii_def is_upper_def)
qed

text \<open>The parents of a domain that have at least two labels, the domain itself first.\<close>

fun candidates :: "string list \<Rightarrow> string list" where
  "candidates (l # m # ls) = Join (l # m # ls) ''.'' # candidates (m # ls)"
| "candidates ls = []"

text \<open>
  The nearest enclosing zone is found: when the provider answers every question about a zone from the table \<open>zones\<close>, the result is the first answer for
  the first candidate that has one, and nothing is found only when no candidate has one.
\<close>

lemma find_zone_from_nearest:
  assumes "\<And>c z. fst (ask_zone U N token c z) = Inr (zones c)"
  shows "fst (find_zone_from U N token ls z) = Inr (map_option (\<lambda>c. hd (zones c)) (find (\<lambda>c. zones c \<noteq> []) (candidates ls)))"
proof (induction ls arbitrary: z rule: candidates.induct)
  case (1 l m ls)
  obtain z1 where "ask_zone U N token (Join (l # m # ls) ''.'') z = (Inr (zones (Join (l # m # ls) ''.'')), z1)"
    using assms [of "Join (l # m # ls) ''.''" z] by (metis prod.collapse)
  then show ?case using "1.IH" by (cases "zones (Join (l # m # ls) ''.'')") auto
qed auto

lemma FindZone_nearest:
  assumes "\<And>c z. fst (ask_zone U N token c z) = Inr (zones c)"
  shows "fst (FindZone U N token domain z)
    = Inr (map_option (\<lambda>c. hd (zones c)) (find (\<lambda>c. zones c \<noteq> []) (candidates (split_on (CHR ''.'') (TrimSuffix domain ''.'')))))"
  unfolding FindZone_def by (rule find_zone_from_nearest [OF assms])

lemma candidates_dot: "c \<in> set (candidates ls) \<Longrightarrow> CHR ''.'' \<in> set c"
  by (induction ls rule: candidates.induct) auto

section \<open>OAuth\<close>

definition AuthorizeURL :: string where "AuthorizeURL = ''https://dash.cloudflare.com/oauth2/auth''"

record oauth_client =
  OC_ClientID :: string
  OC_ClientSecret :: string
  OC_RedirectURI :: string

definition BuildAuthorizeURL :: "oauth_client \<Rightarrow> string \<Rightarrow> string" where
  "BuildAuthorizeURL oc state = AuthorizeURL @ ''?'' @ url_Encode [(''response_type'', ''code''), (''client_id'', OC_ClientID oc),
     (''redirect_uri'', OC_RedirectURI oc), (''state'', state)]"

record token_result =
  TR_AccessToken :: string
  TR_RefreshToken :: string
  TR_ExpiresAt :: int

text \<open>The status and the body of the answer of the token endpoint to a form.\<close>

type_synonym oauth_net = "(string \<times> string) list \<Rightarrow> error + nat \<times> json option"

record token_answer =
  TA_access :: string
  TA_refresh :: string
  TA_expires :: int
  TA_error :: string
  TA_desc :: string

definition token_fields :: "unicode \<Rightarrow> (string \<times> json) list \<Rightarrow> token_answer option" where
  "token_fields U ms =
     Option.bind (field U ms ''access_token'' set_string []) (\<lambda>a. Option.bind (field U ms ''refresh_token'' set_string []) (\<lambda>r.
     Option.bind (field U ms ''expires_in'' set_int 0) (\<lambda>n. Option.bind (field U ms ''error'' set_string []) (\<lambda>e.
     Option.bind (field U ms ''error_description'' set_string []) (\<lambda>d.
     Some \<lparr>TA_access = a, TA_refresh = r, TA_expires = n, TA_error = e, TA_desc = d\<rparr>)))))"

text \<open>
  The clock counts seconds; the duration is a number of nanoseconds in 64 bits. Without a positive lifetime an hour is taken.
\<close>

definition expires_at :: "int \<Rightarrow> int \<Rightarrow> int" where
  "expires_at now n = (if n \<le> 0 then now + 3600 else now + i64 (n * 1000000000) div 1000000000)"

definition tokenRequest :: "unicode \<Rightarrow> oauth_net \<Rightarrow> oauth_client \<Rightarrow> (string \<times> string) list \<Rightarrow> token_result op" where
  "tokenRequest U T oc form = (case T (form @ [(''client_id'', OC_ClientID oc), (''client_secret'', OC_ClientSecret oc)]) of
       Inl e \<Rightarrow> Raise (Wrapped ''cloudflare OAuth token request'' e)
     | Inr (code, doc) \<Rightarrow> (case Option.bind (Option.bind doc members_of) (token_fields U) of
           None \<Rightarrow> Raise (Wrapped (''decode cloudflare OAuth token response (HTTP '' @ nat_itoa code @ '')'') (ErrText ''json''))
         | Some a \<Rightarrow>
             if TA_error a \<noteq> [] then Raise (ErrText (''cloudflare OAuth error: '' @ TA_error a @ '' ('' @ TA_desc a @ '')''))
             else if code \<noteq> 200 \<or> TA_access a = [] then Raise (ErrText (''cloudflare OAuth token request failed (HTTP '' @ nat_itoa code @ '')''))
             else andThen Now (\<lambda>now. Return \<lparr>TR_AccessToken = TA_access a, TR_RefreshToken = TA_refresh a,
               TR_ExpiresAt = expires_at now (TA_expires a)\<rparr>)))"

definition ExchangeCode :: "unicode \<Rightarrow> oauth_net \<Rightarrow> oauth_client \<Rightarrow> string \<Rightarrow> token_result op" where
  "ExchangeCode U T oc code =
     tokenRequest U T oc [(''grant_type'', ''authorization_code''), (''code'', code), (''redirect_uri'', OC_RedirectURI oc)]"

definition RefreshAccessToken :: "unicode \<Rightarrow> oauth_net \<Rightarrow> oauth_client \<Rightarrow> string \<Rightarrow> token_result op" where
  "RefreshAccessToken U T oc refreshToken = tokenRequest U T oc [(''grant_type'', ''refresh_token''), (''refresh_token'', refreshToken)]"

text \<open>A result always holds a token, and asking changes nothing here.\<close>

lemma tokenRequest_result: "after (tokenRequest U T oc form) (\<lambda>r w'. w' = w \<and> (case r of Inl e \<Rightarrow> True | Inr t \<Rightarrow> TR_AccessToken t \<noteq> [])) w"
  by (auto simp: tokenRequest_def wp split: sum.split option.split prod.split)

end
