(* ===== verification/Secretkey.thy ===== *)
theory Secretkey
  imports Routing Base64
begin

text \<open>
  Package secretkey: symmetric keys kept as lines \<open>NAME=base64\<close> of the installer's secrets file. \<open>Ensure\<close> makes a key when there is none and reads it back.
\<close>

definition SecretsFile :: string where "SecretsFile = ''/etc/patrabahok/secrets.env''"

text \<open>\<open>os.OpenFile\<close> with \<open>O_APPEND|O_CREATE\<close>, and a write to the file it opened. A write is all or nothing here.\<close>

definition open_append :: "string \<Rightarrow> (string \<Rightarrow> fnode option) \<Rightarrow> error + (string \<Rightarrow> fnode option)" where
  "open_append p f = (if \<not> is_dir (f (parent_dir p)) then Inl FSError
     else case f p of Some (Dir u) \<Rightarrow> Inl FSError | Some (File u c) \<Rightarrow> Inr f | None \<Rightarrow> Inr (f(p \<mapsto> File 0 [])))"

definition append_text :: "string \<Rightarrow> string \<Rightarrow> (string \<Rightarrow> fnode option) \<Rightarrow> error + (string \<Rightarrow> fnode option)" where
  "append_text p t f = (case f p of Some (File u c) \<Rightarrow> Inr (f(p \<mapsto> File u (c @ t))) | _ \<Rightarrow> Inl FSError)"

text \<open>What a line contributes: the last line of the name wins.\<close>

definition last_value :: "string \<Rightarrow> string list \<Rightarrow> string" where
  "last_value name ls = foldl (\<lambda>acc l. if HasPrefix l (name @ ''='') then TrimPrefix l (name @ ''='') else acc) [] ls"

definition read_secret :: "string \<Rightarrow> string \<Rightarrow> error + string option" where
  "read_secret name c =
     (if list_ex (\<lambda>l. 65536 \<le> length l) (raw_lines c) then Inl (ErrText ''bufio.Scanner: token too long'')
      else let v = last_value name (scan_lines c) in
        if v = [] then Inr None
        else case StdDecode v of None \<Rightarrow> Inl (Wrapped (''decode '' @ name) (ErrText ''illegal base64 data''))
           | Some raw \<Rightarrow> Inr (Some raw))"

text \<open>\<open>read\<close>: a missing file holds no key; a directory cannot be read.\<close>

definition secret_read :: "string \<Rightarrow> string option op" where
  "secret_read name = FsRead (\<lambda>w. case fs w SecretsFile of None \<Rightarrow> Inr None | Some (Dir u) \<Rightarrow> Inl FSError | Some (File u c) \<Rightarrow> read_secret name c)"

definition nl1 :: string where "nl1 = [CHR 0x0A]"

definition Ensure :: "string \<Rightarrow> string op" where
  "Ensure name =
     andThen (secret_read name) (\<lambda>found. case found of
         Some v \<Rightarrow> Return v
       | None \<Rightarrow>
           andThen (RandRead 32) (\<lambda>raw.
           andThen (MkdirAll ''/etc/patrabahok'') (\<lambda>_.
           andThen (FsWrite (open_append SecretsFile)) (\<lambda>_.
           andThen (FsWrite (append_text SecretsFile (name @ ''='' @ StdEncode raw @ nl1))) (\<lambda>_.
           andThen (Chmod SecretsFile) (\<lambda>_.
           andThen (secret_read name) (\<lambda>back. case back of
               None \<Rightarrow> Raise (ErrText (''wrote '' @ name @ '' to '' @ SecretsFile @ '' but could not read it back''))
             | Some v \<Rightarrow> Return v)))))))"

section \<open>Facts\<close>

definition secret_at :: "string \<Rightarrow> world \<Rightarrow> (error + string option)" where
  "secret_at name w = (case fs w SecretsFile of None \<Rightarrow> Inr None | Some (Dir u) \<Rightarrow> Inl FSError | Some (File u c) \<Rightarrow> read_secret name c)"

lemma secret_at_tick [simp]: "secret_at name (tick w) = secret_at name w"
  by (simp add: secret_at_def)

lemma secret_read_eq: "secret_read name = FsRead (secret_at name)"
  by (simp add: secret_read_def secret_at_def [abs_def])

text \<open>Whatever \<open>Ensure\<close> returns is in the file when it returns.\<close>

lemma Ensure_returns: "after (Ensure name) (\<lambda>r w'. case r of Inl e \<Rightarrow> True | Inr k \<Rightarrow> secret_at name w' = Inr (Some k)) w"
  unfolding Ensure_def secret_read_eq wp by (auto simp: wp MkdirAll_def Chmod_def split: sum.split option.split)

lemma Ensure_again:
  "secret_at name w = Inr (Some k) \<Longrightarrow> after (Ensure name) (\<lambda>r w'. r \<in> {Inr k, Inl FSError} \<and> w' = tick w) w"
  unfolding Ensure_def secret_read_eq wp by (simp add: after_Return)


text \<open>The comment in \<open>Ensure\<close> lets the first line that was written win a race; reading takes the last.\<close>

theorem last_line_wins: "read_secret ''K'' (''K=QUE='' @ nl1 @ ''K=QkI='' @ nl1) = Inr (Some ''BB'')"
proof -
  have "raw_lines (''K=QUE='' @ nl1 @ ''K=QkI='' @ nl1) = [''K=QUE='', ''K=QkI='']" by code_simp
  moreover have "StdDecode ''QkI='' = Some ''BB''" by code_simp
  ultimately show ?thesis by (simp add: read_secret_def scan_lines_def last_value_def TrimSuffix_def TrimPrefix_def suffix_def)
qed

end
