(* ===== verification/Cloudflare_Store.thy ===== *)
theory Cloudflare_Store
  imports Cloudflare_Client Secretkey
begin

text \<open>
  Package cloudflare, file \<open>store.go\<close>: the one connected account, with its secrets encrypted by AES-GCM under a key of the secrets file. AES-GCM is a
  parameter; \<open>gcm_ok\<close> is that opening what was sealed under the same key and nonce gives it back.
\<close>

record aead =
  gcm_seal :: "string \<Rightarrow> string \<Rightarrow> string \<Rightarrow> string"
  gcm_open :: "string \<Rightarrow> string \<Rightarrow> string \<Rightarrow> string option"

definition gcm_ok :: "aead \<Rightarrow> bool" where
  "gcm_ok A \<longleftrightarrow> (\<forall>k n p. length n = 12 \<longrightarrow> gcm_open A k n (gcm_seal A k n p) = Some p)"

definition encKeyName :: string where "encKeyName = ''CLOUDFLARE_ENC_KEY''"
definition tokenRefreshSkew :: int where "tokenRefreshSkew = 60"

text \<open>\<open>aes.NewCipher\<close> takes keys of 16, 24 or 32 bytes; the nonce of GCM has 12.\<close>

definition aes_key :: "string \<Rightarrow> bool" where
  "aes_key k \<longleftrightarrow> length k \<in> {16, 24, 32}"

definition bad_key :: "string \<Rightarrow> error" where
  "bad_key k = ErrText (''crypto/aes: invalid key size '' @ nat_itoa (length k))"

definition encrypt :: "aead \<Rightarrow> string \<Rightarrow> string op" where
  "encrypt A plaintext =
     andThen (Ensure encKeyName) (\<lambda>key.
     if \<not> aes_key key then Raise (bad_key key)
     else andThen (RandRead 12) (\<lambda>nonce. Return (StdEncode (nonce @ gcm_seal A key nonce plaintext))))"

definition decrypt :: "aead \<Rightarrow> string \<Rightarrow> string op" where
  "decrypt A encoded =
     andThen (Ensure encKeyName) (\<lambda>key. case StdDecode encoded of
         None \<Rightarrow> Raise (ErrText ''illegal base64 data'')
       | Some raw \<Rightarrow>
           if \<not> aes_key key then Raise (bad_key key)
           else if length raw < 12 then Raise (ErrText ''ciphertext too short'')
           else (case gcm_open A key (take 12 raw) (drop 12 raw) of
               None \<Rightarrow> Raise (ErrText ''cipher: message authentication failed'')
             | Some pt \<Rightarrow> Return pt))"

section \<open>Operations\<close>

datatype cf_mode = ModeNone | ModeToken | ModeOAuth

record cf_settings =
  CS_Connected :: bool
  CS_Mode :: cf_mode
  CS_TokenPreview :: string
  CS_OAuthClientID :: string
  CS_ConnectedAt :: int
  CS_PendingOAuthAuth :: bool

text \<open>The zero value of \<open>Settings\<close>; \<open>zero_second\<close> is that of \<open>time.Time\<close>.\<close>

definition zero_second :: int where "zero_second = - 62135596800"

definition no_settings_yet :: cf_settings where
  "no_settings_yet = \<lparr>CS_Connected = False, CS_Mode = ModeNone, CS_TokenPreview = [], CS_OAuthClientID = [], CS_ConnectedAt = zero_second,
     CS_PendingOAuthAuth = False\<rparr>"

definition getRow :: "cf_row option op" where
  "getRow = Query cloudflare_settings"

definition ellipsis :: string where "ellipsis = [CHR 0xE2, CHR 0x80, CHR 0xA6]"

definition preview_of :: "string \<Rightarrow> string" where
  "preview_of token = (if length token > 6 then ellipsis @ drop (length token - 6) token else token)"

definition null_str :: "string option \<Rightarrow> string" where
  "null_str s = (case s of None \<Rightarrow> [] | Some x \<Rightarrow> x)"

definition CfGet :: "aead \<Rightarrow> cf_settings op" where
  "CfGet A = andThen getRow (\<lambda>row. case row of
       None \<Rightarrow> Return no_settings_yet
     | Some r \<Rightarrow>
         if cf_access r \<noteq> None
         then Return (no_settings_yet\<lparr>CS_Connected := True, CS_Mode := ModeOAuth, CS_OAuthClientID := null_str (cf_client_id r), CS_ConnectedAt := cf_connected_at r\<rparr>)
         else if cf_client_id r \<noteq> None
         then Return (no_settings_yet\<lparr>CS_Mode := ModeOAuth, CS_OAuthClientID := null_str (cf_client_id r), CS_PendingOAuthAuth := True,
                CS_ConnectedAt := cf_connected_at r\<rparr>)
         else (case cf_api_token r of
             Some enc \<Rightarrow> andThen (wrap ''decrypt stored Cloudflare token'' (decrypt A enc)) (\<lambda>token.
               Return (no_settings_yet\<lparr>CS_Connected := True, CS_Mode := ModeToken, CS_TokenPreview := preview_of token, CS_ConnectedAt := cf_connected_at r\<rparr>))
           | None \<Rightarrow> Return no_settings_yet))"

text \<open>The statements: an upsert of the only row, an update of its tokens, its deletion.\<close>

definition put_row :: "cf_row \<Rightarrow> world \<Rightarrow> error + nat \<times> world" where
  "put_row r w = Inr (1, w\<lparr>cloudflare_settings := Some (r\<lparr>cf_connected_at := clock w\<rparr>)\<rparr>)"

definition put_tokens :: "string \<Rightarrow> string \<Rightarrow> int \<Rightarrow> world \<Rightarrow> error + nat \<times> world" where
  "put_tokens access refresh expires w = (case cloudflare_settings w of
       None \<Rightarrow> Inr (0, w)
     | Some r \<Rightarrow> Inr (1, w\<lparr>cloudflare_settings := Some (r\<lparr>cf_access := Some access, cf_refresh := Some refresh, cf_expires_at := Some expires\<rparr>)\<rparr>))"

definition del_row :: "world \<Rightarrow> error + nat \<times> world" where
  "del_row w = Inr (if cloudflare_settings w = None then 0 else 1, w\<lparr>cloudflare_settings := None\<rparr>)"

definition empty_row :: cf_row where
  "empty_row = \<lparr>cf_api_token = None, cf_client_id = None, cf_client_secret = None, cf_access = None, cf_refresh = None, cf_expires_at = None, cf_connected_at = 0\<rparr>"

definition saveOAuthTokens :: "aead \<Rightarrow> token_result \<Rightarrow> unit op" where
  "saveOAuthTokens A t =
     andThen (encrypt A (TR_AccessToken t)) (\<lambda>encAccess.
     andThen (encrypt A (TR_RefreshToken t)) (\<lambda>encRefresh.
     andThen (Exec (put_tokens encAccess encRefresh (TR_ExpiresAt t))) (\<lambda>_. Return ())))"

definition SaveOAuthCallback :: "aead \<Rightarrow> token_result \<Rightarrow> unit op" where
  "SaveOAuthCallback A t = saveOAuthTokens A t"

definition refresh_missing :: error where
  "refresh_missing = ErrText (''cloudflare OAuth token expired and no refresh token is stored '' @ dash @ '' reconnect in Settings'')"

definition CfToken :: "lib \<Rightarrow> aead \<Rightarrow> oauth_net \<Rightarrow> string op" where
  "CfToken L A T = andThen getRow (\<lambda>row. case row of
       None \<Rightarrow> Return []
     | Some r \<Rightarrow> (case cf_access r of
         Some access \<Rightarrow> andThen Now (\<lambda>now.
           if (case cf_expires_at r of None \<Rightarrow> False | Some t \<Rightarrow> now + tokenRefreshSkew < t) then decrypt A access
           else (case (cf_refresh r, cf_client_id r, cf_client_secret r) of
               (Some refreshEnc, Some clientID, Some secretEnc) \<Rightarrow>
                 andThen (decrypt A secretEnc) (\<lambda>clientSecret.
                 andThen (decrypt A refreshEnc) (\<lambda>refreshToken.
                 andThen (wrap ''refresh cloudflare OAuth token''
                     (RefreshAccessToken (uni L) T \<lparr>OC_ClientID = clientID, OC_ClientSecret = clientSecret, OC_RedirectURI = []\<rparr> refreshToken)) (\<lambda>res.
                 let res1 = (if TR_RefreshToken res = [] then res\<lparr>TR_RefreshToken := refreshToken\<rparr> else res) in
                 andThen (saveOAuthTokens A res1) (\<lambda>_. Return (TR_AccessToken res1)))))
             | _ \<Rightarrow> Raise refresh_missing))
       | None \<Rightarrow> (case cf_api_token r of Some enc \<Rightarrow> decrypt A enc | None \<Rightarrow> Return [])))"

definition SetAPIToken :: "aead \<Rightarrow> string \<Rightarrow> unit op" where
  "SetAPIToken A token =
     andThen (encrypt A token) (\<lambda>enc. andThen (Exec (put_row (empty_row\<lparr>cf_api_token := Some enc\<rparr>))) (\<lambda>_. Return ()))"

definition SetOAuthClient :: "aead \<Rightarrow> string \<Rightarrow> string \<Rightarrow> unit op" where
  "SetOAuthClient A clientID clientSecret =
     andThen (encrypt A clientSecret) (\<lambda>enc.
     andThen (Exec (put_row (empty_row\<lparr>cf_client_id := Some clientID, cf_client_secret := Some enc\<rparr>))) (\<lambda>_. Return ()))"

definition OAuthClientFor :: "aead \<Rightarrow> string \<Rightarrow> oauth_client option op" where
  "OAuthClientFor A redirectURI = andThen getRow (\<lambda>row. case row of
       None \<Rightarrow> Return None
     | Some r \<Rightarrow> (case (cf_client_id r, cf_client_secret r) of
         (Some clientID, Some enc) \<Rightarrow> andThen (decrypt A enc) (\<lambda>secret.
           Return (Some \<lparr>OC_ClientID = clientID, OC_ClientSecret = secret, OC_RedirectURI = redirectURI\<rparr>))
       | _ \<Rightarrow> Return None))"

definition CfClear :: "unit op" where
  "CfClear = andThen (Exec del_row) (\<lambda>_. Return ())"

section \<open>What is stored comes back\<close>

text \<open>\<open>c\<close> is \<open>p\<close> encrypted under \<open>k\<close>.\<close>

definition sealed :: "aead \<Rightarrow> string \<Rightarrow> string \<Rightarrow> string \<Rightarrow> bool" where
  "sealed A k c p \<longleftrightarrow> (\<exists>n. length n = 12 \<and> aes_key k \<and> c = StdEncode (n @ gcm_seal A k n p))"

lemma secret_at_frame [simp]:
  "secret_at name (w\<lparr>entropy := e\<rparr>) = secret_at name w" "secret_at name (w\<lparr>cloudflare_settings := r\<rparr>) = secret_at name w"
  by (simp_all add: secret_at_def)

text \<open>The settings and the clock are untouched by what only reads secrets or random bytes.\<close>

definition same_settings :: "world \<Rightarrow> world \<Rightarrow> bool" where
  "same_settings b w \<longleftrightarrow> cloudflare_settings w = cloudflare_settings b \<and> clock w = clock b"

interpretation settings_frame: frame_invariant "same_settings b" for b
  by standard (simp_all add: same_settings_def)

lemma settings_Ensure [keeps_ops]: "keeps (same_settings b) (Ensure name)"
  unfolding Ensure_def secret_read_def
  by (rule keepsI) (auto simp: wp same_settings_def MkdirAll_def Chmod_def split: sum.split option.split)

lemma settings_random [keeps_ops]: "keeps (same_settings b) (RandRead n)"
  by (auto simp: keeps_def wp same_settings_def)

lemma settings_secrets [keeps_ops]: "keeps (same_settings b) (encrypt A p)" "keeps (same_settings b) (decrypt A c)"
  unfolding encrypt_def decrypt_def by (intro keeps_ops)+

lemma after_both: "after m P w \<Longrightarrow> after m Q w \<Longrightarrow> after m (\<lambda>r w'. P r w' \<and> Q r w') w"
  by (simp add: after_def split: prod.splits)

lemma encrypt_seals:
  "after (encrypt A p) (\<lambda>r w'. case r of Inl e \<Rightarrow> True | Inr c \<Rightarrow> \<exists>k. secret_at encKeyName w' = Inr (Some k) \<and> sealed A k c p) w"
  unfolding encrypt_def
proof (rule after_seq [OF Ensure_returns])
  fix key w1 assume "case Inr key of Inl e \<Rightarrow> True | Inr k \<Rightarrow> secret_at encKeyName w1 = Inr (Some k)"
  then show "after (if \<not> aes_key key then Raise (bad_key key)
       else andThen (RandRead 12) (\<lambda>nonce. Return (StdEncode (nonce @ gcm_seal A key nonce p))))
     (\<lambda>r w'. case r of Inl e \<Rightarrow> True | Inr c \<Rightarrow> \<exists>k. secret_at encKeyName w' = Inr (Some k) \<and> sealed A k c p) w1"
    by (auto simp: wp sealed_def intro!: exI [of _ "take 12 (entropy w1)"])
qed simp

lemma decrypt_opens:
  assumes "gcm_ok A" and "secret_at encKeyName w = Inr (Some k)" and "sealed A k c p"
  shows "after (decrypt A c) (\<lambda>r w'. r \<in> {Inr p, Inl FSError} \<and> w' = tick w) w"
proof -
  from assms(3) obtain n where n: "length n = 12" "aes_key k" "c = StdEncode (n @ gcm_seal A k n p)" by (auto simp: sealed_def)
  show ?thesis
    unfolding decrypt_def
    by (rule after_seq [OF Ensure_again [OF assms(2)]]) (use n assms(1) in \<open>auto simp: wp StdDecode_StdEncode gcm_ok_def\<close>)
qed

lemma encrypt_again:
  assumes "secret_at encKeyName w = Inr (Some k)"
  shows "after (encrypt A p) (\<lambda>r w'. secret_at encKeyName w' = Inr (Some k) \<and> (case r of Inl e \<Rightarrow> True | Inr c \<Rightarrow> sealed A k c p)) w"
  unfolding encrypt_def
proof (rule after_seq [OF Ensure_again [OF assms]])
  fix key w1 assume "Inr key \<in> {Inr k, Inl FSError} \<and> w1 = tick w"
  then have "key = k" "w1 = tick w" by auto
  then show "after (if \<not> aes_key key then Raise (bad_key key)
       else andThen (RandRead 12) (\<lambda>nonce. Return (StdEncode (nonce @ gcm_seal A key nonce p))))
     (\<lambda>r w'. secret_at encKeyName w' = Inr (Some k) \<and> (case r of Inl e \<Rightarrow> True | Inr c \<Rightarrow> sealed A k c p)) w1"
    using assms by (auto simp: wp sealed_def intro!: exI [of _ "take 12 (entropy (tick w))"])
qed (use assms in auto)


section \<open>No token is used past its time\<close>

text \<open>\<open>c\<close> opens to \<open>p\<close> under the key \<open>k\<close>.\<close>

definition opened :: "aead \<Rightarrow> string \<Rightarrow> string \<Rightarrow> string \<Rightarrow> bool" where
  "opened A k c p \<longleftrightarrow> aes_key k \<and> (case StdDecode c of None \<Rightarrow> False
     | Some raw \<Rightarrow> 12 \<le> length raw \<and> gcm_open A k (take 12 raw) (drop 12 raw) = Some p)"

lemma sealed_opened: "gcm_ok A \<Longrightarrow> sealed A k c p \<Longrightarrow> opened A k c p"
  by (auto simp: sealed_def opened_def StdDecode_StdEncode gcm_ok_def)

lemma decrypt_result:
  "after (decrypt A c) (\<lambda>x w'. case x of Inl e \<Rightarrow> True | Inr p \<Rightarrow> \<exists>k. secret_at encKeyName w' = Inr (Some k) \<and> opened A k c p) w"
  unfolding decrypt_def by (rule after_seq [OF Ensure_returns]) (auto simp: wp opened_def split: option.split)

lemma decrypt_again:
  assumes "secret_at encKeyName w = Inr (Some k)"
  shows "after (decrypt A c) (\<lambda>x w'. w' = tick w \<and> (case x of Inl e \<Rightarrow> True | Inr p \<Rightarrow> opened A k c p)) w"
  unfolding decrypt_def by (rule after_seq [OF Ensure_again [OF assms]]) (auto simp: wp opened_def split: option.split)

lemma saved_again:
  assumes "secret_at encKeyName w = Inr (Some k)" and "cloudflare_settings w = Some r"
  shows "after (saveOAuthTokens A t) (\<lambda>x w'. case x of Inl e \<Rightarrow> cloudflare_settings w' = Some r
     | Inr u \<Rightarrow> secret_at encKeyName w' = Inr (Some k) \<and> (\<exists>a b. sealed A k a (TR_AccessToken t) \<and> sealed A k b (TR_RefreshToken t)
         \<and> cloudflare_settings w' = Some (r\<lparr>cf_access := Some a, cf_refresh := Some b, cf_expires_at := Some (TR_ExpiresAt t)\<rparr>))) w"
    (is "after _ ?Q w")
  unfolding saveOAuthTokens_def
proof (rule after_seq [OF after_both [OF keepsD [OF settings_secrets(1), of w] encrypt_again [OF assms(1)]]])
  show "same_settings w w" by (simp add: same_settings_def)
next
  fix a w1 assume w1: "same_settings w w1 \<and> secret_at encKeyName w1 = Inr (Some k) \<and> (case Inr a of Inl e \<Rightarrow> True | Inr c \<Rightarrow> sealed A k c (TR_AccessToken t))"
  then have "after (encrypt A (TR_RefreshToken t)) (\<lambda>x w2. same_settings w w2 \<and> secret_at encKeyName w2 = Inr (Some k)
      \<and> (case x of Inl e \<Rightarrow> True | Inr b \<Rightarrow> sealed A k b (TR_RefreshToken t))) w1"
    by (intro after_both [OF keepsD [OF settings_secrets(1)] encrypt_again]) simp_all
  then show "after (andThen (encrypt A (TR_RefreshToken t)) (\<lambda>b. andThen (Exec (put_tokens a b (TR_ExpiresAt t))) (\<lambda>_. Return ()))) ?Q w1"
    by (rule after_seq) (use assms(2) w1 in \<open>auto simp: wp same_settings_def put_tokens_def\<close>)
qed (use assms(2) in \<open>auto simp: same_settings_def\<close>)

text \<open>
  An access token is live while it has more than a minute left. \<open>granted\<close>: what the provider answers to a request for a new one, made with the refresh token and the
  client's identifier and secret that are stored.
\<close>

definition live :: "cf_row \<Rightarrow> int \<Rightarrow> bool" where
  "live r now \<longleftrightarrow> (case cf_expires_at r of None \<Rightarrow> False | Some t \<Rightarrow> now + 60 < t)"

definition granted :: "lib \<Rightarrow> aead \<Rightarrow> oauth_net \<Rightarrow> string \<Rightarrow> cf_row \<Rightarrow> world \<Rightarrow> string \<Rightarrow> token_result \<Rightarrow> bool" where
  "granted L A T k r w refresh res \<longleftrightarrow> (\<exists>i s f secret. cf_client_id r = Some i \<and> cf_client_secret r = Some s \<and> cf_refresh r = Some f
     \<and> opened A k s secret \<and> opened A k f refresh
     \<and> fst (RefreshAccessToken (uni L) T \<lparr>OC_ClientID = i, OC_ClientSecret = secret, OC_RedirectURI = []\<rparr> refresh w) = Inr res)"

lemma asked_at: "after (wrap msg (RefreshAccessToken U T oc tok)) (\<lambda>x w1. w1 = w0 \<and> (case x of
     Inl e \<Rightarrow> \<exists>e'. fst (RefreshAccessToken U T oc tok w) = Inl e'
   | Inr t \<Rightarrow> fst (RefreshAccessToken U T oc tok w) = Inr t \<and> TR_AccessToken t \<noteq> [])) w0" if "clock w0 = clock w"
  using that by (auto simp: RefreshAccessToken_def tokenRequest_def wrap_def after_def andThen_def Attempt_def Raise_def Return_def Now_def split: sum.splits option.splits prod.splits)

definition took_over :: "lib \<Rightarrow> aead \<Rightarrow> oauth_net \<Rightarrow> string \<Rightarrow> cf_row \<Rightarrow> world \<Rightarrow> string \<Rightarrow> world \<Rightarrow> bool" where
  "took_over L A T k r w tok w' \<longleftrightarrow> (\<exists>refresh res a b. granted L A T k r w refresh res \<and> tok = TR_AccessToken res \<and> tok \<noteq> []
     \<and> sealed A k a tok \<and> sealed A k b (if TR_RefreshToken res = [] then refresh else TR_RefreshToken res)
     \<and> cloudflare_settings w' = Some (r\<lparr>cf_access := Some a, cf_refresh := Some b, cf_expires_at := Some (TR_ExpiresAt res)\<rparr>))"

lemma took_overI:
  assumes "granted L A T k r w refresh res" and "TR_AccessToken res \<noteq> []"
    and "sealed A k a (TR_AccessToken res)" and "sealed A k b (if TR_RefreshToken res = [] then refresh else TR_RefreshToken res)"
    and "cloudflare_settings w' = Some (r\<lparr>cf_access := Some a, cf_refresh := Some b, cf_expires_at := Some (TR_ExpiresAt res)\<rparr>)"
  shows "took_over L A T k r w (TR_AccessToken res) w'"
  unfolding took_over_def by (intro exI conjI) (rule assms refl)+

lemma CfToken_outcome:
  assumes "cloudflare_settings w = Some r" and "cf_access r = Some a"
  shows "after (CfToken L A T) (\<lambda>x w'. case x of
       Inl e \<Rightarrow> cloudflare_settings w' = Some r
     | Inr tok \<Rightarrow> \<exists>k. secret_at encKeyName w' = Inr (Some k)
         \<and> (if live r (clock w) then opened A k a tok \<and> cloudflare_settings w' = Some r else took_over L A T k r w tok w')) w"
    (is "after _ ?Q w")
proof -
  define Q where "Q = ?Q"
  have row: "cloudflare_settings w1 = Some r" if "same_settings w w1" for w1 using that assms(1) by (simp add: same_settings_def)
  then have failed: "Q (Inl e) w1" if "same_settings w w1" for e w1 using that by (simp add: Q_def)
  have same: "same_settings w (tick w)" by (simp add: same_settings_def)
  have opens: "after (decrypt A c) (\<lambda>x w2. same_settings w w2 \<and> (case x of Inl e \<Rightarrow> True | Inr p \<Rightarrow> \<exists>k. secret_at encKeyName w2 = Inr (Some k) \<and> opened A k c p)) w1"
    if "same_settings w w1" for c w1
    by (rule after_both [OF keepsD [OF settings_secrets(2) that] decrypt_result])
  have "after (CfToken L A T) Q w"
  proof (cases "live r (clock w)")
    case True
    have "after (decrypt A a) Q (tick w)"
      by (rule after_mono [OF opens [OF same]]) (use True row in \<open>auto simp: Q_def split: sum.splits\<close>)
    with True failed [OF same] show ?thesis
      unfolding CfToken_def getRow_def tokenRefreshSkew_def by (simp add: wp assms live_def)
  next
    case late: False
    let ?ask = "\<lambda>i secret tok. wrap ''refresh cloudflare OAuth token''
        (RefreshAccessToken (uni L) T \<lparr>OC_ClientID = i, OC_ClientSecret = secret, OC_RedirectURI = []\<rparr> tok)"
    have save: "after (let res1 = (if TR_RefreshToken res = [] then res\<lparr>TR_RefreshToken := tok\<rparr> else res) in
        andThen (saveOAuthTokens A res1) (\<lambda>_. Return (TR_AccessToken res1))) Q w1"
      if w1: "same_settings w w1" "secret_at encKeyName w1 = Inr (Some k)" and g: "granted L A T k r w tok res" "TR_AccessToken res \<noteq> []" for k res tok w1
      unfolding Let_def
      by (rule after_seq [OF saved_again [OF w1(2) row [OF w1(1)]]])
         (use late g in \<open>auto simp: wp Q_def split: if_splits intro!: took_overI [OF g]\<close>)
    have ask: "after (andThen (?ask i secret tok) (\<lambda>res. let res1 = (if TR_RefreshToken res = [] then res\<lparr>TR_RefreshToken := tok\<rparr> else res) in
        andThen (saveOAuthTokens A res1) (\<lambda>_. Return (TR_AccessToken res1)))) Q w1"
      if w1: "same_settings w w1" "secret_at encKeyName w1 = Inr (Some k)" and o: "opened A k s secret" "opened A k f tok"
        and st: "cf_client_id r = Some i" "cf_client_secret r = Some s" "cf_refresh r = Some f" for i s f secret tok k w1
    proof (rule after_seq [OF asked_at [where w = w]])
      fix res w2 assume a: "w2 = w1 \<and> (case Inr res of Inl e \<Rightarrow> \<exists>e'. fst (RefreshAccessToken (uni L) T \<lparr>OC_ClientID = i, OC_ClientSecret = secret, OC_RedirectURI = []\<rparr> tok w) = Inl e'
         | Inr t \<Rightarrow> fst (RefreshAccessToken (uni L) T \<lparr>OC_ClientID = i, OC_ClientSecret = secret, OC_RedirectURI = []\<rparr> tok w) = Inr t \<and> TR_AccessToken t \<noteq> [])"
      with o st have "granted L A T k r w tok res" by (auto simp: granted_def)
      with a w1 show "after (let res1 = (if TR_RefreshToken res = [] then res\<lparr>TR_RefreshToken := tok\<rparr> else res) in
          andThen (saveOAuthTokens A res1) (\<lambda>_. Return (TR_AccessToken res1))) Q w2"
        by (intro save) auto
    qed (use w1 failed in \<open>auto simp: same_settings_def\<close>)
    have "after (case (cf_refresh r, cf_client_id r, cf_client_secret r) of
               (Some refreshEnc, Some clientID, Some secretEnc) \<Rightarrow>
                 andThen (decrypt A secretEnc) (\<lambda>clientSecret.
                 andThen (decrypt A refreshEnc) (\<lambda>refreshToken.
                 andThen (?ask clientID clientSecret refreshToken) (\<lambda>res.
                 let res1 = (if TR_RefreshToken res = [] then res\<lparr>TR_RefreshToken := refreshToken\<rparr> else res) in
                 andThen (saveOAuthTokens A res1) (\<lambda>_. Return (TR_AccessToken res1)))))
             | _ \<Rightarrow> Raise refresh_missing) Q (tick w)"
    proof (cases "\<exists>i s f. cf_client_id r = Some i \<and> cf_client_secret r = Some s \<and> cf_refresh r = Some f")
      case True
      then obtain i s f where st: "cf_client_id r = Some i" "cf_client_secret r = Some s" "cf_refresh r = Some f" by auto
      have second: "after (andThen (decrypt A f) (\<lambda>tok. andThen (?ask i secret tok) (\<lambda>res.
          let res1 = (if TR_RefreshToken res = [] then res\<lparr>TR_RefreshToken := tok\<rparr> else res) in
          andThen (saveOAuthTokens A res1) (\<lambda>_. Return (TR_AccessToken res1))))) Q w1"
        if w1: "same_settings w w1" "secret_at encKeyName w1 = Inr (Some k)" "opened A k s secret" for secret k w1
        by (rule after_seq [OF after_both [OF keepsD [OF settings_secrets(2) w1(1)] decrypt_again [OF w1(2)]]])
           (use w1 st failed in \<open>auto intro!: ask\<close>)
      show ?thesis
        unfolding st option.case prod.case
        by (rule after_seq [OF opens [OF same]]) (use failed in \<open>auto intro!: second\<close>)
    qed (auto split: option.split simp: after_Raise failed [OF same])
    with late failed [OF same] show ?thesis
      unfolding CfToken_def getRow_def tokenRefreshSkew_def by (simp add: wp assms live_def)
  qed
  then show ?thesis by (simp add: Q_def)
qed

text \<open>With a key in the secrets file and no failing statement only what is stored and what the provider answers decide.\<close>

lemma tick_calm: "faults w = [] \<Longrightarrow> tick w = w"
  by (simp add: tick_def)

lemma Ensure_calm:
  "faults w = [] \<Longrightarrow> secret_at name w = Inr (Some k) \<Longrightarrow> after (Ensure name) (\<lambda>x w'. x = Inr k \<and> w' = w) w"
  unfolding Ensure_def secret_read_eq wp by (simp add: after_Return fault_def tick_calm)

lemma decrypt_calm:
  assumes "faults w = []" and "secret_at encKeyName w = Inr (Some k)"
  shows "after (decrypt A c) (\<lambda>x w'. w' = w \<and> (case x of Inl e \<Rightarrow> \<forall>p. \<not> opened A k c p | Inr p \<Rightarrow> opened A k c p)) w"
  unfolding decrypt_def by (rule after_seq [OF Ensure_calm [OF assms]]) (auto simp: wp opened_def split: option.split)

lemma encrypt_calm:
  assumes "faults w = []" and "secret_at encKeyName w = Inr (Some k)" and "aes_key k" and "12 + n \<le> length (entropy w)"
  shows "after (encrypt A p) (\<lambda>x w'. (\<exists>c. x = Inr c) \<and> faults w' = [] \<and> secret_at encKeyName w' = Inr (Some k) \<and> n \<le> length (entropy w')) w"
  unfolding encrypt_def by (rule after_seq [OF Ensure_calm [OF assms(1,2)]]) (use assms in \<open>auto simp: wp\<close>)

lemma CfToken_calm:
  assumes "cloudflare_settings w = Some r" and "cf_access r = Some a" and "faults w = []" and "secret_at encKeyName w = Inr (Some k)" and "24 \<le> length (entropy w)"
  shows "after (CfToken L A T) (\<lambda>x w'. case x of
       Inl e \<Rightarrow> if live r (clock w) then \<forall>p. \<not> opened A k a p else \<forall>refresh res. \<not> granted L A T k r w refresh res
     | Inr tok \<Rightarrow> True) w"
    (is "after _ ?Q w")
proof -
  define Q where "Q = ?Q"
  have w: "tick w = w" "\<not> fault w" using assms(3) by (simp_all add: tick_calm fault_def)
  have "after (CfToken L A T) Q w"
  proof (cases "live r (clock w)")
    case True
    have "after (decrypt A a) Q w"
      by (rule after_mono [OF decrypt_calm [OF assms(3,4)]]) (use True in \<open>auto simp: Q_def split: sum.splits\<close>)
    with True w show ?thesis
      unfolding CfToken_def getRow_def tokenRefreshSkew_def by (simp add: wp assms live_def)
  next
    case late: False
    let ?ask = "\<lambda>i secret tok. wrap ''refresh cloudflare OAuth token''
        (RefreshAccessToken (uni L) T \<lparr>OC_ClientID = i, OC_ClientSecret = secret, OC_RedirectURI = []\<rparr> tok)"
    have good: "Q (Inr tok) w1" for tok w1 by (simp add: Q_def)
    have save: "after (andThen (saveOAuthTokens A t) (\<lambda>_. Return (TR_AccessToken t))) Q w" if k: "aes_key k" for t
    proof -
      have "after (andThen (encrypt A (TR_RefreshToken t)) (\<lambda>b. andThen (Exec (put_tokens c b (TR_ExpiresAt t))) (\<lambda>_. Return ()))) (\<lambda>x w'. \<exists>u. x = Inr u) w1"
        if "faults w1 = []" "secret_at encKeyName w1 = Inr (Some k)" "12 \<le> length (entropy w1)" for c w1
        by (rule after_seq [OF encrypt_calm [OF that(1,2) k, of 0]]) (use that(3) in \<open>auto simp: wp put_tokens_def fault_def split: option.split\<close>)
      then have "after (saveOAuthTokens A t) (\<lambda>x w'. \<exists>u. x = Inr u) w"
        unfolding saveOAuthTokens_def by (intro after_seq [OF encrypt_calm [OF assms(3,4) k, of 12]]) (use assms(5) in auto)
      then show ?thesis by (rule after_seq) (auto simp: wp good)
    qed
    have "after (case (cf_refresh r, cf_client_id r, cf_client_secret r) of
               (Some refreshEnc, Some clientID, Some secretEnc) \<Rightarrow>
                 andThen (decrypt A secretEnc) (\<lambda>clientSecret.
                 andThen (decrypt A refreshEnc) (\<lambda>refreshToken.
                 andThen (?ask clientID clientSecret refreshToken) (\<lambda>res.
                 let res1 = (if TR_RefreshToken res = [] then res\<lparr>TR_RefreshToken := refreshToken\<rparr> else res) in
                 andThen (saveOAuthTokens A res1) (\<lambda>_. Return (TR_AccessToken res1)))))
             | _ \<Rightarrow> Raise refresh_missing) Q w"
    proof (cases "\<exists>i s f. cf_client_id r = Some i \<and> cf_client_secret r = Some s \<and> cf_refresh r = Some f")
      case True
      then obtain i s f where st: "cf_client_id r = Some i" "cf_client_secret r = Some s" "cf_refresh r = Some f" by auto
      have once: "p = p'" if "opened A k c p" "opened A k c p'" for c p p' using that by (auto simp: opened_def split: option.splits)
      have bad: "Q (Inl e) w" if "\<And>secret tok res. opened A k s secret \<Longrightarrow> opened A k f tok
          \<Longrightarrow> fst (RefreshAccessToken (uni L) T \<lparr>OC_ClientID = i, OC_ClientSecret = secret, OC_RedirectURI = []\<rparr> tok w) \<noteq> Inr res" for e
        using that late by (auto simp: Q_def granted_def st)
      have third: "after (andThen (?ask i secret tok) (\<lambda>res. let res1 = (if TR_RefreshToken res = [] then res\<lparr>TR_RefreshToken := tok\<rparr> else res) in
          andThen (saveOAuthTokens A res1) (\<lambda>_. Return (TR_AccessToken res1)))) Q w"
        if o: "opened A k s secret" "opened A k f tok" for secret tok
      proof (rule after_seq [OF asked_at [where w = w]])
        fix e :: error and w2 assume "w2 = w \<and> (case Inl e of Inl e \<Rightarrow> \<exists>e'. fst (RefreshAccessToken (uni L) T \<lparr>OC_ClientID = i, OC_ClientSecret = secret, OC_RedirectURI = []\<rparr> tok w) = Inl e'
           | Inr t \<Rightarrow> fst (RefreshAccessToken (uni L) T \<lparr>OC_ClientID = i, OC_ClientSecret = secret, OC_RedirectURI = []\<rparr> tok w) = Inr t \<and> TR_AccessToken t \<noteq> [])"
        then show "Q (Inl e) w2" using once [OF o(1)] once [OF o(2)] by (auto intro!: bad)
      next
        fix res :: token_result and w2
        assume "w2 = w \<and> (case Inr res of Inl e \<Rightarrow> \<exists>e'. fst (RefreshAccessToken (uni L) T \<lparr>OC_ClientID = i, OC_ClientSecret = secret, OC_RedirectURI = []\<rparr> tok w) = Inl e'
           | Inr t \<Rightarrow> fst (RefreshAccessToken (uni L) T \<lparr>OC_ClientID = i, OC_ClientSecret = secret, OC_RedirectURI = []\<rparr> tok w) = Inr t \<and> TR_AccessToken t \<noteq> [])"
        moreover have "aes_key k" using o(1) by (simp add: opened_def)
        ultimately show "after (let res1 = (if TR_RefreshToken res = [] then res\<lparr>TR_RefreshToken := tok\<rparr> else res) in
          andThen (saveOAuthTokens A res1) (\<lambda>_. Return (TR_AccessToken res1))) Q w2"
          unfolding Let_def by (simp only: save)
      qed simp
      have second: "after (andThen (decrypt A f) (\<lambda>tok. andThen (?ask i secret tok) (\<lambda>res.
          let res1 = (if TR_RefreshToken res = [] then res\<lparr>TR_RefreshToken := tok\<rparr> else res) in
          andThen (saveOAuthTokens A res1) (\<lambda>_. Return (TR_AccessToken res1))))) Q w"
        if "opened A k s secret" for secret
        by (rule after_seq [OF decrypt_calm [OF assms(3,4)]]) (use that in \<open>auto intro!: bad third\<close>)
      show ?thesis
        unfolding st option.case prod.case
        by (rule after_seq [OF decrypt_calm [OF assms(3,4)]]) (auto intro!: bad second)
    qed (use late in \<open>auto split: option.split simp: after_Raise Q_def granted_def\<close>)
    with late w show ?thesis
      unfolding CfToken_def getRow_def tokenRefreshSkew_def by (simp add: wp assms live_def)
  qed
  then show ?thesis by (simp add: Q_def)
qed

text \<open>
  C29: A stored access token is used only while it has more than a minute to live. What \<open>Token\<close> returns is then the token that is stored. Otherwise it is the token of the
  provider's answer to a request with the stored refresh token, client identifier and client secret; and the row now holds exactly that token, the time it expires, and the
  refresh token of the answer, or the old one when the answer has none, both encrypted under the key of the secrets file. When \<open>Token\<close> fails the row is as it was; with
  a key in the secrets file, no failing statement and enough random bytes it fails only when the stored token does not decrypt, or when the stored credentials get no token from the provider.
\<close>

theorem CfToken_fresh:
  assumes "cloudflare_settings w = Some r" and "cf_access r = Some a"
  shows "after (CfToken L A T) (\<lambda>x w'. case x of
       Inl e \<Rightarrow> cloudflare_settings w' = Some r
         \<and> (\<forall>k. faults w = [] \<longrightarrow> secret_at encKeyName w = Inr (Some k) \<longrightarrow> 24 \<le> length (entropy w) \<longrightarrow>
              (if live r (clock w) then \<forall>p. \<not> opened A k a p else \<forall>refresh res. \<not> granted L A T k r w refresh res))
     | Inr tok \<Rightarrow> \<exists>k. secret_at encKeyName w' = Inr (Some k)
         \<and> (if live r (clock w) then opened A k a tok \<and> cloudflare_settings w' = Some r
            else took_over L A T k r w tok w')) w"
proof (cases "\<exists>k. faults w = [] \<and> secret_at encKeyName w = Inr (Some k) \<and> 24 \<le> length (entropy w)")
  case True
  then obtain k where k: "faults w = []" "secret_at encKeyName w = Inr (Some k)" "24 \<le> length (entropy w)" by auto
  show ?thesis
    by (rule after_mono [OF after_both [OF CfToken_outcome [OF assms] CfToken_calm [OF assms k]]])
      (use k in \<open>auto split: sum.splits\<close>)
next
  case False
  then show ?thesis
    by (intro after_mono [OF CfToken_outcome [OF assms]]) (auto split: sum.splits)
qed

section \<open>A cipher\<close>

text \<open>The cipher that seals by prefixing the key.\<close>

definition example_aead :: aead where
  "example_aead = \<lparr>gcm_seal = (\<lambda>k n p. k @ p), gcm_open = (\<lambda>k n c. if HasPrefix c k then Some (drop (length k) c) else None)\<rparr>"

lemma example_gcm_ok: "gcm_ok example_aead"
  by (simp add: gcm_ok_def example_aead_def)

text \<open>A server whose secrets file can be written.\<close>

definition secrets_world :: world where
  "secrets_world = empty_world\<lparr>fs := [''/etc'' \<mapsto> Dir 0, ''/etc/patrabahok'' \<mapsto> Dir 0, SecretsFile \<mapsto> File 0 (encKeyName @ ''=QUFBQUFBQUFBQUFBQUFBQQ=='')]\<rparr>"

lemma secrets_world_key: "secret_at encKeyName secrets_world = Inr (Some ''AAAAAAAAAAAAAAAA'')"
proof -
  have "list_ex (\<lambda>l. 65536 \<le> length l) (raw_lines (encKeyName @ ''=QUFBQUFBQUFBQUFBQUFBQQ=='')) = False"
    by (simp add: raw_lines_def encKeyName_def)
  moreover have "last_value encKeyName (scan_lines (encKeyName @ ''=QUFBQUFBQUFBQUFBQUFBQQ=='')) = ''QUFBQUFBQUFBQUFBQUFBQQ==''"
    by (simp add: scan_lines_def raw_lines_def encKeyName_def last_value_def TrimSuffix_def TrimPrefix_def suffix_def)
  moreover have "StdDecode ''QUFBQUFBQUFBQUFBQUFBQQ=='' = Some ''AAAAAAAAAAAAAAAA''" by code_simp
  ultimately show ?thesis by (simp add: secret_at_def secrets_world_def read_secret_def)
qed


text \<open>
  An access token that has expired, stored with its refresh token under the key of \<open>secrets_world\<close>, and a provider that hands out another one, for the right credentials
  only and without a refresh token.
\<close>

definition seal16 :: "string \<Rightarrow> string" where
  "seal16 p = StdEncode (replicate 12 (CHR 0x07) @ replicate 16 (CHR ''A'') @ p)"

definition expired_row :: cf_row where
  "expired_row = empty_row\<lparr>cf_client_id := Some ''id'', cf_client_secret := Some (seal16 ''secret''), cf_access := Some (seal16 ''old''),
     cf_refresh := Some (seal16 ''again''), cf_expires_at := Some 30\<rparr>"

definition example_provider :: oauth_net where
  "example_provider form = (if form = [(''grant_type'', ''refresh_token''), (''refresh_token'', ''again''), (''client_id'', ''id''), (''client_secret'', ''secret'')]
     then Inr (200, Some (JObj [(''access_token'', JStr ''new''), (''expires_in'', JNum ''7200'')])) else Inl DBError)"

text \<open>The new token is handed out and stored, with its lifetime and the old refresh token.\<close>

theorem CfToken_fresh_witness:
  "case CfToken example_lib example_aead example_provider (secrets_world\<lparr>cloudflare_settings := Some expired_row\<rparr>) of
     (x, w') \<Rightarrow> x = Inr ''new'' \<and> secret_at encKeyName w' = Inr (Some (replicate 16 (CHR ''A'')))
       \<and> (\<exists>c d. sealed example_aead (replicate 16 (CHR ''A'')) c ''new'' \<and> sealed example_aead (replicate 16 (CHR ''A'')) d ''again''
           \<and> cloudflare_settings w' = Some (expired_row\<lparr>cf_access := Some c, cf_refresh := Some d, cf_expires_at := Some 7200\<rparr>))"
proof -
  define w where "w = secrets_world\<lparr>cloudflare_settings := Some expired_row\<rparr>"
  let ?K = "replicate 16 (CHR ''A'')"
  have key: "secret_at encKeyName w = Inr (Some ?K)" using secrets_world_key by (simp add: w_def numeral_eq_Suc)
  have row: "cloudflare_settings w = Some expired_row" "cf_access expired_row = Some (seal16 ''old'')" by (simp_all add: w_def expired_row_def)
  have open16: "StdDecode (seal16 p) = Some (replicate 12 (CHR 0x07) @ ?K @ p)" for p by (simp add: seal16_def StdDecode_StdEncode)
  have fields: "token_fields (uni example_lib) [(''access_token'', JStr ''new''), (''expires_in'', JNum ''7200'')]
      = Some \<lparr>TA_access = ''new'', TA_refresh = [], TA_expires = 7200, TA_error = [], TA_desc = []\<rparr>" by code_simp
  have answer: "RefreshAccessToken (uni example_lib) example_provider \<lparr>OC_ClientID = ''id'', OC_ClientSecret = ''secret'', OC_RedirectURI = []\<rparr> ''again'' v
      = (Inr \<lparr>TR_AccessToken = ''new'', TR_RefreshToken = [], TR_ExpiresAt = clock v + 7200\<rparr>, v)" for v
    by (simp add: RefreshAccessToken_def tokenRequest_def example_provider_def fields andThen_def Now_def Return_def expires_at_def i64_def)
  have dec: "decrypt example_aead (seal16 p) w = (Inr p, w)" for p
    using decrypt_calm [of w ?K example_aead "seal16 p"] key open16 [of p]
    by (auto simp: after_def opened_def aes_key_def example_aead_def w_def secrets_world_def empty_world_def split: prod.splits sum.splits)
  have enc: "encrypt example_aead p v = (Inr (StdEncode (take 12 (entropy v) @ ?K @ p)), v\<lparr>entropy := drop 12 (entropy v)\<rparr>)"
    if "secret_at encKeyName v = Inr (Some ?K)" "faults v = []" "12 \<le> length (entropy v)" for p v
    using that by (simp add: encrypt_def Ensure_def secret_read_eq andThen_def FsRead_def fault_def tick_calm RandRead_def Return_def aes_key_def example_aead_def)
  have calm: "faults w = []" "clock w = 0" "length (entropy w) = 64" by (simp_all add: w_def secrets_world_def empty_world_def)
  obtain x w' where run: "CfToken example_lib example_aead example_provider w = (x, w')" by force
  have "x = Inr ''new'' \<and> secret_at encKeyName w' = Inr (Some ?K)"
    using run key row calm
    by (auto simp add: CfToken_def getRow_def Query_def andThen_def Now_def fault_def tick_calm dec tokenRefreshSkew_def expired_row_def empty_row_def
        wrap_def Attempt_def Return_def answer saveOAuthTokens_def enc Exec_def put_tokens_def Let_def split: prod.splits)
  then have x: "x = Inr ''new''" and k: "secret_at encKeyName w' = Inr (Some ?K)" by auto
  from CfToken_fresh [OF row, of example_lib example_aead example_provider]
  obtain k where "secret_at encKeyName w' = Inr (Some k)" and t: "took_over example_lib example_aead example_provider k expired_row w ''new'' w'"
    by (auto simp: after_def run x live_def calm expired_row_def)
  then have "k = ?K" using \<open>secret_at encKeyName w' = Inr (Some ?K)\<close> by simp
  with t obtain refresh res c d where g: "granted example_lib example_aead example_provider ?K expired_row w refresh res"
    and sealed: "sealed example_aead ?K c ''new''" "sealed example_aead ?K d (if TR_RefreshToken res = [] then refresh else TR_RefreshToken res)"
    and new: "cloudflare_settings w' = Some (expired_row\<lparr>cf_access := Some c, cf_refresh := Some d, cf_expires_at := Some (TR_ExpiresAt res)\<rparr>)"
    by (auto simp: took_over_def)
  have "refresh = ''again'' \<and> res = \<lparr>TR_AccessToken = ''new'', TR_RefreshToken = [], TR_ExpiresAt = 7200\<rparr>"
    using g by (auto simp: granted_def expired_row_def opened_def open16 example_aead_def answer calm split: if_splits)
  with sealed new show ?thesis by (auto simp: run x k simp flip: w_def)
qed

end
