(* ===== verification/Web.thy ===== *)
theory Web
  imports Publicapi Go_Library Adminauth Cloudflare_Store
begin

text \<open>
  What the pages of the dashboard share: \<open>render.go\<close>, \<open>middleware.go\<close> and \<open>helpers.go\<close> of package webui. A handler is an operation on the world that ends with a response. A
  page is the name of its template with the data it is filled with; the templates themselves are not modelled. The record \<open>dash_env\<close> holds what lies outside: the JSON
  parser and printer, the host part of an URL as \<open>url.Parse\<close> finds it, and what later theories need of the network and the server.
\<close>

section \<open>Requests and responses\<close>

text \<open>
  \<open>Wq_FormOk\<close> is whether \<open>ParseForm\<close> succeeds, \<open>Wq_Post\<close> the value a field has in a form in the body, \<open>Wq_Cookie\<close> the cookies, \<open>Wq_Path\<close> and \<open>Wq_Values\<close> the path
  and the query of the URL. An uploaded file is missing, cannot be read, or has a text.
\<close>

datatype upload = NoUpload | UploadError | Upload string

record web_request = http_request +
  Wq_FormOk :: bool
  Wq_Post :: "string \<Rightarrow> string option"
  Wq_MultipartOk :: bool
  Wq_File :: upload
  Wq_Cookie :: "string \<Rightarrow> string option"
  Wq_TLS :: bool
  Wq_Path :: string
  Wq_Values :: "(string \<times> string list) list"

text \<open>\<open>FormValue\<close>: a form in the body is read for these three methods only; its values come before those of the query.\<close>

definition FormValue :: "web_request \<Rightarrow> string \<Rightarrow> string" where
  "FormValue r name = (if Rq_Method r \<in> {''POST'', ''PUT'', ''PATCH''}
     then (case Wq_Post r name of Some v \<Rightarrow> v | None \<Rightarrow> Rq_Query r name) else Rq_Query r name)"

record cookie =
  CK_Name :: string
  CK_Value :: string
  CK_Path :: string
  CK_HttpOnly :: bool
  CK_Secure :: bool
  CK_Lax :: bool
  CK_MaxAge :: int

datatype 'v outcome = PlainText string | Redirect string | HxRedirect string | PageOf string 'v | PartialOf string string 'v | Api "public_body reply"

record 'v response =
  RS_Status :: nat
  RS_Cookies :: "cookie list"
  RS_Output :: "'v outcome list"

definition respond :: "nat \<Rightarrow> 'v outcome \<Rightarrow> 'v response" where
  "respond s out = \<lparr>RS_Status = s, RS_Cookies = [], RS_Output = [out]\<rparr>"

text \<open>Cookies that were set before.\<close>

definition sending :: "cookie list \<Rightarrow> 'v response \<Rightarrow> 'v response" where
  "sending cs r = r\<lparr>RS_Cookies := cs @ RS_Cookies r\<rparr>"

type_synonym 'v page = "'v response op"

record dash_env =
  de_json :: "string \<Rightarrow> json option"
  de_marshal :: "json \<Rightarrow> string"
  de_url_host :: "string \<Rightarrow> string option"

definition http_error :: "nat \<Rightarrow> string \<Rightarrow> 'v response" where
  "http_error s msg = respond s (PlainText msg)"

text \<open>The pages there are templates for. That a template fails on its data is not modelled.\<close>

definition pageFiles :: "string list" where
  "pageFiles = [''overview'', ''search'', ''users'', ''user'', ''users_import'', ''groups'', ''group'', ''aliases'', ''domains'', ''domain'', ''dkim'', ''queue'',
     ''bans'', ''services'', ''logs'', ''diagnostics'', ''tokens'', ''admins'', ''audit'', ''settings'']"

definition no_template :: "string \<Rightarrow> 'v response" where
  "no_template name = http_error 500 (''template not found: '' @ name)"

definition renderPage :: "string \<Rightarrow> 'v \<Rightarrow> 'v response" where
  "renderPage name data = (if name \<in> set pageFiles then respond 200 (PageOf name data) else no_template name)"

definition renderPartial :: "string \<Rightarrow> string \<Rightarrow> 'v \<Rightarrow> 'v response" where
  "renderPartial name block data = (if name \<in> set pageFiles then respond 200 (PartialOf name block data) else no_template name)"

definition redirect :: "nat \<Rightarrow> string \<Rightarrow> 'v response" where
  "redirect s to = respond s (Redirect to)"

definition isHx :: "'a http_request_scheme \<Rightarrow> bool" where
  "isHx r \<longleftrightarrow> Rq_Header r ''Hx-Request'' = ''true''"

section \<open>Messages for the next page\<close>

definition flashCookie :: string where "flashCookie = ''pb_flash''"

record flash =
  FL_Kind :: string
  FL_Message :: string

definition flash_json :: "flash \<Rightarrow> json" where
  "flash_json f = JObj [(''kind'', JStr (FL_Kind f)), (''message'', JStr (FL_Message f))]"

definition flash_fields :: "unicode \<Rightarrow> (string \<times> json) list \<Rightarrow> flash option" where
  "flash_fields U ms = Option.bind (field U ms ''kind'' set_string []) (\<lambda>k.
     Option.bind (field U ms ''message'' set_string []) (\<lambda>m. Some \<lparr>FL_Kind = k, FL_Message = m\<rparr>))"

definition setFlash :: "'e dash_env_scheme \<Rightarrow> string \<Rightarrow> string \<Rightarrow> cookie" where
  "setFlash E kind msg = \<lparr>CK_Name = flashCookie, CK_Value = QueryEscape (de_marshal E (flash_json \<lparr>FL_Kind = kind, FL_Message = msg\<rparr>)),
     CK_Path = ''/'', CK_HttpOnly = True, CK_Secure = True, CK_Lax = True, CK_MaxAge = 60\<rparr>"

definition clearFlash :: cookie where
  "clearFlash = \<lparr>CK_Name = flashCookie, CK_Value = [], CK_Path = ''/'', CK_HttpOnly = True, CK_Secure = True, CK_Lax = True, CK_MaxAge = - 1\<rparr>"

type_synonym crumb = "string \<times> string"

record base_data =
  B_Title :: string
  B_Active :: string
  B_Username :: string
  B_Crumbs :: "crumb list"
  B_Flash :: "flash option"

definition read_flash :: "unicode \<Rightarrow> 'e dash_env_scheme \<Rightarrow> string \<Rightarrow> flash option" where
  "read_flash U E value = (case QueryUnescape value of None \<Rightarrow> None
     | Some raw \<Rightarrow> (case decode_into (de_json E) raw (flash_fields U) of None \<Rightarrow> None
         | Some f \<Rightarrow> if FL_Message f \<noteq> [] then Some f else None))"

text \<open>\<open>base\<close>: the data of the layout, and the cookies it sets.\<close>

definition base :: "unicode \<Rightarrow> 'e dash_env_scheme \<Rightarrow> web_request \<Rightarrow> admin_user \<Rightarrow> string \<Rightarrow> string \<Rightarrow> crumb list \<Rightarrow> base_data \<times> cookie list" where
  "base U E r u title active crumbs = (case Wq_Cookie r flashCookie of
       None \<Rightarrow> (\<lparr>B_Title = title, B_Active = active, B_Username = AU_Username u, B_Crumbs = crumbs, B_Flash = None\<rparr>, [])
     | Some v \<Rightarrow> (\<lparr>B_Title = title, B_Active = active, B_Username = AU_Username u, B_Crumbs = crumbs, B_Flash = read_flash U E v\<rparr>, [clearFlash]))"

definition with_base :: "unicode \<Rightarrow> 'e dash_env_scheme \<Rightarrow> web_request \<Rightarrow> admin_user \<Rightarrow> string \<Rightarrow> string \<Rightarrow> crumb list \<Rightarrow> (base_data \<Rightarrow> 'v page) \<Rightarrow> 'v page" where
  "with_base U E r u title active crumbs k = (case base U E r u title active crumbs of (b, cs) \<Rightarrow>
     andThen (k b) (\<lambda>resp. Return (sending cs resp)))"

section \<open>The end of a request\<close>

definition go_to :: "'a http_request_scheme \<Rightarrow> string \<Rightarrow> 'v response" where
  "go_to r to = (if isHx r then respond 200 (HxRedirect to) else redirect 303 to)"

definition done_with :: "'e dash_env_scheme \<Rightarrow> web_request \<Rightarrow> string \<Rightarrow> string \<Rightarrow> 'v response" where
  "done_with E r to msg = sending (if msg \<noteq> [] then [setFlash E ''success'' msg] else []) (go_to r to)"

definition fail :: "nat \<Rightarrow> string \<Rightarrow> 'v response" where
  "fail s msg = respond s (PlainText msg)"

definition generic_failure :: string where
  "generic_failure = ''Something went wrong. The details are in the server log (journalctl -u patrabahokd).''"

definition failErr :: "error \<Rightarrow> 'v response" where
  "failErr e = (if is_validation e then fail 400 (err_text e)
     else if is_not_found e then fail 404 (err_text e)
     else if is_exists e then fail 409 (err_text e)
     else fail 500 generic_failure)"

definition NotFound :: "'v response" where
  "NotFound = http_error 404 ''404 page not found''"

definition invalid_form :: "'v response" where
  "invalid_form = fail 400 ''Invalid form submission.''"

definition formValue :: "web_request \<Rightarrow> string \<Rightarrow> string" where
  "formValue r name = TrimSpace (FormValue r name)"

section \<open>The log\<close>

text \<open>\<open>net.SplitHostPort\<close>\<close>

definition SplitHostPort :: "string \<Rightarrow> (string \<times> string) option" where
  "SplitHostPort hp = (case LastIndexByte hp (CHR '':'') of None \<Rightarrow> None
     | Some i \<Rightarrow>
         if prefix ''['' hp
         then (case Index hp '']'' of None \<Rightarrow> None
           | Some close \<Rightarrow> if Suc close \<noteq> i \<or> CHR ''['' \<in> set (drop 1 hp) \<or> CHR '']'' \<in> set (drop (Suc close) hp) then None
               else Some (take (close - 1) (drop 1 hp), drop (Suc i) hp))
         else if CHR '':'' \<in> set (take i hp) \<or> CHR ''['' \<in> set hp \<or> CHR '']'' \<in> set hp then None
         else Some (take i hp, drop (Suc i) hp))"

definition remote_host :: "'a http_request_scheme \<Rightarrow> string" where
  "remote_host r = (case SplitHostPort (Rq_RemoteAddr r) of None \<Rightarrow> Rq_RemoteAddr r | Some (host, port) \<Rightarrow> host)"

definition record_web :: "web_request \<Rightarrow> admin_user \<Rightarrow> string \<Rightarrow> string \<Rightarrow> string \<Rightarrow> unit op" where
  "record_web r u action target detail = AuditRecord (''admin:'' @ AU_Username u) action target detail (remote_host r)"

text \<open>\<open>s.record(...)\<close> and then a response.\<close>

definition recording :: "web_request \<Rightarrow> admin_user \<Rightarrow> string \<Rightarrow> string \<Rightarrow> string \<Rightarrow> 'v page \<Rightarrow> 'v page" where
  "recording r u action target detail k = andThen (record_web r u action target detail) (\<lambda>_. k)"

section \<open>Sessions\<close>

definition SessionCookieName :: string where "SessionCookieName = ''patrabahok_session''"

definition setSessionCookie :: "string \<Rightarrow> bool \<Rightarrow> cookie" where
  "setSessionCookie token sec = \<lparr>CK_Name = SessionCookieName, CK_Value = token, CK_Path = ''/'', CK_HttpOnly = True, CK_Secure = sec, CK_Lax = True,
     CK_MaxAge = 7 * 24 * 60 * 60\<rparr>"

definition clearSessionCookie :: cookie where
  "clearSessionCookie = \<lparr>CK_Name = SessionCookieName, CK_Value = [], CK_Path = ''/'', CK_HttpOnly = True, CK_Secure = True, CK_Lax = True, CK_MaxAge = - 1\<rparr>"

definition redirectToLogin :: "web_request \<Rightarrow> 'v response" where
  "redirectToLogin r = go_to r ''/login''"

definition requireAuth :: "lib \<Rightarrow> web_request \<Rightarrow> (admin_user \<Rightarrow> 'v page) \<Rightarrow> 'v page" where
  "requireAuth L r h = given (Wq_Cookie r SessionCookieName) (redirectToLogin r) (\<lambda>token.
     checked (VerifySession L token) (\<lambda>e. sending [clearSessionCookie] (redirectToLogin r)) h)"

text \<open>The headers are set on every response; a request that changes something must not come from a page of another host.\<close>

definition secure :: "lib \<Rightarrow> 'e dash_env_scheme \<Rightarrow> web_request \<Rightarrow> 'v page \<Rightarrow> 'v page" where
  "secure L E r h =
     (if Rq_Method r \<in> {''GET'', ''HEAD'', ''OPTIONS''} then h
      else (let origin = Rq_Header r ''Origin'' in
        if origin \<noteq> [] \<and> (case de_url_host E origin of None \<Rightarrow> True | Some host \<Rightarrow> \<not> EqualFold (uni L) host (Rq_Host r))
        then Return (http_error 403 ''cross-origin request rejected'') else h))"

end
