(* ===== verification/Web_Display.thy ===== *)
theory Web_Display
  imports Web "HOL-Library.Word"
begin

text \<open>
  The functions the templates call (\<open>render.go\<close>, \<open>handlers_audit.go\<close>): short forms of names, sizes, times and actions, and the pages of long lists.
\<close>

unbundle bit_operations_syntax

section \<open>Names\<close>

text \<open>\<open>string(r)\<close> of the first rune; a byte that is no UTF-8 becomes U+FFFD.\<close>

definition firstRune :: "string \<Rightarrow> string" where
  "firstRune s = (case runes s of [] \<Rightarrow> [] | (r, b) # rest \<Rightarrow> encode_rune r)"

definition first_runes :: "nat \<Rightarrow> string \<Rightarrow> string" where
  "first_runes n s = concat (map (\<lambda>(r, b). encode_rune r) (take n (runes s)))"

definition initials :: "string \<Rightarrow> string" where
  "initials s0 =
     (let s1 = TrimSpace s0;
          s = (case Cut s1 ''@'' of (local, d, ok) \<Rightarrow> if ok then local else s1);
          names = FieldsFunc (\<lambda>c. c = CHR '' '' \<or> c = CHR ''.'' \<or> c = CHR ''_'' \<or> c = CHR ''-'') s
      in case names of a # b # rest \<Rightarrow> firstRune a @ firstRune b
       | [a] \<Rightarrow> first_runes 2 a
       | [] \<Rightarrow> ''?'')"

text \<open>FNV-1a with 32 bits.\<close>

definition fnv32a :: "string \<Rightarrow> 32 word" where
  "fnv32a s = foldl (\<lambda>h c. (h XOR word_of_nat (byte c)) * 16777619) 2166136261 s"

definition avatarClass :: "lib \<Rightarrow> string \<Rightarrow> string" where
  "avatarClass L s = ''c'' @ nat_itoa (unat (fnv32a (ToLower (uni L) s)) mod 6)"

definition localPart :: "string \<Rightarrow> string" where
  "localPart email = (case Cut email ''@'' of (l, d, ok) \<Rightarrow> l)"

definition domainOf :: "string \<Rightarrow> string" where
  "domainOf email = (case Cut email ''@'' of (l, d, ok) \<Rightarrow> d)"

section \<open>Sizes and shares\<close>

definition humanizeBytes :: "int \<Rightarrow> string" where
  "humanizeBytes b =
     (if b \<ge> 2 ^ 30 then (let v = f64 (of_int b) / 2 ^ 30 in
        if v = of_int \<lfloor>v\<rfloor> then itoa \<lfloor>v\<rfloor> @ '' GB'' else fmt_fixed1 v @ '' GB'')
      else if b \<ge> 2 ^ 20 then fmt_fixed0 (of_int b / 2 ^ 20) @ '' MB''
      else if b \<ge> 2 ^ 10 then fmt_fixed0 (of_int b / 2 ^ 10) @ '' KB''
      else itoa b @ '' B'')"

definition quotaKey :: "int \<Rightarrow> string" where
  "quotaKey b = (if b > 0 \<and> b mod 2 ^ 30 = 0 then itoa (b div 2 ^ 30) @ ''G''
     else if b > 0 \<and> b mod 2 ^ 20 = 0 then itoa (b div 2 ^ 20) @ ''M''
     else itoa b)"

definition percent :: "int \<Rightarrow> int \<Rightarrow> int" where
  "percent part whole = (if whole \<le> 0 then 0
     else (let p = quot (i64 (part * 100)) whole;
               q = (if p > 100 then 100 else p)
       in if q = 0 \<and> part > 0 then 1 else q))"

definition plural_noun :: "int \<Rightarrow> string \<Rightarrow> string" where
  "plural_noun n noun = (if n = 1 then ''1 '' @ noun
     else itoa n @ '' '' @ noun @ (if HasSuffix noun ''s'' \<or> HasSuffix noun ''x'' \<or> HasSuffix noun ''sh'' then ''es'' else ''s''))"

text \<open>Times in seconds; \<open>D\<close> is \<open>Format("Jan 2, 2006")\<close>.\<close>

definition timeAgo :: "(int \<Rightarrow> string) \<Rightarrow> int \<Rightarrow> int \<Rightarrow> string" where
  "timeAgo D now t =
     (let d = now - t in
      if d < 60 then ''just now''
      else if d < 3600 then plural_noun (d div 60) ''minute'' @ '' ago''
      else if d < 24 * 3600 then plural_noun (d div 3600) ''hour'' @ '' ago''
      else if d < 30 * 24 * 3600 then plural_noun (d div (24 * 3600)) ''day'' @ '' ago''
      else D t)"

definition inChoices :: "string \<Rightarrow> string list \<Rightarrow> bool" where
  "inChoices v choices \<longleftrightarrow> v \<in> set choices"

section \<open>Policies and actions\<close>

definition policyLabels :: "string \<Rightarrow> string \<times> string" where
  "policyLabels p =
     (if p = ''anyone'' then (''Anyone'', ''Anyone on the internet can email the group.'')
      else if p = ''organization'' then (''Organization'', ''Any signed-in user on this server can post.'')
      else if p = ''members'' then (''Members only'', ''Only the group'' @ apos @ ''s members can post.'')
      else if p = ''owners'' then (''Owners only'', ''Only owners can post. Good for announcement lists.'')
      else ([], []))"

definition policyLabel :: "string \<Rightarrow> string" where "policyLabel p = fst (policyLabels p)"
definition policyDesc :: "string \<Rightarrow> string" where "policyDesc p = snd (policyLabels p)"

definition policyTone :: "string \<Rightarrow> string" where
  "policyTone p = (if p = ''anyone'' then ''orange'' else if p = ''owners'' then ''purple'' else if p = ''members'' then ''blue'' else ''green'')"

definition auditIcon :: "string \<Rightarrow> string" where
  "auditIcon a =
     (if HasPrefix a ''user'' \<or> HasPrefix a ''mailbox'' then ''user''
      else if HasPrefix a ''group'' then ''group''
      else if HasPrefix a ''domain'' then ''globe''
      else if HasPrefix a ''alias'' then ''at''
      else if HasPrefix a ''admin'' \<or> HasPrefix a ''webadmin'' then ''shield''
      else if HasPrefix a ''api'' \<or> HasPrefix a ''token'' then ''key''
      else if HasPrefix a ''dkim'' then ''lock''
      else ''activity'')"

definition auditTone :: "string \<Rightarrow> string" where
  "auditTone a =
     (if Contains a ''delete'' \<or> Contains a ''remove'' \<or> Contains a ''revoke'' \<or> Contains a ''suspend'' then ''red''
      else if Contains a ''create'' \<or> Contains a ''add'' \<or> Contains a ''generate'' \<or> Contains a ''import'' then ''green''
      else ''blue'')"

definition ActorLabel :: "audit_entry \<Rightarrow> string" where
  "ActorLabel a = (case Cut (AE_Actor a) '':'' of (kind, rest, ok) \<Rightarrow> if ok then rest else AE_Actor a)"

definition ActorKind :: "audit_entry \<Rightarrow> string" where
  "ActorKind a = (case Cut (AE_Actor a) '':'' of (kind, rest, ok) \<Rightarrow> kind)"

definition ActorDisplay :: "audit_entry \<Rightarrow> string" where
  "ActorDisplay a = (if ActorKind a = ''cli'' then ''Command line''
     else if ActorKind a = ''apikey'' then ''API key ('' @ ActorLabel a @ '')''
     else if ActorKind a = ''token'' then ''Token '' @ ActorLabel a
     else ActorLabel a)"

definition Verb :: "audit_entry \<Rightarrow> string" where
  "Verb a = map (\<lambda>c. if c = CHR ''.'' then CHR '' '' else c) (AE_Action a)"

section \<open>Pages of a list\<close>

record pager =
  PG_Page :: int
  PG_Size :: int
  PG_Total :: int
  PG_base :: "(string \<times> string list) list"
  PG_path :: string

definition pageFromRequest :: "web_request \<Rightarrow> int" where
  "pageFromRequest r = (let p = AtoiValue (Rq_Query r ''page'') in if p < 1 then 1 else p)"

definition newPager :: "web_request \<Rightarrow> int \<Rightarrow> int \<Rightarrow> pager" where
  "newPager r sz n = (let p = AtoiValue (Rq_Query r ''page'') in
     \<lparr>PG_Page = (if p < 1 then 1 else p), PG_Size = sz, PG_Total = n, PG_base = Wq_Values r, PG_path = Wq_Path r\<rparr>)"

definition Offset :: "pager \<Rightarrow> int" where "Offset p = i64 ((PG_Page p - 1) * PG_Size p)"

definition From :: "pager \<Rightarrow> int" where "From p = (if PG_Total p = 0 then 0 else i64 (Offset p + 1))"

definition To :: "pager \<Rightarrow> int" where
  "To p = (let t = i64 (Offset p + PG_Size p) in if t < PG_Total p then t else PG_Total p)"

definition HasPrev :: "pager \<Rightarrow> bool" where "HasPrev p \<longleftrightarrow> PG_Page p > 1"
definition HasNext :: "pager \<Rightarrow> bool" where "HasNext p \<longleftrightarrow> i64 (Offset p + PG_Size p) < PG_Total p"

text \<open>\<open>Values.Encode\<close>: the keys in order, each with its values.\<close>

definition values_Encode :: "(string \<times> string list) list \<Rightarrow> string" where
  "values_Encode kvs = Join (concat (map (\<lambda>(k, vs). map (\<lambda>v. QueryEscape k @ ''='' @ QueryEscape v) vs) (sort_key fst kvs))) ''&''"

definition pager_url :: "pager \<Rightarrow> int \<Rightarrow> string" where
  "pager_url p n = PG_path p @ ''?'' @ values_Encode (AList.update ''page'' [itoa n] (PG_base p))"

definition PrevURL :: "pager \<Rightarrow> string" where "PrevURL p = pager_url p (i64 (PG_Page p - 1))"
definition NextURL :: "pager \<Rightarrow> string" where "NextURL p = pager_url p (i64 (PG_Page p + 1))"

section \<open>Facts\<close>

text \<open>
  A quota is shown in a form that means the same quota. \<open>ParseQuota\<close> reads what \<open>quotaKey\<close> writes as the number of bytes it was made from.
\<close>

theorem quotaKey_roundtrip:
  assumes "0 < b" and "b < 2 ^ 63"
  shows "ParseQuota L (quotaKey b) = Inr b"
proof -
  have read: "ParseQuota L (itoa (b div int k) @ u) = Inr b" if "(u, k) \<in> set quota_units" "b mod int k = 0" for u k
  proof -
    have k: "0 < k" using that(1) by (auto simp: quota_units_def)
    have n: "0 \<le> b div int k" using assms(1) k by (simp add: pos_imp_zdiv_nonneg_iff)
    have "b div int k \<le> b div 1" by (rule zdiv_mono2) (use assms(1) k in auto)
    then have "b div int k \<le> b" by simp
    then have "ParseQuota L (nat_itoa (nat (b div int k)) @ u) = Inr (i64 (b div int k * int k))"
      using ParseQuota_digits [OF that(1), of "nat (b div int k)" L] n assms by simp
    moreover have "b div int k * int k = b" using that(2) by (simp add: minus_mod_eq_div_mult [symmetric])
    ultimately show ?thesis using assms n by (simp add: itoa_def i64_id)
  qed
  show ?thesis
    using read [of "''G''" 1073741824] read [of "''M''" 1048576] read [of "[]" 1] assms
    by (auto simp: quotaKey_def quota_units_def)
qed

theorem quotaKey_roundtrip_witness: "\<forall>L. ParseQuota L (quotaKey 524288000) = Inr 524288000"
  using quotaKey_roundtrip [of 524288000] by simp

text \<open>The number of a page has no upper bound, so the offset of its first row wraps around and can be negative.\<close>

lemma Offset_wraps:
  assumes "AtoiValue (Rq_Query r ''page'') = 2 ^ 63 - 1"
  shows "Offset (newPager r 50 n) = - 100"
  using assms by (simp add: newPager_def Offset_def i64_def)

end
