(* ===== verification/Policy.thy ===== *)
theory Policy
  imports Mail_Groups
begin

text \<open>
  Package policy: the Postfix policy service that decides who may post to a group, one request for each recipient of a message. The protocol
  (\<open>serveConn\<close>) is modelled on the bytes a connection delivers; a decision (\<open>Decide\<close>) reads the tables and never changes them.
\<close>

section \<open>Addresses of clients\<close>

text \<open>
  \<open>net.ParseIP\<close>, as the eight 16-bit groups of the address; an IPv4 address is the mapped address \<open>::ffff:a.b.c.d\<close>, as in Go.
\<close>

definition parse_octet :: "string \<Rightarrow> nat option" where
  "parse_octet s = (if s = [] \<or> \<not> list_all is_digit s \<or> length s > 3 \<or> (length s > 1 \<and> hd s = CHR ''0'') \<or> digits_val s > 255
     then None else Some (digits_val s))"

definition parse_ipv4 :: "string \<Rightarrow> nat list option" where
  "parse_ipv4 s = (case map parse_octet (split_on (CHR ''.'') s) of
       [Some a, Some b, Some c, Some d] \<Rightarrow> Some [a * 256 + b, c * 256 + d] | _ \<Rightarrow> None)"

definition hex_val :: "char \<Rightarrow> nat option" where
  "hex_val c = (if is_digit c then Some (byte c - 48)
     else if 97 \<le> byte c \<and> byte c \<le> 102 then Some (byte c - 87)
     else if 65 \<le> byte c \<and> byte c \<le> 70 then Some (byte c - 55) else None)"

definition parse_group :: "string \<Rightarrow> nat option" where
  "parse_group s = (if s = [] \<or> length s > 4 then None
     else map_option (foldl (\<lambda>a d. a * 16 + d) 0) (those (map hex_val s)))"

text \<open>Groups between colons; the last may be an IPv4 address where \<open>tail\<close> says so.\<close>

fun parse_groups :: "string list \<Rightarrow> nat list option" where
  "parse_groups [] = Some []"
| "parse_groups [g] = (if CHR ''.'' \<in> set g then parse_ipv4 g else map_option (\<lambda>n. [n]) (parse_group g))"
| "parse_groups (g # gs) = (case (parse_group g, parse_groups gs) of (Some n, Some ns) \<Rightarrow> Some (n # ns) | _ \<Rightarrow> None)"

definition colon_groups :: "string \<Rightarrow> string list" where
  "colon_groups s = (if s = [] then [] else split_on (CHR '':'') s)"

definition parse_ipv6 :: "string \<Rightarrow> nat list option" where
  "parse_ipv6 s = (case Index s ''::'' of
       None \<Rightarrow> (case parse_groups (colon_groups s) of None \<Rightarrow> None | Some ns \<Rightarrow> if length ns = 8 then Some ns else None)
     | Some i \<Rightarrow> (case (those (map parse_group (colon_groups (take i s))), parse_groups (colon_groups (drop (i + 2) s))) of
           (Some a, Some b) \<Rightarrow> if length a + length b \<le> 7 then Some (a @ replicate (8 - length a - length b) 0 @ b) else None
         | _ \<Rightarrow> None))"

definition ParseIP :: "string \<Rightarrow> nat list option" where
  "ParseIP s = (case find (\<lambda>c. c \<in> {CHR ''.'', CHR '':'', CHR ''%''}) s of
       None \<Rightarrow> None
     | Some c \<Rightarrow> if c = CHR ''.'' then map_option (\<lambda>ns. [0, 0, 0, 0, 0, 0xFFFF] @ ns) (parse_ipv4 s)
         else if c = CHR '':'' then parse_ipv6 s else None)"

definition IsLoopback :: "nat list \<Rightarrow> bool" where
  "IsLoopback ip \<longleftrightarrow> (if take 6 ip = [0, 0, 0, 0, 0, 0xFFFF] then ip ! 6 div 256 = 127 else ip = [0, 0, 0, 0, 0, 0, 0, 1])"

definition isLoopback :: "string \<Rightarrow> bool" where
  "isLoopback addr = (case ParseIP addr of None \<Rightarrow> False | Some ip \<Rightarrow> IsLoopback ip)"

section \<open>Decisions\<close>

record request =
  R_Sender :: string
  R_Recipient :: string
  R_SASLUsername :: string
  R_ClientAddress :: string

definition dunno :: string where "dunno = ''DUNNO''"

definition defer_action :: string where
  "defer_action = ''DEFER_IF_PERMIT Group policy check temporarily unavailable''"

definition normalize :: "lib \<Rightarrow> string \<Rightarrow> string" where
  "normalize L addr0 =
     (let addr = ToLower (uni L) (TrimSpace addr0) in
      case Cut addr ''@'' of (local, domain, ok) \<Rightarrow>
        if \<not> ok then addr
        else (case Index local ''+'' of
               Some i \<Rightarrow> (if i > 0 then take i local else local) | None \<Rightarrow> local) @ ''@'' @ domain)"

definition reject :: "string \<Rightarrow> string \<Rightarrow> string" where
  "reject g why = ''REJECT 5.7.1 <'' @ g @ ''>: '' @ why"

definition memberRole :: "lib \<Rightarrow> nat \<Rightarrow> string \<Rightarrow> string op" where
  "memberRole L groupID address =
     (if address = [] then Return []
      else Query (\<lambda>w. case row_at (mkey L) (groupID, ck L address) (mail_group_members w) of None \<Rightarrow> [] | Some m \<Rightarrow> m_role m))"

definition isHostedAddress :: "lib \<Rightarrow> string \<Rightarrow> bool op" where
  "isHostedAddress L address = (case Cut address ''@'' of (local, domain, ok) \<Rightarrow>
     if \<not> ok then Return False
     else Query (\<lambda>w. count_rows (\<lambda>d. dkey L d = ck L domain) (virtual_domains w) > 0))"

definition post_members :: string where "post_members = ''only group members can post''"
definition post_owners :: string where "post_owners = ''only group owners can post''"
definition post_organization :: string where
  "post_organization = ''only people in this organization can post; sign in to your mail account to send''"
definition post_sign_in :: string where "post_sign_in = ''sign in to your mail account to post to this group''"

definition by_role :: "lib \<Rightarrow> nat \<Rightarrow> string \<Rightarrow> string \<Rightarrow> string \<Rightarrow> string op" where
  "by_role L groupID policy recipient sender =
     andThen (Attempt (memberRole L groupID sender)) (\<lambda>r. case r of
         Inl e \<Rightarrow> Return defer_action
       | Inr role \<Rightarrow> Return
           (if policy = ''members'' then (if role \<noteq> [] then dunno else reject recipient post_members)
            else if policy = ''owners'' then (if role = ''owner'' then dunno else reject recipient post_owners)
            else dunno))"

definition Decide :: "lib \<Rightarrow> request \<Rightarrow> string op" where
  "Decide L req =
     (let recipient = normalize L (R_Recipient req) in
      if recipient = [] then Return dunno
      else andThen (Attempt (Query (\<lambda>w. row_at (gkey L) (ck L recipient) (mail_groups w)))) (\<lambda>r. case r of
          Inl e \<Rightarrow> Return defer_action
        | Inr None \<Rightarrow> Return dunno
        | Inr (Some g) \<Rightarrow>
            let groupID = g_id g; policy = g_post_policy g; authenticated = (R_SASLUsername req \<noteq> []) in
            if policy = ''anyone'' \<or> (\<not> authenticated \<and> isLoopback (R_ClientAddress req)) then Return dunno
            else let sender = (if authenticated then normalize L (R_SASLUsername req) else normalize L (R_Sender req)) in
            if policy = ''organization''
            then (if authenticated then Return dunno else Return (reject recipient post_organization))
            else if \<not> authenticated
            then (if sender = [] then Return (reject recipient post_members)
                  else andThen (Attempt (isHostedAddress L sender)) (\<lambda>h. case h of
                      Inl e \<Rightarrow> Return defer_action
                    | Inr local \<Rightarrow> if local then Return (reject recipient post_sign_in)
                        else by_role L groupID policy recipient sender))
            else by_role L groupID policy recipient sender))"

section \<open>The protocol\<close>

definition trim_eol :: "string \<Rightarrow> string" where
  "trim_eol s = TrimRight s [CHR 0x0D, CHR 0x0A]"

lemma Index_less: "Index s [c] = Some i \<Longrightarrow> i < length s"
  by (induction s arbitrary: i) (auto split: if_splits)

text \<open>
  \<open>ReadString('\n')\<close>, line by line, up to the empty line that ends a request; \<open>None\<close> when the connection ends before. Later values of a name
  replace earlier ones, a name that was not sent is empty.
\<close>

function read_request :: "string \<Rightarrow> (string \<Rightarrow> string) \<Rightarrow> ((string \<Rightarrow> string) \<times> string) option" where
  "read_request s attrs = (case Index s [CHR 0x0A] of
       None \<Rightarrow> None
     | Some i \<Rightarrow> (let line = trim_eol (take (Suc i) s); rest = drop (Suc i) s in
         if line = [] then Some (attrs, rest)
         else (case Cut line ''='' of (k, v, ok) \<Rightarrow> read_request rest (if ok then attrs(k := v) else attrs))))"
  by pat_completeness auto

termination
  by (relation "measure (\<lambda>(s, a). length s)") (auto dest: Index_less)

declare read_request.simps [simp del]

lemma read_request_shorter: "read_request s attrs = Some (a, rest) \<Longrightarrow> length rest < length s"
proof (induction s attrs rule: read_request.induct)
  case (1 s attrs)
  obtain i where i: "Index s [CHR 0x0A] = Some i"
    using "1.prems" by (cases "Index s [CHR 0x0A]") (simp_all add: read_request.simps [of s])
  let ?line = "trim_eol (take (Suc i) s)" and ?rest = "drop (Suc i) s"
  obtain k v ok where cut: "Cut ?line ''='' = (k, v, ok)" by (cases "Cut ?line ''=''") auto
  show ?case
  proof (cases "?line = []")
    case True
    with "1.prems" i have "rest = ?rest" by (simp add: read_request.simps [of s])
    with Index_less [OF i] show ?thesis by simp
  next
    case False
    with "1.prems" i cut have "read_request ?rest (if ok then attrs(k := v) else attrs) = Some (a, rest)"
      by (simp add: read_request.simps [of s])
    from "1.IH" [OF i refl refl False cut [symmetric] refl this] show ?thesis by simp
  qed
qed

definition request_of :: "(string \<Rightarrow> string) \<Rightarrow> request" where
  "request_of attrs = \<lparr>R_Sender = attrs ''sender'', R_Recipient = attrs ''recipient'', R_SASLUsername = attrs ''sasl_username'',
     R_ClientAddress = attrs ''client_address''\<rparr>"

definition answer_line :: "string \<Rightarrow> string" where
  "answer_line action = ''action='' @ action @ [CHR 0x0A, CHR 0x0A]"

text \<open>What the service writes to a connection that delivers the bytes \<open>s\<close>.\<close>

function serveConn :: "lib \<Rightarrow> string \<Rightarrow> string op" where
  "serveConn L s = (case read_request s (\<lambda>k. []) of
       None \<Rightarrow> Return []
     | Some (attrs, rest) \<Rightarrow>
         andThen (Decide L (request_of attrs)) (\<lambda>action.
         andThen (serveConn L rest) (\<lambda>out. Return (answer_line action @ out))))"
  by pat_completeness auto

termination
  by (relation "measure (\<lambda>(L, s). length s)") (auto dest: read_request_shorter)

declare serveConn.simps [simp del]

section \<open>Who may post\<close>

text \<open>
  The rule the service stands for, without its order of tests: a sender is known when it is signed in, or when it claims an address that this server does
  not host.
\<close>

definition hosted :: "lib \<Rightarrow> world \<Rightarrow> string \<Rightarrow> bool" where
  "hosted L w a \<longleftrightarrow> (case Cut a ''@'' of (l, d, ok) \<Rightarrow> ok \<and> ck L d \<in> dkey L ` set (virtual_domains w))"

definition known_sender :: "lib \<Rightarrow> world \<Rightarrow> request \<Rightarrow> string option" where
  "known_sender L w req =
     (if R_SASLUsername req \<noteq> [] then Some (normalize L (R_SASLUsername req))
      else if normalize L (R_Sender req) = [] \<or> hosted L w (normalize L (R_Sender req)) then None
      else Some (normalize L (R_Sender req)))"

definition role_in :: "lib \<Rightarrow> world \<Rightarrow> nat \<Rightarrow> string \<Rightarrow> string" where
  "role_in L w i a = (if a = [] then [] else
     case row_at (mkey L) (i, ck L a) (mail_group_members w) of None \<Rightarrow> [] | Some m \<Rightarrow> m_role m)"

definition local_process :: "request \<Rightarrow> bool" where
  "local_process req \<longleftrightarrow> R_SASLUsername req = [] \<and> isLoopback (R_ClientAddress req)"

definition group_admits :: "lib \<Rightarrow> world \<Rightarrow> request \<Rightarrow> group_row \<Rightarrow> bool" where
  "group_admits L w req g \<longleftrightarrow> g_post_policy g = ''anyone'' \<or> local_process req
     \<or> (if g_post_policy g = ''organization'' then R_SASLUsername req \<noteq> []
        else (case known_sender L w req of None \<Rightarrow> False
          | Some a \<Rightarrow> (g_post_policy g = ''members'' \<longrightarrow> role_in L w (g_id g) a \<noteq> [])
              \<and> (g_post_policy g = ''owners'' \<longrightarrow> role_in L w (g_id g) a = ''owner'')))"

definition addressed_group :: "lib \<Rightarrow> world \<Rightarrow> request \<Rightarrow> group_row option" where
  "addressed_group L w req = (if normalize L (R_Recipient req) = [] then None
     else row_at (gkey L) (ck L (normalize L (R_Recipient req))) (mail_groups w))"

definition may_post :: "lib \<Rightarrow> world \<Rightarrow> request \<Rightarrow> bool" where
  "may_post L w req = (case addressed_group L w req of None \<Rightarrow> True | Some g \<Rightarrow> group_admits L w req g)"

lemma action_distinct [simp]:
  "defer_action \<noteq> dunno" "dunno \<noteq> defer_action" "reject g why \<noteq> dunno" "dunno \<noteq> reject g why"
  "reject g why \<noteq> defer_action" "defer_action \<noteq> reject g why"
  by (simp_all add: defer_action_def dunno_def reject_def)

lemma faults_tick [simp]: "faults (tick w) = tl (faults w)"
  by (simp add: tick_def)

lemma fault_early:
  "fault w \<Longrightarrow> True \<in> set (take (Suc n) (faults w))"
  "fault (tick w) \<Longrightarrow> True \<in> set (take (Suc (Suc n)) (faults w))"
  "fault (tick (tick w)) \<Longrightarrow> True \<in> set (take (Suc (Suc (Suc n))) (faults w))"
  by (cases "faults w"; cases "tl (faults w)"; auto simp: fault_def split: list.splits)+

text \<open>What a step may change: nothing but the pattern of failures.\<close>

definition only_faults :: "world \<Rightarrow> world \<Rightarrow> bool" where
  "only_faults w w' \<longleftrightarrow> w' = w\<lparr>faults := faults w'\<rparr>"

lemma only_faults_refl [simp]: "only_faults w w"
  by (simp add: only_faults_def)

lemma only_faults_tick [simp]: "only_faults w (tick w') = only_faults w w'"
  unfolding only_faults_def tick_def by (cases w; cases w') auto

lemma only_faults_trans: "only_faults w w' \<Longrightarrow> only_faults w' w'' \<Longrightarrow> only_faults w w''"
  unfolding only_faults_def by (cases w; cases w'; cases w'') auto

lemma only_faults_may_post: "only_faults w w' \<Longrightarrow> may_post L w' = may_post L w"
  unfolding only_faults_def
  by (rule ext, erule ssubst)
     (simp add: may_post_def addressed_group_def group_admits_def known_sender_def hosted_def role_in_def split: option.split)

lemma hosted_count: "count_rows (\<lambda>d. dkey L d = ck L n) (virtual_domains w) > 0 \<longleftrightarrow> ck L n \<in> dkey L ` set (virtual_domains w)"
  using count_rows_zero [of "\<lambda>d. dkey L d = ck L n" "virtual_domains w"] by (force simp: image_iff)

text \<open>
  C9: The service implements its rule, and fails closed: whatever statements fail, the tables are untouched and the answer is \<open>DUNNO\<close>, a rejection or
  a deferral; it defers only when one of its three statements failed, and otherwise it lets the message through exactly when the rule says that this sender
  may post to this recipient.
\<close>

theorem Decide_refines:
  "after (Decide L req) (\<lambda>r w'. only_faults w w' \<and> (case r of Inl e \<Rightarrow> False | Inr a \<Rightarrow>
     (if a = defer_action then True \<in> set (take 3 (faults w))
      else (a = dunno) = may_post L w req \<and> (if a = dunno then True else prefix ''REJECT 5.7.1 <'' a)))) w"
proof -
  note fe = fault_early [of w 2] fault_early [of w 1] fault_early [of w 0]
  have rej: "prefix ''REJECT 5.7.1 <'' (reject g why)" for g why by (simp add: reject_def)
  show ?thesis
  proof (cases "addressed_group L w req")
    case None
    then show ?thesis
      using fe by (auto simp: Decide_def wp may_post_def addressed_group_def Let_def numeral_3_eq_3 split: if_splits)
  next
    case (Some g)
    then have rc: "normalize L (R_Recipient req) \<noteq> []"
        "row_at (gkey L) (ck L (normalize L (R_Recipient req))) (mail_groups w) = Some g"
      by (auto simp: addressed_group_def split: if_splits)
    obtain l d ok where cut: "Cut (normalize L (R_Sender req)) ''@'' = (l, d, ok)"
      by (cases "Cut (normalize L (R_Sender req)) ''@''") auto
    show ?thesis
      using fe rej
      by (auto simp: Decide_def wp may_post_def Some rc Let_def group_admits_def local_process_def known_sender_def
          by_role_def memberRole_def isHostedAddress_def cut hosted_def hosted_count role_in_def numeral_3_eq_3
          split: if_splits option.splits)
  qed
qed

text \<open>
  C3: A forged local sender gets nowhere: when a client that is neither signed in nor a local process is let through to a group with a restricted
  policy, the group is not restricted to the organization and the sender it claims is an address outside the hosted domains that is a member of
  the group (its owner, when only owners may post).
\<close>

theorem no_forged_sender:
  "after (Decide L req) (\<lambda>r w'. case addressed_group L w req of None \<Rightarrow> True | Some g \<Rightarrow>
     (if r = Inr dunno \<and> R_SASLUsername req = [] \<and> \<not> isLoopback (R_ClientAddress req)
           \<and> g_post_policy g \<in> {''organization'', ''members'', ''owners''}
      then g_post_policy g \<noteq> ''organization'' \<and> \<not> hosted L w (normalize L (R_Sender req))
         \<and> role_in L w (g_id g) (normalize L (R_Sender req)) \<noteq> []
         \<and> (if g_post_policy g = ''owners'' then role_in L w (g_id g) (normalize L (R_Sender req)) = ''owner'' else True)
      else True)) w"
proof (cases "addressed_group L w req")
  case (Some g)
  have admit: "g_post_policy g \<noteq> ''organization'' \<and> \<not> hosted L w (normalize L (R_Sender req))
      \<and> role_in L w (g_id g) (normalize L (R_Sender req)) \<noteq> []
      \<and> (g_post_policy g = ''owners'' \<longrightarrow> role_in L w (g_id g) (normalize L (R_Sender req)) = ''owner'')"
    if "may_post L w req" "R_SASLUsername req = []" "\<not> isLoopback (R_ClientAddress req)"
      "g_post_policy g \<in> {''organization'', ''members'', ''owners''}"
    using that by (auto simp: may_post_def Some group_admits_def known_sender_def local_process_def split: if_splits)
  show ?thesis
    by (rule after_mono [OF Decide_refines]) (use admit in \<open>auto simp: Some split: sum.splits if_splits\<close>)
qed (simp add: after_def split: prod.split)

section \<open>One answer for each request\<close>

text \<open>A request as Postfix writes it: lines \<open>name=value\<close>, then an empty line.\<close>

definition attr_line :: "string \<times> string \<Rightarrow> string" where
  "attr_line kv = fst kv @ ''='' @ snd kv @ [CHR 0x0A]"

definition render_request :: "(string \<times> string) list \<Rightarrow> string" where
  "render_request kvs = concat (map attr_line kvs) @ [CHR 0x0A]"

definition attrs_of :: "(string \<times> string) list \<Rightarrow> string \<Rightarrow> string" where
  "attrs_of kvs = foldl (\<lambda>f kv. f(fst kv := snd kv)) (\<lambda>k. []) kvs"

definition clean_attr :: "string \<times> string \<Rightarrow> bool" where
  "clean_attr kv \<longleftrightarrow> list_all (\<lambda>c. c \<notin> {CHR 0x0A, CHR 0x0D, CHR ''=''}) (fst kv) \<and> list_all (\<lambda>c. c \<notin> {CHR 0x0A, CHR 0x0D}) (snd kv)"

lemma trim_eol_line: "\<forall>c\<in>set s. c \<noteq> CHR 0x0A \<and> c \<noteq> CHR 0x0D \<Longrightarrow> trim_eol (s @ [CHR 0x0A]) = s"
  by (cases s rule: rev_cases) (simp_all add: trim_eol_def TrimRight_def)

lemma read_line:
  assumes "\<forall>c\<in>set l. c \<noteq> CHR 0x0A \<and> c \<noteq> CHR 0x0D"
  shows "read_request (l @ [CHR 0x0A] @ rest) attrs = (if l = [] then Some (attrs, rest)
     else (case Cut l ''='' of (k, v, ok) \<Rightarrow> read_request rest (if ok then attrs(k := v) else attrs)))"
proof -
  have no: "CHR 0x0A \<notin> set l" using assms by auto
  have i: "Index (l @ [CHR 0x0A] @ rest) [CHR 0x0A] = Some (length l)"
  proof -
    have "takeWhile (\<lambda>x. x \<noteq> CHR 0x0A) (l @ [CHR 0x0A] @ rest) = l @ takeWhile (\<lambda>x. x \<noteq> CHR 0x0A) ([CHR 0x0A] @ rest)"
      by (rule takeWhile_append2) (use no in auto)
    then show ?thesis by (simp add: Index_char)
  qed
  have td: "take (Suc (length l)) (l @ [CHR 0x0A] @ rest) = l @ [CHR 0x0A]" "drop (Suc (length l)) (l @ [CHR 0x0A] @ rest) = rest"
    by simp_all
  show ?thesis
    by (subst read_request.simps) (simp only: i Let_def td trim_eol_line [OF assms] option.case)
qed

lemma read_request_rendered:
  assumes "list_all clean_attr kvs"
  shows "read_request (render_request kvs @ rest) f = Some (foldl (\<lambda>f kv. f(fst kv := snd kv)) f kvs, rest)"
  using assms
proof (induction kvs arbitrary: f)
  case Nil
  then show ?case using read_line [of "[]" rest f] by (simp add: render_request_def)
next
  case (Cons kv kvs)
  let ?l = "fst kv @ ''='' @ snd kv"
  have l: "\<forall>c\<in>set ?l. c \<noteq> CHR 0x0A \<and> c \<noteq> CHR 0x0D" "CHR ''='' \<notin> set (fst kv)"
  proof -
    have "clean_attr kv" using Cons.prems by simp
    then have c: "\<forall>c\<in>set (fst kv). c \<noteq> CHR 0x0A \<and> c \<noteq> CHR 0x0D \<and> c \<noteq> CHR ''=''" "\<forall>c\<in>set (snd kv). c \<noteq> CHR 0x0A \<and> c \<noteq> CHR 0x0D"
      by (simp_all add: clean_attr_def list_all_iff)
    then show "\<forall>c\<in>set ?l. c \<noteq> CHR 0x0A \<and> c \<noteq> CHR 0x0D" by (simp add: ball_Un)
    show "CHR ''='' \<notin> set (fst kv)" using c(1) by blast
  qed
  have render: "render_request (kv # kvs) @ rest = ?l @ [CHR 0x0A] @ (render_request kvs @ rest)"
    by (simp add: render_request_def attr_line_def)
  have cut: "Cut ?l ''='' = (fst kv, snd kv, True)" using Cut_found [OF l(2), of "snd kv"] by simp
  have ok: "list_all clean_attr kvs" using Cons.prems by simp
  have nonempty: "(?l = []) = False" by simp
  have "read_request (render_request (kv # kvs) @ rest) f = read_request (render_request kvs @ rest) (f(fst kv := snd kv))"
    unfolding render by (rule trans [OF read_line [OF l(1)]]) (simp only: nonempty cut if_False if_True prod.case)
  also have "\<dots> = Some (foldl (\<lambda>f kv. f(fst kv := snd kv)) (f(fst kv := snd kv)) kvs, rest)"
    by (rule Cons.IH [OF ok])
  finally show ?case by (simp only: foldl.simps)
qed

text \<open>
  C36: Every request is answered, in order and exactly once. On a connection that delivers any number of complete requests, followed by whatever
  incomplete rest, the service writes one \<open>action\<close> line and an empty line for each of them and nothing else; each answer is a deferral or follows the rule
  for its own request.
\<close>

theorem serveConn_answers:
  assumes "list_all (list_all clean_attr) reqs" and "read_request rest (\<lambda>k. []) = None"
  shows "after (serveConn L (concat (map render_request reqs) @ rest)) (\<lambda>r w'. only_faults w w' \<and>
     (\<exists>actions. r = Inr (concat (map answer_line actions)) \<and> list_all2 (\<lambda>kvs a. a = defer_action
        \<or> (a = dunno) = may_post L w (request_of (attrs_of kvs))) reqs actions)) w"
  using assms(1)
proof (induction reqs arbitrary: w)
  case Nil
  then show ?case by (simp add: serveConn.simps assms(2) wp)
next
  case (Cons kvs reqs)
  let ?req = "request_of (attrs_of kvs)" and ?more = "concat (map render_request reqs) @ rest"
  have read: "read_request (concat (map render_request (kvs # reqs)) @ rest) (\<lambda>k. []) = Some (attrs_of kvs, ?more)"
    using read_request_rendered [of kvs ?more "\<lambda>k. []"] Cons.prems by (simp add: attrs_of_def)
  have "after (Decide L ?req) (\<lambda>r w1. only_faults w w1 \<and> (\<exists>a. r = Inr a \<and> (a = defer_action \<or> (a = dunno) = may_post L w ?req))) w"
    by (rule after_mono [OF Decide_refines]) (auto split: sum.splits if_splits)
  then have "after (andThen (Decide L ?req) (\<lambda>action. andThen (serveConn L ?more) (\<lambda>out. Return (answer_line action @ out))))
    (\<lambda>r w'. only_faults w w' \<and>
     (\<exists>actions. r = Inr (concat (map answer_line actions)) \<and> list_all2 (\<lambda>kvs a. a = defer_action
        \<or> (a = dunno) = may_post L w (request_of (attrs_of kvs))) (kvs # reqs) actions)) w"
  proof (rule after_seq)
    fix a w1
    assume "only_faults w w1 \<and> (\<exists>b. Inr a = Inr b \<and> (b = defer_action \<or> (b = dunno) = may_post L w ?req))"
    then have w1: "only_faults w w1" and a: "a = defer_action \<or> (a = dunno) = may_post L w ?req" by auto
    have "list_all (list_all clean_attr) reqs" using Cons.prems by simp
    from Cons.IH [OF this, of w1]
    show "after (andThen (serveConn L ?more) (\<lambda>out. Return (answer_line a @ out)))
    (\<lambda>r w'. only_faults w w' \<and>
     (\<exists>actions. r = Inr (concat (map answer_line actions)) \<and> list_all2 (\<lambda>kvs a. a = defer_action
        \<or> (a = dunno) = may_post L w (request_of (attrs_of kvs))) (kvs # reqs) actions)) w1"
      unfolding only_faults_may_post [OF w1]
    proof (rule after_seq)
      fix out w2
      assume "only_faults w1 w2 \<and> (\<exists>actions. Inr out = Inr (concat (map answer_line actions)) \<and> list_all2 (\<lambda>kvs a. a = defer_action
        \<or> (a = dunno) = may_post L w (request_of (attrs_of kvs))) reqs actions)"
      then obtain as where as: "only_faults w1 w2" "out = concat (map answer_line as)" "list_all2 (\<lambda>kvs a. a = defer_action
        \<or> (a = dunno) = may_post L w (request_of (attrs_of kvs))) reqs as" by auto
      show "after (Return (answer_line a @ out)) (\<lambda>r w'. only_faults w w' \<and>
     (\<exists>actions. r = Inr (concat (map answer_line actions)) \<and> list_all2 (\<lambda>kvs a. a = defer_action
        \<or> (a = dunno) = may_post L w (request_of (attrs_of kvs))) (kvs # reqs) actions)) w2"
        unfolding after_Return
        using a as only_faults_trans [OF w1 as(1)] by (intro conjI exI [of _ "a # as"]) auto
    qed auto
  qed auto
  then show ?case by (simp add: serveConn.simps [of L "concat (map render_request (kvs # reqs)) @ rest"] read del: concat.simps list.map)
qed

text \<open>A world with a group that only its owner may post to.\<close>

definition group_world :: world where
  "group_world = empty_world\<lparr>virtual_domains := [\<lparr>d_id = 0, d_name = ''example.com''\<rparr>],
     mail_groups := [\<lparr>g_id = 1, g_domain_id = 0, g_email = ''all@example.com'', g_name = ''All'', g_description = [],
       g_post_policy = ''owners'', g_allow_external = True, g_created_at = 0\<rparr>],
     mail_group_members := [\<lparr>m_group_id = 1, m_member = ''ann@example.com'', m_role = ''owner'', m_created_at = 0\<rparr>]\<rparr>"

definition example_request :: "(string \<times> string) list" where
  "example_request = [(''recipient'', ''all@example.com''), (''sender'', ''ann@example.com''), (''client_address'', ''192.0.2.7'')]"

theorem serveConn_answers_witness:
  "after (serveConn example_lib (concat (map render_request [example_request, example_request]) @ ''partial='')) (\<lambda>r w'. only_faults group_world w' \<and>
     (\<exists>actions. r = Inr (concat (map answer_line actions)) \<and> list_all2 (\<lambda>kvs a. a = defer_action
        \<or> (a = dunno) = may_post example_lib group_world (request_of (attrs_of kvs))) [example_request, example_request] actions)) group_world"
proof -
  have ok: "list_all (list_all clean_attr) [example_request, example_request]" by code_simp
  have rest: "read_request ''partial='' (\<lambda>k. []) = None" by (simp add: read_request.simps)
  show "after (serveConn example_lib (concat (map render_request [example_request, example_request]) @ ''partial='')) (\<lambda>r w'. only_faults group_world w' \<and>
     (\<exists>actions. r = Inr (concat (map answer_line actions)) \<and> list_all2 (\<lambda>kvs a. a = defer_action
        \<or> (a = dunno) = may_post example_lib group_world (request_of (attrs_of kvs))) [example_request, example_request] actions)) group_world"
    by (rule serveConn_answers [OF ok rest])
qed

end
