(* ===== verification/Ops_Fail2ban.thy ===== *)
theory Ops_Fail2ban
  imports Policy Go_Library Filepath
begin

text \<open>
  \<open>ops/fail2ban.go\<close>: bans and the list of addresses that are never banned. The program talks to fail2ban by running \<open>fail2ban-client\<close> and by writing one file
  of its configuration.
\<close>

section \<open>Addresses and networks\<close>

text \<open>\<open>IP.String\<close>: dotted for an IPv4 address, else groups with the longest run of at least two zero groups left out.\<close>

definition is4 :: "nat list \<Rightarrow> bool" where
  "is4 ip \<longleftrightarrow> take 6 ip = [0, 0, 0, 0, 0, 0xFFFF]"

definition dotted :: "nat list \<Rightarrow> string" where
  "dotted ip = Join (map nat_itoa [ip ! 6 div 256, ip ! 6 mod 256, ip ! 7 div 256, ip ! 7 mod 256]) ''.''"

function hex_group :: "nat \<Rightarrow> string" where
  "hex_group n = (if n < 16 then [hex_digit n] else hex_group (n div 16) @ [hex_digit (n mod 16)])"
  by pat_completeness auto
termination
  by (relation "measure id") auto

declare hex_group.simps [simp del]

definition zero_run :: "nat list \<Rightarrow> nat \<Rightarrow> nat" where
  "zero_run ip i = length (takeWhile (\<lambda>g. g = 0) (drop i ip))"

definition zero_span :: "nat list \<Rightarrow> (nat \<times> nat) option" where
  "zero_span ip = fold (\<lambda>i best. let l = zero_run ip i in
     if 2 \<le> l \<and> (case best of None \<Rightarrow> True | Some (s, e) \<Rightarrow> e - s < l) then Some (i, i + l) else best) [0..<8] None"

definition ip6_string :: "nat list \<Rightarrow> string" where
  "ip6_string ip = (case zero_span ip of
       None \<Rightarrow> Join (map hex_group ip) '':''
     | Some (s, e) \<Rightarrow> Join (map hex_group (take s ip)) '':'' @ ''::'' @ Join (map hex_group (drop e ip)) '':'')"

definition IPString :: "nat list \<Rightarrow> string" where
  "IPString ip = (if is4 ip then dotted ip else ip6_string ip)"

text \<open>
  \<open>net.ParseCIDR\<close>: the masked address, the length of the prefix and the number of bits of the address family the text is written in; an IPv4 address in the
  notation of IPv6 counts as an IPv6 address.
\<close>

definition bit_len :: "string \<Rightarrow> nat" where
  "bit_len s = (if find (\<lambda>c. c \<in> {CHR ''.'', CHR '':'', CHR ''%''}) s = Some (CHR ''.'') then 32 else 128)"

definition mask_group :: "nat \<Rightarrow> nat \<Rightarrow> nat \<Rightarrow> nat" where
  "mask_group n i g = (let k = 2 ^ (16 - min 16 (n - 16 * i)) in g div k * k)"

definition mask_ip :: "nat \<Rightarrow> nat list \<Rightarrow> nat list" where
  "mask_ip n ip = map (\<lambda>(i, g). mask_group n i g) (enumerate 0 ip)"

definition ParseCIDR :: "string \<Rightarrow> (nat list \<times> nat \<times> nat) option" where
  "ParseCIDR s = (case Cut s ''/'' of (addr, width, found) \<Rightarrow>
     if \<not> found then None
     else (case ParseIP addr of None \<Rightarrow> None
       | Some ip \<Rightarrow> (let bits = bit_len addr; n = digits_val width in
           if width = [] \<or> \<not> list_all is_digit width \<or> bits < n then None
           else Some (mask_ip (128 - bits + n) ip, n, bits))))"

text \<open>\<open>IPNet.String\<close>: a network inside the mapped IPv4 range is written as an IPv4 network.\<close>

definition net_string :: "nat list \<Rightarrow> nat \<Rightarrow> nat \<Rightarrow> string" where
  "net_string ip ones bits = (if is4 ip then dotted ip @ ''/'' @ nat_itoa (if bits = 32 then ones else ones - 96)
     else ip6_string ip @ ''/'' @ nat_itoa ones)"

section \<open>Jails\<close>

record jail =
  J_Name :: string
  J_CurrentlyFailed :: int
  J_TotalFailed :: int
  J_CurrentlyBanned :: int
  J_TotalBanned :: int
  J_BannedIPs :: "string list"

definition jailNameRe :: regex where
  "jailNameRe = Rep (Cls [(CHR ''A'', CHR ''Z''), (CHR ''a'', CHR ''z''), (CHR ''0'', CHR ''9''), (CHR ''.'', CHR ''.''), (CHR ''_'', CHR ''_''),
     (CHR ''-'', CHR ''-'')]) 1 64"

definition fail2ban :: "lib \<Rightarrow> string list \<Rightarrow> string op" where
  "fail2ban L args = andThen (CombinedOutput L (''fail2ban-client'' # args)) (\<lambda>(out, err). case err of
       None \<Rightarrow> Return out
     | Some e \<Rightarrow> Raise (ErrText (''fail2ban: '' @ (if TrimSpace out = [] then err_text e else TrimSpace out))))"

definition jail_names :: "string \<Rightarrow> string list" where
  "jail_names out = sort (concat (map (\<lambda>line. case Cut line ''Jail list:'' of (_, names, ok) \<Rightarrow>
     if ok then filter (\<lambda>j. j \<noteq> []) (map TrimSpace (split_on (CHR '','') names)) else []) (split_on (CHR 0x0A) out)))"

definition JailNames :: "lib \<Rightarrow> string list op" where
  "JailNames L = andThen (fail2ban L [''status'']) (\<lambda>out. Return (jail_names out))"

definition jail_line :: "string \<Rightarrow> jail \<Rightarrow> jail" where
  "jail_line line j = (case Cut line '':'' of (key0, val0, ok) \<Rightarrow>
     if \<not> ok then j
     else (let key = Trim key0 ('' |`-'' @ [CHR 0x09]); val = TrimSpace val0; n = AtoiValue val in
       if key = ''Currently failed'' then j\<lparr>J_CurrentlyFailed := n\<rparr>
       else if key = ''Total failed'' then j\<lparr>J_TotalFailed := n\<rparr>
       else if key = ''Currently banned'' then j\<lparr>J_CurrentlyBanned := n\<rparr>
       else if key = ''Total banned'' then j\<lparr>J_TotalBanned := n\<rparr>
       else if key = ''Banned IP list'' then j\<lparr>J_BannedIPs := Fields val\<rparr>
       else j))"

definition new_jail :: "string \<Rightarrow> jail" where
  "new_jail name = \<lparr>J_Name = name, J_CurrentlyFailed = 0, J_TotalFailed = 0, J_CurrentlyBanned = 0, J_TotalBanned = 0, J_BannedIPs = []\<rparr>"

definition jail_status :: "string \<Rightarrow> string \<Rightarrow> jail" where
  "jail_status name out = fold jail_line (split_on (CHR 0x0A) out) (new_jail name)"

fun jails_of :: "lib \<Rightarrow> string list \<Rightarrow> jail list op" where
  "jails_of L [] = Return []"
| "jails_of L (name # names) =
     andThen (Attempt (fail2ban L [''status'', name])) (\<lambda>r.
     andThen (jails_of L names) (\<lambda>rest. Return (case r of Inl e \<Rightarrow> rest | Inr out \<Rightarrow> jail_status name out # rest)))"

definition Jails :: "lib \<Rightarrow> jail list op" where
  "Jails L = andThen (JailNames L) (jails_of L)"

section \<open>Bans\<close>

definition ValidateIP :: "lib \<Rightarrow> string \<Rightarrow> error + string" where
  "ValidateIP L s = (case ParseIP (TrimSpace s) of
       None \<Rightarrow> Inl (ErrText (Quote (uni L) s @ '' is not a valid IP address''))
     | Some ip \<Rightarrow> Inr (IPString ip))"

definition Unban :: "lib \<Rightarrow> string \<Rightarrow> string \<Rightarrow> unit op" where
  "Unban L ip0 jail = andThen (Lift (ValidateIP L ip0)) (\<lambda>ip.
     if jail = [] then andThen (fail2ban L [''unban'', ip]) (\<lambda>_. Return ())
     else if \<not> MatchString jailNameRe jail then Raise (ErrText ''invalid jail name'')
     else andThen (fail2ban L [''set'', jail, ''unbanip'', ip]) (\<lambda>_. Return ()))"

definition Ban :: "lib \<Rightarrow> string \<Rightarrow> string \<Rightarrow> unit op" where
  "Ban L ip0 jail = andThen (Lift (ValidateIP L ip0)) (\<lambda>ip.
     andThen (JailNames L) (\<lambda>names.
     if jail \<notin> set names then Raise (ErrText (''no active jail named '' @ Quote (uni L) jail))
     else andThen (fail2ban L [''set'', jail, ''banip'', ip]) (\<lambda>_. Return ())))"

definition IsBanned :: "string \<Rightarrow> jail list \<Rightarrow> string list" where
  "IsBanned ip jails = concat (map (\<lambda>j. map (\<lambda>b. J_Name j) (filter (\<lambda>b. b = ip) (J_BannedIPs j))) jails)"

section \<open>The allowlist\<close>

definition AllowlistFile :: string where "AllowlistFile = ''/etc/fail2ban/jail.d/patrabahok-allowlist.local''"

definition builtinAllow :: "string list" where "builtinAllow = [''127.0.0.1/8'', ''::1'']"

definition isBuiltin :: "string \<Rightarrow> bool" where "isBuiltin e \<longleftrightarrow> e \<in> set builtinAllow"

definition allow_entries :: "string \<Rightarrow> string list" where
  "allow_entries c = concat (map (\<lambda>line. case Cut line ''ignoreip'' of (_, val, ok) \<Rightarrow>
     if ok then filter (\<lambda>e. \<not> isBuiltin e) (Fields (TrimLeft (TrimSpace val) ''= '')) else []) (split_on (CHR 0x0A) c))"

text \<open>A file that is not there is an empty list.\<close>

definition Allowlist :: "string list op" where
  "Allowlist = FsRead (\<lambda>w. case fs w AllowlistFile of
       None \<Rightarrow> Inr [] | Some (Dir u) \<Rightarrow> Inl FSError | Some (File u c) \<Rightarrow> Inr (allow_entries c))"

definition not_an_address :: "lib \<Rightarrow> string \<Rightarrow> error" where
  "not_an_address L s = ErrText (Quote (uni L) s @ '' is not an IP address or CIDR network (e.g. 203.0.113.7 or 203.0.113.0/24)'')"

definition too_broad :: "string \<Rightarrow> error" where
  "too_broad net = ErrText (net @ '' is too broad to allowlist (use /16 or narrower for IPv4, /32 or narrower for IPv6)'')"

definition ValidateAllowEntry :: "lib \<Rightarrow> string \<Rightarrow> error + string" where
  "ValidateAllowEntry L s0 = (let s = TrimSpace s0 in case ParseIP s of
       Some ip \<Rightarrow> Inr (IPString ip)
     | None \<Rightarrow> (case ParseCIDR s of
           None \<Rightarrow> Inl (not_an_address L s)
         | Some (ip, ones, bits) \<Rightarrow>
             if bits = 32 \<and> ones < 16 \<or> bits = 128 \<and> ones < 32 then Inl (too_broad (net_string ip ones bits))
             else Inr (net_string ip ones bits)))"

fun clean_entries :: "lib \<Rightarrow> string list \<Rightarrow> string list \<Rightarrow> error + string list" where
  "clean_entries L clean [] = Inr clean"
| "clean_entries L clean (e # es) = (case ValidateAllowEntry L e of
       Inl err \<Rightarrow> Inl err
     | Inr v \<Rightarrow> clean_entries L (if v \<in> set clean \<or> isBuiltin v then clean else clean @ [v]) es)"

definition arrow :: string where "arrow = [CHR 0xE2, CHR 0x86, CHR 0x92]"

definition allow_header :: string where
  "allow_header = ''# Managed by the patrabahok dashboard (Security '' @ arrow @ '' Firewall & bans). Edits here are overwritten.''"

definition allow_content :: "string list \<Rightarrow> string" where
  "allow_content clean = allow_header @ lf @ ''[DEFAULT]'' @ lf @ ''ignoreip = '' @ Join (builtinAllow @ clean) '' '' @ lf"

text \<open>\<open>os.Rename\<close> of a file.\<close>

definition Rename :: "string \<Rightarrow> string \<Rightarrow> unit op" where
  "Rename old new = FsWrite (\<lambda>f. case f old of
       None \<Rightarrow> Inl FSError
     | Some n \<Rightarrow> if is_dir (f new) \<or> is_dir (Some n) then Inl FSError else Inr (f(old := None, new \<mapsto> n)))"

definition SetAllowlist :: "lib \<Rightarrow> string list \<Rightarrow> unit op" where
  "SetAllowlist L entries = andThen (Lift (clean_entries L [] entries)) (\<lambda>clean.
     let tmp = AllowlistFile @ ''.tmp'' in
     andThen (WriteFile tmp (allow_content clean)) (\<lambda>_.
     andThen (Rename tmp AllowlistFile) (\<lambda>_.
     andThen (fail2ban L [''reload'']) (\<lambda>_. Return ()))))"

section \<open>Canonical addresses\<close>

definition address_char :: "char \<Rightarrow> bool" where
  "address_char c \<longleftrightarrow> is_digit c \<or> 97 \<le> byte c \<and> byte c \<le> 102 \<or> c \<in> {CHR ''.'', CHR '':'', CHR ''/''}"

lemma address_char_plain: "address_char c \<Longrightarrow> is_ascii c \<and> \<not> is_space c \<and> c \<noteq> CHR 0x0A"
  by (auto simp: address_char_def is_digit_def is_ascii_def is_space_def)

lemma set_Join: "set (Join xs sep) \<subseteq> (\<Union>x\<in>set xs. set x) \<union> set sep"
  by (induction xs sep rule: Join.induct) auto

lemma hex_digit_address: "n < 16 \<Longrightarrow> address_char (hex_digit n)"
  by (simp add: address_char_def hex_digit_def is_digit_def)

lemma hex_group_chars: "(\<forall>c\<in>set (hex_group n). address_char c) \<and> hex_group n \<noteq> []"
proof (induction n rule: hex_group.induct)
  case (1 n)
  then show ?case
    by (subst (1 2) hex_group.simps) (auto simp: hex_digit_address)
qed

lemma itoa_address: "c \<in> set (nat_itoa n) \<Longrightarrow> address_char c"
  using nat_itoa_digits [of n] by (auto simp: address_char_def list_all_iff)

lemma dotted_chars: "c \<in> set (dotted ip) \<Longrightarrow> address_char c"
  by (auto simp: dotted_def address_char_def [of "CHR ''.''"] dest: itoa_address)

lemma ip6_chars: "c \<in> set (ip6_string ip) \<Longrightarrow> address_char c"
proof -
  have groups: "address_char c" if "c \<in> set (Join (map hex_group ns) '':'')" for c ns
    using subsetD [OF set_Join that] hex_group_chars by (auto simp: address_char_def)
  show "c \<in> set (ip6_string ip) \<Longrightarrow> address_char c"
    by (cases "zero_span ip") (auto simp: ip6_string_def address_char_def [of "CHR '':''"] dest: groups)
qed

lemma IPString_chars: "c \<in> set (IPString ip) \<Longrightarrow> address_char c"
  by (auto simp: IPString_def dest: dotted_chars ip6_chars split: if_splits)

lemma net_string_chars: "c \<in> set (net_string ip ones bits) \<Longrightarrow> address_char c"
  by (auto simp: net_string_def address_char_def [of "CHR ''/''"] dest: dotted_chars ip6_chars itoa_address split: if_splits)

lemma ValidateAllowEntry_chars: "ValidateAllowEntry L s = Inr v \<Longrightarrow> c \<in> set v \<Longrightarrow> address_char c"
  by (auto simp: ValidateAllowEntry_def Let_def dest: IPString_chars net_string_chars split: option.splits if_splits)

lemma those_length: "those xs = Some ys \<Longrightarrow> length ys = length xs"
  by (induction xs arbitrary: ys) (auto split: option.splits)

lemma parse_ipv4_length: "parse_ipv4 s = Some ns \<Longrightarrow> length ns = 2"
  by (auto simp: parse_ipv4_def split: list.splits option.splits)

lemma ParseIP_length: "ParseIP s = Some ip \<Longrightarrow> length ip = 8"
  by (auto simp: ParseIP_def parse_ipv6_def dest: parse_ipv4_length split: option.splits if_splits)

lemma nat_itoa_not_Nil [simp]: "nat_itoa n \<noteq> []"
  using nat_itoa_digits by blast

lemma dotted_not_Nil [simp]: "dotted ip \<noteq> []"
  by (simp add: dotted_def)

lemma Join_not_Nil: "xs \<noteq> [] \<Longrightarrow> hd xs \<noteq> [] \<Longrightarrow> Join xs sep \<noteq> []"
  by (induction xs sep rule: Join.induct) auto

lemma IPString_not_Nil: "ParseIP s = Some ip \<Longrightarrow> IPString ip \<noteq> []"
proof -
  assume "ParseIP s = Some ip"
  then have "ip \<noteq> []" using ParseIP_length by fastforce
  then have "Join (map hex_group ip) '':'' \<noteq> []" using hex_group_chars by (intro Join_not_Nil) (auto simp: hd_map)
  then show ?thesis by (auto simp: IPString_def ip6_string_def split: option.split)
qed

lemma ValidateAllowEntry_not_Nil: "ValidateAllowEntry L s = Inr v \<Longrightarrow> v \<noteq> []"
  by (auto simp: ValidateAllowEntry_def Let_def net_string_def dest: IPString_not_Nil split: option.splits if_splits)

section \<open>What is written is read back\<close>

text \<open>\<open>Fields\<close> finds the words that were joined with blanks.\<close>

definition word :: "string \<Rightarrow> bool" where
  "word s \<longleftrightarrow> s \<noteq> [] \<and> (\<forall>c\<in>set s. is_ascii c \<and> \<not> is_space c)"

lemma space_at_word:
  assumes "is_ascii c" and "\<not> is_space c"
  shows "find (\<lambda>p. p \<noteq> [] \<and> prefix p (c # s)) space_seqs = None"
proof -
  have "\<not> prefix p (c # s)" if "p \<in> set space_seqs" for p
    using space_seqs_first [OF that] assms by (cases p) auto
  then show ?thesis by (auto simp: find_None_iff)
qed

lemma Fields_from_word:
  "(\<forall>c\<in>set s. is_ascii c \<and> \<not> is_space c) \<Longrightarrow> Fields_from acc (s @ t) = Fields_from (rev s @ acc) t"
proof (induction s arbitrary: acc)
  case (Cons c s)
  then show ?case by (subst Fields_from.simps) (simp add: space_at_word)
qed simp

lemma Fields_from_end: "Fields_from acc [] = (if acc = [] then [] else [rev acc])"
  by (simp add: Fields_from.simps)

lemma Fields_from_blank: "Fields_from acc (CHR '' '' # t) = (if acc = [] then [] else [rev acc]) @ Fields_from [] t"
proof -
  have "find (\<lambda>p. p \<noteq> [] \<and> prefix p (CHR '' '' # t)) space_seqs = Some '' ''"
    by (simp add: space_seqs_def)
  then show ?thesis by (subst Fields_from.simps) simp
qed

lemma Fields_Join: "\<forall>w\<in>set ws. word w \<Longrightarrow> Fields (Join ws '' '') = ws"
proof (induction ws rule: induct_list012)
  case 1
  then show ?case by (simp add: Fields_def Fields_from_end)
next
  case (2 w)
  then show ?case using Fields_from_word [of w "[]" "[]"] by (simp add: Fields_def Fields_from_end word_def)
next
  case (3 w v ws)
  have "Fields (Join (w # v # ws) '' '') = Fields_from (rev w) (CHR '' '' # Join (v # ws) '' '')"
    using 3 Fields_from_word [of w "[]" "CHR '' '' # Join (v # ws) '' ''"] by (simp add: Fields_def word_def)
  also have "\<dots> = w # Fields (Join (v # ws) '' '')"
    using 3 by (simp add: Fields_from_blank Fields_def word_def)
  finally show ?case using 3 by simp
qed

lemma TrimSpace_blank: "TrimSpace (CHR '' '' # s) = TrimSpace s"
proof -
  have "find (\<lambda>p. p \<noteq> [] \<and> prefix p (CHR '' '' # s)) space_seqs = Some '' ''"
    by (simp add: space_seqs_def)
  then show ?thesis unfolding TrimSpace_def by (subst trim_left.simps) simp
qed

text \<open>What the loop of \<open>SetAllowlist\<close> collects.\<close>

definition canonical :: "lib \<Rightarrow> string list \<Rightarrow> string set" where
  "canonical L entries = {v. Inr v \<in> ValidateAllowEntry L ` set entries \<and> \<not> isBuiltin v}"

lemma clean_entries_set:
  "clean_entries L clean es = Inr xs \<Longrightarrow> distinct clean \<Longrightarrow> distinct xs \<and> set xs = set clean \<union> canonical L es"
proof (induction L clean es rule: clean_entries.induct)
  case (2 L clean e es)
  then obtain v where v: "ValidateAllowEntry L e = Inr v" by (auto split: sum.splits)
  let ?clean = "if v \<in> set clean \<or> isBuiltin v then clean else clean @ [v]"
  have "distinct xs \<and> set xs = set ?clean \<union> canonical L es"
    using 2 v by (simp split: if_splits)
  moreover have "set ?clean \<union> canonical L es = set clean \<union> canonical L (e # es)"
    using v by (auto simp: canonical_def image_iff)
  ultimately show ?case by simp
qed (simp add: canonical_def)

lemma canonical_word: "v \<in> canonical L es \<Longrightarrow> word v \<and> CHR 0x0A \<notin> set v"
  by (auto simp: canonical_def word_def image_iff eq_commute [of "Inr _"] dest: ValidateAllowEntry_chars [THEN address_char_plain] ValidateAllowEntry_not_Nil)

lemma allow_entries_content:
  assumes "\<forall>v\<in>set clean. word v \<and> CHR 0x0A \<notin> set v \<and> \<not> isBuiltin v"
  shows "allow_entries (allow_content clean) = clean"
proof -
  define joined where "joined = Join (builtinAllow @ clean) '' ''"
  have words: "\<forall>v\<in>set (builtinAllow @ clean). word v"
    using assms by (auto simp: builtinAllow_def word_def is_ascii_def is_space_def)
  obtain t where t: "joined = CHR ''1'' # t"
    by (cases clean) (auto simp: joined_def builtinAllow_def)
  have last: "joined \<noteq> []" "is_ascii (last joined) \<and> \<not> is_space (last joined)"
  proof -
    have "\<exists>a w. joined = a @ w \<and> word w" if "ws \<noteq> []" "\<forall>v\<in>set ws. word v" "joined = Join ws '' ''" for ws joined
      using that
    proof (induction ws arbitrary: joined rule: induct_list012)
      case (3 w v ws)
      then obtain a u where "Join (v # ws) '' '' = a @ u" "word u" by force
      with 3 show ?case by (metis Join.simps(3) append.assoc)
    qed auto
    with words obtain a w where "joined = a @ w" "word w" unfolding joined_def by (metis append_is_Nil_conv builtinAllow_def list.distinct(1))
    then show "joined \<noteq> []" "is_ascii (last joined) \<and> \<not> is_space (last joined)" by (auto simp: word_def)
  qed
  have no_lf: "CHR 0x0A \<notin> set joined"
    using subsetD [OF set_Join, of "CHR 0x0A" "builtinAllow @ clean" "'' ''"] assms by (auto simp: joined_def builtinAllow_def)
  have lines: "split_on (CHR 0x0A) (allow_content clean) = [allow_header, ''[DEFAULT]'', ''ignoreip = '' @ joined, []]"
  proof -
    have "allow_content clean = allow_header @ CHR 0x0A # (''[DEFAULT]'' @ CHR 0x0A # ((''ignoreip = '' @ joined) @ CHR 0x0A # []))"
      by (simp add: allow_content_def lf_def joined_def)
    then show ?thesis
      using no_lf by (simp only: split_on_append_sep) (simp add: split_on_append_sep allow_header_def arrow_def)
  qed
  have "TrimSpace ('' = '' @ joined) = TrimSpace (''= '' @ joined)"
    by (simp add: TrimSpace_blank)
  also have "\<dots> = ''= '' @ joined"
    by (rule TrimSpace_id) (use last in \<open>simp add: is_ascii_def is_space_def\<close>)
  finally have "Fields (TrimLeft (TrimSpace ('' = '' @ joined)) ''= '') = Fields joined"
    by (simp add: TrimLeft_def t)
  also have "\<dots> = builtinAllow @ clean" using words unfolding joined_def by (rule Fields_Join)
  finally have entries: "Fields (TrimLeft (TrimSpace ('' = '' @ joined)) ''= '') = builtinAllow @ clean" .
  have heads: "Cut allow_header ''ignoreip'' = (allow_header, [], False)" "Cut ''[DEFAULT]'' ''ignoreip'' = (''[DEFAULT]'', [], False)"
    "Cut [] ''ignoreip'' = ([], [], False)" "Cut (''ignoreip = '' @ joined) ''ignoreip'' = ([], '' = '' @ joined, True)"
    by (simp_all add: Cut_def allow_header_def arrow_def)
  have "filter (\<lambda>e. \<not> isBuiltin e) (builtinAllow @ clean) = clean"
    using assms by (simp add: isBuiltin_def filter_id_conv)
  then show ?thesis
    unfolding allow_entries_def lines by (simp only: list.map heads prod.case if_True if_False entries concat.simps append_Nil append_Nil2)
qed

text \<open>
  C34: The list that is never banned is kept as it was given. When \<open>SetAllowlist\<close> succeeds, the list that is read back holds the canonical form of every entry, each
  once, and nothing else; the loopback networks are written to the file but never listed.
\<close>

theorem allowlist_roundtrip:
  "after (SetAllowlist L entries) (\<lambda>r w1. case r of Inl e \<Rightarrow> True
     | Inr u \<Rightarrow> after Allowlist (\<lambda>r2 w2. case r2 of Inl e \<Rightarrow> fault w1
         | Inr xs \<Rightarrow> distinct xs \<and> set xs = {v. Inr v \<in> ValidateAllowEntry L ` set entries \<and> \<not> isBuiltin v}) w1) w"
proof (cases "clean_entries L [] entries")
  case (Inr clean)
  have clean: "distinct clean" "set clean = canonical L entries"
    using clean_entries_set [OF Inr] by simp_all
  then have found: "allow_entries (allow_content clean) = clean"
    using canonical_word [of _ L entries] by (intro allow_entries_content) (auto simp only: clean(2) canonical_def mem_Collect_eq)
  define reads where "reads = (\<lambda>w1::world. \<exists>u. fs w1 AllowlistFile = Some (File u (allow_content clean)))"
  have ends: "after Allowlist (\<lambda>r2 w2. case r2 of Inl e \<Rightarrow> fault w1 | Inr xs \<Rightarrow> distinct xs \<and> set xs = canonical L entries) w1" if "reads w1" for w1
    using that clean by (auto simp: Allowlist_def wp reads_def found)
  have written: "after (WriteFile p c) (\<lambda>r w1. case r of Inl e \<Rightarrow> True | Inr u \<Rightarrow> \<exists>u. fs w1 p = Some (File u c)) w" for p c w
    by (auto simp: WriteFile_def wp write_file_def split: option.split fnode.split)
  have renamed: "after (Rename p q) (\<lambda>r w1. case r of Inl e \<Rightarrow> True | Inr u \<Rightarrow> fs w1 q = Some (File v c)) w"
    if "fs w p = Some (File v c)" for p q v c w
    using that by (simp add: Rename_def wp)
  have kept: "keeps reads (andThen (fail2ban L args) (\<lambda>_. Return ()))" for args
    unfolding fail2ban_def CombinedOutput_def by (intro keeps_ops keeps_RunHost) (simp add: reads_def)
  have "after (SetAllowlist L entries) (\<lambda>r w1. case r of Inl e \<Rightarrow> True | Inr u \<Rightarrow> reads w1) w"
    unfolding SetAllowlist_def Inr andThen_Lift Let_def
  proof (rule after_seq [OF written])
    fix x w1 assume "case Inr x of Inl e \<Rightarrow> True | Inr u \<Rightarrow> \<exists>u. fs (w1 :: world) (AllowlistFile @ ''.tmp'') = Some (File u (allow_content clean))"
    then obtain v where v: "fs w1 (AllowlistFile @ ''.tmp'') = Some (File v (allow_content clean))" by auto
    show "after (andThen (Rename (AllowlistFile @ ''.tmp'') AllowlistFile) (\<lambda>_. andThen (fail2ban L [''reload'']) (\<lambda>_. Return ())))
       (\<lambda>r w1. case r of Inl e \<Rightarrow> True | Inr u \<Rightarrow> reads w1) w1"
      by (rule after_seq [OF renamed [OF v]]) (auto simp: reads_def [THEN fun_cong] intro!: after_mono [OF keepsD [OF kept]] split: sum.split)
  qed simp_all
  then show ?thesis
    unfolding canonical_def [symmetric] by (rule after_mono) (auto intro: ends split: sum.splits)
qed (simp add: SetAllowlist_def wp)

text \<open>
  The width of a network is judged by the notation it is written in. An IPv4 range in the notation of IPv6 passes as a network of 96 bits, is stored as the whole
  IPv4 address space, and from then on no other entry can be added.
\<close>

lemma mapped_network_allowed: "ValidateAllowEntry L ''::ffff:0:0/96'' = Inr ''0.0.0.0/0''"
proof -
  have "ParseIP ''::ffff:0:0/96'' = None"
    by (simp add: ParseIP_def parse_ipv6_def colon_groups_def parse_group_def hex_val_def is_digit_def)
  moreover have "replicate 5 (0::nat) = [0, 0, 0, 0, 0]" by (simp add: numeral_eq_Suc)
  then have "ParseIP ''::ffff:0:0'' = Some [0, 0, 0, 0, 0, 65535, 0, 0]"
    by (simp add: ParseIP_def parse_ipv6_def colon_groups_def parse_group_def hex_val_def is_digit_def)
  moreover have "TrimSpace ''::ffff:0:0/96'' = ''::ffff:0:0/96''" by (rule TrimSpace_id) (simp add: is_ascii_def is_space_def)
  ultimately show ?thesis
    by (simp add: ValidateAllowEntry_def ParseCIDR_def Cut_def bit_len_def digits_val_def is_digit_def mask_ip_def mask_group_def
        net_string_def is4_def dotted_def itoa_eval)
qed

lemma mapped_network_stuck: "ValidateAllowEntry L ''0.0.0.0/0'' = Inl (too_broad ''0.0.0.0/0'')"
proof -
  have "ParseIP ''0.0.0.0/0'' = None"
    by (simp add: ParseIP_def parse_ipv4_def parse_octet_def is_digit_def)
  moreover have "ParseIP ''0.0.0.0'' = Some [0, 0, 0, 0, 0, 65535, 0, 0]"
    by (simp add: ParseIP_def parse_ipv4_def parse_octet_def is_digit_def digits_val_def)
  moreover have "TrimSpace ''0.0.0.0/0'' = ''0.0.0.0/0''" by (rule TrimSpace_id) (simp add: is_ascii_def is_space_def)
  ultimately show ?thesis
    by (simp add: ValidateAllowEntry_def ParseCIDR_def Cut_def bit_len_def digits_val_def is_digit_def mask_ip_def mask_group_def
        net_string_def is4_def dotted_def itoa_eval)
qed

end
