(* ===== verification/Ops_Services.thy ===== *)
theory Ops_Services
  imports Ops_Fail2ban Mtasts
begin

text \<open>
  \<open>ops/services.go\<close> and \<open>ops/logs.go\<close>: the services and the logs the dashboard may touch, and what it may do to them. \<open>P\<close> stands for \<open>time.Parse\<close> with the layout of
  \<open>systemctl\<close>.
\<close>

section \<open>The catalog\<close>

record service_def =
  SD_Unit :: string
  SD_Label :: string
  SD_Description :: string
  SD_Actions :: "string list"
  SD_Async :: bool
  SD_Warning :: string

definition Allows :: "'a service_def_scheme \<Rightarrow> string \<Rightarrow> bool" where
  "Allows d action \<longleftrightarrow> action \<in> set (SD_Actions d)"

definition Start :: string where "Start = ''start''"
definition Stop :: string where "Stop = ''stop''"
definition Restart :: string where "Restart = ''restart''"
definition Reload :: string where "Reload = ''reload''"

definition svc :: "string \<Rightarrow> string \<Rightarrow> string \<Rightarrow> string list \<Rightarrow> bool \<Rightarrow> string \<Rightarrow> service_def" where
  "svc unit label description actions async warning =
     \<lparr>SD_Unit = unit, SD_Label = label, SD_Description = description, SD_Actions = actions, SD_Async = async, SD_Warning = warning\<rparr>"

definition base_catalog :: "service_def list" where
  "base_catalog =
    [svc ''postfix'' ''Postfix'' ''Sends and receives mail (SMTP)'' [Start, Stop, Restart, Reload] False
       (''Stopping Postfix stops all mail delivery. Senders retry later, so nothing is lost while it'' @ apos @ ''s briefly down.''),
     svc ''dovecot'' ''Dovecot'' ''Mailbox access (IMAP) and local delivery'' [Start, Stop, Restart, Reload] False
       (''Restarting Dovecot disconnects everyone'' @ apos @ ''s mail apps for a moment; they reconnect automatically.''),
     svc ''rspamd'' ''Rspamd'' ''Spam filtering, DKIM signing and DMARC'' [Start, Stop, Restart, Reload] False
       ''While Rspamd is stopped, mail is accepted without spam filtering or DKIM signing.'',
     svc ''clamav-daemon'' ''ClamAV'' ''Virus scanning of incoming mail'' [Start, Stop, Restart] False
       ''ClamAV takes about a minute and a lot of memory to load its signatures after a restart.'',
     svc ''clamav-freshclam'' ''Freshclam'' ''Keeps virus signatures up to date'' [Start, Stop, Restart] False [],
     svc ''redis-server'' ''Redis'' (''Rspamd'' @ apos @ ''s statistics and rate-limit store'') [Restart] False [],
     svc ''unbound'' ''Unbound'' ''Local DNS resolver for spam blocklist lookups'' [Restart, Reload] False [],
     svc ''fail2ban'' ''Fail2ban'' ''Bans IPs after repeated failed logins'' [Restart, Reload] False
       ''Restarting fail2ban keeps current bans (they are stored on disk).'',
     svc ''mariadb'' ''MariaDB'' ''Users, groups, domains and settings database'' [Restart] True
       ''Mail lookups and this dashboard pause for a few seconds while MariaDB restarts.'',
     svc ''patrabahokd'' ''patrabahokd'' ''This dashboard, the APIs and group posting rules'' [Restart] True
       ''The dashboard is unavailable for a few seconds while it restarts. Reload the page afterwards.'']"

definition php_unit_of :: "string \<Rightarrow> string" where
  "php_unit_of out = (case find (\<lambda>f. f \<noteq> []) (map Fields (split_on (CHR 0x0A) out)) of
       Some f \<Rightarrow> TrimSuffix (hd f) ''.service'' | None \<Rightarrow> ''php-fpm'')"

definition list_php :: "string list" where
  "list_php = [''systemctl'', ''list-unit-files'', ''--no-legend'', ''php*-fpm.service'']"

definition phpFPMUnit :: "lib \<Rightarrow> string op" where
  "phpFPMUnit L = andThen (Output L list_php) (\<lambda>(out, err). Return (if err = None then php_unit_of out else ''php-fpm''))"

definition webmail_roundcube :: "string \<Rightarrow> service_def list" where
  "webmail_roundcube php =
    [svc ''nginx'' ''nginx'' ''Serves Roundcube webmail (loopback only)'' [Restart, Reload] False [],
     svc php ''PHP-FPM'' ''Runs Roundcube webmail'' [Restart, Reload] False []]"

definition webmail_custom :: "service_def list" where
  "webmail_custom =
    [svc ''patrabahok-mail'' ''patrabahok Mail'' ''Webmail client'' [Start, Stop, Restart] False [],
     svc ''postgresql'' ''PostgreSQL'' ''Webmail cache database'' [Restart] False []]"

definition Catalog :: "lib \<Rightarrow> string \<Rightarrow> service_def list op" where
  "Catalog L webmail =
     (if webmail = ''patrabahok'' \<or> webmail = ''roundcube''
      then andThen (phpFPMUnit L) (\<lambda>php. Return (base_catalog @ webmail_roundcube php))
      else Return (base_catalog @ (if webmail = ''custom'' then webmail_custom else [])))"

definition Find :: "lib \<Rightarrow> string \<Rightarrow> string \<Rightarrow> service_def option op" where
  "Find L webmail unit = andThen (Catalog L webmail) (\<lambda>defs. Return (find (\<lambda>d. SD_Unit d = unit) defs))"

section \<open>States\<close>

record service_state = service_def +
  SS_Active :: string
  SS_SubState :: string
  SS_Since :: "int option"
  SS_MemoryBytes :: int
  SS_Enabled :: bool

definition Running :: "service_state \<Rightarrow> bool" where
  "Running s \<longleftrightarrow> SS_Active s = ''active''"

text \<open>The properties of one block of the output; a later line wins, and a property that is missing is empty.\<close>

definition show_props :: "string \<Rightarrow> string \<Rightarrow> string" where
  "show_props block = fold (\<lambda>line m. case Cut line ''='' of (k, v, ok) \<Rightarrow> if ok then m(k := v) else m) (split_on (CHR 0x0A) block) (\<lambda>k. [])"

definition by_unit :: "string \<Rightarrow> (string \<rightharpoonup> (string \<Rightarrow> string))" where
  "by_unit out = fold (\<lambda>block m. let props = show_props block; i = props ''Id'' in
     if i \<noteq> [] then m(TrimSuffix i ''.service'' \<mapsto> props) else m) (SplitTwo (CHR 0x0A) out) Map.empty"

definition state_of :: "(string \<Rightarrow> int option) \<Rightarrow> (string \<rightharpoonup> (string \<Rightarrow> string)) \<Rightarrow> service_def \<Rightarrow> service_state" where
  "state_of P units d =
     (let p = (case units (SD_Unit d) of None \<Rightarrow> (\<lambda>k. []) | Some props \<Rightarrow> props) in
      service_def.extend d
        \<lparr>SS_Active = (if p ''ActiveState'' = [] then ''unknown'' else p ''ActiveState''),
         SS_SubState = p ''SubState'',
         SS_Since = P (p ''ActiveEnterTimestamp''),
         SS_MemoryBytes = (case ParseInt64 (p ''MemoryCurrent'') of Some m \<Rightarrow> if 0 < m \<and> m < 2 ^ 50 then m else 0 | None \<Rightarrow> 0),
         SS_Enabled = (p ''UnitFileState'' = ''enabled'')\<rparr>)"

definition show_units :: "string list \<Rightarrow> string list" where
  "show_units units = [''systemctl'', ''show'', ''--property=Id,ActiveState,SubState,ActiveEnterTimestamp,MemoryCurrent,UnitFileState'']
     @ map (\<lambda>u. u @ ''.service'') units"

definition States :: "lib \<Rightarrow> (string \<Rightarrow> int option) \<Rightarrow> string \<Rightarrow> service_state list op" where
  "States L P webmail = andThen (Catalog L webmail) (\<lambda>defs.
     andThen (Output L (show_units (map SD_Unit defs))) (\<lambda>(out, err).
     Return (map (state_of P (by_unit out)) defs)))"

section \<open>Actions\<close>

definition ErrNotAllowed :: error where
  "ErrNotAllowed = ErrText (''that action isn'' @ apos @ ''t allowed for this service'')"

definition control_cmd :: "'a service_def_scheme \<Rightarrow> string \<Rightarrow> string list" where
  "control_cmd d action = [''systemctl'', action] @ (if SD_Async d then [''--no-block''] else []) @ [SD_Unit d @ ''.service'']"

definition Control :: "lib \<Rightarrow> string \<Rightarrow> string \<Rightarrow> string \<Rightarrow> unit op" where
  "Control L webmail unit action = andThen (Find L webmail unit) (\<lambda>found. case found of
       None \<Rightarrow> Raise ErrNotAllowed
     | Some d \<Rightarrow> if \<not> Allows d action then Raise ErrNotAllowed
         else andThen (CombinedOutput L (control_cmd d action)) (\<lambda>(out, err). case err of
             None \<Rightarrow> Return ()
           | Some e \<Rightarrow> Raise (ErrText (''systemctl '' @ action @ '' '' @ SD_Unit d @ '' failed: ''
               @ (if TrimSpace out = [] then err_text e else TrimSpace out)))))"

definition clampLines :: "int \<Rightarrow> int" where
  "clampLines n = (if n \<le> 0 then 200 else if n > 2000 then 2000 else n)"

definition journal_cmd :: "string \<Rightarrow> int \<Rightarrow> string list" where
  "journal_cmd unit n = [''journalctl'', ''-u'', unit @ ''.service'', ''-n'', itoa n, ''--no-pager'', ''-o'', ''short-iso'']"

definition ServiceLogs :: "lib \<Rightarrow> string \<Rightarrow> string \<Rightarrow> int \<Rightarrow> string op" where
  "ServiceLogs L webmail unit n = andThen (Find L webmail unit) (\<lambda>found. case found of
       None \<Rightarrow> Raise ErrNotAllowed
     | Some d \<Rightarrow> andThen (CombinedOutput L (journal_cmd (SD_Unit d) (clampLines n))) (\<lambda>(out, err). case err of
           Some e \<Rightarrow> if out = [] then Raise e else Return out
         | None \<Rightarrow> Return out))"

section \<open>Logs\<close>

record log_source =
  LS_Key :: string
  LS_Label :: string
  LS_Description :: string
  LS_File :: string
  LS_Unit :: string

definition logSources :: "log_source list" where
  "logSources =
    [\<lparr>LS_Key = ''mail'', LS_Label = ''Mail'', LS_Description = ''Postfix, Dovecot and Rspamd: deliveries, rejections, sign-ins'',
      LS_File = ''/var/log/mail.log'', LS_Unit = []\<rparr>,
     \<lparr>LS_Key = ''auth'', LS_Label = ''Authentication'', LS_Description = ''SSH and dashboard sign-in attempts'',
      LS_File = ''/var/log/auth.log'', LS_Unit = []\<rparr>,
     \<lparr>LS_Key = ''fail2ban'', LS_Label = ''Fail2ban'', LS_Description = ''Bans and unbans'', LS_File = ''/var/log/fail2ban.log'', LS_Unit = []\<rparr>,
     \<lparr>LS_Key = ''rspamd'', LS_Label = ''Rspamd'', LS_Description = ''Spam filter decisions and DKIM signing'',
      LS_File = ''/var/log/rspamd/rspamd.log'', LS_Unit = []\<rparr>,
     \<lparr>LS_Key = ''webmail'', LS_Label = ''Webmail'', LS_Description = ''Roundcube errors and failed sign-ins'',
      LS_File = ''/var/log/roundcube/errors.log'', LS_Unit = []\<rparr>,
     \<lparr>LS_Key = ''patrabahokd'', LS_Label = ''patrabahokd'', LS_Description = ''This dashboard, the APIs and group posting decisions'',
      LS_File = [], LS_Unit = ''patrabahokd''\<rparr>]"

fun present :: "log_source list \<Rightarrow> log_source list op" where
  "present [] = Return []"
| "present (s # rest) =
     (if LS_File s = [] then andThen (present rest) (\<lambda>out. Return (s # out))
      else andThen (stat_ok (LS_File s)) (\<lambda>there. andThen (present rest) (\<lambda>out. Return (if there then s # out else out))))"

definition LogSources :: "log_source list op" where
  "LogSources = present logSources"

definition findSource :: "string \<Rightarrow> log_source option op" where
  "findSource key = andThen LogSources (\<lambda>ss. Return (find (\<lambda>s. LS_Key s = key) ss))"

definition tail_cmd :: "log_source \<Rightarrow> int \<Rightarrow> string list" where
  "tail_cmd s n = (if LS_File s \<noteq> [] then [''tail'', ''-n'', itoa n, LS_File s] else journal_cmd (LS_Unit s) n)"

definition last_lines :: "int \<Rightarrow> 'a list \<Rightarrow> 'a list" where
  "last_lines n lines = (if int (length lines) > n then drop (nat (int (length lines) - n)) lines else lines)"

definition TailLog :: "lib \<Rightarrow> string \<Rightarrow> int \<Rightarrow> string \<Rightarrow> string list op" where
  "TailLog L key n0 filter0 = andThen (findSource key) (\<lambda>found. case found of
       None \<Rightarrow> Raise ErrNotAllowed
     | Some src \<Rightarrow> (let n = clampLines n0; scan = (if filter0 \<noteq> [] then 20000 else n) in
         andThen (Output L (tail_cmd src scan)) (\<lambda>(out, err).
         if err \<noteq> None \<and> out = [] then Raise ExecError
         else (let flt = ToLower (uni L) (TrimSpace filter0) in
           Return (last_lines n (filter (\<lambda>line. flt = [] \<or> Contains (ToLower (uni L) line) flt) (ScanLines 1048576 out)))))))"

definition LineLevel :: "lib \<Rightarrow> string \<Rightarrow> string" where
  "LineLevel L line = (let l = ToLower (uni L) line in
     if Contains l ''error'' \<or> Contains l ''fatal'' \<or> Contains l ''panic'' \<or> Contains l ''reject'' \<or> Contains l '' ban ''
       \<or> Contains l ''auth failed'' \<or> Contains l ''authentication failed'' then ''error''
     else if Contains l ''warn'' \<or> Contains l ''deferred'' \<or> Contains l ''failed'' then ''warn''
     else [])"

end
