(* ===== verification/Ops_Queue.thy ===== *)
theory Ops_Queue
  imports Ops_Services Cloudflare_Client
begin

text \<open>
  \<open>ops/queue.go\<close> and \<open>ops/stats.go\<close>: the Postfix queue, and what Rspamd and ClamAV say of themselves. \<open>J\<close> is the JSON parser: the value a text holds.
\<close>

section \<open>The queue\<close>

record queued_recipient =
  QR_Address :: string
  QR_Reason :: string

record queued_message =
  QM_ID :: string
  QM_Queue :: string
  QM_Arrival :: int
  QM_Size :: int
  QM_Sender :: string
  QM_Recipients :: "queued_recipient list"

definition FirstReason :: "queued_message \<Rightarrow> string" where
  "FirstReason m = (case find (\<lambda>r. QR_Reason r \<noteq> []) (QM_Recipients m) of Some r \<Rightarrow> QR_Reason r | None \<Rightarrow> [])"

definition queueIDRe :: regex where
  "queueIDRe = Rep (Cls [(CHR ''0'', CHR ''9''), (CHR ''A'', CHR ''Z''), (CHR ''a'', CHR ''z'')]) 5 32"

definition recipient_fields :: "unicode \<Rightarrow> (string \<times> json) list \<Rightarrow> queued_recipient option" where
  "recipient_fields U ms = Option.bind (field U ms ''address'' set_string []) (\<lambda>a.
     Option.bind (field U ms ''delay_reason'' set_string []) (\<lambda>reason. Some \<lparr>QR_Address = a, QR_Reason = reason\<rparr>))"

definition message_fields :: "unicode \<Rightarrow> (string \<times> json) list \<Rightarrow> queued_message option" where
  "message_fields U ms = Option.bind (field U ms ''queue_name'' set_string []) (\<lambda>queue.
     Option.bind (field U ms ''queue_id'' set_string []) (\<lambda>i.
     Option.bind (field U ms ''arrival_time'' set_int 0) (\<lambda>arrival.
     Option.bind (field U ms ''message_size'' set_int 0) (\<lambda>size.
     Option.bind (field U ms ''sender'' set_string []) (\<lambda>sender.
     Option.bind (field U ms ''recipients'' (set_structs (recipient_fields U)) []) (\<lambda>rs.
     Some \<lparr>QM_ID = i, QM_Queue = queue, QM_Arrival = arrival, QM_Size = size,
       QM_Sender = (if sender = [] then ''<> (bounce)'' else sender), QM_Recipients = rs\<rparr>))))))"

text \<open>One message a line; a line that is no message is skipped. Messages with the same time of arrival may stand in any order, here that of the output.\<close>

definition messages :: "unicode \<Rightarrow> (string \<Rightarrow> json option) \<Rightarrow> string \<Rightarrow> queued_message list" where
  "messages U J out = sort_key QM_Arrival (List.map_filter (\<lambda>line. decode_into J line (message_fields U)) (ScanLines 16777216 out))"

definition Queue :: "lib \<Rightarrow> (string \<Rightarrow> json option) \<Rightarrow> queued_message list op" where
  "Queue L J = andThen (Output L [''postqueue'', ''-j'']) (\<lambda>(out, err). case err of
       Some e \<Rightarrow> Raise (Wrapped ''postqueue'' e) | None \<Rightarrow> Return (messages (uni L) J out))"

text \<open>A command whose output becomes the error when it fails.\<close>

definition tool :: "lib \<Rightarrow> string \<Rightarrow> string list \<Rightarrow> unit op" where
  "tool L name args = andThen (CombinedOutput L (name # args)) (\<lambda>(out, err). case err of
       Some e \<Rightarrow> Raise (ErrText (name @ '': '' @ TrimSpace out)) | None \<Rightarrow> Return ())"

definition postsuper :: "lib \<Rightarrow> string list \<Rightarrow> unit op" where
  "postsuper L args = tool L ''postsuper'' args"

definition invalid_queue_id :: error where "invalid_queue_id = ErrText ''invalid queue ID''"

definition DeleteMessage :: "lib \<Rightarrow> string \<Rightarrow> unit op" where
  "DeleteMessage L i = (if \<not> MatchString queueIDRe i then Raise invalid_queue_id else postsuper L [''-d'', i])"

definition RetryMessage :: "lib \<Rightarrow> string \<Rightarrow> unit op" where
  "RetryMessage L i = (if \<not> MatchString queueIDRe i then Raise invalid_queue_id else tool L ''postqueue'' [''-i'', i])"

definition HoldMessage :: "lib \<Rightarrow> string \<Rightarrow> unit op" where
  "HoldMessage L i = (if \<not> MatchString queueIDRe i then Raise invalid_queue_id else postsuper L [''-h'', i])"

definition ReleaseMessage :: "lib \<Rightarrow> string \<Rightarrow> unit op" where
  "ReleaseMessage L i = (if \<not> MatchString queueIDRe i then Raise invalid_queue_id else postsuper L [''-H'', i])"

definition DeleteAllDeferred :: "lib \<Rightarrow> unit op" where
  "DeleteAllDeferred L = postsuper L [''-d'', ''ALL'', ''deferred'']"

definition FlushQueue :: "lib \<Rightarrow> unit op" where
  "FlushQueue L = tool L ''postqueue'' [''-f'']"

section \<open>Statistics\<close>

record action_count =
  AC_Action :: string
  AC_Count :: int
  AC_Percent :: rat

record spam_stats =
  SP_Available :: bool
  SP_Scanned :: int
  SP_Actions :: "action_count list"
  SP_Learned :: int

text \<open>
  The three patterns, with the flag \<open>m\<close>: what matches at the start of a line. Each part of a pattern ends where the next one can begin and nowhere else, so a
  match is found without going back. \<open>\s\<close> is a blank, a tab, a line feed, a form feed or a carriage return.
\<close>

definition re_space :: "char \<Rightarrow> bool" where
  "re_space c \<longleftrightarrow> c \<in> {CHR '' '', CHR 0x09, CHR 0x0A, CHR 0x0C, CHR 0x0D}"

text \<open>\<open>^<head>\s*(\d+)\<close>: the digits, and what follows them.\<close>

definition match_count :: "string \<Rightarrow> string \<Rightarrow> (string \<times> string) option" where
  "match_count head s = (if \<not> prefix head s then None
     else (let t = dropWhile re_space (drop (length head) s); ds = takeWhile is_digit t in
       if ds = [] then None else Some (ds, drop (length ds) t)))"

text \<open>The places where \<open>^\<close> matches: the start and after every line feed.\<close>

fun line_starts :: "string \<Rightarrow> string list" where
  "line_starts [] = []"
| "line_starts (c # s) = (if c = CHR 0x0A then s # line_starts s else line_starts s)"

definition find_count :: "string \<Rightarrow> string \<Rightarrow> string option" where
  "find_count head s = map_option fst (find (\<lambda>m. True) (List.map_filter (match_count head) (s # line_starts s)))"

definition scannedRe :: string where "scannedRe = ''Messages scanned:''"
definition learnedRe :: string where "learnedRe = ''Messages learned:''"
definition actionRe :: string where "actionRe = ''Messages with action ''"

text \<open>\<open>^Messages with action ([^:]+):\s*(\d+),\s*([\d.]+)%\<close>\<close>

definition match_action :: "string \<Rightarrow> ((string \<times> string \<times> string) \<times> string) option" where
  "match_action s = (if \<not> prefix actionRe s then None
     else (let a = takeWhile (\<lambda>c. c \<noteq> CHR '':'') (drop (length actionRe) s) in
       if a = [] then None
       else (case match_count (actionRe @ a @ '':'') s of None \<Rightarrow> None
         | Some (n, t) \<Rightarrow> if \<not> prefix '','' t then None
             else (let u = dropWhile re_space (drop 1 t); p = takeWhile (\<lambda>c. is_digit c \<or> c = CHR ''.'') u; v = drop (length p) u in
               if p = [] \<or> \<not> prefix ''%'' v then None else Some ((a, n, p), drop 1 v)))))"

text \<open>All matches: after one, the search goes on behind it.\<close>

function actions_from :: "bool \<Rightarrow> string \<Rightarrow> (string \<times> string \<times> string) list" where
  "actions_from at_start s = (case (if at_start then match_action s else None) of
       Some (m, rest) \<Rightarrow> if length rest < length s then m # actions_from False rest else []
     | None \<Rightarrow> (case s of [] \<Rightarrow> [] | c # t \<Rightarrow> actions_from (c = CHR 0x0A) t))"
  by pat_completeness auto
termination
  by (relation "measure (length \<circ> snd)") auto

declare actions_from.simps [simp del]

definition int_or_zero :: "string \<Rightarrow> int" where
  "int_or_zero ds = AtoiValue ds"

definition spam_of :: "string \<Rightarrow> spam_stats" where
  "spam_of s = \<lparr>SP_Available = True,
     SP_Scanned = (case find_count scannedRe s of None \<Rightarrow> 0 | Some ds \<Rightarrow> int_or_zero ds),
     SP_Actions = map (\<lambda>(a, n, p). \<lparr>AC_Action = TrimSpace a, AC_Count = int_or_zero n, AC_Percent = ParseDecimal p\<rparr>) (actions_from True s),
     SP_Learned = (case find_count learnedRe s of None \<Rightarrow> 0 | Some ds \<Rightarrow> int_or_zero ds)\<rparr>"

definition no_stats :: spam_stats where
  "no_stats = \<lparr>SP_Available = False, SP_Scanned = 0, SP_Actions = [], SP_Learned = 0\<rparr>"

definition Spam :: "lib \<Rightarrow> spam_stats op" where
  "Spam L = andThen (Output L [''rspamc'', ''stat'']) (\<lambda>(out, err). Return (if err \<noteq> None then no_stats else spam_of out))"

record antivirus_info =
  AV_Available :: bool
  AV_Engine :: string
  AV_Signature :: string
  AV_Updated :: string

definition antivirus_of :: "string \<Rightarrow> antivirus_info" where
  "antivirus_of out = (let parts = SplitN (CHR ''/'') (TrimSpace out) 3 in
     \<lparr>AV_Available = True, AV_Engine = TrimPrefix (hd parts) ''ClamAV '',
      AV_Signature = (if length parts > 1 then parts ! 1 else []), AV_Updated = (if length parts > 2 then parts ! 2 else [])\<rparr>)"

definition Antivirus :: "lib \<Rightarrow> antivirus_info op" where
  "Antivirus L = andThen (Output L [''clamdscan'', ''--version'']) (\<lambda>(out, err).
     if err = None then Return (antivirus_of out)
     else andThen (Output L [''clamscan'', ''--version'']) (\<lambda>(out2, err2).
       Return (if err2 = None then antivirus_of out2 else \<lparr>AV_Available = False, AV_Engine = [], AV_Signature = [], AV_Updated = []\<rparr>)))"

end
