(* ===== verification/Diag.thy ===== *)
theory Diag
  imports Go_Library Mtasts
begin

text \<open>
  Package diag: the checks of the diagnosis page. \<open>X\<close> reads a certificate from the text of a PEM file: an error, or its name and the end of its validity; \<open>F\<close> is
  \<open>statfs\<close>: the blocks, the size of a block and the blocks that are available.
\<close>

section \<open>Services and configurations\<close>

definition Services :: "string list" where
  "Services = [''postfix'', ''dovecot'', ''rspamd'', ''redis-server'', ''clamav-daemon'', ''fail2ban'', ''unbound'', ''mariadb'', ''patrabahokd'']"

record service_status =
  SV_Name :: string
  SV_Active :: bool

definition is_active_cmd :: "string \<Rightarrow> string list" where
  "is_active_cmd s = [''systemctl'', ''is-active'', ''--quiet'', s]"

fun check_services :: "lib \<Rightarrow> string list \<Rightarrow> service_status list op" where
  "check_services L [] = Return []"
| "check_services L (s # rest) = andThen (RunHost L (is_active_cmd s)) (\<lambda>x.
     andThen (check_services L rest) (\<lambda>out. Return (\<lparr>SV_Name = s, SV_Active = X_ok x\<rparr> # out)))"

definition CheckServices :: "lib \<Rightarrow> service_status list op" where
  "CheckServices L = check_services L Services"

record config_check =
  CC_Name :: string
  CC_Output :: string
  CC_Pass :: bool

definition config_cmds :: "(string \<times> string list) list" where
  "config_cmds = [(''postfix check'', [''postfix'', ''check'']), (''doveconf -n'', [''doveconf'', ''-n'']), (''rspamd configtest'', [''rspamadm'', ''configtest''])]"

fun check_configs :: "lib \<Rightarrow> (string \<times> string list) list \<Rightarrow> config_check list op" where
  "check_configs L [] = Return []"
| "check_configs L ((name, cmd) # rest) = andThen (CombinedOutput L cmd) (\<lambda>(b, err).
     andThen (check_configs L rest) (\<lambda>out. Return (\<lparr>CC_Name = name, CC_Output = TrimSpace b, CC_Pass = (err = None)\<rparr> # out)))"

definition CheckConfigs :: "lib \<Rightarrow> config_check list op" where
  "CheckConfigs L = check_configs L config_cmds"

section \<open>Certificates and disks\<close>

record tls_info =
  TI_CommonName :: string
  TI_NotAfter :: int
  TI_DaysLeft :: int
  TI_Valid :: bool
  TI_Error :: string

definition tls_error :: "error \<Rightarrow> tls_info" where
  "tls_error e = \<lparr>TI_CommonName = [], TI_NotAfter = 0, TI_DaysLeft = 0, TI_Valid = False, TI_Error = err_text e\<rparr>"

definition CheckTLS :: "(string \<Rightarrow> error + string \<times> int) \<Rightarrow> string \<Rightarrow> tls_info op" where
  "CheckTLS X certPath = andThen (Attempt (ReadFile certPath)) (\<lambda>r. case r of
       Inl e \<Rightarrow> Return (tls_error e)
     | Inr data \<Rightarrow> (case X data of
           Inl e \<Rightarrow> Return (tls_error e)
         | Inr (name, notAfter) \<Rightarrow> andThen Now (\<lambda>now. Return
             \<lparr>TI_CommonName = name, TI_NotAfter = notAfter, TI_DaysLeft = quot (notAfter - now) 86400, TI_Valid = (now < notAfter), TI_Error = []\<rparr>)))"

record disk_usage =
  DU_Path :: string
  DU_TotalBytes :: int
  DU_FreeBytes :: int
  DU_UsedPercent :: rat

text \<open>\<open>uint64\<close> arithmetic.\<close>

definition u64 :: "int \<Rightarrow> int" where "u64 n = n mod 2 ^ 64"

definition disk_usage_of :: "string \<Rightarrow> int \<Rightarrow> int \<Rightarrow> int \<Rightarrow> disk_usage" where
  "disk_usage_of path blocks bsize bavail =
     (let total = u64 (blocks * bsize); free = u64 (bavail * bsize); used = u64 (total - free) in
      \<lparr>DU_Path = path, DU_TotalBytes = total, DU_FreeBytes = free,
       DU_UsedPercent = (if total > 0 then f64 (f64 (f64 (of_int used) / f64 (of_int total)) * 100) else 0)\<rparr>)"

definition CheckDisk :: "(string \<Rightarrow> (int \<times> int \<times> int) option) \<Rightarrow> string \<Rightarrow> disk_usage option" where
  "CheckDisk F path = map_option (\<lambda>(blocks, bsize, bavail). disk_usage_of path blocks bsize bavail) (F path)"

section \<open>Recent problems\<close>

definition issue :: "lib \<Rightarrow> string \<Rightarrow> bool" where
  "issue L line = (let l = ToLower (uni L) line in
     Contains l ''reject'' \<or> Contains l ''bounce'' \<or> Contains l ''error'' \<or> Contains l ''warning'' \<or> Contains l ''fatal'')"

text \<open>The loop goes through the lines from the last one until it has found \<open>maxLines\<close>.\<close>

fun collect_issues :: "lib \<Rightarrow> int \<Rightarrow> string list \<Rightarrow> string list \<Rightarrow> string list" where
  "collect_issues L maxLines found [] = found"
| "collect_issues L maxLines found (line # before) =
     (if int (length found) < maxLines then collect_issues L maxLines (if issue L line then found @ [line] else found) before else found)"

definition recent_of :: "lib \<Rightarrow> int \<Rightarrow> string \<Rightarrow> string list" where
  "recent_of L maxLines out = rev (collect_issues L maxLines [] (rev (split_on (CHR 0x0A) out)))"

definition RecentIssues :: "lib \<Rightarrow> string \<Rightarrow> int \<Rightarrow> string list op" where
  "RecentIssues L logPath maxLines = andThen (Output L [''tail'', ''-n'', ''3000'', logPath]) (\<lambda>(out, err). case err of
       Some e \<Rightarrow> Raise e | None \<Rightarrow> Return (recent_of L maxLines out))"

section \<open>Bans\<close>

record banned_ip =
  BI_Jail :: string
  BI_IP :: string

definition value_of_line :: "string \<Rightarrow> string \<Rightarrow> string option" where
  "value_of_line what line = (if \<not> Contains line what then None
     else (let parts = SplitN (CHR '':'') line 2 in if length parts \<noteq> 2 then None else Some (parts ! 1)))"

definition listed_jails :: "string \<Rightarrow> string list" where
  "listed_jails out = concat (map (\<lambda>line. case value_of_line ''Jail list'' line of None \<Rightarrow> []
     | Some v \<Rightarrow> filter (\<lambda>j. j \<noteq> []) (map TrimSpace (split_on (CHR '','') v))) (split_on (CHR 0x0A) out))"

definition banned_in :: "string \<Rightarrow> string \<Rightarrow> banned_ip list" where
  "banned_in jail out = concat (map (\<lambda>line. case value_of_line ''Banned IP list'' line of None \<Rightarrow> []
     | Some v \<Rightarrow> map (\<lambda>ip. \<lparr>BI_Jail = jail, BI_IP = ip\<rparr>) (Fields v)) (split_on (CHR 0x0A) out))"

fun bans_of :: "lib \<Rightarrow> string list \<Rightarrow> banned_ip list op" where
  "bans_of L [] = Return []"
| "bans_of L (jail # jails) = andThen (CombinedOutput L [''fail2ban-client'', ''status'', jail]) (\<lambda>(out, err).
     andThen (bans_of L jails) (\<lambda>rest. Return (if err \<noteq> None then rest else banned_in jail out @ rest)))"

definition Fail2banBans :: "lib \<Rightarrow> banned_ip list op" where
  "Fail2banBans L = andThen (CombinedOutput L [''fail2ban-client'', ''status'']) (\<lambda>(out, err). case err of
       Some e \<Rightarrow> Raise e | None \<Rightarrow> bans_of L (listed_jails out))"

section \<open>The last problems of the log\<close>

lemma collect_issues_take:
  "collect_issues L n found ls = found @ take (nat (n - int (length found))) (filter (issue L) ls)"
proof (induction L n found ls rule: collect_issues.induct)
  case (2 L n found line before)
  show ?case
  proof (cases "int (length found) < n")
    case True
    moreover from True have "nat (n - int (length found)) = Suc (nat (n - int (length found) - 1))" by simp
    ultimately show ?thesis using 2 by (simp add: algebra_simps)
  qed simp
qed simp

text \<open>
  The loop that goes backwards finds the last problems. The lines \<open>RecentIssues\<close> returns are the last \<open>maxLines\<close> lines of the output that mention a problem, in
  their order.
\<close>

theorem recent_issues_last:
  "recent_of L maxLines out = (let hits = filter (issue L) (split_on (CHR 0x0A) out) in drop (length hits - nat maxLines) hits)"
  by (simp add: recent_of_def collect_issues_take Let_def take_rev flip: rev_filter)

end
