(* ===== verification/Authtoken.thy ===== *)
theory Authtoken
  imports Credentials
begin

text \<open>
  Package authtoken: the bearer tokens of the local API. Only the digest of a token is kept; a token carries the scopes it was created with.
\<close>

definition tokenPrefix :: string where "tokenPrefix = ''pbk_''"

record token_info =
  TI_ID :: nat
  TI_Name :: string
  TI_Scopes :: "string list"
  TI_CreatedAt :: int
  TI_LastUsedAt :: "int option"

text \<open>The zero value of \<open>time.Time\<close>, 1 January of year 1, in seconds.\<close>

definition zero_time :: int where "zero_time = - 62135596800"

definition HasScope :: "token_info \<Rightarrow> string \<Rightarrow> bool" where
  "HasScope t required \<longleftrightarrow> list_ex (\<lambda>s. s = ''*'' \<or> s = required) (TI_Scopes t)"

definition ErrInvalidToken :: error where
  "ErrInvalidToken = ErrInvalid ''invalid or revoked token''"

text \<open>The unique index on the digest, and the statements.\<close>

definition tkey :: "lib \<Rightarrow> token_row \<Rightarrow> string" where "tkey L t = ck L (t_token_hash t)"

definition ins_token :: "lib \<Rightarrow> token_row \<Rightarrow> world \<Rightarrow> error + nat \<times> world" where
  "ins_token L t w = (case insert_row (tkey L) (t\<lparr>t_id := next_id w\<rparr>) (api_tokens w) of
       Inl e \<Rightarrow> Inl e
     | Inr ts \<Rightarrow> Inr (1, w\<lparr>api_tokens := ts, next_id := Suc (next_id w)\<rparr>))"

definition del_tokens :: "(token_row \<Rightarrow> bool) \<Rightarrow> world \<Rightarrow> error + nat \<times> world" where
  "del_tokens P w = Inr (count_rows P (api_tokens w), w\<lparr>api_tokens := delete_rows P (api_tokens w)\<rparr>)"

definition use_token :: "nat \<Rightarrow> world \<Rightarrow> error + nat \<times> world" where
  "use_token i w = (let P = (\<lambda>t. t_id t = i); f = (\<lambda>t. t\<lparr>t_last_used_at := Some (clock w)\<rparr>) in
     Inr (changed_rows P f (api_tokens w), w\<lparr>api_tokens := update_rows P f (api_tokens w)\<rparr>))"

section \<open>Operations\<close>

definition TokenCreate :: "lib \<Rightarrow> string \<Rightarrow> string list \<Rightarrow> string op" where
  "TokenCreate L name scopes0 =
     (if name = [] then Raise (ErrText ''token name is required'')
      else let scopes = (if scopes0 = [] then [''*''] else scopes0) in
        andThen (generatePlaintext tokenPrefix) (\<lambda>plaintext.
        andThen (Exec (\<lambda>w. ins_token L \<lparr>t_id = 0, t_name = name, t_token_hash = hashToken L plaintext,
            t_scopes = Join scopes '','', t_created_at = clock w, t_last_used_at = None\<rparr> w)) (\<lambda>_.
        Return plaintext)))"

definition TokenList :: "token_info list op" where
  "TokenList = Query (\<lambda>w. map (\<lambda>t. \<lparr>TI_ID = t_id t, TI_Name = t_name t, TI_Scopes = split_on (CHR '','') (t_scopes t),
     TI_CreatedAt = t_created_at t, TI_LastUsedAt = t_last_used_at t\<rparr>) (sort_key t_id (api_tokens w)))"

definition TokenRevoke :: "lib \<Rightarrow> string \<Rightarrow> unit op" where
  "TokenRevoke L name =
     andThen (Exec (del_tokens (\<lambda>t. ck L (t_name t) = ck L name))) (\<lambda>n.
     if n = 0 then Raise (ErrText (''no token named '' @ Quote (uni L) name)) else Return ())"

text \<open>What \<open>Verify\<close> makes of a row: it reads neither of the two times.\<close>

definition scan_token :: "token_row \<Rightarrow> token_info" where
  "scan_token t = \<lparr>TI_ID = t_id t, TI_Name = t_name t, TI_Scopes = split_on (CHR '','') (t_scopes t),
     TI_CreatedAt = zero_time, TI_LastUsedAt = None\<rparr>"

definition TokenVerify :: "lib \<Rightarrow> string \<Rightarrow> token_info op" where
  "TokenVerify L plaintext =
     (if plaintext = [] then Raise ErrInvalidToken
      else andThen (Query (\<lambda>w. row_at (tkey L) (ck L (hashToken L plaintext)) (api_tokens w))) (\<lambda>row. case row of
          None \<Rightarrow> Raise ErrInvalidToken
        | Some t \<Rightarrow> andThen (Attempt (Exec (use_token (t_id t)))) (\<lambda>_. Return (scan_token t))))"

section \<open>The store of tokens is a store of credentials\<close>

definition tokens_ok :: "lib \<Rightarrow> world \<Rightarrow> bool" where
  "tokens_ok L w \<longleftrightarrow> keyed (tkey L) (api_tokens w)"

definition tokens_at :: "lib \<Rightarrow> token_row list \<Rightarrow> string \<Rightarrow> token_info option" where
  "tokens_at L ts p = (if p = [] then None else map_option scan_token (row_at (tkey L) (ck L (hashToken L p)) ts))"

definition token_lookup :: "lib \<Rightarrow> world \<Rightarrow> string \<Rightarrow> token_info option" where
  "token_lookup L w = tokens_at L (api_tokens w)"

definition same_token :: "lib \<Rightarrow> string \<Rightarrow> string \<Rightarrow> bool" where
  "same_token L x p \<longleftrightarrow> x \<noteq> [] \<and> ck L (hashToken L x) = ck L (hashToken L p)"

definition token_asked :: "lib \<Rightarrow> world \<Rightarrow> string \<times> string list \<Rightarrow> token_info \<Rightarrow> bool" where
  "token_asked L w q u \<longleftrightarrow> TI_Name u = fst q \<and> TI_ID u = next_id w
     \<and> TI_Scopes u = split_on (CHR '','') (Join (if snd q = [] then [''*''] else snd q) '','')"

definition token_named :: "lib \<Rightarrow> world \<Rightarrow> string \<Rightarrow> string \<Rightarrow> bool" where
  "token_named L w n p \<longleftrightarrow> (case token_lookup L w p of None \<Rightarrow> False | Some u \<Rightarrow> ck L (TI_Name u) = ck L n)"

lemma token_frame [simp]:
  "tokens_ok L (tick w) = tokens_ok L w" "tokens_ok L (w\<lparr>entropy := b\<rparr>) = tokens_ok L w"
  "token_lookup L (tick w) = token_lookup L w" "token_lookup L (w\<lparr>entropy := b\<rparr>) = token_lookup L w"
  by (simp_all add: tokens_ok_def token_lookup_def)

lemma scan_token_used [simp]: "scan_token (t\<lparr>t_last_used_at := u\<rparr>) = scan_token t"
  by (simp add: scan_token_def)

lemma tokens_at_used [simp]: "tokens_at L (update_rows P (\<lambda>t. t\<lparr>t_last_used_at := u\<rparr>) ts) = tokens_at L ts"
proof
  have "row_at (tkey L) k (update_rows P (\<lambda>t. t\<lparr>t_last_used_at := u\<rparr>) ts)
      = map_option (\<lambda>t. if P t then t\<lparr>t_last_used_at := u\<rparr> else t) (row_at (tkey L) k ts)" for k
    by (rule row_at_update_rows) (simp add: tkey_def)
  then show "tokens_at L (update_rows P (\<lambda>t. t\<lparr>t_last_used_at := u\<rparr>) ts) p = tokens_at L ts p" for p
    by (auto simp: tokens_at_def option.map_comp comp_def intro!: map_option_cong)
qed

lemma TokenCreate_effect:
  assumes "tokens_ok L w"
  shows "after (TokenCreate L (fst q) (snd q)) (\<lambda>r w'. tokens_ok L w' \<and> (case r of Inl e \<Rightarrow> token_lookup L w' = token_lookup L w
      | Inr p \<Rightarrow> same_token L p p \<and> (\<exists>u. token_asked L w q u
          \<and> token_lookup L w' = (\<lambda>x. if same_token L x p then Some u else token_lookup L w x)))) w"
    (is "after _ ?Q w")
proof -
  let ?same = "\<lambda>w1. tokens_ok L w1 \<and> token_lookup L w1 = token_lookup L w \<and> next_id w1 = next_id w"
  let ?row = "\<lambda>p t. \<lparr>t_id = 0, t_name = fst q, t_token_hash = hashToken L p,
            t_scopes = Join (if snd q = [] then [''*''] else snd q) '','', t_created_at = t, t_last_used_at = None\<rparr>"
  have store: "after (andThen (Exec (\<lambda>w. ins_token L (?row p (clock w)) w)) (\<lambda>_. Return p)) ?Q w1"
    if w1: "?same w1" and p: "prefix tokenPrefix p" for p w1
  proof -
    have "?Q (Inr p) w2" if ins: "ins_token L (?row p t) v = Inr (n, w2)" and v: "?same v" for t v n w2
    proof -
      obtain ts where ts: "insert_row (tkey L) ((?row p t)\<lparr>t_id := next_id v\<rparr>) (api_tokens v) = Inr ts"
        and w2: "w2 = v\<lparr>api_tokens := ts, next_id := Suc (next_id v)\<rparr>"
        using ins by (auto simp: ins_token_def split: sum.splits)
      let ?u = "scan_token ((?row p t)\<lparr>t_id := next_id v\<rparr>)"
      have ok: "tokens_ok L w2" using v keyed_insert_row [OF _ ts] by (simp add: tokens_ok_def w2)
      have self: "same_token L p p" using p by (auto simp: same_token_def tokenPrefix_def)
      have asked: "token_asked L w q ?u" using v by (simp add: token_asked_def scan_token_def)
      have "token_lookup L w2 = (\<lambda>x. if same_token L x p then Some ?u else token_lookup L v x)"
        using row_at_insert_row [OF ts]
        by (auto simp: fun_eq_iff token_lookup_def tokens_at_def same_token_def w2 tkey_def)
      moreover have "token_lookup L v = token_lookup L w" using v by simp
      ultimately have look: "token_lookup L w2 = (\<lambda>x. if same_token L x p then Some ?u else token_lookup L w x)"
        by (simp only:)
      show ?thesis unfolding sum.case by (intro conjI ok self exI [of _ ?u] asked look)
    qed
    with w1 show ?thesis by (auto simp: wp split: sum.split)
  qed
  show ?thesis
    unfolding TokenCreate_def Let_def
  proof (cases "fst q = []")
    case False
    then show "after (if fst q = [] then Raise (ErrText ''token name is required'') else
        andThen (generatePlaintext tokenPrefix) (\<lambda>p. andThen (Exec (\<lambda>w. ins_token L (?row p (clock w)) w)) (\<lambda>_. Return p))) ?Q w"
      by (simp only: if_False) (rule after_seq [OF generatePlaintext_after [of ?same]], use assms store in auto)
  qed (use assms in \<open>simp add: after_Raise\<close>)
qed

lemma TokenRevoke_effect:
  assumes "tokens_ok L w"
  shows "after (TokenRevoke L n) (\<lambda>r w'. tokens_ok L w' \<and> (case r of Inl e \<Rightarrow> token_lookup L w' = token_lookup L w
      | Inr u \<Rightarrow> token_lookup L w' = (\<lambda>p. if token_named L w n p then None else token_lookup L w p))) w"
proof -
  let ?P = "\<lambda>t. ck L (t_name t) = ck L n"
  have "tokens_at L (delete_rows ?P (api_tokens w)) = (\<lambda>p. if token_named L w n p then None else tokens_at L (api_tokens w) p)"
    using assms by (auto simp: fun_eq_iff token_lookup_def tokens_at_def token_named_def tokens_ok_def row_at_delete_rows scan_token_def
        split: option.split)
  then show ?thesis
    using assms
    by (auto simp: TokenRevoke_def wp del_tokens_def count_rows_zero delete_rows_none tokens_ok_def token_lookup_def)
qed

interpretation token_store: full_store "tokens_ok L" "token_lookup L" "TokenVerify L" "\<lambda>q. TokenCreate L (fst q) (snd q)"
    "token_asked L" "same_token L" "\<lambda>w q x. False" "TokenRevoke L" "token_named L"
  for L
proof
  show "after (TokenVerify L p) (\<lambda>r w'. token_lookup L w' = token_lookup L w
      \<and> (case r of Inl e \<Rightarrow> True | Inr u \<Rightarrow> token_lookup L w p = Some u)) w" for p w
    by (auto simp: TokenVerify_def wp use_token_def Let_def token_lookup_def tokens_at_def [of L "api_tokens w" p] split: option.split)
  show "token_lookup L w p = Some u \<Longrightarrow> after (TokenVerify L p) (\<lambda>r w'. r = (if fault w then Inl DBError else Inr u)) w" for w p u
    by (auto simp: TokenVerify_def wp use_token_def Let_def token_lookup_def tokens_at_def fault_def split: if_splits)
  show "\<not> fault w \<Longrightarrow> token_lookup L w p = None \<Longrightarrow> after (TokenVerify L p) (\<lambda>r w'. \<exists>s. r = Inl (ErrInvalid s)) w" for w p
    by (auto simp: TokenVerify_def wp token_lookup_def tokens_at_def fault_def ErrInvalidToken_def split: if_splits)
  show "keeps (tokens_ok L) (TokenVerify L p)" for p
    by (auto simp: keeps_def TokenVerify_def wp use_token_def Let_def tokens_ok_def tkey_def split: option.split)
  show "tokens_ok L w \<Longrightarrow> after (TokenCreate L (fst q) (snd q)) (\<lambda>r w'. tokens_ok L w' \<and> (case r of
         Inl e \<Rightarrow> token_lookup L w' = token_lookup L w
       | Inr p \<Rightarrow> same_token L p p \<and> (\<exists>u. token_asked L w q u
          \<and> token_lookup L w' = (\<lambda>x. if same_token L x p then Some u else if False then None else token_lookup L w x)))) w" for w q
    by (simp only: if_False) (rule TokenCreate_effect)
  show "tokens_ok L w \<Longrightarrow> after (TokenRevoke L n) (\<lambda>r w'. tokens_ok L w' \<and> (case r of
         Inl e \<Rightarrow> token_lookup L w' = token_lookup L w
       | Inr u \<Rightarrow> token_lookup L w' = (\<lambda>p. if token_named L w n p then None else token_lookup L w p))) w" for w n
    by (rule TokenRevoke_effect)
qed

section \<open>Properties\<close>

text \<open>
  C18: A token that was just created verifies as itself. When \<open>Create\<close> succeeds, \<open>Verify\<close> of the text it returned answers with the name and exactly the scopes the token was
  created with (all of them, the single scope \<open>*\<close>, when none were named), unless the statement that looks it up fails; every other text is accepted as before. This
  holds when no scope contains the comma that separates them in the table. When it reports an error, the same tokens are accepted as before.
\<close>

theorem token_created_verifies:
  assumes "tokens_ok L w" and "list_all (\<lambda>s. CHR '','' \<notin> set s) scopes"
  shows "after (TokenCreate L name scopes) (\<lambda>r w1. case r of Inl e \<Rightarrow> token_lookup L w1 = token_lookup L w
    | Inr p \<Rightarrow> after (TokenVerify L p) (\<lambda>a w2. if fault w1 then a = Inl DBError
          else \<exists>t. a = Inr t \<and> TI_Name t = name \<and> TI_Scopes t = (if scopes = [] then [''*''] else scopes)) w1
        \<and> (\<forall>x. \<not> same_token L x p \<longrightarrow> token_lookup L w1 x = token_lookup L w x)) w"
proof -
  have "split_on (CHR '','') (Join (if scopes = [] then [''*''] else scopes) '','') = (if scopes = [] then [''*''] else scopes)"
    using assms(2) split_on_Join [of "if scopes = [] then [''*''] else scopes" "CHR '',''"]
    by (simp add: list_all_iff)
  then have asked: "token_asked L w (name, scopes) t \<Longrightarrow> TI_Name t = name \<and> TI_Scopes t = (if scopes = [] then [''*''] else scopes)" for t
    by (cases "scopes = []") (simp_all add: token_asked_def)
  show ?thesis
    by (rule after_mono [OF token_store.issue_then_verify [OF assms(1), of "(name, scopes)", unfolded fst_conv snd_conv]])
       (use asked in \<open>auto split: sum.splits elim!: after_mono\<close>)
qed

theorem token_created_verifies_witness:
  "tokens_ok example_lib empty_world
   \<and> (\<exists>p w1. TokenCreate example_lib ''ci'' [''users:read'', ''users:write''] empty_world = (Inr p, w1) \<and> \<not> fault w1
       \<and> after (TokenVerify example_lib p) (\<lambda>a w2. \<exists>t. a = Inr t \<and> TI_Name t = ''ci'' \<and> TI_Scopes t = [''users:read'', ''users:write'']) w1)"
proof
  show ok: "tokens_ok example_lib empty_world" by (simp add: tokens_ok_def empty_world_def)
  obtain r w1 where run: "TokenCreate example_lib ''ci'' [''users:read'', ''users:write''] empty_world = (r, w1)" by fastforce
  have "(\<exists>p. r = Inr p) \<and> faults w1 = []"
    using arg_cong [OF run, of "\<lambda>x. (fst x, faults (snd x))"]
    by (auto simp: TokenCreate_def generatePlaintext_def andThen_def Exec_def RandRead_def Return_def fault_def ins_token_def insert_row_def empty_world_def tick_def Let_def)
  then obtain p where p: "r = Inr p" "\<not> fault w1" by (auto simp: fault_def)
  have "list_all (\<lambda>s. CHR '','' \<notin> set s) [''users:read'', ''users:write'']" by simp
  from afterD [OF token_created_verifies [OF ok this] run] p
  have "after (TokenVerify example_lib p) (\<lambda>a w2. \<exists>t. a = Inr t \<and> TI_Name t = ''ci'' \<and> TI_Scopes t = [''users:read'', ''users:write'']) w1" by simp
  with run p show "\<exists>p w1. TokenCreate example_lib ''ci'' [''users:read'', ''users:write''] empty_world = (Inr p, w1) \<and> \<not> fault w1
       \<and> after (TokenVerify example_lib p) (\<lambda>a w2. \<exists>t. a = Inr t \<and> TI_Name t = ''ci'' \<and> TI_Scopes t = [''users:read'', ''users:write'']) w1"
    by blast
qed

text \<open>
  Revoking a token works at once: after a successful \<open>Revoke\<close> under a name no token that carries this name is accepted any more.
\<close>

lemma token_revoked_refused:
  assumes "tokens_ok L w" and "token_named L w name plaintext"
  shows "after (andThen (TokenRevoke L name) (\<lambda>_. TokenVerify L plaintext)) (\<lambda>r w'. \<exists>e. r = Inl e) w"
  using assms by (rule token_store.revoked_is_refused)

end
