(* ===== verification/Frames.thy ===== *)
theory Frames
  imports Routing Authtoken Domainkey Adminauth Cloudflare_Store
begin

text \<open>
  Predicates on the world that no table of the store enters: what such a predicate says of the log, of the commands or of the pattern of failures is kept by every
  operation on mailboxes, groups, routes, credentials and settings. The locale is interpreted where the servers and the command line program need it.
\<close>

definition kept_by :: "(world \<Rightarrow> bool) \<Rightarrow> (world \<Rightarrow> error + nat \<times> world) \<Rightarrow> bool" where
  "kept_by I q \<longleftrightarrow> (\<forall>w n w'. I w \<longrightarrow> q w = Inr (n, w') \<longrightarrow> I w')"

section \<open>What no table is written for\<close>

context frame_invariant
begin

lemma random: "keeps I (RandRead n)"
  by (auto simp: keeps_def wp intro: frame_entropy)

lemma secrets: "keeps I (FsWrite q)" "keeps I (FsRead p)"
  by (auto simp: keeps_def wp intro: frame_tick frame_fs split: sum.split)

lemma plaintexts: "keeps I (generatePlaintext pre)" "keeps I (HashPassword L p)"
  unfolding generatePlaintext_def HashPassword_def by (intro random keeps_ops)+

lemma ensured: "keeps I (Ensure nm)"
  unfolding Ensure_def secret_read_def by (intro random frame_ops secrets keeps_ops)

lemma files:
  "keeps I (DKIMRecord d)" "keeps I (DNSRecords d)" "keeps I (RotateDKIMKey L d)" "keeps I (Enable L lookup certbot d)"
  "keeps I (StateConfigStrings L)" "keeps I (installerConfig L)" "keeps I (InstallerState L)" "keeps I (Enabled d)" "keeps I (stat_ok p)"
  unfolding DKIMRecord_def DNSRecords_def RotateDKIMKey_def generateDKIM_def Enable_def StateConfigStrings_def installerConfig_def InstallerState_def
    WritePolicy_def Enabled_def HasPolicy_def HasCert_def stat_ok_def wrap_def
  by (intro frame_ops keeps_ops)+

lemma lists:
  "keeps I (DomainList L)" "keeps I (MailboxList L d)" "keeps I (AliasList L d)" "keeps I (GroupGet L e)" "keeps I (GroupMembers L e)" "keeps I (GroupList L d q)"
  "keeps I (GroupsOf L e)" "keeps I (hostedDomains L)" "keeps I (check_member L g h a)" "keeps I (ForwardGet L e)" "keeps I (AliasesTo L e)"
  "keeps I (CatchAllGet L d)" "keeps I (UsageBytes e)" "keeps I (MailboxSearch L f)" "keeps I DomainStatsAll" "keeps I (KeyList L)" "keeps I TokenList"
  "keeps I (ListUsers L)" "keeps I (AuditList L af)"
  unfolding DomainList_def MailboxList_def AliasList_def GroupGet_def GroupMembers_def GroupList_def GroupsOf_def hostedDomains_def check_member_def AddressKind_def
    ForwardGet_def AliasesTo_def CatchAllGet_def domainID_def UsageBytes_def MailboxSearch_def DomainStatsAll_def KeyList_def TokenList_def ListUsers_def AuditList_def
  by (intro frame_ops keeps_ops)+

lemma sealing: "keeps I (encrypt A p)" "keeps I (decrypt A p)" "keeps I getRow" "keeps I (CfGet A)" "keeps I (OAuthClientFor A u)" "keeps I (ExchangeCode U T oc c)"
  unfolding encrypt_def decrypt_def getRow_def CfGet_def OAuthClientFor_def ExchangeCode_def tokenRequest_def wrap_def
  by (intro frame_ops random ensured keeps_ops)+

lemmas read_ops = random secrets plaintexts ensured files lists sealing

end

section \<open>Accounts\<close>

locale account_invariant = frame_invariant +
  assumes table_tokens: "I w \<Longrightarrow> I (w\<lparr>api_tokens := t7\<rparr>)"
    and table_admins: "I w \<Longrightarrow> I (w\<lparr>admin_users := t8\<rparr>)"
    and table_sessions: "I w \<Longrightarrow> I (w\<lparr>admin_sessions := t9\<rparr>)"
    and table_settings: "I w \<Longrightarrow> I (w\<lparr>cloudflare_settings := s\<rparr>)"
    and table_id: "I w \<Longrightarrow> next_id w \<le> i \<Longrightarrow> I (w\<lparr>next_id := i\<rparr>)"
begin

lemma exec: "kept_by I q \<Longrightarrow> keeps I (Exec q)"
  by (rule keeps_Exec) (auto simp: kept_by_def frame_tick)

text \<open>The statements that read the clock or the tables while they are made up.\<close>

lemma exec_of: "(\<And>v. kept_by I (q v)) \<Longrightarrow> keeps I (Exec (\<lambda>w. q (f w) w))"
  by (rule keeps_Exec) (auto simp: kept_by_def frame_tick)

lemma account_stmts:
  "kept_by I (ins_token L tk)" "kept_by I (del_sessions P6)" "kept_by I (del_tokens P4)" "kept_by I (use_token tid)" "kept_by I (ins_admin L ad)"
  "kept_by I (del_admins P5)" "kept_by I (upd_admins P5 f5)" "kept_by I (ins_session L ss)" "kept_by I (put_row r)" "kept_by I (put_tokens x y z)"
  "kept_by I (del_row)"
  by (auto simp: kept_by_def ins_token_def del_tokens_def ins_admin_def del_admins_def upd_admins_def del_sessions_def ins_session_def use_token_def put_row_def
      put_tokens_def del_row_def Let_def intro!: table_tokens table_admins table_sessions table_settings table_id split: sum.splits if_splits option.splits)

lemma login_time: "keeps I (Exec (\<lambda>w. upd_admins P (\<lambda>x. x\<lparr>ad_last_login_at := Some (clock w)\<rparr>) w))"
  by (rule exec_of [where q = "\<lambda>t. upd_admins P (\<lambda>x. x\<lparr>ad_last_login_at := Some t\<rparr>)"]) (rule account_stmts)

lemmas account_execs = login_time account_stmts [THEN exec] exec_of [where q = "ins_token L" for L, OF account_stmts(1)]
  exec_of [where q = del_sessions, OF account_stmts(2)]

lemma accounts:
  "keeps I (TokenCreate L nm scopes)" "keeps I (TokenRevoke L nm)" "keeps I (TokenVerify L p)" "keeps I (CreateUser L nm p)" "keeps I (ChangePassword L nm p)"
  "keeps I (DeleteUser L nm)" "keeps I (Authenticate L nm p)" "keeps I (CreateSession L uid ip ua)" "keeps I (VerifySession L p)" "keeps I (RevokeSession L p)"
  unfolding TokenCreate_def TokenRevoke_def TokenVerify_def CreateUser_def ChangePassword_def DeleteUser_def Authenticate_def CreateSession_def VerifySession_def
    RevokeSession_def
  by (intro frame_ops account_execs plaintexts random keeps_ops)+

lemma settings:
  "keeps I (CfToken L A T)" "keeps I (SetAPIToken A tk)" "keeps I (SetOAuthClient A c sec)" "keeps I (SaveOAuthCallback A t)" "keeps I CfClear"
  unfolding CfToken_def SetAPIToken_def SetOAuthClient_def SaveOAuthCallback_def saveOAuthTokens_def CfClear_def RefreshAccessToken_def tokenRequest_def wrap_def
  by (intro account_execs sealing keeps_ops)+

lemmas account_ops = accounts settings

end

section \<open>The mail tables\<close>

locale table_invariant = account_invariant +
  assumes table_domains: "I w \<Longrightarrow> I (w\<lparr>virtual_domains := t1\<rparr>)"
    and table_users: "I w \<Longrightarrow> I (w\<lparr>virtual_users := t2\<rparr>)"
    and table_aliases: "I w \<Longrightarrow> I (w\<lparr>virtual_aliases := t3\<rparr>)"
    and table_groups: "I w \<Longrightarrow> I (w\<lparr>mail_groups := t4\<rparr>)"
    and table_members: "I w \<Longrightarrow> I (w\<lparr>mail_group_members := t5\<rparr>)"
    and table_forwards: "I w \<Longrightarrow> I (w\<lparr>mailbox_forwards := t6\<rparr>)"
    and table_keys: "I w \<Longrightarrow> I (w\<lparr>domain_api_keys := t10\<rparr>)"
    and table_rollback: "I w \<Longrightarrow> I w1 \<Longrightarrow> I (w\<lparr>faults := faults w1\<rparr>)"
    and table_abort: "I w \<Longrightarrow> I w1 \<Longrightarrow> I (w\<lparr>faults := tl (faults w1)\<rparr>)"
begin

lemma stmts:
  "kept_by I (ins_user L u)" "kept_by I (upsert_user L u)" "kept_by I (ins_group L g)" "kept_by I (upsert_member L m)" "kept_by I (upsert_key L k)"
  "kept_by I (del_keys P3)" "kept_by I (ins_domain L d)" "kept_by I (upd_user L e f1)" "kept_by I (del_user L e)" "kept_by I (ins_alias_ignore L a)"
  "kept_by I (ins_alias L a)" "kept_by I (del_aliases P1)" "kept_by I (upd_group i f2)" "kept_by I (del_group L e)" "kept_by I (del_members P2)"
  "kept_by I (upd_members P2 f3)" "kept_by I (upsert_forward L fw)" "kept_by I (del_forward L e)" "kept_by I (del_domain L e)" "kept_by I (use_key kid)"
  by (auto simp: kept_by_def ins_domain_def ins_user_def upsert_user_def upd_user_def del_user_def drop_users_def ins_alias_ignore_def ins_alias_def
      del_aliases_def ins_group_def upd_group_def del_group_def drop_groups_def upsert_member_def del_members_def upd_members_def
      upsert_forward_def del_forward_def del_domain_def upsert_key_def del_keys_def use_key_def Let_def
      intro!: table_domains table_users table_aliases table_groups table_members table_forwards table_keys table_id
      split: sum.splits if_splits option.splits)

lemmas exec_stmts = stmts [THEN exec] exec_of [where q = "ins_user L" for L, OF stmts(1)] exec_of [where q = "upsert_user L" for L, OF stmts(2)]
  exec_of [where q = "ins_group L" for L, OF stmts(3)] exec_of [where q = "upsert_member L" for L, OF stmts(4)]
  exec_of [where q = "upsert_key L" for L, OF stmts(5)] exec_of [where q = del_keys, OF stmts(6)]

lemmas steps = frame_ops exec_stmts keeps_ops frame_tick

text \<open>The operations.\<close>

lemma mailboxes:
  "keeps I (DomainAdd L d)" "keeps I (DomainRemove L d)" "keeps I (MailboxAdd L e p q)" "keeps I (MailboxCreate L e p nm q)"
  "keeps I (MailboxRemove L e)" "keeps I (MailboxPasswd L e p)" "keeps I (MailboxSetQuota L e q)"
  "keeps I (MailboxSetName L e nm)" "keeps I (MailboxSetEnabled L e en)" "keeps I (AliasAdd L src t)" "keeps I (AliasRemove L src t)"
  unfolding DomainAdd_def DomainRemove_def MailboxAdd_def MailboxCreate_def MailboxRemove_def MailboxPasswd_def
    MailboxSetQuota_def MailboxSetName_def MailboxSetEnabled_def updateMailbox_def AliasAdd_def AliasRemove_def
  by (intro steps)+

lemma groups:
  "keeps I (GroupCreate L e gs)" "keeps I (GroupUpdate L e gs)" "keeps I (GroupDelete L e)" "keeps I (GroupRemoveMember L e m)"
  "keeps I (GroupSetMemberRole L e m r)"
  unfolding GroupCreate_def GroupUpdate_def GroupDelete_def GroupRemoveMember_def GroupSetMemberRole_def
  by (intro lists steps)+

lemma add_members: "keeps I (add_members L g h r as)"
proof (induction as)
  case (Cons a as)
  then show ?case unfolding add_members.simps by (intro lists steps)
qed (simp add: keeps_Return)

lemma more_groups: "keeps I (GroupAddMembers L e as r)"
  unfolding GroupAddMembers_def by (intro lists steps add_members)

lemma transaction:
  assumes "keeps I m"
  shows "keeps I (Transaction m)"
proof (rule keepsI)
  fix w assume w: "I w"
  obtain r w1 where run: "m (tick w) = (r, w1)" by fastforce
  have w1: "I w1" by (rule keeps_run [OF assms _ run]) (rule frame_tick [OF w])
  with w show "after (Transaction m) (\<lambda>_. I) w"
    by (auto simp: after_def Transaction_def run intro: frame_tick table_rollback table_abort split: sum.split)
qed

lemma routing: "keeps I (ForwardSet L e d k)" "keeps I (ForwardClear L e)" "keeps I (CatchAllSet L d t)"
  unfolding ForwardSet_def ForwardClear_def CatchAllSet_def domainID_def del_catchall_def
  by (intro steps transaction)+

lemma keys: "keeps I (KeyGenerate L d)" "keeps I (KeyRevoke L d)" "keeps I (KeyVerify L p)"
  unfolding KeyGenerate_def KeyRevoke_def KeyVerify_def by (intro steps plaintexts)+

lemmas table_ops = mailboxes groups more_groups routing keys account_ops

end

section \<open>The log\<close>

text \<open>\<open>quiet b w\<close>: the log is as in \<open>b\<close>, and no statement fails that would not have failed.\<close>

definition quiet :: "world \<Rightarrow> world \<Rightarrow> bool" where
  "quiet b w \<longleftrightarrow> audit_log w = audit_log b \<and> (if faults b = [] then faults w = [] else True)"

lemma quiet_refl [simp]: "quiet b b"
  by (simp add: quiet_def)

lemma quiet_frame [simp]:
  "quiet b w \<Longrightarrow> quiet b (tick w)" "quiet b (w\<lparr>fs := f\<rparr>) = quiet b w" "quiet b (w\<lparr>entropy := e\<rparr>) = quiet b w"
  "quiet b (w\<lparr>outbound := cs\<rparr>) = quiet b w"
  by (simp_all add: quiet_def tick_def)

lemma quiet_update [simp]:
  "quiet b (w\<lparr>virtual_domains := t1\<rparr>) = quiet b w" "quiet b (w\<lparr>virtual_users := t2\<rparr>) = quiet b w"
  "quiet b (w\<lparr>virtual_aliases := t3\<rparr>) = quiet b w" "quiet b (w\<lparr>mail_groups := t4\<rparr>) = quiet b w"
  "quiet b (w\<lparr>mail_group_members := t5\<rparr>) = quiet b w" "quiet b (w\<lparr>mailbox_forwards := t6\<rparr>) = quiet b w"
  "quiet b (w\<lparr>api_tokens := t7\<rparr>) = quiet b w" "quiet b (w\<lparr>admin_users := t8\<rparr>) = quiet b w"
  "quiet b (w\<lparr>admin_sessions := t9\<rparr>) = quiet b w" "quiet b (w\<lparr>domain_api_keys := t10\<rparr>) = quiet b w"
  "quiet b (w\<lparr>cloudflare_settings := cf\<rparr>) = quiet b w" "quiet b (w\<lparr>next_id := i\<rparr>) = quiet b w"
  by (simp_all add: quiet_def)

lemma quiet_transaction [simp]:
  "quiet b w \<Longrightarrow> quiet b w1 \<Longrightarrow> quiet b (w\<lparr>faults := faults w1\<rparr>)" "quiet b w \<Longrightarrow> quiet b w1 \<Longrightarrow> quiet b (w\<lparr>faults := tl (faults w1)\<rparr>)"
  by (auto simp: quiet_def split: if_splits)

interpretation quiet_log: host_invariant "quiet b" for b
  by standard simp_all

interpretation quiet_tables: table_invariant "quiet b" for b
  by standard simp_all

lemmas quiet_ops [keeps_ops] = quiet_log.host_ops quiet_log.read_ops quiet_tables.table_ops

end
