(* ===== verification/Web_Pages.thy ===== *)
theory Web_Pages
  imports Web_Display Ops_Queue Ops_Fail2ban Diag Dnscheck Frames
begin

text \<open>
  The data of the pages of the dashboard, one record a page, and what several handlers use: the installer's state, the recent activity and the Cloudflare requests. A record
  has the fields of its Go structure, less those that are constants or follow from the others; \<open>view\<close> is the sum of the pages.
\<close>

section \<open>What the server relies on\<close>

text \<open>
  \<open>se_cloudflare\<close> answers a request to Cloudflare after those that were sent before, \<open>se_oauth\<close> one to its token endpoint; \<open>se_dns\<close>, \<open>se_lookup\<close> and \<open>se_certbot\<close>
  are those of the DNS checks and of MTA-STS, \<open>se_cert\<close> and \<open>se_statfs\<close> those of the diagnosis, \<open>se_time\<close> reads the time stamps of systemd, \<open>se_date\<close> formats a date,
  \<open>se_syslog\<close> is whether syslog can be reached, and \<open>se_static\<close> is what \<open>http.FileServer\<close> answers from the embedded files, status and text.
\<close>

record server_env = dash_env +
  se_aead :: aead
  se_oauth :: oauth_net
  se_cloudflare :: "outbound list \<Rightarrow> string \<Rightarrow> string \<Rightarrow> string \<Rightarrow> json option \<Rightarrow> error + nat \<times> json option"
  se_dns :: dns
  se_lookup :: "nat \<Rightarrow> string \<Rightarrow> string list option"
  se_certbot :: "string \<Rightarrow> string \<Rightarrow> bool \<times> string"
  se_cert :: "string \<Rightarrow> error + string \<times> int"
  se_statfs :: "string \<Rightarrow> (int \<times> int \<times> int) option"
  se_time :: "string \<Rightarrow> int option"
  se_syslog :: bool
  se_static :: "string \<Rightarrow> nat \<times> string"

text \<open>A request to Cloudflare becomes the latest of what the program has sent.\<close>

definition cf_world :: "server_env \<Rightarrow> world cf_net" where
  "cf_world E = \<lparr>cf_send = (\<lambda>token method path body w.
     (se_cloudflare E (outbound w) token method path body, w\<lparr>outbound := Sent token method path body # outbound w\<rparr>))\<rparr>"

definition find_zone :: "lib \<Rightarrow> server_env \<Rightarrow> string \<Rightarrow> string \<Rightarrow> (string \<times> string) option op" where
  "find_zone L E token domain = FindZone (uni L) (cf_world E) token domain"

definition verify_token :: "lib \<Rightarrow> server_env \<Rightarrow> string \<Rightarrow> unit op" where
  "verify_token L E token = VerifyToken (uni L) (cf_world E) token"

definition apply_records :: "lib \<Rightarrow> server_env \<Rightarrow> string \<Rightarrow> string \<Rightarrow> string \<Rightarrow> string \<Rightarrow> string \<Rightarrow> string \<Rightarrow> string \<Rightarrow> apply_result list op" where
  "apply_records L E token zoneID domain mailHost serverIP dkimValue dmarcValue =
     (\<lambda>w. case ApplyMailRecords L (cf_client (uni L) (cf_world E) token) zoneID domain mailHost serverIP dkimValue dmarcValue w of (rs, w1) \<Rightarrow> (Inr rs, w1))"

definition stateConfigStrings :: "lib \<Rightarrow> (string \<times> string \<times> string) op" where
  "stateConfigStrings L = andThen (Attempt (InstallerState L)) (\<lambda>r. case r of
       Inl e \<Rightarrow> Return ([], [], [])
     | Inr st \<Rightarrow> Return (str_or_empty (state_json L st ''hostname''), str_or_empty (state_json L st ''server_ip''), str_or_empty (state_json L st ''admin_email'')))"

definition stateValue :: "lib \<Rightarrow> string \<Rightarrow> string op" where
  "stateValue L key = andThen (Attempt (InstallerState L)) (\<lambda>r. case r of
       Inl e \<Rightarrow> Return [] | Inr st \<Rightarrow> Return (str_or_empty (state_json L st key)))"

definition recentActivity :: "lib \<Rightarrow> string \<Rightarrow> int \<Rightarrow> audit_entry list op" where
  "recentActivity L target n = andThen (Attempt (AuditList L \<lparr>AF_Query = target, AF_Limit = n, AF_Offset = 0\<rparr>)) (\<lambda>r. case r of
       Inl e \<Rightarrow> Return [] | Inr (entries, hits) \<Rightarrow> Return entries)"

section \<open>The pages\<close>

record domain_bar =
  DB_Name :: string
  DB_Users :: nat
  DB_Percent :: int

record overview_page =
  OV_Base :: base_data
  OV_DomainCount :: nat
  OV_UserCount :: nat
  OV_SuspendedCount :: nat
  OV_GroupCount :: nat
  OV_AliasCount :: nat
  OV_StorageUsed :: int
  OV_StorageQuota :: int
  OV_DomainBars :: "domain_bar list"
  OV_QueueEmpty :: bool
  OV_QueueKnown :: bool
  OV_Services :: "service_status list"
  OV_ServicesUp :: nat
  OV_Disk :: "(int \<times> int \<times> int) option"
  OV_MailHost :: string
  OV_Activity :: "audit_entry list"

record search_page =
  SP_Base :: base_data
  SP_Query :: string
  SP_Users :: "mailbox list"
  SP_Groups :: "group_info list"
  SP_Domains :: "domain_row list"
  SP_Total :: nat

record users_page =
  UP_Base :: base_data
  UP_Users :: "(mailbox \<times> int) list"
  UP_Domains :: "domain_row list"
  UP_Pager :: pager
  UP_Query :: string
  UP_Domain :: string
  UP_Status :: string
  UP_TotalUsers :: nat
  UP_ActiveUsers :: int
  UP_Suspended :: nat

record user_page =
  US_Base :: base_data
  US_User :: mailbox
  US_UsedBytes :: int
  US_Forward :: "forward option"
  US_Aliases :: "string list"
  US_Groups :: "group_info list"
  US_OtherGroups :: "group_info list"
  US_Domains :: "domain_row list"
  US_Activity :: "audit_entry list"

record import_result =
  IR_Email :: string
  IR_Name :: string
  IR_Password :: string
  IR_Created :: bool
  IR_Error :: string

record import_page =
  IP_Base :: base_data
  IP_Domains :: "domain_row list"
  IP_Results :: "import_result list"
  IP_CreatedCount :: nat
  IP_FailedCount :: nat
  IP_CredentialsCSV :: string

record groups_page =
  GS_Base :: base_data
  GS_Groups :: "group_info list"
  GS_Domains :: "domain_row list"
  GS_Query :: string
  GS_Domain :: string

record group_page =
  GP_Base :: base_data
  GP_Group :: group_info
  GP_Members :: "group_member list"
  GP_Owners :: nat
  GP_External :: nat
  GP_Suspended :: nat
  GP_Activity :: "audit_entry list"

record aliases_page =
  AL_Base :: base_data
  AL_Aliases :: "alias_entry list"
  AL_Domains :: "domain_row list"
  AL_Domain :: string
  AL_Query :: string

record domain_view =
  DV_Domain :: domain_row
  DV_Stats :: domain_stats
  DV_APIKey :: "key_info option"

record cloudflare_section =
  CF_Settings :: cf_settings
  CF_RedirectURI :: string
  CF_Error :: string
  CF_Notice :: string

record domain_page =
  DP_Base :: base_data
  DP_Domain :: domain_view
  DP_MailHost :: string
  DP_CatchAll :: string
  DP_CFZone :: string
  DP_NewAPIKey :: string
  DP_Activity :: "audit_entry list"

record record_entry =
  RE_Label :: string
  RE_Type :: string
  RE_Name :: string
  RE_Value :: string

record dkim_page =
  DK_Base :: base_data
  DK_Domains :: "domain_row list"
  DK_Selected :: string
  DK_RawRecords :: string
  DK_RecordEntries :: "record_entry list"
  DK_Report :: "report option"
  DK_CloudflareConnected :: bool
  DK_CloudflareZone :: string
  DK_CloudflareApplyResults :: "apply_result list"
  DK_CloudflareApplyErr :: string
  DK_MTASTSHostname :: string
  DK_MTASTSEnabled :: bool
  DK_MTASTSResultMsg :: string
  DK_MTASTSErr :: string
  DK_RotateMsg :: string
  DK_RotateErr :: string

record bans_page =
  BP_Base :: base_data
  BP_Jails :: "jail list"
  BP_JailNames :: "string list"
  BP_Allowlist :: "string list"
  BP_ClientIP :: string
  BP_ClientBans :: "string list"
  BP_TotalBanned :: int
  BP_TotalFailed :: int
  BP_Error :: string

record queue_page =
  QP_Base :: base_data
  QP_Messages :: "queued_message list"
  QP_Deferred :: nat
  QP_Delivering :: nat
  QP_Hold :: nat
  QP_Error :: string
  QP_Now :: int

record logs_page =
  LP_Base :: base_data
  LP_Sources :: "log_source list"
  LP_Source :: string
  LP_Lines :: int
  LP_Query :: string
  LP_Entries :: "(string \<times> string) list"
  LP_Error :: string

record diag_page =
  DG_Base :: base_data
  DG_Services :: "service_status list"
  DG_Configs :: "config_check list"
  DG_TLS :: tls_info
  DG_TLSKnown :: bool
  DG_Disk :: "disk_usage option"
  DG_MailIssues :: "string list"
  DG_Fail2ban :: "banned_ip list"
  DG_Fail2banErr :: string

record tokens_page =
  TP_Base :: base_data
  TP_Tokens :: "token_info list"
  TP_NewToken :: string
  TP_NewTokenErr :: string

datatype view =
    VLogin string
  | VOverview overview_page
  | VSearch search_page
  | VUsers users_page
  | VUser user_page
  | VImport import_page
  | VGroups groups_page
  | VGroup group_page
  | VAliases aliases_page
  | VDomains base_data "domain_view list" cloudflare_section
  | VCloudflare cloudflare_section
  | VQuickApply string "apply_result list" string
  | VDomain domain_page
  | VDKIM dkim_page
  | VBans bans_page
  | VServices base_data "service_state list" nat spam_stats antivirus_info
  | VServiceLogs string
  | VQueue queue_page
  | VLogs logs_page
  | VDiag diag_page
  | VTokens tokens_page
  | VAdmins base_data "admin_user list" string
  | VAudit base_data "audit_entry list" pager string
  | VSettings base_data string

text \<open>
  A handler is an operation that ends with a response. The base of a page that is refreshed in part is made without the flash message.
\<close>

type_synonym handler = "view page"

definition plain_base :: "admin_user \<Rightarrow> string \<Rightarrow> string \<Rightarrow> crumb list \<Rightarrow> base_data" where
  "plain_base u title active crumbs = \<lparr>B_Title = title, B_Active = active, B_Username = AU_Username u, B_Crumbs = crumbs, B_Flash = None\<rparr>"

end
