(* ===== verification/Web_Accounts.thy ===== *)
theory Web_Accounts
  imports Web_Pages
begin

text \<open>
  Signing in and out, administrators, API tokens, the own password and the log: \<open>handlers_auth.go\<close>, \<open>handlers_admin.go\<close>, \<open>handlers_tokens.go\<close>, \<open>handlers_settings.go\<close>,
  \<open>handlers_audit.go\<close> and \<open>security_log.go\<close>. A handler behind \<open>requireAuth\<close> takes the administrator who is signed in as an argument.
\<close>

section \<open>Signing in\<close>

definition logFailedLogin :: "server_env \<Rightarrow> string \<Rightarrow> web_request \<Rightarrow> unit op" where
  "logFailedLogin E username r = (\<lambda>w. (Inr (), if se_syslog E
     then w\<lparr>outbound := Noted (''Failed dashboard login for user '' @ [CHR 0x22] @ username @ [CHR 0x22] @ '' from '' @ remote_host r) # outbound w\<rparr> else w))"

definition renderLogin :: "nat \<Rightarrow> string \<Rightarrow> view response" where
  "renderLogin s msg = respond s (PageOf ''login'' (VLogin msg))"

definition handleLoginForm :: "lib \<Rightarrow> web_request \<Rightarrow> handler" where
  "handleLoginForm L r = (case Wq_Cookie r SessionCookieName of
       None \<Rightarrow> Return (renderLogin 200 [])
     | Some token \<Rightarrow> checked (VerifySession L token) (\<lambda>e. renderLogin 200 []) (\<lambda>u. Return (redirect 303 ''/'')))"

definition handleLoginSubmit :: "lib \<Rightarrow> server_env \<Rightarrow> web_request \<Rightarrow> handler" where
  "handleLoginSubmit L E r =
     (if \<not> Wq_FormOk r then Return (renderLogin 400 ''Invalid form submission.'')
      else (let username = FormValue r ''username''; password = FormValue r ''password'' in
        andThen (Attempt (Authenticate L username password)) (\<lambda>res. case res of
            Inl e \<Rightarrow> andThen (logFailedLogin E username r) (\<lambda>_. Return (renderLogin 401 ''Invalid username or password.''))
          | Inr user \<Rightarrow>
              checked (CreateSession L (AU_ID user) (Rq_RemoteAddr r) (Rq_Header r ''User-Agent''))
                (\<lambda>e. renderLogin 500 ''Could not start a session. Try again.'')
                (\<lambda>(token, expires). Return (sending [setSessionCookie token (Wq_TLS r)] (redirect 303 ''/''))))))"

definition handleLogout :: "lib \<Rightarrow> web_request \<Rightarrow> handler" where
  "handleLogout L r = (case Wq_Cookie r SessionCookieName of
       None \<Rightarrow> Return (sending [clearSessionCookie] (redirect 303 ''/login''))
     | Some token \<Rightarrow> andThen (Attempt (RevokeSession L token)) (\<lambda>_. Return (sending [clearSessionCookie] (redirect 303 ''/login''))))"

section \<open>Administrators\<close>

definition handleAdminsPage :: "lib \<Rightarrow> server_env \<Rightarrow> web_request \<Rightarrow> admin_user \<Rightarrow> handler" where
  "handleAdminsPage L E r u =
     checked (ListUsers L) failErr (\<lambda>admins.
     with_base (uni L) E r u ''Administrators'' ''admins'' [(''Security'', []), (''Administrators'', [])] (\<lambda>b.
     Return (renderPage ''admins'' (VAdmins b admins (AU_Username u)))))"

definition handleAdminAdd :: "lib \<Rightarrow> server_env \<Rightarrow> web_request \<Rightarrow> admin_user \<Rightarrow> handler" where
  "handleAdminAdd L E r u =
     (if \<not> Wq_FormOk r then Return invalid_form
      else (let username = formValue r ''username''; password = FormValue r ''password'' in
        if length password < 8 then Return (fail 400 ''The password must be at least 8 characters.'')
        else checked (CreateUser L username password) (\<lambda>e. fail 400 (err_text e)) (\<lambda>_.
          recording r u ''admin.create'' username [] (Return (done_with E r ''/admins'' (''Administrator '' @ username @ '' added.''))))))"

definition handleAdminDelete :: "lib \<Rightarrow> server_env \<Rightarrow> web_request \<Rightarrow> admin_user \<Rightarrow> string \<Rightarrow> handler" where
  "handleAdminDelete L E r u target =
     (if target = AU_Username u then Return (fail 400 (''You can'' @ apos @ ''t remove your own account while signed in.''))
      else checked (DeleteUser L target) (\<lambda>e. fail 400 (err_text e)) (\<lambda>_.
        recording r u ''admin.delete'' target [] (Return (done_with E r ''/admins'' (''Administrator '' @ target @ '' removed.'')))))"

section \<open>Tokens\<close>

definition tokens_view :: "admin_user \<Rightarrow> token_info list \<Rightarrow> tokens_page" where
  "tokens_view u list = \<lparr>TP_Base = plain_base u ''API access'' ''tokens'' [(''Security'', []), (''API access'', [])],
     TP_Tokens = list, TP_NewToken = [], TP_NewTokenErr = []\<rparr>"

definition tokensData :: "admin_user \<Rightarrow> tokens_page op" where
  "tokensData u = andThen TokenList (\<lambda>list. Return (tokens_view u list))"

definition internal_error :: "error \<Rightarrow> 'v response" where
  "internal_error e = http_error 500 (err_text e)"

definition handleTokensPage :: "web_request \<Rightarrow> admin_user \<Rightarrow> handler" where
  "handleTokensPage r u = checked (tokensData u) internal_error (\<lambda>data. Return (renderPage ''tokens'' (VTokens data)))"

definition form_scopes :: "string \<Rightarrow> string list" where
  "form_scopes raw0 = (let raw = TrimSpace raw0 in
     if raw = [] then [] else filter (\<lambda>s. s \<noteq> []) (map TrimSpace (split_on (CHR '','') raw)))"

definition tokens_body :: "tokens_page \<Rightarrow> view response" where
  "tokens_body data = renderPartial ''tokens'' ''tokens_body'' (VTokens data)"

definition handleTokenAdd :: "lib \<Rightarrow> web_request \<Rightarrow> admin_user \<Rightarrow> handler" where
  "handleTokenAdd L r u =
     (if \<not> Wq_FormOk r then Return (http_error 400 ''invalid form'')
      else (let name = FormValue r ''name''; scopes = form_scopes (FormValue r ''scopes'') in
        checked (tokensData u) internal_error (\<lambda>data.
        checked (TokenCreate L name scopes) (\<lambda>e. tokens_body (data\<lparr>TP_NewTokenErr := err_text e\<rparr>)) (\<lambda>plaintext.
        recording r u ''token.create'' name (''scopes='' @ Join scopes '','')
          (andThen (Attempt TokenList) (\<lambda>again.
             Return (tokens_body (data\<lparr>TP_NewToken := plaintext, TP_Tokens := (case again of Inl e \<Rightarrow> [] | Inr list \<Rightarrow> list)\<rparr>))))))))"

definition handleTokenDelete :: "lib \<Rightarrow> web_request \<Rightarrow> admin_user \<Rightarrow> string \<Rightarrow> handler" where
  "handleTokenDelete L r u name =
     checked (TokenRevoke L name) (\<lambda>e. http_error 400 (err_text e)) (\<lambda>_.
     recording r u ''token.revoke'' name []
       (checked (tokensData u) internal_error (\<lambda>data. Return (tokens_body data))))"

section \<open>The own password\<close>

definition handleSettingsPage :: "lib \<Rightarrow> server_env \<Rightarrow> web_request \<Rightarrow> admin_user \<Rightarrow> handler" where
  "handleSettingsPage L E r u =
     with_base (uni L) E r u ''Settings'' ''settings'' [(''Settings'', [])] (\<lambda>b.
     andThen (stateConfigStrings L) (\<lambda>(mailHost, serverIP, adminEmail). Return (renderPage ''settings'' (VSettings b mailHost))))"

definition handleSettingsPassword :: "lib \<Rightarrow> server_env \<Rightarrow> web_request \<Rightarrow> admin_user \<Rightarrow> handler" where
  "handleSettingsPassword L E r u =
     (if \<not> Wq_FormOk r then Return invalid_form
      else (let username = AU_Username u; current = FormValue r ''current_password''; new = FormValue r ''new_password'' in
        if length new < 8 then Return (fail 400 ''The new password must be at least 8 characters.'')
        else if new \<noteq> FormValue r ''confirm_password'' then Return (fail 400 (''The new passwords don'' @ apos @ ''t match.''))
        else checked (Authenticate L username current) (\<lambda>e. fail 400 ''Your current password is incorrect.'') (\<lambda>_.
          checked (ChangePassword L username new) failErr (\<lambda>_.
          andThen (Attempt (CreateSession L (AU_ID u) (Rq_RemoteAddr r) (Rq_Header r ''User-Agent''))) (\<lambda>session.
          recording r u ''admin.password.change'' username ''all other sessions signed out''
            (Return (sending (case session of Inl e \<Rightarrow> [] | Inr (token, expires) \<Rightarrow> [setSessionCookie token True])
              (done_with E r ''/settings'' ''Your password was changed, and your other sessions were signed out.''))))))))"

section \<open>The log\<close>

definition auditPageSize :: int where "auditPageSize = 50"

definition handleAuditPage :: "lib \<Rightarrow> server_env \<Rightarrow> web_request \<Rightarrow> admin_user \<Rightarrow> handler" where
  "handleAuditPage L E r u =
     (let q = TrimSpace (Rq_Query r ''q''); pager = newPager r auditPageSize 0 in
      checked (AuditList L \<lparr>AF_Query = q, AF_Limit = auditPageSize, AF_Offset = Offset pager\<rparr>) failErr (\<lambda>(entries, hits).
      with_base (uni L) E r u ''Audit log'' ''audit'' [(''Security'', []), (''Audit log'', [])] (\<lambda>b.
      Return (renderPage ''audit'' (VAudit b entries (pager\<lparr>PG_Total := int hits\<rparr>) q)))))"

end
