(* ===== verification/Go_Csv.thy ===== *)
theory Go_Csv
  imports Go_Library
begin

text \<open>
  Package \<open>encoding/csv\<close> as the import of users sets it up: a comma between the fields, comments that start with \<open>#\<close>, leading space trimmed, any number of fields. The
  text of an error is not modelled, a file that cannot be parsed is \<open>None\<close>.
\<close>

abbreviation quotation :: char where "quotation \<equiv> CHR 0x22"
abbreviation feed :: char where "feed \<equiv> CHR 0x0A"
abbreviation comma :: char where "comma \<equiv> CHR '',''"

section \<open>Lines\<close>

text \<open>
  \<open>readLine\<close>: a line ends with a line feed, the carriage return before it is dropped, and so is one at the end of the text. The first argument is the line read so far.
\<close>

definition full_line :: "string \<Rightarrow> string" where
  "full_line l = (if l \<noteq> [] \<and> last l = CHR 0x0D then butlast l else l) @ lf"

fun csv_lines_from :: "string \<Rightarrow> string \<Rightarrow> string list" where
  "csv_lines_from acc [] = (if acc = [] then [] else [if last acc = CHR 0x0D then butlast acc else acc])"
| "csv_lines_from acc (c # s) = (if c = feed then full_line acc # csv_lines_from [] s else csv_lines_from (acc @ [c]) s)"

definition csv_lines :: "string \<Rightarrow> string list" where
  "csv_lines s = csv_lines_from [] s"

section \<open>Records\<close>

text \<open>
  The rest of a quoted field in a line, and the lines after it. The result is the field, what is left of the line when another field follows, and the lines that are
  left. A quoted field that does not end is an error.
\<close>

fun quoted :: "string \<Rightarrow> string \<Rightarrow> string list \<Rightarrow> (string \<times> string option \<times> string list) option" where
  "quoted acc [] [] = None"
| "quoted acc [] (l # ls) = quoted acc l ls"
| "quoted acc (c # cs) ls =
     (if c \<noteq> quotation then quoted (acc @ [c]) cs ls
      else (case cs of
          [] \<Rightarrow> Some (acc, None, ls)
        | d # ds \<Rightarrow>
            if d = quotation then quoted (acc @ [d]) ds ls
            else if d = comma then Some (acc, Some ds, ls)
            else if cs = lf then Some (acc, None, ls)
            else None))"

text \<open>An unquoted field, and what follows the comma after it.\<close>

definition bare :: "string \<Rightarrow> (string \<times> string option) option" where
  "bare line = (let f = takeWhile (\<lambda>c. c \<noteq> comma) line; rest = dropWhile (\<lambda>c. c \<noteq> comma) line in
     if rest \<noteq> [] then (if quotation \<in> set f then None else Some (f, Some (tl rest)))
     else (let g = (if f \<noteq> [] \<and> last f = feed then butlast f else f) in if quotation \<in> set g then None else Some (g, None)))"

definition field_at :: "string \<Rightarrow> string list \<Rightarrow> (string \<times> string option \<times> string list) option" where
  "field_at line0 ls = (let line = trim_left space_seqs line0 in
     if line \<noteq> [] \<and> hd line = quotation then quoted [] (tl line) ls
     else map_option (\<lambda>(f, rest). (f, rest, ls)) (bare line))"

definition csv_size :: "string option \<Rightarrow> string list \<Rightarrow> nat" where
  "csv_size line ls = (case line of None \<Rightarrow> 0 | Some l \<Rightarrow> Suc (length l)) + sum_list (map (\<lambda>l. Suc (Suc (length l))) ls)"

lemma quoted_size: "quoted acc cs ls = Some (f, rest, ls') \<Longrightarrow> csv_size rest ls' \<le> csv_size (Some cs) ls"
proof (induction acc cs ls rule: quoted.induct)
  case (3 acc c cs ls)
  then show ?case
    by (cases cs; cases "c = quotation") (auto simp: csv_size_def split: if_splits)
qed (auto simp: csv_size_def)

lemma length_trim_left: "length (trim_left seqs s) \<le> length s"
  by (induction seqs s rule: trim_left.induct) (subst trim_left.simps, auto split: option.split)

lemma field_size:
  assumes "field_at line ls = Some (f, Some rest, ls')"
  shows "csv_size (Some rest) ls' < csv_size (Some line) ls"
proof -
  let ?l = "trim_left space_seqs line"
  have t: "length ?l \<le> length line" by (rule length_trim_left)
  have b: "length (dropWhile P l) \<le> length l" for P and l :: string by (rule length_dropWhile_le)
  show ?thesis
  proof (cases "?l \<noteq> [] \<and> hd ?l = quotation")
    case True
    then have "quoted [] (tl ?l) ls = Some (f, Some rest, ls')" using assms by (simp add: field_at_def)
    from quoted_size [OF this] True t show ?thesis by (cases ?l) (auto simp: csv_size_def)
  next
    case False
    with assms have "bare ?l = Some (f, Some rest)" "ls' = ls" by (auto simp: field_at_def Let_def)
    then have "length rest < length ?l"
      using b [of "\<lambda>c. c \<noteq> comma" ?l] by (cases "dropWhile (\<lambda>c. c \<noteq> comma) ?l") (auto simp: bare_def Let_def split: if_splits)
    with t \<open>ls' = ls\<close> show ?thesis by (simp add: csv_size_def)
  qed
qed

function csv_fields :: "string \<Rightarrow> string list \<Rightarrow> (string list \<times> string list) option" where
  "csv_fields line ls = (case field_at line ls of
       None \<Rightarrow> None
     | Some (f, None, ls') \<Rightarrow> Some ([f], ls')
     | Some (f, Some rest, ls') \<Rightarrow> map_option (\<lambda>(fs, ls''). (f # fs, ls'')) (csv_fields rest ls'))"
  by pat_completeness auto
termination
  by (relation "measure (\<lambda>(line, ls). csv_size (Some line) ls)") (auto dest: field_size)

declare csv_fields.simps [simp del]

lemma csv_fields_size: "csv_fields line ls = Some (fs, ls') \<Longrightarrow> csv_size None ls' \<le> csv_size (Some line) ls"
proof (induction line ls arbitrary: fs ls' rule: csv_fields.induct)
  case (1 line ls)
  obtain f rest ls1 where fa: "field_at line ls = Some (f, rest, ls1)"
    using 1(2) by (auto simp: csv_fields.simps [of line ls] split: option.splits)
  show ?case
  proof (cases rest)
    case None
    have "csv_size rest ls1 \<le> csv_size (Some line) ls"
    proof -
      let ?l = "trim_left space_seqs line"
      have t: "length ?l \<le> length line" by (rule length_trim_left)
      show ?thesis
      proof (cases "?l \<noteq> [] \<and> hd ?l = quotation")
        case True
        then have "quoted [] (tl ?l) ls = Some (f, rest, ls1)" using fa by (simp add: field_at_def)
        from quoted_size [OF this] True t show ?thesis by (cases ?l) (auto simp: csv_size_def)
      next
        case False
        with fa None show ?thesis by (auto simp: field_at_def Let_def csv_size_def)
      qed
    qed
    with 1(2) fa None show ?thesis by (simp add: csv_fields.simps [of line ls] csv_size_def)
  next
    case (Some more)
    with fa have f: "field_at line ls = Some (f, Some more, ls1)" by simp
    then obtain fs' where "csv_fields more ls1 = Some (fs', ls')"
      using 1(2) by (auto simp: csv_fields.simps [of line ls])
    from 1(1) [OF f refl refl refl this] field_size [OF f] show ?thesis by simp
  qed
qed

text \<open>\<open>ReadAll\<close>: comments and empty lines are skipped.\<close>

definition skipped :: "string \<Rightarrow> bool" where
  "skipped line \<longleftrightarrow> prefix ''#'' line \<or> line = [] \<or> line = lf"

function csv_records :: "string list \<Rightarrow> string list list option" where
  "csv_records [] = Some []"
| "csv_records (line # ls) =
     (if skipped line then csv_records ls
      else (case csv_fields line ls of
          None \<Rightarrow> None
        | Some (rec, ls') \<Rightarrow> map_option (\<lambda>recs. rec # recs) (csv_records ls')))"
  by pat_completeness auto
termination
proof (relation "measure (csv_size None)")
  fix line ls x rec ls'
  assume "csv_fields line ls = Some x" "(rec, ls') = x"
  then have "csv_size None ls' \<le> csv_size (Some line) ls" by (auto dest: csv_fields_size)
  then show "(ls', line # ls) \<in> measure (csv_size None)" by (simp add: csv_size_def)
qed (auto simp: csv_size_def)

declare csv_records.simps(2) [simp del]

definition csv_ReadAll :: "string \<Rightarrow> string list list option" where
  "csv_ReadAll s = csv_records (csv_lines s)"

section \<open>Writing\<close>

definition needs_quotes :: "string \<Rightarrow> bool" where
  "needs_quotes f \<longleftrightarrow> f \<noteq> [] \<and> (f = [CHR 0x5C, CHR ''.''] \<or> set f \<inter> {comma, quotation, CHR 0x0D, feed} \<noteq> {}
     \<or> list_ex (\<lambda>sp. prefix sp f) space_seqs)"

definition csv_field :: "string \<Rightarrow> string" where
  "csv_field f = (if needs_quotes f then quotation # concat (map (\<lambda>c. if c = quotation then [c, c] else [c]) f) @ [quotation] else f)"

definition csv_Write :: "string list \<Rightarrow> string" where
  "csv_Write rec = Join (map csv_field rec) '','' @ lf"

section \<open>What is written can be read\<close>

text \<open>\<open>whole l\<close>: a line with its line feed; \<open>remains t line ls\<close>: the text \<open>t\<close> is what is left, \<open>line\<close> of the current line and then \<open>ls\<close>.\<close>

definition whole :: "string \<Rightarrow> bool" where
  "whole l \<longleftrightarrow> (\<exists>a. l = a @ lf \<and> feed \<notin> set a)"

definition remains :: "string \<Rightarrow> string \<Rightarrow> string list \<Rightarrow> bool" where
  "remains t line ls \<longleftrightarrow> line @ concat ls = t \<and> whole line \<and> list_all whole ls"

definition escaped :: "string \<Rightarrow> string" where
  "escaped f = concat (map (\<lambda>c. if c = quotation then [c, c] else [c]) f)"

lemma whole_not_Nil [simp]: "\<not> whole []"
  by (simp add: whole_def lf_def)

lemma whole_Cons: "whole (c # l) \<longleftrightarrow> (if c = feed then l = [] else whole l)"
  by (auto simp: whole_def lf_def Cons_eq_append_conv)

lemma remains_Cons:
  assumes "remains (c # t) line ls"
  obtains l where "line = c # l" "l @ concat ls = t" "if c = feed then l = [] else whole l"
  using assms by (cases line) (auto simp: remains_def whole_Cons)

lemma quoted_written:
  assumes "remains (escaped f @ quotation # d # t) line ls" and "d = comma \<or> d = feed"
  shows "\<exists>line' ls'. quoted acc line ls = Some (acc @ f, if d = comma then Some line' else None, ls')
    \<and> (if d = comma then remains t line' ls' else concat ls' = t \<and> list_all whole ls')"
  using assms(1)
proof (induction f arbitrary: acc line ls)
  case Nil
  then obtain l where l: "line = quotation # l" "l @ concat ls = d # t" "whole l"
    by (auto simp: escaped_def elim: remains_Cons)
  moreover obtain k where "l = d # k" "k @ concat ls = t" "if d = feed then k = [] else whole k"
    using l by (cases l) (auto simp: whole_Cons)
  ultimately show ?case using Nil assms(2)
    by (auto simp: remains_def lf_def)
next
  case (Cons c f)
  show ?case
  proof (cases "c = quotation")
    case True
    with Cons.prems obtain l where l: "line = quotation # quotation # l" "l @ concat ls = escaped f @ quotation # d # t" "whole l"
      by (auto simp: escaped_def remains_def whole_Cons append_eq_Cons_conv Cons_eq_append_conv)
    with Cons.prems have "remains (escaped f @ quotation # d # t) l ls" by (auto simp: remains_def)
    from Cons.IH [OF this, of "acc @ [quotation]"] l True show ?thesis by auto
  next
    case False
    with Cons.prems obtain l where l: "line = c # l" "l @ concat ls = escaped f @ quotation # d # t" "if c = feed then l = [] else whole l"
      by (auto simp: escaped_def elim: remains_Cons)
    show ?thesis
    proof (cases "c = feed")
      case True
      with l have n: "l = []" "concat ls = escaped f @ quotation # d # t" by auto
      moreover from Cons.prems have "list_all whole ls" by (simp add: remains_def)
      ultimately obtain k ks where k: "ls = k # ks" "remains (escaped f @ quotation # d # t) k ks"
        by (cases ls) (auto simp: remains_def)
      from Cons.IH [OF k(2), of "acc @ [c]"] k(1) l n False show ?thesis by simp
    next
      case nf: False
      with l Cons.prems have "remains (escaped f @ quotation # d # t) l ls" by (auto simp: remains_def)
      from Cons.IH [OF this, of "acc @ [c]"] l False show ?thesis by simp
    qed
  qed
qed

lemma space_tail: "p \<in> set space_seqs \<Longrightarrow> d = comma \<or> d = feed \<Longrightarrow> d \<notin> set (tl p)"
  by (auto simp: space_seqs_def)

lemma no_space_at:
  assumes "\<not> list_ex (\<lambda>sp. prefix sp f) space_seqs" and "f \<noteq> []" and "d = comma \<or> d = feed"
  shows "trim_left space_seqs (f @ d # l) = f @ d # l"
proof (rule trim_left_stop)
  fix p assume p: "p \<in> set space_seqs"
  show "\<not> prefix p (f @ d # l)"
  proof
    assume "prefix p (f @ d # l)"
    with assms(1) p obtain q where "p = f @ d # q" by (auto simp: prefix_append prefix_Cons list_ex_iff)
    with assms(2) have "d \<in> set (tl p)" by (cases f) auto
    with space_tail [OF p assms(3)] show False by simp
  qed
qed

lemma bare_line:
  assumes "comma \<notin> set f" "quotation \<notin> set f" "feed \<notin> set f"
  shows "bare (f @ comma # l) = Some (f, Some l)" "bare (f @ lf) = Some (f, None)"
proof -
  have "takeWhile (\<lambda>c. c \<noteq> comma) f = f" "dropWhile (\<lambda>c. c \<noteq> comma) f = []"
    using assms(1) by (auto simp: takeWhile_eq_all_conv)
  then show "bare (f @ comma # l) = Some (f, Some l)" "bare (f @ lf) = Some (f, None)"
    using assms by (auto simp: bare_def lf_def Let_def takeWhile_append dropWhile_append)
qed

lemma remains_append:
  "remains (f @ t) line ls \<Longrightarrow> feed \<notin> set f \<Longrightarrow> \<exists>l. line = f @ l \<and> remains t l ls"
proof (induction f arbitrary: line)
  case (Cons c f)
  then obtain l where "line = c # l" "l @ concat ls = f @ t" "whole l"
    by (auto elim: remains_Cons)
  with Cons show ?case by (auto simp: remains_def)
qed simp

lemma field_written:
  assumes "remains (csv_field f @ d # t) line ls" and "d = comma \<or> d = feed"
  shows "\<exists>line' ls'. field_at line ls = Some (f, if d = comma then Some line' else None, ls')
    \<and> (if d = comma then remains t line' ls' else concat ls' = t \<and> list_all whole ls')"
proof (cases "needs_quotes f")
  case True
  with assms(1) have r: "remains (quotation # escaped f @ quotation # d # t) line ls"
    by (simp add: csv_field_def escaped_def)
  then obtain l where l: "line = quotation # l" "whole l" "l @ concat ls = escaped f @ quotation # d # t"
    by (auto elim: remains_Cons)
  with r have "remains (escaped f @ quotation # d # t) l ls" by (simp add: remains_def)
  moreover have "trim_left space_seqs line = line"
    using l by (intro trim_left_stop) (auto simp: space_seqs_def)
  ultimately show ?thesis
    using quoted_written [of f d t l ls "[]"] assms(2) l by (simp add: field_at_def)
next
  case False
  then have f: "comma \<notin> set f" "quotation \<notin> set f" "feed \<notin> set f" "f = [] \<or> \<not> list_ex (\<lambda>sp. prefix sp f) space_seqs"
    by (auto simp: needs_quotes_def)
  from assms(1) False have "remains (f @ d # t) line ls" by (simp add: csv_field_def)
  from remains_append [OF this f(3)] obtain l where l: "line = f @ l" "remains (d # t) l ls" by auto
  then obtain k where k: "l = d # k" "k @ concat ls = t" "if d = feed then k = [] else whole k"
    by (auto elim: remains_Cons)
  have q: "f = [] \<or> hd f \<noteq> quotation" using f(2) by (cases f) auto
  show ?thesis
  proof (cases "d = feed \<and> f = []")
    case True
    then have "trim_left space_seqs line = []"
      using l k by (simp add: trim_left.simps [of _ "[feed]"] space_seqs_def trim_left.simps [of _ "[]"])
    then have "field_at line ls = Some (f, None, ls)" using True by (simp add: field_at_def bare_def)
    with True k l show ?thesis by (auto simp: remains_def)
  next
    case nf: False
    have "trim_left space_seqs line = line"
    proof (cases "f = []")
      case True
      with nf assms(2) l k show ?thesis by (intro trim_left_stop) (auto simp: space_seqs_def)
    next
      case False
      with f l k assms(2) no_space_at [of f d k] show ?thesis by simp
    qed
    moreover have "line \<noteq> [] \<and> hd line \<noteq> quotation" using q l k assms(2) by (cases f) auto
    ultimately show ?thesis
      using assms(2) bare_line [OF f(1-3)] l k by (auto simp: field_at_def lf_def remains_def)
  qed
qed

lemma fields_written:
  "rec \<noteq> [] \<Longrightarrow> remains (csv_Write rec @ t) line ls \<Longrightarrow>
     \<exists>ls'. csv_fields line ls = Some (rec, ls') \<and> concat ls' = t \<and> list_all whole ls'"
proof (induction rec arbitrary: line ls)
  case (Cons f rec)
  show ?case
  proof (cases rec)
    case Nil
    with Cons.prems have "remains (csv_field f @ feed # t) line ls" by (simp add: csv_Write_def lf_def)
    from field_written [OF this] Nil show ?thesis by (auto simp: csv_fields.simps [of line ls])
  next
    case (Cons g gs)
    with Cons.prems have "remains (csv_field f @ comma # csv_Write rec @ t) line ls" by (simp add: csv_Write_def)
    from field_written [OF this] obtain l' ls' where
      "field_at line ls = Some (f, Some l', ls')" "remains (csv_Write rec @ t) l' ls'" by auto
    with Cons.IH [of l' ls'] Cons show ?thesis by (auto simp: csv_fields.simps [of line ls])
  qed
qed simp

text \<open>Rows that are neither a comment nor an empty line, without carriage returns.\<close>

definition readable_row :: "string list \<Rightarrow> bool" where
  "readable_row rec \<longleftrightarrow> rec \<noteq> [] \<and> rec \<noteq> [[]] \<and> \<not> prefix ''#'' (hd rec) \<and> list_all (\<lambda>f. CHR 0x0D \<notin> set f) rec"

lemma written_line:
  assumes "readable_row rec" and "remains (csv_Write rec @ t) line ls"
  shows "\<not> skipped line"
proof -
  obtain f fs where rec: "rec = f # fs" using assms(1) by (cases rec) (auto simp: readable_row_def)
  have h: "\<not> prefix ''#'' (csv_field f)" using assms(1) rec by (cases f) (auto simp: readable_row_def csv_field_def)
  have e: "csv_Write rec @ t = line @ concat ls" "line \<noteq> []" using assms(2) by (auto simp: remains_def)
  then have n: "line = lf \<Longrightarrow> csv_Write rec @ t = lf @ concat ls" "line \<noteq> []" "prefix ''#'' line \<Longrightarrow> prefix ''#'' (csv_Write rec @ t)"
    by auto
  have "csv_Write rec @ t \<noteq> feed # u" for u
  proof (cases "needs_quotes f")
    case True then show ?thesis by (cases fs) (auto simp: csv_Write_def rec csv_field_def)
  next
    case False
    then show ?thesis
      using assms(1) by (cases f; cases fs) (auto simp: csv_Write_def rec csv_field_def readable_row_def needs_quotes_def lf_def)
  qed
  moreover have "\<not> prefix ''#'' (csv_Write rec @ t)"
    using h by (cases "csv_field f"; cases fs) (auto simp: csv_Write_def rec lf_def)
  ultimately show ?thesis using n by (auto simp: skipped_def lf_def)
qed

lemma records_written:
  "list_all readable_row recs \<Longrightarrow> concat ls = concat (map csv_Write recs) \<Longrightarrow> list_all whole ls \<Longrightarrow> csv_records ls = Some recs"
proof (induction recs arbitrary: ls)
  case Nil
  then have "ls = []" by (cases ls) auto
  then show ?case by simp
next
  case (Cons rec recs)
  then have "ls \<noteq> []" by (auto simp: csv_Write_def lf_def)
  then obtain line ks where ls: "ls = line # ks" by (cases ls) auto
  with Cons.prems have r: "remains (csv_Write rec @ concat (map csv_Write recs)) line ks" by (simp add: remains_def)
  moreover have "rec \<noteq> []" using Cons.prems by (simp add: readable_row_def)
  ultimately obtain ks' where k: "csv_fields line ks = Some (rec, ks')" "concat ks' = concat (map csv_Write recs)" "list_all whole ks'"
    using fields_written by blast
  from Cons.IH [OF _ k(2,3)] Cons.prems k(1) written_line [OF _ r] show ?case
    by (simp add: ls csv_records.simps(2))
qed

lemma csv_lines_from_whole:
  "CHR 0x0D \<notin> set (acc @ s) \<Longrightarrow> feed \<notin> set acc \<Longrightarrow> acc @ s = [] \<or> last (acc @ s) = feed \<Longrightarrow>
     concat (csv_lines_from acc s) = acc @ s \<and> list_all whole (csv_lines_from acc s)"
proof (induction acc s rule: csv_lines_from.induct)
  case (1 acc)
  then show ?case by (auto split: if_splits) (metis last_in_set)
next
  case (2 acc c s)
  show ?case
  proof (cases "c = feed")
    case True
    have "s = [] \<or> last s = feed" using 2(5) by (auto split: if_splits)
    moreover have "full_line acc = acc @ lf" using 2(3) by (auto simp: full_line_def) (metis last_in_set)
    ultimately show ?thesis using 2 True by (auto simp: whole_def lf_def)
  next
    case False
    with 2 show ?thesis by auto
  qed
qed

lemma set_csv_field: "set (csv_field f) \<subseteq> insert quotation (set f)"
  by (auto simp: csv_field_def split: if_splits)

lemma no_return_written:
  assumes "readable_row rec"
  shows "CHR 0x0D \<notin> set (csv_Write rec)"
proof -
  have "CHR 0x0D \<notin> set (Join (map csv_field rec') '','')" if "list_all (\<lambda>f. CHR 0x0D \<notin> set f) rec'" for rec'
    using that
  proof (induction rec' rule: induct_list012)
    case (2 x)
    then show ?case using set_csv_field [of x] by auto
  next
    case (3 x y zs)
    then show ?case using set_csv_field [of x] by auto
  qed simp
  with assms show ?thesis by (auto simp: csv_Write_def readable_row_def lf_def)
qed

lemma csv_roundtrip:
  assumes "list_all readable_row recs"
  shows "csv_ReadAll (concat (map csv_Write recs)) = Some recs"
proof -
  let ?t = "concat (map csv_Write recs)"
  have "CHR 0x0D \<notin> set ?t" using assms by (auto simp: list_all_iff dest: no_return_written)
  moreover have "?t = [] \<or> last ?t = feed"
    by (induction recs rule: rev_induct) (auto simp: csv_Write_def lf_def)
  ultimately have "concat (csv_lines ?t) = ?t \<and> list_all whole (csv_lines ?t)"
    using csv_lines_from_whole [of "[]" ?t] by (simp add: csv_lines_def)
  with records_written [OF assms] show ?thesis by (simp add: csv_ReadAll_def)
qed

end
