(* ===== verification/Web_Users.thy ===== *)
theory Web_Users
  imports Web_Pages Go_Csv
begin

text \<open>The pages of the users: \<open>handlers_users.go\<close>.\<close>

section \<open>Lists and pages\<close>

definition usersPageSize :: int where "usersPageSize = 25"

definition userURL :: "string \<Rightarrow> string" where "userURL email = ''/users/'' @ PathEscape email"

fun with_usage :: "mailbox list \<Rightarrow> (mailbox \<times> int) list op" where
  "with_usage [] = Return []"
| "with_usage (m # ms) = andThen (UsageBytes (Email m)) (\<lambda>used. andThen (with_usage ms) (\<lambda>rest. Return ((m, used) # rest)))"

definition handleUsersPage :: "lib \<Rightarrow> server_env \<Rightarrow> web_request \<Rightarrow> admin_user \<Rightarrow> handler" where
  "handleUsersPage L E r u =
     (let q = TrimSpace (Rq_Query r ''q''); domain = Rq_Query r ''domain''; st = Rq_Query r ''status''; pager = newPager r usersPageSize 0 in
      with_base (uni L) E r u ''Users'' ''users'' [(''Users'', [])] (\<lambda>b.
      checked (DomainList L) failErr (\<lambda>domains.
      checked DomainStatsAll failErr (\<lambda>stats.
      let users = sum_list (map (DS_Users \<circ> snd) stats); suspended = sum_list (map (DS_Suspended \<circ> snd) stats) in
      checked (MailboxSearch L \<lparr>MF_Domain = domain, MF_Query = q, MF_Status = st, MF_Limit = usersPageSize, MF_Offset = Offset pager\<rparr>) failErr (\<lambda>(list, hits).
      andThen (with_usage list) (\<lambda>rows.
      Return (renderPage ''users'' (VUsers \<lparr>UP_Base = b, UP_Users = rows, UP_Domains = domains, UP_Pager = pager\<lparr>PG_Total := int hits\<rparr>, UP_Query = q,
        UP_Domain = domain, UP_Status = st, UP_TotalUsers = users, UP_ActiveUsers = int users - int suspended, UP_Suspended = suspended\<rparr>))))))))"

definition handleUserPage :: "lib \<Rightarrow> server_env \<Rightarrow> web_request \<Rightarrow> admin_user \<Rightarrow> string \<Rightarrow> handler" where
  "handleUserPage L E r u email0 =
     (let email = ToLower (uni L) email0 in
      checked (MailboxGet L email) (\<lambda>e. if is_not_found e then NotFound else failErr e) (\<lambda>m.
      with_base (uni L) E r u (if DisplayName m = [] then Email m else DisplayName m) ''users'' [(''Users'', ''/users''), (Email m, [])] (\<lambda>b.
      andThen (UsageBytes (Email m)) (\<lambda>used.
      checked (ForwardGet L email) failErr (\<lambda>fwd.
      checked (AliasesTo L email) failErr (\<lambda>aliases.
      checked (GroupsOf L email) failErr (\<lambda>groups.
      checked (GroupList L [] []) failErr (\<lambda>all_groups.
      checked (DomainList L) failErr (\<lambda>domains.
      andThen (recentActivity L email 8) (\<lambda>activity.
      Return (renderPage ''user'' (VUser \<lparr>US_Base = b, US_User = m, US_UsedBytes = used, US_Forward = fwd, US_Aliases = aliases, US_Groups = groups,
        US_OtherGroups = filter (\<lambda>g. G_Email g \<notin> G_Email ` set groups) all_groups, US_Domains = domains, US_Activity = activity\<rparr>))))))))))))"

section \<open>Changes\<close>

definition handleUserCreate :: "lib \<Rightarrow> server_env \<Rightarrow> web_request \<Rightarrow> admin_user \<Rightarrow> handler" where
  "handleUserCreate L E r u =
     (if \<not> Wq_FormOk r then Return invalid_form
      else (let email = ToLower (uni L) (formValue r ''local'' @ ''@'' @ formValue r ''domain''); password = FormValue r ''password'' in
        checked (Lift (ValidatePassword password)) failErr (\<lambda>_.
        checked (Lift (ParseQuota L (formValue r ''quota''))) (\<lambda>e. fail 400 (err_text e)) (\<lambda>quota.
        checked (MailboxCreate L email password (formValue r ''name'') quota) failErr (\<lambda>_.
        recording r u ''user.create'' email (''quota='' @ humanizeBytes quota)
          (Return (done_with E r (userURL email) (''User '' @ email @ '' created.''))))))))"

definition handleUserProfile :: "lib \<Rightarrow> server_env \<Rightarrow> web_request \<Rightarrow> admin_user \<Rightarrow> string \<Rightarrow> handler" where
  "handleUserProfile L E r u email =
     (let name = formValue r ''name'' in
      checked (MailboxSetName L email name) failErr (\<lambda>_.
      recording r u ''user.rename'' email name (Return (done_with E r (userURL email) ''Profile saved.''))))"

definition handleUserPassword :: "lib \<Rightarrow> server_env \<Rightarrow> web_request \<Rightarrow> admin_user \<Rightarrow> string \<Rightarrow> handler" where
  "handleUserPassword L E r u email =
     (let password = FormValue r ''password'' in
      checked (Lift (ValidatePassword password)) failErr (\<lambda>_.
      checked (MailboxPasswd L email password) failErr (\<lambda>_.
      recording r u ''user.password.reset'' email []
        (Return (done_with E r (userURL email) ''Password changed. It takes effect at the next sign-in.'')))))"

definition handleUserQuota :: "lib \<Rightarrow> server_env \<Rightarrow> web_request \<Rightarrow> admin_user \<Rightarrow> string \<Rightarrow> handler" where
  "handleUserQuota L E r u email =
     checked (Lift (ParseQuota L (formValue r ''quota''))) (\<lambda>e. fail 400 (err_text e)) (\<lambda>quota.
     checked (MailboxSetQuota L email quota) failErr (\<lambda>_.
     recording r u ''user.quota'' email (humanizeBytes quota)
       (Return (done_with E r (userURL email) (''Storage limit set to '' @ humanizeBytes quota @ ''.'')))))"

definition handleUserStatus :: "lib \<Rightarrow> server_env \<Rightarrow> web_request \<Rightarrow> admin_user \<Rightarrow> string \<Rightarrow> handler" where
  "handleUserStatus L E r u email =
     (let enable = (FormValue r ''enabled'' = ''1'') in
      checked (MailboxSetEnabled L email enable) failErr (\<lambda>_.
      if enable
      then recording r u ''user.restore'' email []
        (Return (done_with E r (userURL email) (email @ '' restored. They can sign in and receive mail again.'')))
      else recording r u ''user.suspend'' email []
        (Return (done_with E r (userURL email) (email @ '' suspended. Their stored mail is kept.'')))))"

definition handleUserForward :: "lib \<Rightarrow> server_env \<Rightarrow> web_request \<Rightarrow> admin_user \<Rightarrow> string \<Rightarrow> handler" where
  "handleUserForward L E r u email =
     (let dest = formValue r ''destination''; keep = (FormValue r ''keep_copy'' = ''1'') in
      checked (ForwardSet L email dest keep) failErr (\<lambda>_.
      recording r u ''user.forward.set'' email dest
        (Return (done_with E r (userURL email) (''Mail for '' @ email @ '' now forwards to '' @ ToLower (uni L) dest @ ''.'')))))"

definition handleUserForwardClear :: "lib \<Rightarrow> server_env \<Rightarrow> web_request \<Rightarrow> admin_user \<Rightarrow> string \<Rightarrow> handler" where
  "handleUserForwardClear L E r u email =
     checked (ForwardClear L email) failErr (\<lambda>_.
     recording r u ''user.forward.clear'' email [] (Return (done_with E r (userURL email) ''Forwarding turned off.'')))"

definition handleUserAliasAdd :: "lib \<Rightarrow> server_env \<Rightarrow> web_request \<Rightarrow> admin_user \<Rightarrow> string \<Rightarrow> handler" where
  "handleUserAliasAdd L E r u email =
     (let alias = ToLower (uni L) (formValue r ''local'' @ ''@'' @ formValue r ''domain'') in
      checked (AddressKind L alias) failErr (\<lambda>kind.
      if kind = ''user'' \<or> kind = ''group'' then Return (fail 409 (alias @ '' is already a '' @ kind @ '' address.''))
      else checked (AliasAdd L alias email) failErr (\<lambda>_.
        recording r u ''alias.add'' alias (arrow @ '' '' @ email)
          (Return (done_with E r (userURL email) (alias @ '' now delivers to '' @ email @ ''.''))))))"

definition handleUserAliasRemove :: "lib \<Rightarrow> server_env \<Rightarrow> web_request \<Rightarrow> admin_user \<Rightarrow> string \<Rightarrow> string \<Rightarrow> handler" where
  "handleUserAliasRemove L E r u email alias =
     checked (AliasRemove L alias email) failErr (\<lambda>_.
     recording r u ''alias.remove'' alias (arrow @ '' '' @ email) (Return (done_with E r (userURL email) (''Removed '' @ alias @ ''.''))))"

definition handleUserGroupAdd :: "lib \<Rightarrow> server_env \<Rightarrow> web_request \<Rightarrow> admin_user \<Rightarrow> string \<Rightarrow> handler" where
  "handleUserGroupAdd L E r u email =
     (let grp = formValue r ''group''; role0 = formValue r ''role''; role = (if role0 = [] then RoleMember else role0) in
      checked (GroupAddMembers L grp [email] role) failErr (\<lambda>results.
      case results of
        [res] \<Rightarrow> if \<not> MR_Added res then Return (fail 400 (MR_Error res))
                 else recording r u ''group.members.add'' grp (email @ '' ('' @ role @ '')'') (Return (done_with E r (userURL email) (''Added to '' @ grp @ ''.'')))
      | _ \<Rightarrow> recording r u ''group.members.add'' grp (email @ '' ('' @ role @ '')'') (Return (done_with E r (userURL email) (''Added to '' @ grp @ ''.'')))))"

definition handleUserGroupRemove :: "lib \<Rightarrow> server_env \<Rightarrow> web_request \<Rightarrow> admin_user \<Rightarrow> string \<Rightarrow> string \<Rightarrow> handler" where
  "handleUserGroupRemove L E r u email grp =
     checked (GroupRemoveMember L grp email) failErr (\<lambda>_.
     recording r u ''group.members.remove'' grp email (Return (done_with E r (userURL email) (''Removed from '' @ grp @ ''.''))))"

definition handleUserDelete :: "lib \<Rightarrow> server_env \<Rightarrow> web_request \<Rightarrow> admin_user \<Rightarrow> string \<Rightarrow> handler" where
  "handleUserDelete L E r u email =
     checked (MailboxGet L email) failErr (\<lambda>_.
     checked (MailboxRemove L email) failErr (\<lambda>_.
     recording r u ''user.delete'' email [] (Return (done_with E r ''/users'' (''Deleted '' @ email @ '' and its stored mail.'')))))"

section \<open>Passwords\<close>

text \<open>
  \<open>rand.Int\<close> for a bound of up to 256: a byte is read and all bits are cleared that the largest number below the bound does not need; a byte that is too large is thrown
  away. \<open>draw m b s\<close> keeps the lowest \<open>b\<close> bits; without a byte left the reader fails and the program panics.
\<close>

fun draw :: "nat \<Rightarrow> nat \<Rightarrow> string \<Rightarrow> (nat \<times> string) option" where
  "draw m b [] = None"
| "draw m b (c # s) = (let n = byte c mod 2 ^ b in if n < m then Some (n, s) else draw m b s)"

definition RandInt :: "nat \<Rightarrow> nat \<Rightarrow> nat op" where
  "RandInt m b = (\<lambda>w. case draw m b (entropy w) of
       None \<Rightarrow> (Inl RandError, w\<lparr>entropy := []\<rparr>)
     | Some (n, rest) \<Rightarrow> (Inr n, w\<lparr>entropy := rest\<rparr>))"

definition password_alphabet :: string where
  "password_alphabet = ''ABCDEFGHJKLMNPQRSTUVWXYZabcdefghijkmnopqrstuvwxyz23456789''"

fun random_letters :: "nat \<Rightarrow> string op" where
  "random_letters 0 = Return []"
| "random_letters (Suc k) = andThen (RandInt (length password_alphabet) 6) (\<lambda>n.
     andThen (random_letters k) (\<lambda>rest. Return (password_alphabet ! n # rest)))"

definition generatePassword :: "string op" where
  "generatePassword = random_letters 14"

section \<open>The import\<close>

definition maxImportRows :: nat where "maxImportRows = 1000"

definition header_names :: "string list" where
  "header_names = [''email'', ''username'', ''user'', ''address'']"

definition kept_rows :: "lib \<Rightarrow> string list list \<Rightarrow> string list list" where
  "kept_rows L records =
     (let trimmed = map (map TrimSpace) records in
      map snd (filter (\<lambda>(i, rec). rec \<noteq> [] \<and> hd rec \<noteq> [] \<and> (i = 0 \<longrightarrow> ToLower (uni L) (hd rec) \<notin> set header_names)) (enumerate 0 trimmed)))"

definition parseImportCSV :: "lib \<Rightarrow> string \<Rightarrow> error + string list list" where
  "parseImportCSV L raw = (case csv_ReadAll raw of
       None \<Rightarrow> Inl (ErrText ''could not parse CSV'')
     | Some records \<Rightarrow> Inr (kept_rows L records))"

definition column :: "nat \<Rightarrow> string list \<Rightarrow> string" where
  "column i row = (if i < length row then row ! i else [])"

text \<open>A row that fails is reported without the password.\<close>

definition row_failed :: "string \<Rightarrow> string \<Rightarrow> string \<Rightarrow> import_result" where
  "row_failed email name msg = \<lparr>IR_Email = email, IR_Name = name, IR_Password = [], IR_Created = False, IR_Error = msg\<rparr>"

definition row_error :: "error \<Rightarrow> string" where
  "row_error e = (if is_validation e \<or> is_exists e \<or> is_not_found e then err_text e else ''server error (see the server log)'')"

definition no_default_domain :: string where
  "no_default_domain = ''no domain: use a full address or pick a default domain''"

definition import_row :: "lib \<Rightarrow> string \<Rightarrow> string \<Rightarrow> string list \<Rightarrow> import_result op" where
  "import_row L formDomain formQuota row =
     (let email0 = ToLower (uni L) (column 0 row); name = column 1 row in
      if CHR ''@'' \<notin> set email0 \<and> formDomain = [] then Return (row_failed email0 name no_default_domain)
      else (let email = (if CHR ''@'' \<in> set email0 then email0 else email0 @ ''@'' @ formDomain) in
        andThen (if column 2 row \<noteq> [] then Return (column 2 row) else generatePassword) (\<lambda>password.
        case ParseQuota L (if column 3 row \<noteq> [] then column 3 row else formQuota) of
          Inl e \<Rightarrow> Return (row_failed email name (err_text e))
        | Inr quota \<Rightarrow> (case ValidatePassword password of
              Inl e \<Rightarrow> Return (row_failed email name (err_text e))
            | Inr _ \<Rightarrow> andThen (Attempt (MailboxCreate L email password name quota)) (\<lambda>made. Return (case made of
                  Inl e \<Rightarrow> row_failed email name (row_error e)
                | Inr _ \<Rightarrow> \<lparr>IR_Email = email, IR_Name = name, IR_Password = password, IR_Created = True, IR_Error = []\<rparr>))))))"

fun import_rows :: "lib \<Rightarrow> string \<Rightarrow> string \<Rightarrow> string list list \<Rightarrow> import_result list op" where
  "import_rows L formDomain formQuota [] = Return []"
| "import_rows L formDomain formQuota (row # rows) = andThen (import_row L formDomain formQuota row) (\<lambda>res.
     andThen (import_rows L formDomain formQuota rows) (\<lambda>rest. Return (res # rest)))"

text \<open>The credentials of the users that were created.\<close>

definition credentials_rows :: "import_result list \<Rightarrow> string list list" where
  "credentials_rows results = [''email'', ''name'', ''password''] # map (\<lambda>res. [IR_Email res, IR_Name res, IR_Password res]) (filter IR_Created results)"

definition credentials_csv :: "import_result list \<Rightarrow> string" where
  "credentials_csv results = concat (map csv_Write (credentials_rows results))"

definition import_crumbs :: "crumb list" where
  "import_crumbs = [(''Users'', ''/users''), (''Import'', [])]"

definition handleUsersImportPage :: "lib \<Rightarrow> server_env \<Rightarrow> web_request \<Rightarrow> admin_user \<Rightarrow> handler" where
  "handleUsersImportPage L E r u =
     checked (DomainList L) failErr (\<lambda>domains.
     with_base (uni L) E r u ''Import users'' ''users'' import_crumbs (\<lambda>b.
     Return (renderPage ''users_import'' (VImport \<lparr>IP_Base = b, IP_Domains = domains, IP_Results = [], IP_CreatedCount = 0, IP_FailedCount = 0,
       IP_CredentialsCSV = []\<rparr>))))"

text \<open>The uploaded file comes before the text of the form; 4 MiB of it are read.\<close>

definition import_text :: "web_request \<Rightarrow> string option" where
  "import_text r = (case Wq_File r of
       NoUpload \<Rightarrow> Some (FormValue r ''csv'') | UploadError \<Rightarrow> None | Upload s \<Rightarrow> Some (take (4 * 1024 * 1024) s))"

definition import_all :: "lib \<Rightarrow> server_env \<Rightarrow> web_request \<Rightarrow> admin_user \<Rightarrow> string list list \<Rightarrow> handler" where
  "import_all L E r u rows =
     with_base (uni L) E r u ''Import users'' ''users'' import_crumbs (\<lambda>b.
     andThen (Attempt (DomainList L)) (\<lambda>domains.
     andThen (import_rows L (formValue r ''domain'') (formValue r ''quota'') rows) (\<lambda>results.
     let created = length (filter IR_Created results); failed = length (filter (\<lambda>res. \<not> IR_Created res) results) in
     recording r u ''user.import'' [] (nat_itoa created @ '' created, '' @ nat_itoa failed @ '' failed'')
       (Return (renderPage ''users_import'' (VImport \<lparr>IP_Base = b, IP_Domains = (case domains of Inl e \<Rightarrow> [] | Inr ds \<Rightarrow> ds),
         IP_Results = results, IP_CreatedCount = created, IP_FailedCount = failed, IP_CredentialsCSV = credentials_csv results\<rparr>))))))"

definition handleUsersImport :: "lib \<Rightarrow> server_env \<Rightarrow> web_request \<Rightarrow> admin_user \<Rightarrow> handler" where
  "handleUsersImport L E r u =
     (if \<not> Wq_MultipartOk r then Return (fail 400 ''Invalid upload.'')
      else given (import_text r) (fail 400 ''Could not read the uploaded file.'') (\<lambda>raw.
        checked (Lift (parseImportCSV L raw)) (\<lambda>e. fail 400 (err_text e)) (\<lambda>rows.
        if rows = [] then Return (fail 400 ''No rows to import. Paste CSV or choose a file.'')
        else if length rows > maxImportRows
        then Return (fail 400 (''At most '' @ nat_itoa maxImportRows @ '' users per import (this file has '' @ nat_itoa (length rows) @ '').''))
        else import_all L E r u rows)))"

section \<open>What an import does\<close>

lemma random_letters_run:
  "after (random_letters k) (\<lambda>r w'. virtual_users w' = virtual_users w \<and> (case r of Inl e \<Rightarrow> e = RandError | Inr s \<Rightarrow> length s = k \<and> set s \<subseteq> set password_alphabet)) w"
proof (induction k arbitrary: w)
  case (Suc k)
  have drawn: "draw m b s = Some (n, t) \<Longrightarrow> n < m" for m b s n t
    by (induction m b s rule: draw.induct) (auto simp: Let_def split: if_splits)
  have "after (RandInt m 6) (\<lambda>r w'. virtual_users w' = virtual_users w \<and> (case r of Inl e \<Rightarrow> e = RandError | Inr n \<Rightarrow> n < m)) w" for m
    by (auto simp: after_def RandInt_def dest: drawn split: option.split)
  note first = this [of "length password_alphabet"]
  have "after (andThen (random_letters k) (\<lambda>rest. Return (password_alphabet ! n # rest)))
      (\<lambda>r w'. virtual_users w' = virtual_users w \<and> (case r of Inl e \<Rightarrow> e = RandError | Inr s \<Rightarrow> length s = Suc k \<and> set s \<subseteq> set password_alphabet)) w1"
    if "n < length password_alphabet" "virtual_users w1 = virtual_users w" for n w1
    by (rule after_seq [OF Suc.IH]) (use that in \<open>auto simp: after_Return\<close>)
  then show ?case
    unfolding random_letters.simps by (intro after_seq [OF first]) auto
qed (simp add: wp)

text \<open>What one row gives: a user that was created stands in the table, one that was not has no password shown.\<close>

definition import_ok :: "string list \<Rightarrow> world \<Rightarrow> import_result \<Rightarrow> bool" where
  "import_ok row w res \<longleftrightarrow> IR_Name res = column 1 row
     \<and> (if IR_Created res then ValidateEmail (IR_Email res) = Inr () \<and> (IR_Password res = column 2 row \<or> length (IR_Password res) = 14 \<and> set (IR_Password res) \<subseteq> set password_alphabet)
          \<and> list_ex (\<lambda>u. u_email u = IR_Email res \<and> u_display_name u = IR_Name res) (virtual_users w)
        else IR_Password res = [])"

lemma import_ok_later: "import_ok row w res \<Longrightarrow> prefix (virtual_users w) (virtual_users w') \<Longrightarrow> import_ok row w' res"
  by (auto simp: import_ok_def list_ex_iff prefix_def split: if_splits)

lemma import_ok_failed: "import_ok row w (row_failed email (column (Suc 0) row) msg)"
  by (simp add: import_ok_def row_failed_def)

lemma import_ok_created:
  assumes "ValidateEmail email = Inr ()" and "pw = column 2 row \<or> length pw = 14 \<and> set pw \<subseteq> set password_alphabet"
  shows "import_ok row (w\<lparr>virtual_users := us @ [new_user i email (column (Suc 0) row) h m q c]\<rparr>)
    \<lparr>IR_Email = email, IR_Name = column (Suc 0) row, IR_Password = pw, IR_Created = True, IR_Error = []\<rparr>"
  using assms by (simp add: import_ok_def new_user_def)

lemma import_ok_users: "virtual_users w = virtual_users w' \<Longrightarrow> import_ok row w = import_ok row w'"
  by (simp add: import_ok_def fun_eq_iff)

lemma import_row_run:
  "after (import_row L dd quota row) (\<lambda>r w'. prefix (virtual_users w) (virtual_users w')
     \<and> (case r of Inl e \<Rightarrow> e = RandError | Inr res \<Rightarrow> import_ok row w' res)) w"
proof -
  let ?Q = "\<lambda>r w'. prefix (virtual_users w) (virtual_users w') \<and> (case r of Inl e \<Rightarrow> e = RandError | Inr res \<Rightarrow> import_ok row w' res)"
  let ?name = "column 1 row"
  have made: "after (andThen (Attempt (MailboxCreate L email pw ?name q)) (\<lambda>made. Return (case made of
      Inl e \<Rightarrow> row_failed email ?name (row_error e)
    | Inr u \<Rightarrow> \<lparr>IR_Email = email, IR_Name = ?name, IR_Password = pw, IR_Created = True, IR_Error = []\<rparr>))) ?Q w1"
    if us: "virtual_users w1 = virtual_users w" and pw: "pw = column 2 row \<or> length pw = 14 \<and> set pw \<subseteq> set password_alphabet" for w1 email pw q
    unfolding after_andThen after_Attempt sum.case after_Return One_nat_def
  proof (rule after_mono [OF MailboxCreate_frame], elim disjE exE conjE)
    fix r :: "error + unit" and w'
    assume "touches w1 w'" "case r of Inl e \<Rightarrow> True | Inr u \<Rightarrow> False"
    then show "prefix (virtual_users w) (virtual_users w') \<and> import_ok row w' (case r of
        Inl e \<Rightarrow> row_failed email (column (Suc 0) row) (row_error e)
      | Inr u \<Rightarrow> \<lparr>IR_Email = email, IR_Name = column (Suc 0) row, IR_Password = pw, IR_Created = True, IR_Error = []\<rparr>)"
      using us by (cases r) (simp_all add: touches_def import_ok_failed)
  next
    fix r :: "error + unit" and w' l d i h
    assume e: "SplitEmail email = Inr (l, d)"
      and t: "touches (w1\<lparr>virtual_users := virtual_users w1 @ [new_user i email (column (Suc 0) row) h (maildirOf d l) q (clock w1)]\<rparr>) w'"
    have "ValidateEmail email = Inr ()" by (rule conjunct1 [OF SplitEmail_Inr [OF e]])
    note ok = import_ok_created [OF this pw, of "virtual_users w1" i h "maildirOf d l" q "clock w1" w1]
    have "import_ok row w' = import_ok row (w1\<lparr>virtual_users := virtual_users w1 @ [new_user i email (column (Suc 0) row) h (maildirOf d l) q (clock w1)]\<rparr>)"
      using t by (intro import_ok_users) (simp add: touches_def)
    with ok t us show "prefix (virtual_users w) (virtual_users w') \<and> import_ok row w' (case r of
        Inl e \<Rightarrow> row_failed email (column (Suc 0) row) (row_error e)
      | Inr u \<Rightarrow> \<lparr>IR_Email = email, IR_Name = column (Suc 0) row, IR_Password = pw, IR_Created = True, IR_Error = []\<rparr>)"
      by (cases r) (simp_all add: touches_def import_ok_failed)
  qed
  have rest: "after (case ParseQuota L qs of
      Inl e \<Rightarrow> Return (row_failed email ?name (err_text e))
    | Inr quota \<Rightarrow> (case ValidatePassword pw of
          Inl e \<Rightarrow> Return (row_failed email ?name (err_text e))
        | Inr _ \<Rightarrow> andThen (Attempt (MailboxCreate L email pw ?name quota)) (\<lambda>made. Return (case made of
            Inl e \<Rightarrow> row_failed email ?name (row_error e)
          | Inr _ \<Rightarrow> \<lparr>IR_Email = email, IR_Name = ?name, IR_Password = pw, IR_Created = True, IR_Error = []\<rparr>)))) ?Q w1"
    if "virtual_users w1 = virtual_users w" "pw = column 2 row \<or> length pw = 14 \<and> set pw \<subseteq> set password_alphabet" for w1 email pw qs
    using made [OF that] that(1) by (auto simp: after_Return import_ok_failed split: sum.split)
  have password: "after (if column 2 row \<noteq> [] then Return (column 2 row) else generatePassword) (\<lambda>r w'. virtual_users w' = virtual_users w
      \<and> (case r of Inl e \<Rightarrow> e = RandError | Inr pw \<Rightarrow> pw = column 2 row \<or> length pw = 14 \<and> set pw \<subseteq> set password_alphabet)) w"
    using random_letters_run [of 14 w] by (auto simp: wp generatePassword_def elim!: after_mono split: sum.splits)
  show ?thesis
    unfolding import_row_def Let_def
    by (simp only: after_if after_Return, intro conjI impI after_seq [OF password] if_bool_eq_conj [THEN iffD2])
      (auto intro: rest simp: import_ok_failed)
qed

lemma import_rows_run:
  "after (import_rows L dd quota rows) (\<lambda>r w'. prefix (virtual_users w) (virtual_users w')
     \<and> (case r of Inl e \<Rightarrow> e = RandError | Inr results \<Rightarrow> list_all2 (\<lambda>row. import_ok row w') rows results)) w"
proof (induction rows arbitrary: w)
  case (Cons row rows)
  have "after (andThen (import_rows L dd quota rows) (\<lambda>rest. Return (res # rest))) (\<lambda>r w'. prefix (virtual_users w) (virtual_users w')
     \<and> (case r of Inl e \<Rightarrow> e = RandError | Inr results \<Rightarrow> list_all2 (\<lambda>row. import_ok row w') (row # rows) results)) w1"
    if "prefix (virtual_users w) (virtual_users w1)" "import_ok row w1 res" for res w1
    by (rule after_seq [OF Cons.IH]) (use that in \<open>auto simp: after_Return intro: import_ok_later prefix_order.trans\<close>)
  then show ?case
    unfolding import_rows.simps by (intro after_seq [OF import_row_run]) auto
qed (simp add: wp)

lemma plain_no_return: "plain_byte c \<Longrightarrow> c \<noteq> CHR 0x0D"
  by (auto simp: plain_byte_def)

lemma credentials_readable:
  assumes "list_all2 (\<lambda>row. import_ok row w) rows results" and "list_all (list_all (\<lambda>f. CHR 0x0D \<notin> set f)) rows"
    and "list_all (\<lambda>res. \<not> prefix ''#'' (IR_Email res)) results"
  shows "list_all readable_row (credentials_rows results)"
proof -
  have "CHR 0x0D \<notin> set password_alphabet" by code_simp
  then have letters: "CHR 0x0D \<notin> set pw" if "set pw \<subseteq> set password_alphabet" for pw using that by blast
  have col: "CHR 0x0D \<notin> set (column i row)" if "list_all (\<lambda>f. CHR 0x0D \<notin> set f) row" for i row
    using that by (auto simp: column_def list_all_iff)
  have email: "CHR 0x0D \<notin> set e" if "ValidateEmail e = Inr ()" for e
    using that by (rule ValidateEmail_shape) (auto dest: plain_no_return)
  have each: "readable_row [IR_Email res, IR_Name res, IR_Password res]"
    if "import_ok row w res" "list_all (\<lambda>f. CHR 0x0D \<notin> set f) row" "\<not> prefix ''#'' (IR_Email res)" "IR_Created res" for row res
    using that col [OF that(2)] email letters by (auto simp: readable_row_def import_ok_def)
  have "list_all readable_row (map (\<lambda>res. [IR_Email res, IR_Name res, IR_Password res]) (filter IR_Created results))"
    using assms by (induction rule: list_all2_induct) (auto intro: each)
  then show ?thesis by (simp add: credentials_rows_def readable_row_def)
qed



text \<open>The second condition is needed: \<open>#bob@example.com\<close> is a valid address, and its credentials are lost when the file is read.\<close>

lemma credentials_after_hash:
  "ValidateEmail ''#bob@example.com'' = Inr ()
   \<and> csv_ReadAll (credentials_csv [\<lparr>IR_Email = ''#bob@example.com'', IR_Name = ''Bob'', IR_Password = ''secret 123'', IR_Created = True, IR_Error = []\<rparr>])
     = Some [[''email'', ''name'', ''password'']]"
  by code_simp

end
