(* ===== verification/Web_Groups.thy ===== *)
theory Web_Groups
  imports Web_Pages
begin

text \<open>The pages of the groups and the aliases: \<open>handlers_groups.go\<close> and \<open>handlers_alias.go\<close>.\<close>

section \<open>Groups\<close>

definition groupURL :: "string \<Rightarrow> string" where "groupURL email = ''/groups/'' @ PathEscape email"

definition handleGroupsPage :: "lib \<Rightarrow> server_env \<Rightarrow> web_request \<Rightarrow> admin_user \<Rightarrow> handler" where
  "handleGroupsPage L E r u =
     (let q = TrimSpace (Rq_Query r ''q''); domain = Rq_Query r ''domain'' in
      with_base (uni L) E r u ''Groups'' ''groups'' [(''Groups'', [])] (\<lambda>b.
      checked (GroupList L domain q) failErr (\<lambda>groups.
      checked (DomainList L) failErr (\<lambda>domains.
      Return (renderPage ''groups'' (VGroups \<lparr>GS_Base = b, GS_Groups = groups, GS_Domains = domains, GS_Query = q, GS_Domain = domain\<rparr>))))))"

definition groupSettingsFromForm :: "web_request \<Rightarrow> group_settings" where
  "groupSettingsFromForm r = \<lparr>S_Name = formValue r ''name'', S_Description = formValue r ''description'', S_PostPolicy = formValue r ''post_policy'',
     S_AllowExternal = (FormValue r ''allow_external'' = ''1'')\<rparr>"

definition handleGroupCreate :: "lib \<Rightarrow> server_env \<Rightarrow> web_request \<Rightarrow> admin_user \<Rightarrow> handler" where
  "handleGroupCreate L E r u =
     (if \<not> Wq_FormOk r then Return invalid_form
      else (let email = ToLower (uni L) (formValue r ''local'' @ ''@'' @ formValue r ''domain''); settings = groupSettingsFromForm r in
        checked (GroupCreate L email settings) failErr (\<lambda>_.
        recording r u ''group.create'' email (''posting='' @ S_PostPolicy settings)
          (Return (done_with E r (groupURL email) (''Group '' @ email @ '' created. Add members to start delivering mail.''))))))"

definition handleGroupPage :: "lib \<Rightarrow> server_env \<Rightarrow> web_request \<Rightarrow> admin_user \<Rightarrow> string \<Rightarrow> handler" where
  "handleGroupPage L E r u email0 =
     (let email = ToLower (uni L) email0 in
      checked (GroupGet L email) (\<lambda>e. if is_not_found e then NotFound else failErr e) (\<lambda>g.
      checked (GroupMembers L email) failErr (\<lambda>members.
      with_base (uni L) E r u (G_Name g) ''groups'' [(''Groups'', ''/groups''), (G_Email g, [])] (\<lambda>b.
      andThen (recentActivity L email 8) (\<lambda>activity.
      Return (renderPage ''group'' (VGroup \<lparr>GP_Base = b, GP_Group = g, GP_Members = members,
        GP_Owners = length (filter (\<lambda>m. GM_Role m = RoleOwner) members), GP_External = length (filter (\<lambda>m. GM_Kind m = ''external'') members),
        GP_Suspended = length (filter GM_Suspended members), GP_Activity = activity\<rparr>)))))))"

definition handleGroupUpdate :: "lib \<Rightarrow> server_env \<Rightarrow> web_request \<Rightarrow> admin_user \<Rightarrow> string \<Rightarrow> handler" where
  "handleGroupUpdate L E r u email =
     (if \<not> Wq_FormOk r then Return invalid_form
      else (let settings = groupSettingsFromForm r in
        checked (GroupUpdate L email settings) failErr (\<lambda>_.
        recording r u ''group.update'' email (''posting='' @ S_PostPolicy settings) (Return (done_with E r (groupURL email) ''Group settings saved.'')))))"

definition handleGroupDelete :: "lib \<Rightarrow> server_env \<Rightarrow> web_request \<Rightarrow> admin_user \<Rightarrow> string \<Rightarrow> handler" where
  "handleGroupDelete L E r u email =
     checked (GroupDelete L email) failErr (\<lambda>_.
     recording r u ''group.delete'' email [] (Return (done_with E r ''/groups'' (''Group '' @ email @ '' deleted.''))))"

section \<open>Members\<close>

definition separators :: "char list" where
  "separators = [CHR 0x0A, CHR 0x0D, CHR '','', CHR '';'', CHR '' '', CHR 0x09]"

definition splitAddresses :: "string \<Rightarrow> string list" where
  "splitAddresses raw = FieldsFunc (\<lambda>c. c \<in> set separators) raw"

definition members_text :: "nat \<Rightarrow> string" where
  "members_text n = plural_noun (int n) ''member''"

definition problems_of :: "member_result list \<Rightarrow> string list" where
  "problems_of results = map (\<lambda>res. MR_Address res @ '': '' @ MR_Error res) (filter (\<lambda>res. \<not> MR_Added res) results)"

definition problems_text :: "nat \<Rightarrow> string list \<Rightarrow> string" where
  "problems_text added problems =
     ''Added '' @ members_text added @ ''. Couldn'' @ apos @ ''t add '' @ nat_itoa (length problems) @ '':'' @ lf @ Join (take 5 problems) lf
     @ (if length problems > 5 then lf @ ellipsis @ ''and '' @ nat_itoa (length problems - 5) @ '' more'' else [])"

definition members_added :: "server_env \<Rightarrow> web_request \<Rightarrow> string \<Rightarrow> member_result list \<Rightarrow> view response" where
  "members_added E r email results =
     (let added = length (filter MR_Added results); problems = problems_of results in
      if problems \<noteq> [] then
        (if added = 0 then fail 400 (problems_text added problems)
         else sending [setFlash E ''error'' (problems_text added problems)] (done_with E r (groupURL email) []))
      else done_with E r (groupURL email) (''Added '' @ members_text added @ ''.''))"

definition handleGroupMembersAdd :: "lib \<Rightarrow> server_env \<Rightarrow> web_request \<Rightarrow> admin_user \<Rightarrow> string \<Rightarrow> handler" where
  "handleGroupMembersAdd L E r u email =
     (let addresses = splitAddresses (FormValue r ''addresses'') in
      if addresses = [] then Return (fail 400 ''Enter at least one address.'')
      else if length addresses > 2000 then Return (fail 400 ''At most 2000 addresses at a time.'')
      else (let role = formValue r ''role'' in
        checked (GroupAddMembers L email addresses role) failErr (\<lambda>results.
        let added = length (filter MR_Added results) in
        if added > 0
        then recording r u ''group.members.add'' email (members_text added @ '' ('' @ role @ '')'') (Return (members_added E r email results))
        else Return (members_added E r email results))))"

definition handleGroupMemberRole :: "lib \<Rightarrow> server_env \<Rightarrow> web_request \<Rightarrow> admin_user \<Rightarrow> string \<Rightarrow> string \<Rightarrow> handler" where
  "handleGroupMemberRole L E r u email member =
     (let role = formValue r ''role'' in
      checked (GroupSetMemberRole L email member role) failErr (\<lambda>_.
      recording r u ''group.members.role'' email (member @ '' '' @ arrow @ '' '' @ role)
        (Return (done_with E r (groupURL email) (member @ '' is now a group '' @ role @ ''.'')))))"

definition handleGroupMemberRemove :: "lib \<Rightarrow> server_env \<Rightarrow> web_request \<Rightarrow> admin_user \<Rightarrow> string \<Rightarrow> string \<Rightarrow> handler" where
  "handleGroupMemberRemove L E r u email member =
     checked (GroupRemoveMember L email member) failErr (\<lambda>_.
     recording r u ''group.members.remove'' email member (Return (done_with E r (groupURL email) (''Removed '' @ member @ ''.''))))"

section \<open>Aliases\<close>

definition handleAliasesPage :: "lib \<Rightarrow> server_env \<Rightarrow> web_request \<Rightarrow> admin_user \<Rightarrow> handler" where
  "handleAliasesPage L E r u =
     (let domain = Rq_Query r ''domain''; q = ToLower (uni L) (TrimSpace (Rq_Query r ''q'')) in
      with_base (uni L) E r u ''Aliases'' ''aliases'' [(''Aliases'', [])] (\<lambda>b.
      checked (AliasList L domain) failErr (\<lambda>list.
      checked (DomainList L) failErr (\<lambda>domains.
      Return (renderPage ''aliases'' (VAliases \<lparr>AL_Base = b,
        AL_Aliases = filter (\<lambda>a. q = [] \<or> Contains (Source a) q \<or> Contains (Destination a) q) list,
        AL_Domains = domains, AL_Domain = domain, AL_Query = q\<rparr>))))))"

definition handleAliasAdd :: "lib \<Rightarrow> server_env \<Rightarrow> web_request \<Rightarrow> admin_user \<Rightarrow> handler" where
  "handleAliasAdd L E r u =
     (if \<not> Wq_FormOk r then Return invalid_form
      else (let source = ToLower (uni L) (formValue r ''local'' @ ''@'' @ formValue r ''domain''); dest = ToLower (uni L) (formValue r ''destination'') in
        checked (AliasAdd L source dest) failErr (\<lambda>_.
        recording r u ''alias.add'' source (arrow @ '' '' @ dest)
          (Return (done_with E r ''/aliases'' (source @ '' now delivers to '' @ dest @ ''.''))))))"

definition handleAliasDelete :: "lib \<Rightarrow> server_env \<Rightarrow> web_request \<Rightarrow> admin_user \<Rightarrow> handler" where
  "handleAliasDelete L E r u =
     (let source = Rq_Query r ''source''; dest = Rq_Query r ''destination'' in
      checked (AliasRemove L source dest) failErr (\<lambda>_.
      recording r u ''alias.remove'' source (arrow @ '' '' @ dest)
        (Return (done_with E r ''/aliases'' (''Removed '' @ source @ '' '' @ arrow @ '' '' @ dest @ ''.'')))))"

end
