(* ===== verification/Store_Invariant.thy ===== *)
theory Store_Invariant
  imports Routing Domainkey
begin

text \<open>
  Every operation on the mail store as one step relation, and what holds of the store whatever happens to it: the unique indexes, the foreign keys, and the
  program's own promise that every mailbox and every group has an accepted address in its own domain and that no address is a group and something else.
  A step is one whole operation, with any pattern of failing statements inside; between two operations anything but the tables may change.
\<close>

inductive store_step :: "lib \<Rightarrow> world \<Rightarrow> world \<Rightarrow> bool" for L where
  domain_add: "DomainAdd L name w = (r, w') \<Longrightarrow> store_step L w w'"
| domain_remove: "DomainRemove L name w = (r, w') \<Longrightarrow> store_step L w w'"
| mailbox_add: "MailboxAdd L email pw quota w = (r, w') \<Longrightarrow> store_step L w w'"
| mailbox_create: "MailboxCreate L email pw name quota w = (r, w') \<Longrightarrow> store_step L w w'"
| mailbox_remove: "MailboxRemove L email w = (r, w') \<Longrightarrow> store_step L w w'"
| mailbox_passwd: "MailboxPasswd L email pw w = (r, w') \<Longrightarrow> store_step L w w'"
| mailbox_quota: "MailboxSetQuota L email quota w = (r, w') \<Longrightarrow> store_step L w w'"
| mailbox_name: "MailboxSetName L email name w = (r, w') \<Longrightarrow> store_step L w w'"
| mailbox_enabled: "MailboxSetEnabled L email b w = (r, w') \<Longrightarrow> store_step L w w'"
| alias_add: "AliasAdd L source dest w = (r, w') \<Longrightarrow> store_step L w w'"
| alias_remove: "AliasRemove L source dest w = (r, w') \<Longrightarrow> store_step L w w'"
| group_create: "GroupCreate L email s w = (r, w') \<Longrightarrow> store_step L w w'"
| group_update: "GroupUpdate L email s w = (r, w') \<Longrightarrow> store_step L w w'"
| group_delete: "GroupDelete L email w = (r, w') \<Longrightarrow> store_step L w w'"
| group_add_members: "GroupAddMembers L email members role w = (r', w') \<Longrightarrow> store_step L w w'"
| group_remove_member: "GroupRemoveMember L email member w = (r, w') \<Longrightarrow> store_step L w w'"
| group_set_role: "GroupSetMemberRole L email member role w = (r, w') \<Longrightarrow> store_step L w w'"
| forward_set: "ForwardSet L email dest keep w = (r, w') \<Longrightarrow> store_step L w w'"
| forward_clear: "ForwardClear L email w = (r, w') \<Longrightarrow> store_step L w w'"
| catchall_set: "CatchAllSet L name dest w = (r, w') \<Longrightarrow> store_step L w w'"
| key_generate: "KeyGenerate L name w = (r'', w') \<Longrightarrow> store_step L w w'"
| key_verify: "KeyVerify L key w = (r'', w') \<Longrightarrow> store_step L w w'"
| key_revoke: "KeyRevoke L name w = (r, w') \<Longrightarrow> store_step L w w'"
| environment: "store_step L w (w\<lparr>fs := f, entropy := b, clock := t, faults := fl, outbound := cs\<rparr>)"

text \<open>Where the store starts: without any row.\<close>

definition store_empty :: "world \<Rightarrow> bool" where
  "store_empty w \<longleftrightarrow> virtual_domains w = [] \<and> virtual_users w = [] \<and> virtual_aliases w = [] \<and> mail_groups w = []
     \<and> mail_group_members w = [] \<and> mailbox_forwards w = [] \<and> domain_api_keys w = []"

inductive store_reach :: "lib \<Rightarrow> world \<Rightarrow> bool" for L where
  init: "store_empty w \<Longrightarrow> store_reach L w"
| step: "store_reach L w \<Longrightarrow> store_step L w w' \<Longrightarrow> store_reach L w'"

inductive_cases store_stepE: "store_step L w w'"

lemmas ok_operations = ok_DomainAdd ok_DomainRemove ok_MailboxAdd ok_MailboxCreate ok_MailboxRemove ok_MailboxPasswd ok_MailboxSet
  ok_AliasAdd ok_AliasRemove ok_GroupCreate ok_GroupUpdate ok_GroupDelete ok_GroupAddMembers ok_GroupRemoveMember ok_GroupSetMemberRole
  ok_ForwardSet ok_ForwardClear ok_KeyGenerate ok_KeyVerify ok_KeyRevoke

lemma store_ok_empty: "store_empty w \<Longrightarrow> store_ok L w"
  by (simp add: store_empty_def store_defs domain_ids_def group_ids_def)

lemma store_ok_step:
  assumes "collation_ok L" and "store_ok L w" and "store_step L w w'"
  shows "store_ok L w'"
  using assms(3)
proof (cases rule: store_step.cases)
  case (catchall_set name dest r)
  then show ?thesis using keeps_run [OF ok_CatchAllSet [OF assms(1)] assms(2)] by blast
next
  case environment
  then show ?thesis using assms(2) by simp
qed (rule keeps_run, rule ok_operations, rule assms(2), assumption)+

text \<open>
  The mail store is consistent in every reachable state. Starting from empty tables, after any sequence of operations on domains, mailboxes, aliases,
  groups, members, forwards, catch-all addresses and domain keys, with statements failing anywhere inside them, the unique indexes hold, every row refers
  to rows that exist, every domain has an accepted name, every mailbox and group has an accepted address in its own domain, and no address is a group and at the same time a mailbox or
  an alias.
\<close>

theorem store_reachable_ok:
  assumes "collation_ok L" and "store_reach L w"
  shows "store_ok L w"
  using assms(2)
proof (induction rule: store_reach.induct)
  case (init w)
  then show ?case by (rule store_ok_empty)
next
  case (step w w')
  from store_ok_step [OF assms(1) step.IH step.hyps(2)] show ?case .
qed

theorem store_reachable_ok_witness:
  "\<exists>w. store_reach example_lib w \<and> virtual_domains w \<noteq> [] \<and> collation_ok example_lib \<and> store_ok example_lib w"
proof -
  let ?w = "snd (DomainAdd example_lib ''example.com'' empty_world)"
  have "store_reach example_lib empty_world"
    by (rule store_reach.init) (simp add: store_empty_def empty_world_def)
  then have reach: "store_reach example_lib ?w"
    by (rule store_reach.step) (rule store_step.domain_add, rule prod.collapse [symmetric])
  have "after (DomainAdd example_lib ''example.com'') (\<lambda>r w'. virtual_domains w' \<noteq> []) empty_world"
  proof -
    have "keeps (\<lambda>w. virtual_domains w \<noteq> []) (ensureDKIMAndDNSRecords example_lib ''example.com'')"
      by (rule frame_invariant.frame_ensure) (standard, simp_all)
    moreover note example_domain
    ultimately show ?thesis
      by (simp add: DomainAdd_def wp ins_domain_def empty_world_def keepsD keeps_wrap fault_def split: sum.split)
  qed
  then have "virtual_domains ?w \<noteq> []" by (simp add: after_def split: prod.splits)
  with reach store_reachable_ok [OF example_collation reach] example_collation show ?thesis by blast
qed

end
