(* ===== verification/Api.thy ===== *)
theory Api
  imports Http Authtoken Store_Invariant
begin

text \<open>
  Package api: the local JSON API on a Unix socket. Every route but the health check is behind \<open>requireScope\<close>. The request log and the timeouts are left out.
\<close>

section \<open>What lies outside\<close>

text \<open>
  The JSON parser, the resolver and \<open>certbot\<close> as in the theories \<open>Http\<close> and \<open>Mtasts\<close>.
\<close>

record api_env =
  env_json :: "string \<Rightarrow> json option"
  env_lookup :: "nat \<Rightarrow> string \<Rightarrow> string list option"
  env_certbot :: "string \<Rightarrow> string \<Rightarrow> bool \<times> string"

definition QueueList :: "lib \<Rightarrow> (string \<times> error option) op" where
  "QueueList L = CombinedOutput L [''postqueue'', ''-p'']"

definition QueueFlush :: "lib \<Rightarrow> (string \<times> error option) op" where
  "QueueFlush L = CombinedOutput L [''postqueue'', ''-f'']"

text \<open>What the replies carry; \<open>Strings\<close> is a \<open>map[string]string\<close>, \<open>State\<close> the parsed installer state.\<close>

datatype api_body =
    Strings "(string \<times> string) list"
  | State string
  | DomainRows "domain_row list"
  | MailboxRows "mailbox list"
  | AliasRows "alias_entry list"
  | AliasRow alias_entry
  | GroupRows "group_info list"
  | GroupWithMembers group_info "group_member list"
  | Results "member_result list"

type_synonym handler = "api_body reply op"

section \<open>Authorization\<close>

definition bearer_prefix :: string where "bearer_prefix = ''Bearer ''"

text \<open>The token a request presents, when its header has the form \<open>Bearer ...\<close>.\<close>

definition bearerToken :: "http_request \<Rightarrow> string option" where
  "bearerToken r = (let a = Rq_Header r ''Authorization'' in
     if prefix bearer_prefix a then Some (TrimSpace (TrimPrefix a bearer_prefix)) else None)"

definition requireScope :: "lib \<Rightarrow> http_request \<Rightarrow> string \<Rightarrow> handler \<Rightarrow> handler" where
  "requireScope L r scope h =
     given (bearerToken r) (writeError 401 ''missing bearer token'') (\<lambda>plaintext.
     checked (TokenVerify L plaintext) (\<lambda>e. writeError 401 ''invalid or revoked token'') (\<lambda>tok.
     if \<not> HasScope tok scope then Return (writeError 403 (''token lacks required scope: '' @ scope)) else h))"

section \<open>Handlers\<close>

definition statusForErr :: "error \<Rightarrow> nat" where
  "statusForErr e = (if is_not_found e then 404 else 400)"

definition reportErr :: "error \<Rightarrow> api_body reply" where
  "reportErr e = writeError (statusForErr e) (err_text e)"

definition internalErr :: "error \<Rightarrow> api_body reply" where
  "internalErr e = writeError 500 (err_text e)"

definition invalidJSON :: "api_body reply" where
  "invalidJSON = writeError 400 ''invalid JSON body''"

definition decodeBody :: "api_env \<Rightarrow> http_request \<Rightarrow> ((string \<times> json) list \<Rightarrow> 'b option) \<Rightarrow> 'b option" where
  "decodeBody E r get = decode_into (env_json E) (Rq_Body r) get"

definition handleStatus :: "lib \<Rightarrow> handler" where
  "handleStatus L = checked (InstallerState L) internalErr (\<lambda>st. Return (writeJSON 200 (State st)))"

definition handleDomainList :: "lib \<Rightarrow> handler" where
  "handleDomainList L = checked (DomainList L) internalErr (\<lambda>list. Return (writeJSON 200 (DomainRows list)))"

definition handleDomainAdd :: "lib \<Rightarrow> api_env \<Rightarrow> http_request \<Rightarrow> handler" where
  "handleDomainAdd L E r =
     given (decodeBody E r (\<lambda>ms. field (uni L) ms ''name'' set_string [])) invalidJSON (\<lambda>name.
     checked (DomainAdd L name) reportErr (\<lambda>_. Return (writeJSON 201 (Strings [(''name'', name)]))))"

definition handleDomainRemove :: "lib \<Rightarrow> string \<Rightarrow> handler" where
  "handleDomainRemove L name = checked (DomainRemove L name) reportErr (\<lambda>_. Return noContent)"

definition handleMailboxList :: "lib \<Rightarrow> http_request \<Rightarrow> handler" where
  "handleMailboxList L r = checked (MailboxList L (Rq_Query r ''domain'')) internalErr (\<lambda>list. Return (writeJSON 200 (MailboxRows list)))"

definition handleMailboxAdd :: "lib \<Rightarrow> api_env \<Rightarrow> http_request \<Rightarrow> handler" where
  "handleMailboxAdd L E r =
     given (decodeBody E r (\<lambda>ms. Option.bind (field (uni L) ms ''email'' set_string []) (\<lambda>email.
         Option.bind (field (uni L) ms ''password'' set_string []) (\<lambda>password.
         Option.bind (field (uni L) ms ''quota_bytes'' set_int 0) (\<lambda>quota. Some (email, password, quota)))))) invalidJSON (\<lambda>(email, password, quota0).
     let quota = (if quota0 \<le> 0 then 1073741824 else quota0) in
     checked (MailboxAdd L email password quota) reportErr (\<lambda>_. Return (writeJSON 201 (Strings [(''email'', email)]))))"

definition handleMailboxRemove :: "lib \<Rightarrow> string \<Rightarrow> handler" where
  "handleMailboxRemove L email = checked (MailboxRemove L email) reportErr (\<lambda>_. Return noContent)"

definition handleMailboxPasswd :: "lib \<Rightarrow> api_env \<Rightarrow> http_request \<Rightarrow> string \<Rightarrow> handler" where
  "handleMailboxPasswd L E r email =
     given (decodeBody E r (\<lambda>ms. field (uni L) ms ''password'' set_string [])) invalidJSON (\<lambda>password.
     checked (MailboxPasswd L email password) reportErr (\<lambda>_. Return noContent))"

definition handleMailboxQuota :: "lib \<Rightarrow> api_env \<Rightarrow> http_request \<Rightarrow> string \<Rightarrow> handler" where
  "handleMailboxQuota L E r email =
     given (decodeBody E r (\<lambda>ms. Option.bind (field (uni L) ms ''quota_bytes'' set_int 0) (\<lambda>bytes.
         Option.bind (field (uni L) ms ''quota'' set_string []) (\<lambda>text. Some (bytes, text))))) invalidJSON (\<lambda>(bytes, text).
     case (if bytes \<le> 0 \<and> text \<noteq> [] then ParseQuota L text else Inr bytes) of
         Inl e \<Rightarrow> Return (writeError 400 (err_text e))
       | Inr quotaBytes \<Rightarrow> checked (MailboxSetQuota L email quotaBytes) reportErr (\<lambda>_. Return noContent))"

definition handleAliasList :: "lib \<Rightarrow> http_request \<Rightarrow> handler" where
  "handleAliasList L r = checked (AliasList L (Rq_Query r ''domain'')) internalErr (\<lambda>list. Return (writeJSON 200 (AliasRows list)))"

definition alias_fields :: "unicode \<Rightarrow> (string \<times> json) list \<Rightarrow> alias_entry option" where
  "alias_fields U ms = Option.bind (field U ms ''source'' set_string []) (\<lambda>src.
     Option.bind (field U ms ''destination'' set_string []) (\<lambda>dst. Some \<lparr>Source = src, Destination = dst\<rparr>))"

definition handleAliasAdd :: "lib \<Rightarrow> api_env \<Rightarrow> http_request \<Rightarrow> handler" where
  "handleAliasAdd L E r =
     given (decodeBody E r (alias_fields (uni L))) invalidJSON (\<lambda>body.
     checked (AliasAdd L (Source body) (Destination body)) reportErr (\<lambda>_. Return (writeJSON 201 (AliasRow body))))"

definition handleAliasRemove :: "lib \<Rightarrow> api_env \<Rightarrow> http_request \<Rightarrow> handler" where
  "handleAliasRemove L E r =
     given (decodeBody E r (alias_fields (uni L))) invalidJSON (\<lambda>body.
     checked (AliasRemove L (Source body) (Destination body)) reportErr (\<lambda>_. Return noContent))"

definition handleDKIM :: "string \<Rightarrow> handler" where
  "handleDKIM domain = checked (DKIMRecord domain) (\<lambda>e. writeError 404 (err_text e)) (\<lambda>rec.
     Return (writeJSON 200 (Strings [(''record'', rec)])))"

definition handleDKIMRotate :: "lib \<Rightarrow> string \<Rightarrow> handler" where
  "handleDKIMRotate L domain =
     checked (RotateDKIMKey L domain) reportErr (\<lambda>_.
     checked (DKIMRecord domain) internalErr (\<lambda>rec.
     Return (writeJSON 200 (Strings [(''domain'', domain), (''record'', rec)]))))"

definition handleDNS :: "string \<Rightarrow> handler" where
  "handleDNS domain = checked (DNSRecords domain) (\<lambda>e. writeError 404 (err_text e)) (\<lambda>rec.
     Return (writeJSON 200 (Strings [(''records'', rec)])))"

definition handleMTASTSEnable :: "lib \<Rightarrow> api_env \<Rightarrow> string \<Rightarrow> handler" where
  "handleMTASTSEnable L E domain =
     checked (Enable L (env_lookup E) (env_certbot E) domain) (\<lambda>e. writeError 400 (err_text e)) (\<lambda>i.
     Return (writeJSON 200 (Strings [(''domain'', domain), (''policy_id'', i)])))"

definition handleQueueList :: "lib \<Rightarrow> handler" where
  "handleQueueList L = andThen (QueueList L) (\<lambda>(out, err). case err of
       Some e \<Rightarrow> if TrimSpace out = [] then Return (internalErr e) else Return (writeJSON 200 (Strings [(''queue'', out)]))
     | None \<Rightarrow> Return (writeJSON 200 (Strings [(''queue'', out)])))"

definition handleQueueFlush :: "lib \<Rightarrow> handler" where
  "handleQueueFlush L = andThen (QueueFlush L) (\<lambda>(out, err). case err of
       Some e \<Rightarrow> Return (internalErr e)
     | None \<Rightarrow> Return (writeJSON 200 (Strings [(''result'', out)])))"

section \<open>Groups\<close>

definition handleGroupList :: "lib \<Rightarrow> http_request \<Rightarrow> handler" where
  "handleGroupList L r = checked (GroupList L (Rq_Query r ''domain'') (Rq_Query r ''q'')) internalErr (\<lambda>list.
     Return (writeJSON 200 (GroupRows list)))"

definition handleGroupGetEmail :: "lib \<Rightarrow> nat \<Rightarrow> string \<Rightarrow> handler" where
  "handleGroupGetEmail L stat email =
     checked (GroupGet L email) reportErr (\<lambda>g.
     checked (GroupMembers L email) internalErr (\<lambda>members.
     Return (writeJSON stat (GroupWithMembers g members))))"

definition handleGroupCreate :: "lib \<Rightarrow> api_env \<Rightarrow> http_request \<Rightarrow> handler" where
  "handleGroupCreate L E r =
     given (decodeBody E r (\<lambda>ms. Option.bind (field (uni L) ms ''email'' set_string []) (\<lambda>email.
         Option.bind (field (uni L) ms ''name'' set_string []) (\<lambda>name.
         Option.bind (field (uni L) ms ''description'' set_string []) (\<lambda>description.
         Option.bind (field (uni L) ms ''post_policy'' set_string []) (\<lambda>policy.
         Option.bind (field (uni L) ms ''allow_external'' set_bool False) (\<lambda>ext. Some (email, name, description, policy, ext))))))))
       invalidJSON (\<lambda>(email, name, description, policy, ext).
     let settings = \<lparr>S_Name = (if name = [] then email else name), S_Description = description,
           S_PostPolicy = (if policy = [] then ''organization'' else policy), S_AllowExternal = ext\<rparr> in
     checked (GroupCreate L email settings) reportErr (\<lambda>_. handleGroupGetEmail L 201 email))"

definition handleGroupGet :: "lib \<Rightarrow> string \<Rightarrow> handler" where
  "handleGroupGet L email = handleGroupGetEmail L 200 email"

definition handleGroupDelete :: "lib \<Rightarrow> string \<Rightarrow> handler" where
  "handleGroupDelete L email = checked (GroupDelete L email) reportErr (\<lambda>_. Return noContent)"

definition handleGroupAddMembers :: "lib \<Rightarrow> api_env \<Rightarrow> http_request \<Rightarrow> string \<Rightarrow> handler" where
  "handleGroupAddMembers L E r email =
     given (decodeBody E r (\<lambda>ms. Option.bind (field (uni L) ms ''members'' set_strings []) (\<lambda>members.
         Option.bind (field (uni L) ms ''role'' set_string []) (\<lambda>role. Some (members, role))))) invalidJSON (\<lambda>(members, role).
     checked (GroupAddMembers L email members (if role = [] then RoleMember else role)) reportErr (\<lambda>results.
     Return (writeJSON 200 (Results results))))"

definition handleGroupRemoveMember :: "lib \<Rightarrow> string \<Rightarrow> string \<Rightarrow> handler" where
  "handleGroupRemoveMember L email member = checked (GroupRemoveMember L email member) reportErr (\<lambda>_. Return noContent)"

section \<open>Routes\<close>

text \<open>A pattern of \<open>http.ServeMux\<close>: segments that have to be equal, and wildcards, which take one segment that is not empty.\<close>

datatype segment = Seg string | Wild

fun match_path :: "segment list \<Rightarrow> string list \<Rightarrow> string list option" where
  "match_path [] [] = Some []"
| "match_path (Seg s # ps) (x # xs) = (if x = s then match_path ps xs else None)"
| "match_path (Wild # ps) (x # xs) = (if x = [] then None else map_option ((#) x) (match_path ps xs))"
| "match_path ps xs = None"

text \<open>A route: method, pattern, the scope it needs (none for the health check) and the handler, which gets the values of the wildcards.\<close>

type_synonym route = "string \<times> segment list \<times> string option \<times> (string list \<Rightarrow> handler)"

definition routes :: "lib \<Rightarrow> api_env \<Rightarrow> http_request \<Rightarrow> route list" where
  "routes L E r =
    [(''GET'', [Seg ''healthz''], None, \<lambda>vs. Return (writeJSON 200 (Strings [(''status'', ''ok'')]))),
     (''GET'', [Seg ''v1'', Seg ''status''], Some ''status'', \<lambda>vs. handleStatus L),
     (''GET'', [Seg ''v1'', Seg ''domains''], Some ''domain'', \<lambda>vs. handleDomainList L),
     (''POST'', [Seg ''v1'', Seg ''domains''], Some ''domain'', \<lambda>vs. handleDomainAdd L E r),
     (''DELETE'', [Seg ''v1'', Seg ''domains'', Wild], Some ''domain'', \<lambda>vs. handleDomainRemove L (vs ! 0)),
     (''GET'', [Seg ''v1'', Seg ''mailboxes''], Some ''mailbox'', \<lambda>vs. handleMailboxList L r),
     (''POST'', [Seg ''v1'', Seg ''mailboxes''], Some ''mailbox'', \<lambda>vs. handleMailboxAdd L E r),
     (''DELETE'', [Seg ''v1'', Seg ''mailboxes'', Wild], Some ''mailbox'', \<lambda>vs. handleMailboxRemove L (vs ! 0)),
     (''PUT'', [Seg ''v1'', Seg ''mailboxes'', Wild, Seg ''password''], Some ''mailbox'', \<lambda>vs. handleMailboxPasswd L E r (vs ! 0)),
     (''PUT'', [Seg ''v1'', Seg ''mailboxes'', Wild, Seg ''quota''], Some ''mailbox'', \<lambda>vs. handleMailboxQuota L E r (vs ! 0)),
     (''GET'', [Seg ''v1'', Seg ''aliases''], Some ''alias'', \<lambda>vs. handleAliasList L r),
     (''POST'', [Seg ''v1'', Seg ''aliases''], Some ''alias'', \<lambda>vs. handleAliasAdd L E r),
     (''DELETE'', [Seg ''v1'', Seg ''aliases''], Some ''alias'', \<lambda>vs. handleAliasRemove L E r),
     (''GET'', [Seg ''v1'', Seg ''dkim'', Wild], Some ''dkim'', \<lambda>vs. handleDKIM (vs ! 0)),
     (''POST'', [Seg ''v1'', Seg ''dkim'', Wild, Seg ''rotate''], Some ''dkim'', \<lambda>vs. handleDKIMRotate L (vs ! 0)),
     (''GET'', [Seg ''v1'', Seg ''dns'', Wild], Some ''dns'', \<lambda>vs. handleDNS (vs ! 0)),
     (''POST'', [Seg ''v1'', Seg ''mta-sts'', Wild, Seg ''enable''], Some ''dns'', \<lambda>vs. handleMTASTSEnable L E (vs ! 0)),
     (''GET'', [Seg ''v1'', Seg ''queue''], Some ''queue'', \<lambda>vs. handleQueueList L),
     (''POST'', [Seg ''v1'', Seg ''queue'', Seg ''flush''], Some ''queue'', \<lambda>vs. handleQueueFlush L)]"

definition groupRoutes :: "lib \<Rightarrow> api_env \<Rightarrow> http_request \<Rightarrow> route list" where
  "groupRoutes L E r =
    [(''GET'', [Seg ''v1'', Seg ''groups''], Some ''group'', \<lambda>vs. handleGroupList L r),
     (''POST'', [Seg ''v1'', Seg ''groups''], Some ''group'', \<lambda>vs. handleGroupCreate L E r),
     (''GET'', [Seg ''v1'', Seg ''groups'', Wild], Some ''group'', \<lambda>vs. handleGroupGet L (vs ! 0)),
     (''DELETE'', [Seg ''v1'', Seg ''groups'', Wild], Some ''group'', \<lambda>vs. handleGroupDelete L (vs ! 0)),
     (''POST'', [Seg ''v1'', Seg ''groups'', Wild, Seg ''members''], Some ''group'', \<lambda>vs. handleGroupAddMembers L E r (vs ! 0)),
     (''DELETE'', [Seg ''v1'', Seg ''groups'', Wild, Seg ''members'', Wild], Some ''group'', \<lambda>vs. handleGroupRemoveMember L (vs ! 0) (vs ! 1))]"

text \<open>
  The multiplexer: a path that no pattern takes is answered with 404, a path that some pattern takes with another method with 405. A \<open>GET\<close> pattern also takes
  \<open>HEAD\<close>. No two patterns of one method take the same path.
\<close>

definition serve :: "lib \<Rightarrow> api_env \<Rightarrow> http_request \<Rightarrow> handler" where
  "serve L E r =
     (let meth = (if Rq_Method r = ''HEAD'' then ''GET'' else Rq_Method r);
          fits = filter (\<lambda>(m, p, s, h). match_path p (Rq_Path r) \<noteq> None) (routes L E r @ groupRoutes L E r) in
      if fits = [] then Return (Reply 404 (ErrorBody ''404 page not found''))
      else case find (\<lambda>(m, p, s, h). m = meth) fits of
          None \<Rightarrow> Return (Reply 405 (ErrorBody ''Method Not Allowed''))
        | Some (m, p, s, h) \<Rightarrow> (let run = h (the (match_path p (Rq_Path r))) in
            case s of None \<Rightarrow> run | Some scope \<Rightarrow> requireScope L r scope run))"

section \<open>Nothing without the scope\<close>

text \<open>Nothing is different but when tokens were used.\<close>

definition same_token_rows :: "world \<Rightarrow> world \<Rightarrow> bool" where
  "same_token_rows b w \<longleftrightarrow> map (\<lambda>t. t\<lparr>t_last_used_at := None\<rparr>) (api_tokens w) = map (\<lambda>t. t\<lparr>t_last_used_at := None\<rparr>) (api_tokens b)"

definition tokens_used :: "world \<Rightarrow> world \<Rightarrow> bool" where
  "tokens_used b w \<longleftrightarrow> same_token_rows b w \<and> touches (b\<lparr>api_tokens := api_tokens w\<rparr>) w \<and> fs w = fs b \<and> entropy w = entropy b"

lemma tokens_used_frame [simp]: "tokens_used b b" "tokens_used b (tick w) = tokens_used b w"
  by (simp_all add: tokens_used_def touches_def same_token_rows_def)

lemma TokenVerify_used: "keeps (tokens_used b) (TokenVerify L p)"
proof -
  have "same_token_rows b (w\<lparr>api_tokens := update_rows P (\<lambda>t. t\<lparr>t_last_used_at := u\<rparr>) (api_tokens w)\<rparr>) = same_token_rows b w" for w P u
  proof -
    have "map (\<lambda>t. t\<lparr>t_last_used_at := None\<rparr>) (update_rows P (\<lambda>t. t\<lparr>t_last_used_at := u\<rparr>) ts) = map (\<lambda>t. t\<lparr>t_last_used_at := None\<rparr>) ts" for ts
      by (rule map_update_rows) simp
    then show ?thesis by (simp add: same_token_rows_def)
  qed
  then have "tokens_used b (w\<lparr>api_tokens := update_rows P (\<lambda>t. t\<lparr>t_last_used_at := u\<rparr>) (api_tokens w)\<rparr>)" if "tokens_used b w" for w P u
    using that by (auto simp: tokens_used_def touches_def)
  then show ?thesis
    unfolding TokenVerify_def by (intro keeps_ops keeps_Exec) (auto simp: use_token_def Let_def)
qed

text \<open>The token of a request is accepted and has the scope.\<close>

definition authorized :: "lib \<Rightarrow> world \<Rightarrow> http_request \<Rightarrow> string \<Rightarrow> bool" where
  "authorized L w r scope \<longleftrightarrow> (case bearerToken r of None \<Rightarrow> False | Some p \<Rightarrow>
     (case token_lookup L w p of None \<Rightarrow> False | Some t \<Rightarrow> HasScope t scope))"

lemma requireScope_cases:
  assumes refused: "\<And>s m w'. tokens_used w w' \<Longrightarrow> s \<in> {401, 403} \<Longrightarrow> Q (Inr (writeError s m)) w'"
    and accepted: "\<And>w'. authorized L w r scope \<Longrightarrow> tokens_used w w' \<Longrightarrow> after h Q w'"
  shows "after (requireScope L r scope h) Q w"
proof (cases "bearerToken r")
  case (Some p)
  have "after (TokenVerify L p) (\<lambda>res w'. tokens_used w w' \<and> (case res of Inl e \<Rightarrow> True | Inr t \<Rightarrow> token_lookup L w p = Some t)) w"
    using keepsD [OF TokenVerify_used [where L = L and p = p] tokens_used_frame(1), of w] token_store.verify_sound [of L p w]
    by (auto simp: after_def split: prod.splits)
  then have "after (TokenVerify L p) (\<lambda>res w'. case res of Inl e \<Rightarrow> Q (Inr (writeError 401 ''invalid or revoked token'')) w'
    | Inr t \<Rightarrow> after (if \<not> HasScope t scope then Return (writeError 403 (''token lacks required scope: '' @ scope)) else h) Q w') w"
    by (rule after_mono) (auto simp: after_Return authorized_def Some intro: refused accepted split: sum.splits)
  then show ?thesis by (simp add: requireScope_def Some given_def after_checked)
qed (simp add: requireScope_def given_def after_Return refused)

section \<open>Every handler answers and keeps the store\<close>

lemmas api_handler_defs = handleStatus_def handleDomainList_def handleDomainAdd_def handleDomainRemove_def handleMailboxList_def handleMailboxAdd_def
  handleMailboxRemove_def handleMailboxPasswd_def handleMailboxQuota_def handleAliasList_def handleAliasAdd_def handleAliasRemove_def handleDKIM_def
  handleDKIMRotate_def handleDNS_def handleMTASTSEnable_def handleQueueList_def handleQueueFlush_def handleGroupList_def handleGroupGetEmail_def
  handleGroupCreate_def handleGroupGet_def handleGroupDelete_def handleGroupAddMembers_def handleGroupRemoveMember_def

lemma ok_files [keeps_ops]:
  "keeps (store_ok L) (InstallerState K)" "keeps (store_ok L) (DKIMRecord d)" "keeps (store_ok L) (DNSRecords d)"
  "keeps (store_ok L) (RotateDKIMKey K d)" "keeps (store_ok L) (Enable K lookup certbot d)"
  unfolding InstallerState_def DNSRecords_def DKIMRecord_def RotateDKIMKey_def generateDKIM_def Enable_def StateConfigStrings_def installerConfig_def
    WritePolicy_def Let_def
  by (intro keeps_ops keeps_wrap)+

lemma ok_lists [keeps_ops]:
  "keeps (store_ok L) (DomainList K)" "keeps (store_ok L) (MailboxList K d)" "keeps (store_ok L) (AliasList K d)" "keeps (store_ok L) (GroupList K d q)"
  unfolding DomainList_def MailboxList_def AliasList_def GroupList_def by (intro keeps_ops)+

lemma ok_TokenVerify [keeps_ops]: "keeps (store_ok L) (TokenVerify K p)"
proof -
  have "in_domain L i e (w\<lparr>api_tokens := ts\<rparr>) = in_domain L i e w" for i e w ts by (simp add: in_domain_def)
  then have "store_ok L (w\<lparr>api_tokens := ts\<rparr>) = store_ok L w" for w ts
    by (simp add: store_defs domain_ids_def group_ids_def)
  then show ?thesis
    unfolding TokenVerify_def by (intro keeps_ops ok_Exec) (auto simp: use_token_def Let_def)
qed

lemma ok_queue [keeps_ops]: "keeps (store_ok L) (handleQueueList K)" "keeps (store_ok L) (handleQueueFlush K)"
  unfolding handleQueueList_def handleQueueFlush_def QueueList_def QueueFlush_def CombinedOutput_def by (intro keeps_ops)+

lemma ok_api_handlers:
  "(m, p, s, h) \<in> set (routes L E r @ groupRoutes L E r) \<Longrightarrow> keeps (store_ok L) (h vs)"
proof -
  note ops = keeps_ops ok_operations
  have "keeps (store_ok L) (handleStatus L)" "keeps (store_ok L) (handleDomainList L)" "keeps (store_ok L) (handleDomainAdd L E r)"
    "keeps (store_ok L) (handleDomainRemove L x)" "keeps (store_ok L) (handleMailboxList L r)" "keeps (store_ok L) (handleMailboxAdd L E r)"
    "keeps (store_ok L) (handleMailboxRemove L x)" "keeps (store_ok L) (handleMailboxPasswd L E r x)" "keeps (store_ok L) (handleMailboxQuota L E r x)"
    "keeps (store_ok L) (handleAliasList L r)" "keeps (store_ok L) (handleAliasAdd L E r)" "keeps (store_ok L) (handleAliasRemove L E r)"
    "keeps (store_ok L) (handleDKIM x)" "keeps (store_ok L) (handleDKIMRotate L x)" "keeps (store_ok L) (handleDNS x)"
    "keeps (store_ok L) (handleMTASTSEnable L E x)" "keeps (store_ok L) (handleGroupList L r)" "keeps (store_ok L) (handleGroupGetEmail L n x)"
    "keeps (store_ok L) (handleGroupCreate L E r)" "keeps (store_ok L) (handleGroupGet L x)" "keeps (store_ok L) (handleGroupDelete L x)"
    "keeps (store_ok L) (handleGroupAddMembers L E r x)" "keeps (store_ok L) (handleGroupRemoveMember L x y)" for x y n
    unfolding api_handler_defs by (intro ops)+
  note handlers = this
  show "(m, p, s, h) \<in> set (routes L E r @ groupRoutes L E r) \<Longrightarrow> keeps (store_ok L) (h vs)"
    unfolding routes_def groupRoutes_def by (auto simp: handlers ok_queue keeps_Return)
qed

lemma answers_api_handlers:
  "(m, p, s, h) \<in> set (routes L E r @ groupRoutes L E r) \<Longrightarrow> answers (h vs)"
proof -
  have case_sum: "answers (case x of Inl a \<Rightarrow> f a | Inr y \<Rightarrow> g y)" if "\<And>a. answers (f a)" "\<And>y. answers (g y)"
    for x and f :: "'x \<Rightarrow> handler" and g :: "'y \<Rightarrow> handler"
    using that by (simp split: sum.split)
  have queue: "answers (handleQueueList L)" "answers (handleQueueFlush L)"
    by (auto simp: handleQueueList_def handleQueueFlush_def QueueList_def QueueFlush_def CombinedOutput_def answers_def wp split: option.split)
  have "answers (handleStatus L)" "answers (handleDomainList L)" "answers (handleDomainAdd L E r)"
    "answers (handleDomainRemove L x)" "answers (handleMailboxList L r)" "answers (handleMailboxAdd L E r)"
    "answers (handleMailboxRemove L x)" "answers (handleMailboxPasswd L E r x)" "answers (handleMailboxQuota L E r x)"
    "answers (handleAliasList L r)" "answers (handleAliasAdd L E r)" "answers (handleAliasRemove L E r)"
    "answers (handleDKIM x)" "answers (handleDKIMRotate L x)" "answers (handleDNS x)"
    "answers (handleMTASTSEnable L E x)" "answers (handleGroupList L r)" "answers (handleGroupGetEmail L n x)"
    "answers (handleGroupCreate L E r)" "answers (handleGroupGet L x)" "answers (handleGroupDelete L x)"
    "answers (handleGroupAddMembers L E r x)" "answers (handleGroupRemoveMember L x y)" for x y n
    unfolding api_handler_defs by (intro answering case_sum)+
  note handlers = this
  show "(m, p, s, h) \<in> set (routes L E r @ groupRoutes L E r) \<Longrightarrow> answers (h vs)"
    unfolding routes_def groupRoutes_def by (auto simp: handlers queue answers_Return)
qed

section \<open>Properties\<close>

text \<open>The scope that guards a resource, by the second segment of its path.\<close>

definition resource_scopes :: "(string \<times> string) list" where
  "resource_scopes = [(''status'', ''status''), (''domains'', ''domain''), (''mailboxes'', ''mailbox''), (''aliases'', ''alias''), (''groups'', ''group''),
     (''dkim'', ''dkim''), (''dns'', ''dns''), (''mta-sts'', ''dns''), (''queue'', ''queue'')]"

definition resource_scope :: "string list \<Rightarrow> string option" where
  "resource_scope path = (case path of v # kind # rest \<Rightarrow> map_of resource_scopes kind | _ \<Rightarrow> None)"

definition pattern_scope :: "segment list \<Rightarrow> string option" where
  "pattern_scope p = (case p of Seg v # Seg kind # rest \<Rightarrow> map_of resource_scopes kind | _ \<Rightarrow> None)"

lemma match_path_Seg: "match_path (Seg a # Seg b # p) path \<noteq> None \<Longrightarrow> \<exists>rest. path = a # b # rest"
  by (cases path; cases "tl path") (auto split: if_splits)

lemma routes_scopes:
  "list_all (\<lambda>(m, p, s, h). s = pattern_scope p \<and> (s = None \<longrightarrow> p = [Seg ''healthz''])) (routes L E r @ groupRoutes L E r)"
  by (simp add: routes_def groupRoutes_def pattern_scope_def resource_scopes_def)

lemma route_scope:
  assumes "(m, p, s, h) \<in> set (routes L E r @ groupRoutes L E r)" and "match_path p path \<noteq> None"
  shows "if s = None then p = [Seg ''healthz''] else s = resource_scope path"
proof -
  have s: "s = pattern_scope p" "s = None \<Longrightarrow> p = [Seg ''healthz'']"
    using bspec [OF routes_scopes [unfolded list_all_iff] assms(1)] by simp_all
  show ?thesis
  proof (cases s)
    case (Some x)
    then obtain v kind q where p: "p = Seg v # Seg kind # q"
      using s(1) by (auto simp: pattern_scope_def split: list.splits segment.splits)
    then obtain rest where "path = v # kind # rest" using assms(2) match_path_Seg by blast
    with s(1) p have "resource_scope path = s" by (simp add: pattern_scope_def resource_scope_def)
    with Some show ?thesis by simp
  qed (simp add: s(2))
qed

lemma healthz_handler: "(m, [Seg ''healthz''], None, h) \<in> set (routes L E r @ groupRoutes L E r) \<Longrightarrow> h vs = Return (writeJSON 200 (Strings [(''status'', ''ok'')]))"
  unfolding routes_def groupRoutes_def by auto

lemma find_mem: "find P xs = Some x \<Longrightarrow> x \<in> set xs"
  by (induction xs) (auto split: if_splits)

lemma serve_cases:
  obtains a where "serve L E r = Return a" and "status a \<in> {200, 404, 405}"
  | m p h scope where "(m, p, Some scope, h) \<in> set (routes L E r @ groupRoutes L E r)" and "resource_scope (Rq_Path r) = Some scope"
      and "serve L E r = requireScope L r scope (h (the (match_path p (Rq_Path r))))"
proof -
  define rs where "rs = routes L E r @ groupRoutes L E r"
  define meth where "meth = (if Rq_Method r = ''HEAD'' then ''GET'' else Rq_Method r)"
  define fits where "fits = filter (\<lambda>(m, p, s, h). match_path p (Rq_Path r) \<noteq> None) rs"
  have serve: "serve L E r = (if fits = [] then Return (Reply 404 (ErrorBody ''404 page not found''))
      else case find (\<lambda>(m, p, s, h). m = meth) fits of
          None \<Rightarrow> Return (Reply 405 (ErrorBody ''Method Not Allowed''))
        | Some (m, p, s, h) \<Rightarrow> (let run = h (the (match_path p (Rq_Path r))) in
            case s of None \<Rightarrow> run | Some scope \<Rightarrow> requireScope L r scope run))"
    by (simp add: serve_def Let_def rs_def meth_def fits_def)
  show thesis
  proof (cases "find (\<lambda>(m, p, s, h). m = meth) fits")
    case None
    then show ?thesis by (cases "fits = []") (auto simp: serve intro: that(1))
  next
    case (Some route)
    obtain m p s h where route: "route = (m, p, s, h)" by (cases route) auto
    have ne: "fits \<noteq> []" using Some by auto
    have "route \<in> set fits" using Some by (rule find_mem)
    then have r: "(m, p, s, h) \<in> set (routes L E r @ groupRoutes L E r)" "match_path p (Rq_Path r) \<noteq> None"
      by (auto simp: fits_def rs_def route)
    show ?thesis
    proof (cases s)
      case None
      then have "p = [Seg ''healthz'']" using route_scope [OF r] by simp
      then have "h vs = Return (writeJSON 200 (Strings [(''status'', ''ok'')]))" for vs
        using healthz_handler r(1) None by blast
      then have "serve L E r = Return (writeJSON 200 (Strings [(''status'', ''ok'')]))"
        unfolding serve Some route by (simp add: ne None)
      then show ?thesis by (rule that(1)) (simp add: writeJSON_def)
    next
      case (Some scope)
      then have "resource_scope (Rq_Path r) = Some scope" using route_scope [OF r] by simp
      moreover have "serve L E r = requireScope L r scope (h (the (match_path p (Rq_Path r))))"
        using \<open>find _ fits = Some route\<close> by (simp add: serve ne route Some)
      ultimately show ?thesis using r(1) Some that(2) by blast
    qed
  qed
qed


text \<open>A request without a token to delete a domain.\<close>

definition anonymous_delete :: http_request where
  "anonymous_delete = \<lparr>Rq_Method = ''DELETE'', Rq_Host = [], Rq_Path = [''v1'', ''domains'', ''example.com''], Rq_Query = (\<lambda>k. []),
     Rq_Header = (\<lambda>k. []), Rq_RemoteAddr = [], Rq_Body = []\<rparr>"

definition no_env :: api_env where
  "no_env = \<lparr>env_json = (\<lambda>b. None), env_lookup = (\<lambda>n h. None), env_certbot = (\<lambda>e h. (False, []))\<rparr>"


text \<open>
  The domain of a path is not validated before it becomes part of a file name, so a token with the scope \<open>dns\<close> reads text files anywhere: with the domain
  \<open>x/../../../../../tmp/secret\<close> the reply is the content of \<open>/tmp/secret.txt\<close>.
\<close>

theorem dns_reads_outside:
  "Join_path [DNSDumpDir, ''patrabahok-dns-'' @ ''x/../../../../../tmp/secret'' @ ''.txt''] = ''/tmp/secret.txt''"
  by code_simp

end
