(* ===== verification/Web_Overview.thy ===== *)
theory Web_Overview
  imports Web_Users Web_Groups Api
begin

text \<open>The overview and the search: \<open>handlers_overview.go\<close>.\<close>

section \<open>The overview\<close>

definition maxStorageScan :: nat where "maxStorageScan = 5000"

text \<open>The six largest domains; those with as many users in the order of their names.\<close>

definition domain_bars :: "(string \<times> domain_stats) list \<Rightarrow> domain_bar list" where
  "domain_bars stats =
     (let most = fold (\<lambda>(name, st) m. max m (DS_Users st)) stats 0 in
      map (\<lambda>(name, st). \<lparr>DB_Name = name, DB_Users = DS_Users st, DB_Percent = percent (int (DS_Users st)) (int most)\<rparr>)
        (take 6 (sort_key (\<lambda>(name, st). - int (DS_Users st)) (sort_key fst stats))))"

definition total_of :: "(domain_stats \<Rightarrow> nat) \<Rightarrow> (string \<times> domain_stats) list \<Rightarrow> nat" where
  "total_of f stats = sum_list (map (f \<circ> snd) stats)"

text \<open>What is used and what is allowed, in 64 bits; nothing when there are too many users.\<close>

definition storage :: "lib \<Rightarrow> nat \<Rightarrow> (int \<times> int) op" where
  "storage L users =
     (if users > maxStorageScan then Return (0, 0)
      else andThen (Attempt (MailboxSearch L \<lparr>MF_Domain = [], MF_Query = [], MF_Status = [], MF_Limit = int maxStorageScan, MF_Offset = 0\<rparr>)) (\<lambda>res. case res of
          Inl e \<Rightarrow> Return (0, 0)
        | Inr (list, hits) \<Rightarrow> andThen (with_usage list) (\<lambda>rows.
            Return (fold (\<lambda>(m, used) (total_used, total_quota). (i64 (total_used + used), i64 (total_quota + QuotaBytes m))) rows (0, 0)))))"

text \<open>The size of the disk, the part that is used, and its percentage.\<close>

definition disk_numbers :: "disk_usage \<Rightarrow> int \<times> int \<times> int" where
  "disk_numbers d = (i64 (DU_TotalBytes d), i64 (u64 (DU_TotalBytes d - DU_FreeBytes d)), \<lfloor>f64 (DU_UsedPercent d + 1 / 2)\<rfloor>)"

definition handleOverviewPage :: "lib \<Rightarrow> server_env \<Rightarrow> web_request \<Rightarrow> admin_user \<Rightarrow> view page" where
  "handleOverviewPage L E r u =
     with_base (uni L) E r u ''Overview'' ''overview'' [] (\<lambda>b.
     andThen (Attempt DomainStatsAll) (\<lambda>got.
     let stats = (case got of Inl e \<Rightarrow> [] | Inr st \<Rightarrow> st); users = total_of DS_Users stats in
     andThen (storage L users) (\<lambda>(used, quota).
     andThen (QueueList L) (\<lambda>(q, qerr).
     andThen (CheckServices L) (\<lambda>services.
     andThen (stateConfigStrings L) (\<lambda>(mailHost, serverIP, adminEmail).
     andThen (recentActivity L [] 8) (\<lambda>activity.
     Return (renderPage ''overview'' (VOverview \<lparr>OV_Base = b, OV_DomainCount = length stats, OV_UserCount = users, OV_SuspendedCount = total_of DS_Suspended stats,
       OV_GroupCount = total_of DS_Groups stats, OV_AliasCount = total_of DS_Aliases stats, OV_StorageUsed = used, OV_StorageQuota = quota,
       OV_DomainBars = domain_bars stats, OV_QueueEmpty = (qerr = None \<and> Contains (ToLower (uni L) q) ''mail queue is empty''), OV_QueueKnown = (qerr = None),
       OV_Services = services, OV_ServicesUp = length (filter SV_Active services), OV_Disk = map_option disk_numbers (CheckDisk (se_statfs E) ''/''),
       OV_MailHost = mailHost, OV_Activity = activity\<rparr>)))))))))"

section \<open>The search\<close>

text \<open>A single hit that is the address itself is shown at once.\<close>

definition search_answer :: "lib \<Rightarrow> string \<Rightarrow> base_data \<Rightarrow> mailbox list \<Rightarrow> group_info list \<Rightarrow> domain_row list \<Rightarrow> view response" where
  "search_answer L q b users groups domains =
     (let all_hits = length users + length groups + length domains;
          shown = renderPage ''search'' (VSearch \<lparr>SP_Base = b, SP_Query = q, SP_Users = users, SP_Groups = groups, SP_Domains = domains, SP_Total = all_hits\<rparr>)
      in if all_hits \<noteq> 1 then shown
         else (case (users, groups) of
             ([m], gs) \<Rightarrow> if EqualFold (uni L) (Email m) q then redirect 303 (userURL (Email m)) else shown
           | ([], [g]) \<Rightarrow> if EqualFold (uni L) (G_Email g) q then redirect 303 (groupURL (G_Email g)) else shown
           | _ \<Rightarrow> shown))"

definition handleSearch :: "lib \<Rightarrow> server_env \<Rightarrow> web_request \<Rightarrow> admin_user \<Rightarrow> view page" where
  "handleSearch L E r u =
     (let q = TrimSpace (Rq_Query r ''q'') in
      with_base (uni L) E r u ''Search'' [] [(''Search'', [])] (\<lambda>b.
      if q = [] then Return (renderPage ''search'' (VSearch \<lparr>SP_Base = b, SP_Query = q, SP_Users = [], SP_Groups = [], SP_Domains = [], SP_Total = 0\<rparr>))
      else checked (MailboxSearch L \<lparr>MF_Domain = [], MF_Query = q, MF_Status = [], MF_Limit = 25, MF_Offset = 0\<rparr>) failErr (\<lambda>(users, hits).
        checked (GroupList L [] q) failErr (\<lambda>groups.
        checked (DomainList L) failErr (\<lambda>domains.
        Return (search_answer L q b users groups (filter (\<lambda>d. Contains (ToLower (uni L) (d_name d)) (ToLower (uni L) q)) domains)))))))"

end
