(* ===== verification/Web_Domains.thy ===== *)
theory Web_Domains
  imports Web_Pages
begin

text \<open>
  The pages of the domains, of the DNS records and of the connection to Cloudflare: \<open>handlers_domain.go\<close>, \<open>handlers_dkim.go\<close> and \<open>handlers_cloudflare.go\<close>. Timeouts are
  not modelled.
\<close>

section \<open>The connection to Cloudflare\<close>

definition oauthStateCookie :: string where "oauthStateCookie = ''patrabahok_cf_oauth_state''"

definition cloudflareRedirectURI :: "lib \<Rightarrow> web_request \<Rightarrow> string op" where
  "cloudflareRedirectURI L r = andThen (stateConfigStrings L) (\<lambda>(mailHost, serverIP, adminEmail).
     Return (''https://'' @ (if mailHost = [] then Rq_Host r else mailHost @ '':8443'') @ ''/settings/cloudflare/callback''))"

definition cloudflareSectionData :: "lib \<Rightarrow> server_env \<Rightarrow> web_request \<Rightarrow> cloudflare_section op" where
  "cloudflareSectionData L E r = andThen (Attempt (CfGet (se_aead E))) (\<lambda>got. andThen (cloudflareRedirectURI L r) (\<lambda>uri.
     Return (case got of
         Inl e \<Rightarrow> \<lparr>CF_Settings = no_settings_yet, CF_RedirectURI = uri, CF_Error = err_text e, CF_Notice = []\<rparr>
       | Inr settings \<Rightarrow> \<lparr>CF_Settings = settings, CF_RedirectURI = uri, CF_Error = [], CF_Notice = []\<rparr>)))"

definition cloudflare_partial :: "cloudflare_section \<Rightarrow> view response" where
  "cloudflare_partial data = renderPartial ''domains'' ''cloudflare_section'' (VCloudflare data)"

definition cloudflare_show :: "lib \<Rightarrow> server_env \<Rightarrow> web_request \<Rightarrow> handler" where
  "cloudflare_show L E r = andThen (cloudflareSectionData L E r) (\<lambda>data. Return (cloudflare_partial data))"

definition cloudflare_problem :: "lib \<Rightarrow> server_env \<Rightarrow> web_request \<Rightarrow> string \<Rightarrow> handler" where
  "cloudflare_problem L E r msg = andThen (cloudflareSectionData L E r) (\<lambda>data. Return (cloudflare_partial (data\<lparr>CF_Error := msg\<rparr>)))"

definition handleCloudflareConnect :: "lib \<Rightarrow> server_env \<Rightarrow> web_request \<Rightarrow> handler" where
  "handleCloudflareConnect L E r =
     (if \<not> Wq_FormOk r then Return (http_error 400 ''invalid form'')
      else (let token = TrimSpace (FormValue r ''token'') in
        if token = [] then cloudflare_problem L E r ''API token is required.''
        else andThen (Attempt (verify_token L E token)) (\<lambda>v. case v of
            Inl e \<Rightarrow> cloudflare_problem L E r (''Could not verify this token with Cloudflare: '' @ err_text e)
          | Inr _ \<Rightarrow> andThen (Attempt (SetAPIToken (se_aead E) token)) (\<lambda>saved. case saved of
                Inl e \<Rightarrow> cloudflare_problem L E r (''Token verified, but saving it failed: '' @ err_text e)
              | Inr _ \<Rightarrow> cloudflare_show L E r))))"

definition handleCloudflareOAuthClientSave :: "lib \<Rightarrow> server_env \<Rightarrow> web_request \<Rightarrow> handler" where
  "handleCloudflareOAuthClientSave L E r =
     (if \<not> Wq_FormOk r then Return (http_error 400 ''invalid form'')
      else (let clientID = TrimSpace (FormValue r ''client_id''); clientSecret = TrimSpace (FormValue r ''client_secret'') in
        if clientID = [] \<or> clientSecret = [] then cloudflare_problem L E r ''Client ID and Client Secret are both required.''
        else andThen (Attempt (SetOAuthClient (se_aead E) clientID clientSecret)) (\<lambda>saved. case saved of
            Inl e \<Rightarrow> cloudflare_problem L E r (''Could not save the OAuth client: '' @ err_text e)
          | Inr _ \<Rightarrow> cloudflare_show L E r)))"

text \<open>The error of \<open>rand.Read\<close> is ignored; the buffer then holds zeros.\<close>

definition oauth_state :: "string op" where
  "oauth_state = andThen (Attempt (RandRead 24)) (\<lambda>b. Return (hex_encode (case b of Inl e \<Rightarrow> replicate 24 (CHR 0x00) | Inr raw \<Rightarrow> raw)))"

definition state_cookie :: "string \<Rightarrow> cookie" where
  "state_cookie state = \<lparr>CK_Name = oauthStateCookie, CK_Value = state, CK_Path = ''/settings/cloudflare'', CK_HttpOnly = True, CK_Secure = True, CK_Lax = True,
     CK_MaxAge = 600\<rparr>"

definition clear_state_cookie :: cookie where
  "clear_state_cookie = \<lparr>CK_Name = oauthStateCookie, CK_Value = [], CK_Path = ''/settings/cloudflare'', CK_HttpOnly = False, CK_Secure = False, CK_Lax = False,
     CK_MaxAge = - 1\<rparr>"

definition cf_failed :: "string \<Rightarrow> view response" where
  "cf_failed code = redirect 303 (''/domains?cferror='' @ code)"

text \<open>\<open>oc, ok, err := OAuthClientFor(...)\<close>, and the way out without a client.\<close>

definition with_oauth_client :: "lib \<Rightarrow> server_env \<Rightarrow> web_request \<Rightarrow> (oauth_client \<Rightarrow> handler) \<Rightarrow> handler" where
  "with_oauth_client L E r k = andThen (cloudflareRedirectURI L r) (\<lambda>uri.
     checked (OAuthClientFor (se_aead E) uri) (\<lambda>e. cf_failed ''noclient'') (\<lambda>oc. given oc (cf_failed ''noclient'') k))"

definition handleCloudflareAuthorize :: "lib \<Rightarrow> server_env \<Rightarrow> web_request \<Rightarrow> handler" where
  "handleCloudflareAuthorize L E r = with_oauth_client L E r (\<lambda>oc. andThen oauth_state (\<lambda>state.
     Return (sending [state_cookie state] (redirect 303 (BuildAuthorizeURL oc state)))))"

definition handleCloudflareCallback :: "lib \<Rightarrow> server_env \<Rightarrow> web_request \<Rightarrow> handler" where
  "handleCloudflareCallback L E r = andThen
     (let errMsg = Rq_Query r ''error''; state = Rq_Query r ''state''; code = Rq_Query r ''code'' in
      if errMsg \<noteq> [] then Return (cf_failed errMsg)
      else if state = [] \<or> Wq_Cookie r oauthStateCookie \<noteq> Some state then Return (cf_failed ''state_mismatch'')
      else if code = [] then Return (cf_failed ''no_code'')
      else with_oauth_client L E r (\<lambda>oc.
        checked (ExchangeCode (uni L) (se_oauth E) oc code) (\<lambda>e. cf_failed ''exchange_failed'') (\<lambda>result.
        checked (SaveOAuthCallback (se_aead E) result) (\<lambda>e. cf_failed ''save_failed'') (\<lambda>_.
        Return (redirect 303 ''/domains?cfconnected=1'')))))
     (\<lambda>resp. Return (sending [clear_state_cookie] resp))"

definition handleCloudflareDisconnect :: "lib \<Rightarrow> server_env \<Rightarrow> web_request \<Rightarrow> admin_user \<Rightarrow> handler" where
  "handleCloudflareDisconnect L E r u = recording r u ''cloudflare.disconnect'' [] []
     (checked CfClear (\<lambda>e. http_error 500 (err_text e)) (\<lambda>_. cloudflare_show L E r))"

definition cloudflareErrorMessage :: "string \<Rightarrow> string" where
  "cloudflareErrorMessage code =
     (if code = ''noclient'' then ''No Cloudflare OAuth client is configured yet '' @ dash @ '' save your Client ID and Client Secret first.''
      else if code = ''state_mismatch'' then ''The Cloudflare authorization response didn'' @ apos @ ''t match '' @ dash @ '' please try connecting again.''
      else if code = ''no_code'' then ''Cloudflare didn'' @ apos @ ''t return an authorization code '' @ dash @ '' please try connecting again.''
      else if code = ''exchange_failed''
      then ''Could not complete the Cloudflare authorization '' @ dash @ '' check the Client ID/Secret and redirect URL, then try again.''
      else if code = ''save_failed'' then ''Authorized with Cloudflare, but saving the tokens failed '' @ dash @ '' try connecting again.''
      else if code = ''access_denied'' then ''Cloudflare authorization was denied or cancelled.''
      else ''Cloudflare authorization failed ('' @ code @ '').'')"

section \<open>Domains\<close>

definition domainURL :: "string \<Rightarrow> string" where "domainURL name = ''/domains/'' @ PathEscape name"

definition no_domain_stats :: domain_stats where
  "no_domain_stats = \<lparr>DS_Users = 0, DS_Suspended = 0, DS_Groups = 0, DS_Aliases = 0\<rparr>"

definition domainViews :: "lib \<Rightarrow> domain_view list op" where
  "domainViews L = andThen (DomainList L) (\<lambda>domains. andThen DomainStatsAll (\<lambda>stats. andThen (KeyList L) (\<lambda>keys.
     Return (map (\<lambda>d. \<lparr>DV_Domain = d,
       DV_Stats = (case map_of stats (d_name d) of None \<Rightarrow> no_domain_stats | Some st \<Rightarrow> st),
       DV_APIKey = map_of (rev (map (\<lambda>k. (KI_Domain k, k)) keys)) (d_name d)\<rparr>) domains))))"

definition handleDomainsPage :: "lib \<Rightarrow> server_env \<Rightarrow> web_request \<Rightarrow> admin_user \<Rightarrow> handler" where
  "handleDomainsPage L E r u =
     checked (domainViews L) failErr (\<lambda>views.
     with_base (uni L) E r u ''Domains'' ''domains'' [(''Domains'', [])] (\<lambda>b.
     andThen (cloudflareSectionData L E r) (\<lambda>cf.
     let errCode = Rq_Query r ''cferror'';
         cf1 = (if Rq_Query r ''cfconnected'' = ''1'' then cf\<lparr>CF_Notice := ''Connected to Cloudflare.''\<rparr>
                else if errCode \<noteq> [] then cf\<lparr>CF_Error := cloudflareErrorMessage errCode\<rparr> else cf)
     in Return (renderPage ''domains'' (VDomains b views cf1)))))"

definition handleDomainAdd :: "lib \<Rightarrow> server_env \<Rightarrow> web_request \<Rightarrow> admin_user \<Rightarrow> handler" where
  "handleDomainAdd L E r u =
     (if \<not> Wq_FormOk r then Return invalid_form
      else (let name = ToLower (uni L) (formValue r ''name'') in
        checked (DomainAdd L name) failErr (\<lambda>_.
        recording r u ''domain.add'' name [] (Return (done_with E r (domainURL name) (name @ '' added. Publish its DNS records next.''))))))"

text \<open>\<open>domainPageData\<close>, with what follows it: without the domain \<open>missing\<close>, otherwise \<open>k\<close>.\<close>

definition with_domain_page :: "lib \<Rightarrow> server_env \<Rightarrow> web_request \<Rightarrow> admin_user \<Rightarrow> string \<Rightarrow> view response \<Rightarrow> (domain_page \<Rightarrow> handler) \<Rightarrow> handler" where
  "with_domain_page L E r u name missing k =
     checked (domainViews L) failErr (\<lambda>views.
     given (find (\<lambda>v. d_name (DV_Domain v) = name) views) missing (\<lambda>v.
     with_base (uni L) E r u name ''domains'' [(''Domains'', ''/domains''), (name, [])] (\<lambda>b.
     andThen (stateConfigStrings L) (\<lambda>(mailHost, serverIP, adminEmail).
     checked (CatchAllGet L name) failErr (\<lambda>catchAll.
     k \<lparr>DP_Base = b, DP_Domain = v, DP_MailHost = mailHost, DP_CatchAll = catchAll, DP_CFZone = [], DP_NewAPIKey = [], DP_Activity = []\<rparr>)))))"

text \<open>Whether there is a token, and the zone of the domain; empty when none is found.\<close>

definition connected_zone :: "lib \<Rightarrow> server_env \<Rightarrow> string \<Rightarrow> (bool \<times> string) op" where
  "connected_zone L E domain = andThen (Attempt (CfToken L (se_aead E) (se_oauth E))) (\<lambda>t. case t of
       Inl e \<Rightarrow> Return (False, [])
     | Inr token \<Rightarrow>
         if token = [] then Return (False, [])
         else andThen (Attempt (find_zone L E token domain)) (\<lambda>z. Return (True, case z of Inr (Some (zoneID, zoneName)) \<Rightarrow> zoneName | _ \<Rightarrow> [])))"

definition handleDomainPage :: "lib \<Rightarrow> server_env \<Rightarrow> web_request \<Rightarrow> admin_user \<Rightarrow> string \<Rightarrow> handler" where
  "handleDomainPage L E r u name0 =
     (let name = ToLower (uni L) name0 in
      with_domain_page L E r u name NotFound (\<lambda>data.
      andThen (connected_zone L E name) (\<lambda>(connected, zone).
      andThen (recentActivity L name 8) (\<lambda>activity.
      Return (renderPage ''domain'' (VDomain (data\<lparr>DP_CFZone := zone, DP_Activity := activity\<rparr>)))))))"

definition handleDomainDelete :: "lib \<Rightarrow> server_env \<Rightarrow> web_request \<Rightarrow> admin_user \<Rightarrow> string \<Rightarrow> handler" where
  "handleDomainDelete L E r u name =
     (if formValue r ''confirm'' \<noteq> name then Return (fail 400 ''Type the domain name exactly to confirm deletion.'')
      else checked (DomainRemove L name) failErr (\<lambda>_.
        recording r u ''domain.delete'' name []
          (Return (done_with E r ''/domains'' (name @ '' and all of its users, groups and aliases were deleted.'')))))"

definition handleDomainCatchAll :: "lib \<Rightarrow> server_env \<Rightarrow> web_request \<Rightarrow> admin_user \<Rightarrow> string \<Rightarrow> handler" where
  "handleDomainCatchAll L E r u name =
     (let dest = (if FormValue r ''enabled'' \<noteq> ''1'' then [] else formValue r ''destination'') in
      checked (CatchAllSet L name dest) failErr (\<lambda>_.
      if dest = []
      then recording r u ''domain.catchall.off'' name []
        (Return (done_with E r (domainURL name) ''Catch-all turned off. Mail to unknown addresses is rejected.''))
      else recording r u ''domain.catchall.set'' name dest
        (Return (done_with E r (domainURL name) (''Mail to unknown addresses at '' @ name @ '' now goes to '' @ ToLower (uni L) dest @ ''.'')))))"

definition respondAPIKeyCard :: "lib \<Rightarrow> server_env \<Rightarrow> web_request \<Rightarrow> admin_user \<Rightarrow> string \<Rightarrow> string \<Rightarrow> handler" where
  "respondAPIKeyCard L E r u name newKey = with_domain_page L E r u name (fail 404 ''No such domain.'') (\<lambda>data.
     Return (renderPartial ''domain'' ''apikey_card'' (VDomain (data\<lparr>DP_NewAPIKey := newKey\<rparr>))))"

definition handleDomainAPIKeyGenerate :: "lib \<Rightarrow> server_env \<Rightarrow> web_request \<Rightarrow> admin_user \<Rightarrow> string \<Rightarrow> handler" where
  "handleDomainAPIKeyGenerate L E r u name =
     checked (KeyGenerate L name) (\<lambda>e. fail 400 (err_text e)) (\<lambda>plaintext.
     recording r u ''apikey.generate'' name [] (respondAPIKeyCard L E r u name plaintext))"

definition handleDomainAPIKeyRevoke :: "lib \<Rightarrow> server_env \<Rightarrow> web_request \<Rightarrow> admin_user \<Rightarrow> string \<Rightarrow> handler" where
  "handleDomainAPIKeyRevoke L E r u name =
     checked (KeyRevoke L name) (\<lambda>e. fail 400 (err_text e)) (\<lambda>_.
     recording r u ''apikey.revoke'' name [] (respondAPIKeyCard L E r u name []))"

text \<open>The values of the records that are applied: those of the state file, and the DKIM record when there is one.\<close>

definition apply_mail :: "lib \<Rightarrow> server_env \<Rightarrow> string \<Rightarrow> string \<Rightarrow> string \<Rightarrow> apply_result list op" where
  "apply_mail L E token zoneID domain =
     andThen (stateConfigStrings L) (\<lambda>(mailHost, serverIP, adminEmail0).
     let adminEmail = (if adminEmail0 = [] then ''postmaster@'' @ domain else adminEmail0) in
     andThen (Attempt (DKIMRecord domain)) (\<lambda>text.
     let dkimValue = FullDKIMRecordValue (case text of Inl e \<Rightarrow> [] | Inr t \<Rightarrow> t) in
     apply_records L E token zoneID domain mailHost serverIP dkimValue (''v=DMARC1; p=none; rua=mailto:'' @ adminEmail)))"

definition quick_apply :: "string \<Rightarrow> apply_result list \<Rightarrow> string \<Rightarrow> view response" where
  "quick_apply domain results err = renderPartial ''domains'' ''cf_quick_apply_result'' (VQuickApply domain results err)"

definition domain_required :: "view response" where
  "domain_required = http_error 400 ''domain is required''"

definition handleDomainsCloudflareApply :: "lib \<Rightarrow> server_env \<Rightarrow> web_request \<Rightarrow> handler" where
  "handleDomainsCloudflareApply L E r =
     (let domain = Rq_Query r ''domain''; not_connected = quick_apply [] [] (''Cloudflare isn'' @ apos @ ''t connected.'') in
      if domain = [] then Return domain_required
      else checked (CfToken L (se_aead E) (se_oauth E)) (\<lambda>e. not_connected) (\<lambda>token.
        if token = [] then Return not_connected
        else checked (find_zone L E token domain) (\<lambda>e. quick_apply [] [] (''Could not look up the Cloudflare zone: '' @ err_text e)) (\<lambda>zone.
          given zone (quick_apply [] [] (''No matching Cloudflare zone was found for '' @ domain @ ''.'')) (\<lambda>(zoneID, zoneName).
          andThen (apply_mail L E token zoneID domain) (\<lambda>results. Return (quick_apply domain results []))))))"

end
