(* ===== verification/Web_Dkim.thy ===== *)
theory Web_Dkim
  imports Web_Domains Web_Accounts
begin

text \<open>The page of the DNS records of a domain: \<open>handlers_dkim.go\<close>.\<close>

section \<open>Records to publish\<close>

definition entry :: "string \<Rightarrow> string \<Rightarrow> string \<Rightarrow> string \<Rightarrow> record_entry" where
  "entry label type name val = \<lparr>RE_Label = label, RE_Type = type, RE_Name = name, RE_Value = val\<rparr>"

definition dkim_entries :: "string \<Rightarrow> error + string \<Rightarrow> record_entry list" where
  "dkim_entries domain text = (case text of
       Inl e \<Rightarrow> []
     | Inr t \<Rightarrow> (let v = FullDKIMRecordValue t in if v = [] then [] else [entry ''DKIM'' ''TXT'' (''mail._domainkey.'' @ domain) v]))"

definition sts_entries :: "lib \<Rightarrow> string \<Rightarrow> string \<Rightarrow> string \<Rightarrow> record_entry list" where
  "sts_entries L domain mailHost serverIP =
     [entry ''MTA-STS A record'' ''A'' (Hostname domain) serverIP,
      entry ''MTA-STS'' ''TXT'' (''_mta-sts.'' @ domain) (''v=STSv1; id='' @ PolicyID L (PolicyContent mailHost))]"

definition buildRecordEntries :: "lib \<Rightarrow> string \<Rightarrow> record_entry list op" where
  "buildRecordEntries L domain =
     andThen (stateConfigStrings L) (\<lambda>(mailHost, serverIP, adminEmail0).
     let adminEmail = (if adminEmail0 = [] then ''postmaster@'' @ domain else adminEmail0) in
     andThen (Attempt (DKIMRecord domain)) (\<lambda>text.
     Return ((if mailHost \<noteq> [] \<and> serverIP \<noteq> [] then [entry ''A record'' ''A'' mailHost serverIP] else [])
       @ (if mailHost \<noteq> [] then [entry ''MX record (priority 10)'' ''MX'' domain mailHost] else [])
       @ [entry ''SPF'' ''TXT'' domain ''v=spf1 mx -all'',
          entry ''DMARC'' ''TXT'' (''_dmarc.'' @ domain) (''v=DMARC1; p=none; rua=mailto:'' @ adminEmail)]
       @ dkim_entries domain text
       @ (if mailHost \<noteq> [] \<and> serverIP \<noteq> [] then sts_entries L domain mailHost serverIP else []))))"

section \<open>The page\<close>

definition no_base :: base_data where
  "no_base = \<lparr>B_Title = [], B_Active = [], B_Username = [], B_Crumbs = [], B_Flash = None\<rparr>"

definition empty_dkim :: dkim_page where
  "empty_dkim = \<lparr>DK_Base = no_base, DK_Domains = [], DK_Selected = [], DK_RawRecords = [], DK_RecordEntries = [], DK_Report = None,
     DK_CloudflareConnected = False, DK_CloudflareZone = [], DK_CloudflareApplyResults = [], DK_CloudflareApplyErr = [], DK_MTASTSHostname = [],
     DK_MTASTSEnabled = False, DK_MTASTSResultMsg = [], DK_MTASTSErr = [], DK_RotateMsg = [], DK_RotateErr = []\<rparr>"

definition dkim_report :: "lib \<Rightarrow> server_env \<Rightarrow> string \<Rightarrow> report op" where
  "dkim_report L E selected = andThen (stateConfigStrings L) (\<lambda>(mailHost, serverIP, adminEmail).
     andThen (Attempt (DKIMRecord selected)) (\<lambda>text.
     Return (Analyze L (se_dns E) selected mailHost serverIP (case text of Inl e \<Rightarrow> [] | Inr t \<Rightarrow> t))))"

definition dkimData :: "lib \<Rightarrow> server_env \<Rightarrow> web_request \<Rightarrow> admin_user \<Rightarrow> bool \<Rightarrow> dkim_page op" where
  "dkimData L E r u runCheck =
     andThen (DomainList L) (\<lambda>domains.
     let asked = Rq_Query r ''domain'';
         selected = (if asked = [] \<and> domains \<noteq> [] then d_name (hd domains) else asked);
         data = empty_dkim\<lparr>DK_Base := plain_base u ''DNS & deliverability'' ''dkim'' [(''DNS & deliverability'', [])], DK_Domains := domains, DK_Selected := selected\<rparr>
     in if selected = [] then Return data
     else andThen (Attempt (DNSRecords selected)) (\<lambda>raw.
       andThen (buildRecordEntries L selected) (\<lambda>entries.
       andThen (Enabled selected) (\<lambda>enabled.
       andThen (connected_zone L E selected) (\<lambda>(connected, zone).
       andThen (if runCheck then andThen (dkim_report L E selected) (\<lambda>rep. Return (Some rep)) else Return None) (\<lambda>rep.
       Return (data\<lparr>DK_RawRecords := (case raw of Inl e \<Rightarrow> [] | Inr t \<Rightarrow> t), DK_RecordEntries := entries, DK_MTASTSHostname := Hostname selected,
         DK_MTASTSEnabled := enabled, DK_CloudflareConnected := connected, DK_CloudflareZone := zone, DK_Report := rep\<rparr>)))))))"

definition handleDKIMPage :: "lib \<Rightarrow> server_env \<Rightarrow> web_request \<Rightarrow> admin_user \<Rightarrow> handler" where
  "handleDKIMPage L E r u = checked (dkimData L E r u False) internal_error (\<lambda>data. Return (renderPage ''dkim'' (VDKIM data)))"

definition dns_analysis :: "dkim_page \<Rightarrow> view response" where
  "dns_analysis data = renderPartial ''dkim'' ''dns_analysis'' (VDKIM data)"

definition handleDKIMVerify :: "lib \<Rightarrow> server_env \<Rightarrow> web_request \<Rightarrow> admin_user \<Rightarrow> handler" where
  "handleDKIMVerify L E r u = checked (dkimData L E r u True) internal_error (\<lambda>data. Return (dns_analysis data))"

text \<open>\<open>data, _ := s.dkimData(r, true)\<close>: without the data the page is empty but for the message.\<close>

definition dkim_problem :: "lib \<Rightarrow> server_env \<Rightarrow> web_request \<Rightarrow> admin_user \<Rightarrow> string \<Rightarrow> handler" where
  "dkim_problem L E r u msg = andThen (Attempt (dkimData L E r u True)) (\<lambda>got.
     Return (dns_analysis ((case got of Inl e \<Rightarrow> empty_dkim | Inr data \<Rightarrow> data)\<lparr>DK_CloudflareApplyErr := msg\<rparr>)))"

section \<open>Changes\<close>

definition handleDKIMCloudflareApply :: "lib \<Rightarrow> server_env \<Rightarrow> web_request \<Rightarrow> admin_user \<Rightarrow> handler" where
  "handleDKIMCloudflareApply L E r u =
     (let domain = Rq_Query r ''domain'' in
      if domain = [] then Return domain_required
      else andThen (Attempt (CfToken L (se_aead E) (se_oauth E))) (\<lambda>t. case t of
          Inl e \<Rightarrow> dkim_problem L E r u (''Cloudflare isn'' @ apos @ ''t connected '' @ dash @ '' add an API token in Settings first.'')
        | Inr token \<Rightarrow>
            if token = [] then dkim_problem L E r u (''Cloudflare isn'' @ apos @ ''t connected '' @ dash @ '' add an API token in Settings first.'')
            else andThen (Attempt (find_zone L E token domain)) (\<lambda>z. case z of
                Inl e \<Rightarrow> dkim_problem L E r u (''Could not look up the Cloudflare zone: '' @ err_text e)
              | Inr None \<Rightarrow> dkim_problem L E r u (''No zone matching '' @ domain @ '' was found in your connected Cloudflare account.'')
              | Inr (Some (zoneID, zoneName)) \<Rightarrow>
                  andThen (apply_mail L E token zoneID domain) (\<lambda>results.
                  checked (dkimData L E r u True) internal_error (\<lambda>data.
                  Return (dns_analysis (data\<lparr>DK_CloudflareApplyResults := results\<rparr>)))))))"

definition rotated_text :: string where
  "rotated_text = ''DKIM key rotated '' @ dash @ '' this server now signs with the new key, but DNS still publishes the old public key. Republish the DKIM record below''
     @ '' (manually, or via Cloudflare auto-configure) now, or outgoing mail will fail DKIM verification until you do.''"

text \<open>Two fragments in one response.\<close>

definition followed_by :: "'v response \<Rightarrow> 'v response \<Rightarrow> 'v response" where
  "followed_by r1 r2 = r1\<lparr>RS_Output := RS_Output r1 @ RS_Output r2\<rparr>"

definition rotated :: "dkim_page \<Rightarrow> view response" where
  "rotated data = followed_by (dns_analysis data) (renderPartial ''dkim'' ''records_to_add_oob'' (VDKIM data))"

definition handleDKIMRotate :: "lib \<Rightarrow> server_env \<Rightarrow> web_request \<Rightarrow> admin_user \<Rightarrow> handler" where
  "handleDKIMRotate L E r u =
     (let domain = Rq_Query r ''domain'' in
      if domain = [] then Return domain_required
      else andThen (Attempt (RotateDKIMKey L domain)) (\<lambda>res.
        checked (dkimData L E r u False) internal_error (\<lambda>data. case res of
            Inl e \<Rightarrow> Return (rotated (data\<lparr>DK_RotateErr := err_text e\<rparr>))
          | Inr _ \<Rightarrow> recording r u ''dkim.rotate'' domain [] (Return (rotated (data\<lparr>DK_RotateMsg := rotated_text\<rparr>))))))"

definition handleDKIMMTASTSEnable :: "lib \<Rightarrow> server_env \<Rightarrow> web_request \<Rightarrow> admin_user \<Rightarrow> handler" where
  "handleDKIMMTASTSEnable L E r u =
     (let domain = Rq_Query r ''domain'' in
      if domain = [] then Return domain_required
      else andThen (Attempt (Enable L (se_lookup E) (se_certbot E) domain)) (\<lambda>res.
        checked (dkimData L E r u False) internal_error (\<lambda>data.
        Return (renderPartial ''dkim'' ''mta_sts_status'' (VDKIM (case res of
            Inl e \<Rightarrow> data\<lparr>DK_MTASTSErr := err_text e\<rparr>
          | Inr i \<Rightarrow> data\<lparr>DK_MTASTSResultMsg := ''MTA-STS hosting enabled (policy id '' @ i @ '').''\<rparr>))))))"

end
