(* ===== verification/Web_Ops.thy ===== *)
theory Web_Ops
  imports Web_Pages
begin

text \<open>
  The pages of the server: bans, services, the mail queue and the logs (\<open>handlers_ops.go\<close>), and the diagnosis (\<open>handlers_diag.go\<close>).
\<close>

section \<open>Bans\<close>

definition client_address :: "web_request \<Rightarrow> string" where
  "client_address r = (case SplitHostPort (Rq_RemoteAddr r) of None \<Rightarrow> Rq_RemoteAddr r | Some (host, port) \<Rightarrow> host)"

definition error_or_empty :: "error + 'a list \<Rightarrow> string" where
  "error_or_empty res = (case res of Inl e \<Rightarrow> err_text e | Inr xs \<Rightarrow> [])"

definition list_or_empty :: "error + 'a list \<Rightarrow> 'a list" where
  "list_or_empty res = (case res of Inl e \<Rightarrow> [] | Inr xs \<Rightarrow> xs)"

definition handleBansPage :: "lib \<Rightarrow> server_env \<Rightarrow> web_request \<Rightarrow> admin_user \<Rightarrow> handler" where
  "handleBansPage L E r u =
     with_base (uni L) E r u ''Firewall & bans'' ''bans'' [(''Security'', []), (''Firewall & bans'', [])] (\<lambda>b.
     andThen (Attempt (Jails L)) (\<lambda>res. andThen (Attempt Allowlist) (\<lambda>allow.
     let jails = list_or_empty res; ip = client_address r in
     Return (renderPage ''bans'' (VBans \<lparr>BP_Base = b, BP_Jails = jails, BP_JailNames = map J_Name jails, BP_Allowlist = list_or_empty allow, BP_ClientIP = ip, BP_ClientBans = IsBanned ip jails,
       BP_TotalBanned = sum_list (map J_CurrentlyBanned jails), BP_TotalFailed = sum_list (map J_CurrentlyFailed jails), BP_Error = error_or_empty res\<rparr>)))))"

definition handleUnban :: "lib \<Rightarrow> server_env \<Rightarrow> web_request \<Rightarrow> admin_user \<Rightarrow> handler" where
  "handleUnban L E r u =
     (let ip = formValue r ''ip''; jail = formValue r ''jail''; place = (if jail = [] then ''every jail'' else jail) in
      checked (Unban L ip jail) (\<lambda>e. fail 400 (err_text e)) (\<lambda>_.
      recording r u ''fail2ban.unban'' ip place (Return (done_with E r ''/security/bans'' (ip @ '' unbanned from '' @ place @ ''.'')))))"

definition handleBan :: "lib \<Rightarrow> server_env \<Rightarrow> web_request \<Rightarrow> admin_user \<Rightarrow> handler" where
  "handleBan L E r u =
     (let ip = formValue r ''ip''; jail = formValue r ''jail'' in
      checked (Lift (ValidateIP L ip)) (\<lambda>e. fail 400 (err_text e)) (\<lambda>norm.
      if norm = client_address r
      then Return (fail 400 (''That'' @ apos @ ''s the IP you'' @ apos @ ''re connected from. Banning it would lock you out of this dashboard.''))
      else checked (Ban L norm jail) (\<lambda>e. fail 400 (err_text e)) (\<lambda>_.
        recording r u ''fail2ban.ban'' norm jail (Return (done_with E r ''/security/bans'' (norm @ '' banned in '' @ jail @ ''.''))))))"

definition handleAllowlistAdd :: "lib \<Rightarrow> server_env \<Rightarrow> web_request \<Rightarrow> admin_user \<Rightarrow> handler" where
  "handleAllowlistAdd L E r u =
     checked (Lift (ValidateAllowEntry L (formValue r ''entry''))) (\<lambda>e. fail 400 (err_text e)) (\<lambda>ent.
     checked Allowlist failErr (\<lambda>list.
     checked (SetAllowlist L (list @ [ent])) (\<lambda>e. fail 500 (err_text e)) (\<lambda>_.
     andThen (if ParseIP ent \<noteq> None then andThen (Attempt (Unban L ent [])) (\<lambda>_. Return ()) else Return ()) (\<lambda>_.
     recording r u ''fail2ban.allow.add'' ent [] (Return (done_with E r ''/security/bans'' (ent @ '' will never be banned.'')))))))"

definition handleAllowlistRemove :: "lib \<Rightarrow> server_env \<Rightarrow> web_request \<Rightarrow> admin_user \<Rightarrow> handler" where
  "handleAllowlistRemove L E r u =
     (let ent = Rq_Query r ''entry'' in
      checked Allowlist failErr (\<lambda>list.
      checked (SetAllowlist L (filter (\<lambda>e. e \<noteq> ent) list)) (\<lambda>e. fail 500 (err_text e)) (\<lambda>_.
      recording r u ''fail2ban.allow.remove'' ent [] (Return (done_with E r ''/security/bans'' (ent @ '' removed from the allowlist.''))))))"

section \<open>Services\<close>

definition handleServicesPage :: "lib \<Rightarrow> server_env \<Rightarrow> web_request \<Rightarrow> admin_user \<Rightarrow> handler" where
  "handleServicesPage L E r u =
     with_base (uni L) E r u ''Services'' ''services'' [(''System'', []), (''Services'', [])] (\<lambda>b.
     andThen (stateValue L ''webmail'') (\<lambda>webmail.
     andThen (States L (se_time E) webmail) (\<lambda>states.
     andThen (Spam L) (\<lambda>spam.
     andThen (Antivirus L) (\<lambda>av.
     Return (renderPage ''services'' (VServices b states (length (filter Running states)) spam av)))))))"

definition pastTense :: "string \<Rightarrow> string" where
  "pastTense action = (if action = Stop then ''stopped'' else if action = Start then ''started'' else action @ ''ed'')"

definition service_message :: "service_def \<Rightarrow> string \<Rightarrow> string" where
  "service_message d action = (if SD_Async d then SD_Label d @ '' is restarting. Give it a few seconds, then reload.''
     else SD_Label d @ '' '' @ pastTense action @ ''.'')"

text \<open>The action is recorded before it is taken.\<close>

definition handleServiceAction :: "lib \<Rightarrow> server_env \<Rightarrow> web_request \<Rightarrow> admin_user \<Rightarrow> string \<Rightarrow> string \<Rightarrow> handler" where
  "handleServiceAction L E r u unit action =
     andThen (stateValue L ''webmail'') (\<lambda>webmail.
     andThen (Find L webmail unit) (\<lambda>def.
     let refused = fail 400 (''That action isn'' @ apos @ ''t available for this service.'') in
     given def refused (\<lambda>d.
     if \<not> Allows d action then Return refused
     else recording r u (''service.'' @ action) unit []
       (andThen (stateValue L ''webmail'') (\<lambda>webmail.
        checked (Control L webmail unit action) (\<lambda>e. fail 500 (err_text e)) (\<lambda>_.
        Return (done_with E r ''/services'' (service_message d action))))))))"

definition handleServiceLogs :: "lib \<Rightarrow> web_request \<Rightarrow> string \<Rightarrow> handler" where
  "handleServiceLogs L r unit =
     andThen (stateValue L ''webmail'') (\<lambda>webmail.
     checked (ServiceLogs L webmail unit (AtoiValue (Rq_Query r ''lines''))) (\<lambda>e. fail 400 (err_text e)) (\<lambda>out.
     Return (renderPartial ''services'' ''service_logs'' (VServiceLogs (if TrimSpace out = [] then ''No log entries.'' else out)))))"

section \<open>The mail queue\<close>

definition handleQueuePage :: "lib \<Rightarrow> server_env \<Rightarrow> web_request \<Rightarrow> admin_user \<Rightarrow> handler" where
  "handleQueuePage L E r u =
     with_base (uni L) E r u ''Mail queue'' ''queue'' [(''Mail queue'', [])] (\<lambda>b.
     andThen Now (\<lambda>now. andThen (Attempt (Queue L (de_json E))) (\<lambda>res.
     let msgs = list_or_empty res in
     Return (renderPage ''queue'' (VQueue \<lparr>QP_Base = b, QP_Messages = msgs,
       QP_Deferred = length (filter (\<lambda>m. QM_Queue m = ''deferred'') msgs),
       QP_Delivering = length (filter (\<lambda>m. QM_Queue m \<noteq> ''deferred'' \<and> QM_Queue m \<noteq> ''hold'') msgs),
       QP_Hold = length (filter (\<lambda>m. QM_Queue m = ''hold'') msgs), QP_Error = error_or_empty res, QP_Now = now\<rparr>)))))"

text \<open>The operation of an action of the queue and the message it ends with.\<close>

definition queue_action :: "lib \<Rightarrow> string \<Rightarrow> string \<Rightarrow> (unit op \<times> string) option" where
  "queue_action L i action =
     (if action = ''delete'' then Some (DeleteMessage L i, ''Message '' @ i @ '' deleted.'')
      else if action = ''retry'' then Some (RetryMessage L i, ''Retrying delivery of '' @ i @ ''.'')
      else if action = ''hold'' then Some (HoldMessage L i, ''Message '' @ i @ '' put on hold.'')
      else if action = ''release'' then Some (ReleaseMessage L i, ''Message '' @ i @ '' released.'')
      else None)"

definition handleQueueAction :: "lib \<Rightarrow> server_env \<Rightarrow> web_request \<Rightarrow> admin_user \<Rightarrow> string \<Rightarrow> string \<Rightarrow> handler" where
  "handleQueueAction L E r u i action =
     given (queue_action L i action) (fail 400 ''Unknown queue action.'') (\<lambda>(m, msg).
     checked m (\<lambda>e. fail 400 (err_text e)) (\<lambda>_.
     recording r u (''queue.'' @ action) i [] (Return (done_with E r ''/queue'' msg))))"

definition handleQueueFlush :: "lib \<Rightarrow> server_env \<Rightarrow> web_request \<Rightarrow> admin_user \<Rightarrow> handler" where
  "handleQueueFlush L E r u =
     checked (FlushQueue L) (\<lambda>e. fail 500 (err_text e)) (\<lambda>_.
     recording r u ''queue.flush'' [] [] (Return (done_with E r ''/queue'' ''Retrying delivery of every queued message.'')))"

definition handleQueueDeleteDeferred :: "lib \<Rightarrow> server_env \<Rightarrow> web_request \<Rightarrow> admin_user \<Rightarrow> handler" where
  "handleQueueDeleteDeferred L E r u =
     checked (DeleteAllDeferred L) (\<lambda>e. fail 500 (err_text e)) (\<lambda>_.
     recording r u ''queue.delete.deferred'' [] [] (Return (done_with E r ''/queue'' ''Deleted every deferred message.'')))"

section \<open>Logs\<close>

definition handleLogsPage :: "lib \<Rightarrow> server_env \<Rightarrow> web_request \<Rightarrow> admin_user \<Rightarrow> handler" where
  "handleLogsPage L E r u =
     with_base (uni L) E r u ''Logs'' ''logs'' [(''System'', []), (''Logs'', [])] (\<lambda>b.
     andThen LogSources (\<lambda>sources.
     let asked = Rq_Query r ''source''; q = TrimSpace (Rq_Query r ''q'');
         source = (if asked = [] \<and> sources \<noteq> [] then LS_Key (hd sources) else asked);
         n0 = AtoiValue (Rq_Query r ''lines''); n = (if n0 \<le> 0 then 200 else n0)
     in andThen (Attempt (TailLog L source n q)) (\<lambda>res.
       Return (renderPage ''logs'' (VLogs \<lparr>LP_Base = b, LP_Sources = sources, LP_Source = source, LP_Lines = n, LP_Query = q,
         LP_Entries = map (\<lambda>l. (l, LineLevel L l)) (list_or_empty res), LP_Error = error_or_empty res\<rparr>)))))"

section \<open>The diagnosis\<close>

definition no_tls :: tls_info where
  "no_tls = \<lparr>TI_CommonName = [], TI_NotAfter = zero_second, TI_DaysLeft = 0, TI_Valid = False, TI_Error = []\<rparr>"

text \<open>The certificate of the mail host, when the state file names one.\<close>

definition host_tls :: "lib \<Rightarrow> server_env \<Rightarrow> (tls_info \<times> bool) op" where
  "host_tls L E = andThen (stateValue L ''hostname'') (\<lambda>host.
     if host = [] then Return (no_tls, False)
     else andThen (CheckTLS (se_cert E) (Join_path [''/etc/letsencrypt/live'', host, ''fullchain.pem''])) (\<lambda>t. Return (t, TI_Error t = [])))"

definition mail_log :: string where "mail_log = ''/var/log/mail.log''"

definition diagData :: "lib \<Rightarrow> server_env \<Rightarrow> admin_user \<Rightarrow> diag_page op" where
  "diagData L E u =
     andThen (CheckServices L) (\<lambda>services.
     andThen (CheckConfigs L) (\<lambda>configs.
     andThen (host_tls L E) (\<lambda>(tls, known).
     andThen (Attempt (RecentIssues L mail_log 40)) (\<lambda>issues.
     andThen (Attempt (Fail2banBans L)) (\<lambda>bans.
     Return \<lparr>DG_Base = plain_base u ''Diagnostics'' ''diagnostics'' [(''Diagnostics'', [])], DG_Services = services, DG_Configs = configs, DG_TLS = tls, DG_TLSKnown = known,
       DG_Disk = CheckDisk (se_statfs E) ''/'', DG_MailIssues = list_or_empty issues, DG_Fail2ban = list_or_empty bans, DG_Fail2banErr = error_or_empty bans\<rparr>)))))"

definition handleDiagnosticsPage :: "lib \<Rightarrow> server_env \<Rightarrow> admin_user \<Rightarrow> handler" where
  "handleDiagnosticsPage L E u = andThen (diagData L E u) (\<lambda>data. Return (renderPage ''diagnostics'' (VDiag data)))"

definition handleDiagnosticsPartial :: "lib \<Rightarrow> server_env \<Rightarrow> admin_user \<Rightarrow> handler" where
  "handleDiagnosticsPartial L E u = andThen (diagData L E u) (\<lambda>data. Return (renderPartial ''diagnostics'' ''diagnostics_body'' (VDiag data)))"

end
