(* ===== verification/Dashboard.thy ===== *)
theory Dashboard
  imports Web_Accounts Web_Overview Web_Dkim Web_Ops Web_Users Web_Groups
begin

text \<open>The server of the dashboard: its routes, what guards them, and the certificate it presents (\<open>server.go\<close>).\<close>

section \<open>Routes\<close>

text \<open>A route is open to everyone, or behind \<open>requireAuth\<close>; it gets the values of the wildcards.\<close>

datatype access = Open "view page" | Guarded "admin_user \<Rightarrow> view page"

type_synonym dash_route = "string \<times> segment list \<times> (string list \<Rightarrow> access)"

definition open_routes :: "lib \<Rightarrow> server_env \<Rightarrow> web_request \<Rightarrow> dash_route list" where
  "open_routes L E r =
    [(''GET'', [Seg ''login''], \<lambda>vs. Open (handleLoginForm L r)),
     (''POST'', [Seg ''login''], \<lambda>vs. Open (handleLoginSubmit L E r)),
     (''POST'', [Seg ''logout''], \<lambda>vs. Open (handleLogout L r)),
     (''GET'', [Seg ''mailboxes''], \<lambda>vs. Open (Return (redirect 301 ''/users'')))]"

definition domain_dash_routes :: "lib \<Rightarrow> server_env \<Rightarrow> web_request \<Rightarrow> dash_route list" where
  "domain_dash_routes L E r =
    [(''GET'', [Seg []], \<lambda>vs. Guarded (handleOverviewPage L E r)),
     (''GET'', [Seg ''search''], \<lambda>vs. Guarded (handleSearch L E r)),
     (''GET'', [Seg ''domains''], \<lambda>vs. Guarded (handleDomainsPage L E r)),
     (''POST'', [Seg ''domains''], \<lambda>vs. Guarded (Web_Domains.handleDomainAdd L E r)),
     (''POST'', [Seg ''domains'', Seg ''cloudflare-apply''], \<lambda>vs. Guarded (\<lambda>u. handleDomainsCloudflareApply L E r)),
     (''GET'', [Seg ''domains'', Wild], \<lambda>vs. Guarded (\<lambda>u. handleDomainPage L E r u (vs ! 0))),
     (''DELETE'', [Seg ''domains'', Wild], \<lambda>vs. Guarded (\<lambda>u. handleDomainDelete L E r u (vs ! 0))),
     (''POST'', [Seg ''domains'', Wild, Seg ''catchall''], \<lambda>vs. Guarded (\<lambda>u. handleDomainCatchAll L E r u (vs ! 0))),
     (''POST'', [Seg ''domains'', Wild, Seg ''apikey''], \<lambda>vs. Guarded (\<lambda>u. handleDomainAPIKeyGenerate L E r u (vs ! 0))),
     (''DELETE'', [Seg ''domains'', Wild, Seg ''apikey''], \<lambda>vs. Guarded (\<lambda>u. handleDomainAPIKeyRevoke L E r u (vs ! 0)))]"

definition user_dash_routes :: "lib \<Rightarrow> server_env \<Rightarrow> web_request \<Rightarrow> dash_route list" where
  "user_dash_routes L E r =
    [(''GET'', [Seg ''users''], \<lambda>vs. Guarded (handleUsersPage L E r)),
     (''POST'', [Seg ''users''], \<lambda>vs. Guarded (handleUserCreate L E r)),
     (''GET'', [Seg ''users'', Seg ''import''], \<lambda>vs. Guarded (handleUsersImportPage L E r)),
     (''POST'', [Seg ''users'', Seg ''import''], \<lambda>vs. Guarded (handleUsersImport L E r)),
     (''GET'', [Seg ''users'', Wild], \<lambda>vs. Guarded (\<lambda>u. handleUserPage L E r u (vs ! 0))),
     (''DELETE'', [Seg ''users'', Wild], \<lambda>vs. Guarded (\<lambda>u. handleUserDelete L E r u (vs ! 0))),
     (''POST'', [Seg ''users'', Wild, Seg ''profile''], \<lambda>vs. Guarded (\<lambda>u. handleUserProfile L E r u (vs ! 0))),
     (''POST'', [Seg ''users'', Wild, Seg ''password''], \<lambda>vs. Guarded (\<lambda>u. handleUserPassword L E r u (vs ! 0))),
     (''POST'', [Seg ''users'', Wild, Seg ''quota''], \<lambda>vs. Guarded (\<lambda>u. handleUserQuota L E r u (vs ! 0))),
     (''POST'', [Seg ''users'', Wild, Seg ''status''], \<lambda>vs. Guarded (\<lambda>u. handleUserStatus L E r u (vs ! 0))),
     (''POST'', [Seg ''users'', Wild, Seg ''forward''], \<lambda>vs. Guarded (\<lambda>u. handleUserForward L E r u (vs ! 0))),
     (''DELETE'', [Seg ''users'', Wild, Seg ''forward''], \<lambda>vs. Guarded (\<lambda>u. handleUserForwardClear L E r u (vs ! 0))),
     (''POST'', [Seg ''users'', Wild, Seg ''aliases''], \<lambda>vs. Guarded (\<lambda>u. handleUserAliasAdd L E r u (vs ! 0))),
     (''DELETE'', [Seg ''users'', Wild, Seg ''aliases'', Wild], \<lambda>vs. Guarded (\<lambda>u. handleUserAliasRemove L E r u (vs ! 0) (vs ! 1))),
     (''POST'', [Seg ''users'', Wild, Seg ''groups''], \<lambda>vs. Guarded (\<lambda>u. handleUserGroupAdd L E r u (vs ! 0))),
     (''DELETE'', [Seg ''users'', Wild, Seg ''groups'', Wild], \<lambda>vs. Guarded (\<lambda>u. handleUserGroupRemove L E r u (vs ! 0) (vs ! 1)))]"

definition group_dash_routes :: "lib \<Rightarrow> server_env \<Rightarrow> web_request \<Rightarrow> dash_route list" where
  "group_dash_routes L E r =
    [(''GET'', [Seg ''groups''], \<lambda>vs. Guarded (handleGroupsPage L E r)),
     (''POST'', [Seg ''groups''], \<lambda>vs. Guarded (Web_Groups.handleGroupCreate L E r)),
     (''GET'', [Seg ''groups'', Wild], \<lambda>vs. Guarded (\<lambda>u. handleGroupPage L E r u (vs ! 0))),
     (''POST'', [Seg ''groups'', Wild], \<lambda>vs. Guarded (\<lambda>u. Web_Groups.handleGroupUpdate L E r u (vs ! 0))),
     (''DELETE'', [Seg ''groups'', Wild], \<lambda>vs. Guarded (\<lambda>u. Web_Groups.handleGroupDelete L E r u (vs ! 0))),
     (''POST'', [Seg ''groups'', Wild, Seg ''members''], \<lambda>vs. Guarded (\<lambda>u. handleGroupMembersAdd L E r u (vs ! 0))),
     (''POST'', [Seg ''groups'', Wild, Seg ''members'', Wild, Seg ''role''], \<lambda>vs. Guarded (\<lambda>u. handleGroupMemberRole L E r u (vs ! 0) (vs ! 1))),
     (''DELETE'', [Seg ''groups'', Wild, Seg ''members'', Wild], \<lambda>vs. Guarded (\<lambda>u. handleGroupMemberRemove L E r u (vs ! 0) (vs ! 1))),
     (''GET'', [Seg ''audit''], \<lambda>vs. Guarded (handleAuditPage L E r)),
     (''GET'', [Seg ''aliases''], \<lambda>vs. Guarded (handleAliasesPage L E r)),
     (''POST'', [Seg ''aliases''], \<lambda>vs. Guarded (Web_Groups.handleAliasAdd L E r)),
     (''DELETE'', [Seg ''aliases''], \<lambda>vs. Guarded (Web_Groups.handleAliasDelete L E r))]"

definition server_dash_routes :: "lib \<Rightarrow> server_env \<Rightarrow> web_request \<Rightarrow> dash_route list" where
  "server_dash_routes L E r =
    [(''GET'', [Seg ''dkim''], \<lambda>vs. Guarded (handleDKIMPage L E r)),
     (''GET'', [Seg ''dkim'', Seg ''verify''], \<lambda>vs. Guarded (handleDKIMVerify L E r)),
     (''POST'', [Seg ''dkim'', Seg ''cloudflare-apply''], \<lambda>vs. Guarded (handleDKIMCloudflareApply L E r)),
     (''POST'', [Seg ''dkim'', Seg ''mta-sts-enable''], \<lambda>vs. Guarded (handleDKIMMTASTSEnable L E r)),
     (''POST'', [Seg ''dkim'', Seg ''rotate''], \<lambda>vs. Guarded (Web_Dkim.handleDKIMRotate L E r)),
     (''GET'', [Seg ''queue''], \<lambda>vs. Guarded (handleQueuePage L E r)),
     (''POST'', [Seg ''queue'', Seg ''flush''], \<lambda>vs. Guarded (Web_Ops.handleQueueFlush L E r)),
     (''POST'', [Seg ''queue'', Seg ''delete-deferred''], \<lambda>vs. Guarded (handleQueueDeleteDeferred L E r)),
     (''POST'', [Seg ''queue'', Wild, Wild], \<lambda>vs. Guarded (\<lambda>u. handleQueueAction L E r u (vs ! 0) (vs ! 1))),
     (''GET'', [Seg ''security'', Seg ''bans''], \<lambda>vs. Guarded (handleBansPage L E r)),
     (''POST'', [Seg ''security'', Seg ''bans'', Seg ''unban''], \<lambda>vs. Guarded (handleUnban L E r)),
     (''POST'', [Seg ''security'', Seg ''bans'', Seg ''ban''], \<lambda>vs. Guarded (handleBan L E r)),
     (''POST'', [Seg ''security'', Seg ''allowlist''], \<lambda>vs. Guarded (handleAllowlistAdd L E r)),
     (''DELETE'', [Seg ''security'', Seg ''allowlist''], \<lambda>vs. Guarded (handleAllowlistRemove L E r)),
     (''GET'', [Seg ''services''], \<lambda>vs. Guarded (handleServicesPage L E r)),
     (''POST'', [Seg ''services'', Wild, Wild], \<lambda>vs. Guarded (\<lambda>u. handleServiceAction L E r u (vs ! 0) (vs ! 1))),
     (''GET'', [Seg ''services'', Wild, Seg ''logs''], \<lambda>vs. Guarded (\<lambda>u. handleServiceLogs L r (vs ! 0))),
     (''GET'', [Seg ''logs''], \<lambda>vs. Guarded (handleLogsPage L E r)),
     (''GET'', [Seg ''diagnostics''], \<lambda>vs. Guarded (handleDiagnosticsPage L E)),
     (''GET'', [Seg ''diagnostics'', Seg ''partial''], \<lambda>vs. Guarded (handleDiagnosticsPartial L E))]"

definition account_dash_routes :: "lib \<Rightarrow> server_env \<Rightarrow> web_request \<Rightarrow> dash_route list" where
  "account_dash_routes L E r =
    [(''GET'', [Seg ''tokens''], \<lambda>vs. Guarded (handleTokensPage r)),
     (''POST'', [Seg ''tokens''], \<lambda>vs. Guarded (handleTokenAdd L r)),
     (''DELETE'', [Seg ''tokens'', Wild], \<lambda>vs. Guarded (\<lambda>u. handleTokenDelete L r u (vs ! 0))),
     (''GET'', [Seg ''admins''], \<lambda>vs. Guarded (handleAdminsPage L E r)),
     (''POST'', [Seg ''admins''], \<lambda>vs. Guarded (handleAdminAdd L E r)),
     (''DELETE'', [Seg ''admins'', Wild], \<lambda>vs. Guarded (\<lambda>u. handleAdminDelete L E r u (vs ! 0))),
     (''GET'', [Seg ''settings''], \<lambda>vs. Guarded (handleSettingsPage L E r)),
     (''POST'', [Seg ''settings'', Seg ''password''], \<lambda>vs. Guarded (handleSettingsPassword L E r)),
     (''POST'', [Seg ''settings'', Seg ''cloudflare''], \<lambda>vs. Guarded (\<lambda>u. handleCloudflareConnect L E r)),
     (''DELETE'', [Seg ''settings'', Seg ''cloudflare''], \<lambda>vs. Guarded (handleCloudflareDisconnect L E r)),
     (''POST'', [Seg ''settings'', Seg ''cloudflare'', Seg ''oauth-client''], \<lambda>vs. Guarded (\<lambda>u. handleCloudflareOAuthClientSave L E r)),
     (''GET'', [Seg ''settings'', Seg ''cloudflare'', Seg ''authorize''], \<lambda>vs. Guarded (\<lambda>u. handleCloudflareAuthorize L E r)),
     (''GET'', [Seg ''settings'', Seg ''cloudflare'', Seg ''callback''], \<lambda>vs. Guarded (\<lambda>u. handleCloudflareCallback L E r))]"

definition dash_routes :: "lib \<Rightarrow> server_env \<Rightarrow> web_request \<Rightarrow> dash_route list" where
  "dash_routes L E r = open_routes L E r @ domain_dash_routes L E r @ user_dash_routes L E r @ group_dash_routes L E r @ server_dash_routes L E r @ account_dash_routes L E r"

text \<open>
  The multiplexer on clean paths. Where two patterns take a path, the more specific one stands first. \<open>find_route\<close> also says whether some pattern takes the path with
  another method.
\<close>

definition wanted_method :: "web_request \<Rightarrow> string" where
  "wanted_method r = (if Rq_Method r = ''HEAD'' then ''GET'' else Rq_Method r)"

definition find_route :: "dash_route list \<Rightarrow> web_request \<Rightarrow> access option" where
  "find_route rs r = (case find (\<lambda>(m, p, h). m = wanted_method r \<and> match_path p (Rq_Path r) \<noteq> None) rs of
       None \<Rightarrow> None | Some (m, p, h) \<Rightarrow> Some (h (the (match_path p (Rq_Path r)))))"

definition path_known :: "dash_route list \<Rightarrow> web_request \<Rightarrow> bool" where
  "path_known rs r \<longleftrightarrow> list_ex (\<lambda>(m, p, h). match_path p (Rq_Path r) \<noteq> None) rs"

definition not_allowed :: "view response" where
  "not_allowed = http_error 405 ''Method Not Allowed''"

definition run_access :: "lib \<Rightarrow> web_request \<Rightarrow> access \<Rightarrow> view page" where
  "run_access L r a = (case a of Open h \<Rightarrow> h | Guarded h \<Rightarrow> requireAuth L r h)"

definition dash_pages :: "lib \<Rightarrow> server_env \<Rightarrow> web_request \<Rightarrow> view page" where
  "dash_pages L E r = (case find_route (dash_routes L E r) r of
       Some a \<Rightarrow> run_access L r a
     | None \<Rightarrow> Return (if path_known (dash_routes L E r) r then not_allowed else NotFound))"

text \<open>The embedded files and the mounted public API are trees of paths.\<close>

definition static_files :: "server_env \<Rightarrow> web_request \<Rightarrow> view page" where
  "static_files E r =
     (if wanted_method r \<noteq> ''GET'' then Return not_allowed
      else (case Rq_Path r of
          _ # [] \<Rightarrow> Return (redirect 301 ''/static/'')
        | _ # segs \<Rightarrow> (case se_static E (Join segs ''/'') of (s, text) \<Rightarrow> Return (http_error s text))
        | [] \<Rightarrow> Return NotFound))"

definition mounted_api :: "lib \<Rightarrow> server_env \<Rightarrow> web_request \<Rightarrow> view page" where
  "mounted_api L E r =
     (if length (Rq_Path r) = 1 then Return (redirect 301 ''/api/'')
      else andThen (ServeHTTP L (de_json E) (http_request.truncate r)) (\<lambda>rep. Return (respond (status rep) (Api rep))))"

definition mux :: "lib \<Rightarrow> server_env \<Rightarrow> web_request \<Rightarrow> view page" where
  "mux L E r =
     (if Rq_Path r \<noteq> [] \<and> hd (Rq_Path r) = ''api'' then mounted_api L E r
      else if Rq_Path r \<noteq> [] \<and> hd (Rq_Path r) = ''static'' then static_files E r
      else dash_pages L E r)"

definition serve_dashboard :: "lib \<Rightarrow> server_env \<Rightarrow> web_request \<Rightarrow> view page" where
  "serve_dashboard L E r = secure L E r (mux L E r)"

text \<open>\<open>computeAssetVersion\<close> of package \<open>web\<close>: the embedded files with their paths go into one digest, in the order of the paths; ten hexadecimal digits of it are kept.\<close>

definition computeAssetVersion :: "lib \<Rightarrow> (string \<times> string) list \<Rightarrow> string" where
  "computeAssetVersion L files = take 10 (hex_encode (sha256 L (concat (map (\<lambda>(name, contents). name @ contents) (sort_key fst files)))))"

section \<open>The certificate\<close>

text \<open>
  \<open>certReloader\<close>: \<open>stat\<close> is the modification time of the file of the certificate, \<open>load\<close> what \<open>tls.LoadX509KeyPair\<close> makes of the two files. The state is the
  certificate that was loaded last and the time its file then had.
\<close>

definition or_cached :: "('c \<times> int) option \<Rightarrow> error \<Rightarrow> error + 'c" where
  "or_cached cache e = (case cache of None \<Rightarrow> Inl e | Some (c, t) \<Rightarrow> Inr c)"

definition load_certificate :: "int \<Rightarrow> error + 'c \<Rightarrow> ('c \<times> int) option \<Rightarrow> (error + 'c) \<times> ('c \<times> int) option" where
  "load_certificate mtime load cache = (case load of Inl e \<Rightarrow> (or_cached cache e, cache) | Inr c \<Rightarrow> (Inr c, Some (c, mtime)))"

definition reload_certificate :: "error + int \<Rightarrow> error + 'c \<Rightarrow> ('c \<times> int) option \<Rightarrow> (error + 'c) \<times> ('c \<times> int) option" where
  "reload_certificate stat load cache = (case stat of
       Inl e \<Rightarrow> (or_cached cache e, cache)
     | Inr mtime \<Rightarrow> (case cache of
           None \<Rightarrow> load_certificate mtime load cache
         | Some (c, t) \<Rightarrow> if mtime > t then load_certificate mtime load cache else (Inr c, cache)))"

end
