(* ===== verification/Publicapi_Isolation.thy ===== *)
theory Publicapi_Isolation
  imports Publicapi Store_Invariant
begin

text \<open>
  What a domain's API key can reach. \<open>isolated L D b w\<close> says that \<open>w\<close> differs from \<open>b\<close> only where the domain \<open>D\<close> is concerned, in the tables and in the
  file system; every handler of the public API keeps it for the domain of the key the request presents.
\<close>

section \<open>Inside and outside a domain\<close>

text \<open>An address SQL cannot tell from one of the domain.\<close>

definition inside :: "lib \<Rightarrow> string \<Rightarrow> string \<Rightarrow> bool" where
  "inside L D a \<longleftrightarrow> (\<exists>l. ck L a = ck L (l @ ''@'' @ D))"

text \<open>The groups of other domains, and the memberships in them of addresses of other domains.\<close>

definition other_groups :: "lib \<Rightarrow> string \<Rightarrow> world \<Rightarrow> nat set" where
  "other_groups L D w = g_id ` set (filter (\<lambda>g. \<not> inside L D (g_email g)) (mail_groups w))"

definition other_member :: "lib \<Rightarrow> string \<Rightarrow> nat set \<Rightarrow> member_row \<Rightarrow> bool" where
  "other_member L D gs m \<longleftrightarrow> \<not> inside L D (m_member m) \<and> m_group_id m \<in> gs"

definition same_key_rows :: "world \<Rightarrow> world \<Rightarrow> bool" where
  "same_key_rows b w \<longleftrightarrow> map (\<lambda>k. k\<lparr>k_last_used_at := None\<rparr>) (domain_api_keys w) = map (\<lambda>k. k\<lparr>k_last_used_at := None\<rparr>) (domain_api_keys b)"

text \<open>
  Outside \<open>D\<close> nothing is different: not the domains, the accounts, the tokens, the Cloudflare settings and the keys (but for the time of their last use), not the mailboxes, aliases,
  groups and forwards of other addresses, not the memberships of other addresses in groups of other domains, and the log has only grown.
\<close>

definition tables_isolated :: "lib \<Rightarrow> string \<Rightarrow> world \<Rightarrow> world \<Rightarrow> bool" where
  "tables_isolated L D b w \<longleftrightarrow> virtual_domains w = virtual_domains b \<and> api_tokens w = api_tokens b \<and> admin_users w = admin_users b
     \<and> admin_sessions w = admin_sessions b \<and> cloudflare_settings w = cloudflare_settings b \<and> same_key_rows b w \<and> prefix (audit_log b) (audit_log w)
     \<and> filter (\<lambda>u. \<not> inside L D (u_email u)) (virtual_users w) = filter (\<lambda>u. \<not> inside L D (u_email u)) (virtual_users b)
     \<and> filter (\<lambda>a. \<not> inside L D (a_source a)) (virtual_aliases w) = filter (\<lambda>a. \<not> inside L D (a_source a)) (virtual_aliases b)
     \<and> filter (\<lambda>g. \<not> inside L D (g_email g)) (mail_groups w) = filter (\<lambda>g. \<not> inside L D (g_email g)) (mail_groups b)
     \<and> filter (\<lambda>f. \<not> inside L D (f_email f)) (mailbox_forwards w) = filter (\<lambda>f. \<not> inside L D (f_email f)) (mailbox_forwards b)
     \<and> filter (other_member L D (other_groups L D b)) (mail_group_members w)
         = filter (other_member L D (other_groups L D b)) (mail_group_members b)"

text \<open>
  No command is run and no request sent, and the only files and directories that are different lie in the directory of the mail of \<open>D\<close>. Of the directories above it
  one that was missing may have been made, as \<open>os.MkdirAll\<close> does.
\<close>

definition domain_dir :: "string \<Rightarrow> string" where
  "domain_dir D = VmailHome @ ''/'' @ D"

definition same_outside :: "string \<Rightarrow> world \<Rightarrow> world \<Rightarrow> bool" where
  "same_outside D b w \<longleftrightarrow> outbound w = outbound b
     \<and> (\<forall>p. \<not> below (domain_dir D) p \<longrightarrow> fs w p = fs b p \<or> (p \<in> set (ancestors VmailHome) \<and> fs b p = None \<and> fs w p = Some (Dir 0)))"

definition isolated :: "lib \<Rightarrow> string \<Rightarrow> world \<Rightarrow> world \<Rightarrow> bool" where
  "isolated L D b w \<longleftrightarrow> tables_isolated L D b w \<and> same_outside D b w"

lemma isolated_refl [simp]: "tables_isolated L D b b"
  by (simp add: tables_isolated_def same_key_rows_def)

lemma isolated_frame [simp]:
  "tables_isolated L D b (tick w) = tables_isolated L D b w" "tables_isolated L D b (w\<lparr>fs := f\<rparr>) = tables_isolated L D b w"
  "tables_isolated L D b (w\<lparr>entropy := e\<rparr>) = tables_isolated L D b w" "tables_isolated L D b (w\<lparr>outbound := cs\<rparr>) = tables_isolated L D b w"
  by (simp_all add: tables_isolated_def same_key_rows_def)

interpretation isolated_frame: frame_invariant "tables_isolated L D b" for L D b
  by standard simp_all

lemmas isolated_ops [keeps_ops] = isolated_frame.frame_ops

lemma isolated_groups: "tables_isolated L D b w \<Longrightarrow> other_groups L D w = other_groups L D b"
  by (simp add: tables_isolated_def other_groups_def)

text \<open>What the statements on a table do to the rows outside.\<close>

lemma filter_delete_rows: "(\<And>r. P r \<Longrightarrow> \<not> Q r) \<Longrightarrow> filter Q (delete_rows P t) = filter Q t"
  by (auto simp: delete_rows_def intro: filter_cong)

lemma filter_update_rows:
  "(\<And>r. r \<in> set t \<Longrightarrow> P r \<Longrightarrow> \<not> Q r \<and> \<not> Q (f r)) \<Longrightarrow> filter Q (update_rows P f t) = filter Q t"
  by (induction t) (auto simp: update_rows_def)

lemma filter_upsert_row:
  assumes "\<not> Q r" and "\<And>x. key x = key r \<Longrightarrow> \<not> Q x \<and> \<not> Q (f x)"
  shows "filter Q (upsert_row key r f t) = filter Q t"
proof (cases "key r \<in> key ` set t")
  case True
  then show ?thesis using assms(2) by (simp add: upsert_row_old filter_update_rows)
qed (simp add: upsert_row_new assms(1))

lemma filter_insert_row: "insert_row key r t = Inr t' \<Longrightarrow> \<not> Q r \<Longrightarrow> filter Q t' = filter Q t"
  by (auto simp: insert_row_def split: if_splits)

lemma iso_Exec:
  "(\<And>w n w'. tables_isolated L D b w \<Longrightarrow> q w = Inr (n, w') \<Longrightarrow> tables_isolated L D b w') \<Longrightarrow> keeps (tables_isolated L D b) (Exec q)"
  by (rule keeps_Exec) auto

section \<open>Statements that stay inside\<close>

text \<open>A table is replaced by one with the same rows outside.\<close>

lemma isolated_users:
  "tables_isolated L D b w \<Longrightarrow> filter (\<lambda>u. \<not> inside L D (u_email u)) t = filter (\<lambda>u. \<not> inside L D (u_email u)) (virtual_users w)
   \<Longrightarrow> tables_isolated L D b (w\<lparr>virtual_users := t\<rparr>)"
  by (simp add: tables_isolated_def same_key_rows_def)

lemma isolated_aliases:
  "tables_isolated L D b w \<Longrightarrow> filter (\<lambda>a. \<not> inside L D (a_source a)) t = filter (\<lambda>a. \<not> inside L D (a_source a)) (virtual_aliases w)
   \<Longrightarrow> tables_isolated L D b (w\<lparr>virtual_aliases := t\<rparr>)"
  by (simp add: tables_isolated_def same_key_rows_def)

lemma isolated_mail_groups:
  "tables_isolated L D b w \<Longrightarrow> filter (\<lambda>g. \<not> inside L D (g_email g)) t = filter (\<lambda>g. \<not> inside L D (g_email g)) (mail_groups w)
   \<Longrightarrow> tables_isolated L D b (w\<lparr>mail_groups := t\<rparr>)"
  by (simp add: tables_isolated_def same_key_rows_def)

lemma isolated_members:
  "tables_isolated L D b w \<Longrightarrow> filter (other_member L D (other_groups L D b)) t = filter (other_member L D (other_groups L D b)) (mail_group_members w)
   \<Longrightarrow> tables_isolated L D b (w\<lparr>mail_group_members := t\<rparr>)"
  by (simp add: tables_isolated_def same_key_rows_def)

lemma isolated_forwards:
  "tables_isolated L D b w \<Longrightarrow> filter (\<lambda>f. \<not> inside L D (f_email f)) t = filter (\<lambda>f. \<not> inside L D (f_email f)) (mailbox_forwards w)
   \<Longrightarrow> tables_isolated L D b (w\<lparr>mailbox_forwards := t\<rparr>)"
  by (simp add: tables_isolated_def same_key_rows_def)

lemma isolated_next_id [simp]: "tables_isolated L D b (w\<lparr>next_id := i\<rparr>) = tables_isolated L D b w"
  by (simp add: tables_isolated_def same_key_rows_def)

lemmas isolated_tables = isolated_users isolated_aliases isolated_mail_groups isolated_members isolated_forwards

lemma inside_eq: "inside L D a \<Longrightarrow> ck L x = ck L a \<Longrightarrow> inside L D x"
  by (simp add: inside_def)

lemma iso_ins_user: "tables_isolated L D b w \<Longrightarrow> inside L D (u_email u) \<Longrightarrow> ins_user L u w = Inr (n, w') \<Longrightarrow> tables_isolated L D b w'"
  by (auto simp: ins_user_def filter_insert_row split: sum.splits if_splits intro!: isolated_tables)

lemma iso_upd_user:
  assumes "tables_isolated L D b w" and "inside L D e" and "upd_user L e f w = Inr (n, w')" and "\<And>u. u_email (f u) = u_email u"
  shows "tables_isolated L D b w'"
proof -
  have "w' = w\<lparr>virtual_users := update_rows (\<lambda>u. ukey L u = ck L e) f (virtual_users w)\<rparr>"
    using assms(3) by (simp add: upd_user_def Let_def)
  with assms(1) show ?thesis
    using inside_eq [OF assms(2)] by (auto intro!: isolated_tables filter_update_rows simp: ukey_def assms(4))
qed

lemma iso_del_user:
  assumes "tables_isolated L D b w" and "inside L D e" and "del_user L e w = Inr (n, w')"
  shows "tables_isolated L D b w'"
proof -
  have "filter (\<lambda>f. \<not> inside L D (f_email f)) (delete_rows (\<lambda>f. \<exists>u\<in>set us. ukey L u = ck L e \<and> ukey L u = fkey L f) t)
      = filter (\<lambda>f. \<not> inside L D (f_email f)) t" for us t
    by (rule filter_delete_rows) (use inside_eq [OF assms(2)] in \<open>auto simp: fkey_def\<close>)
  moreover have "filter (\<lambda>u. \<not> inside L D (u_email u)) (delete_rows (\<lambda>u. ukey L u = ck L e) t) = filter (\<lambda>u. \<not> inside L D (u_email u)) t" for t
    by (rule filter_delete_rows) (use inside_eq [OF assms(2)] in \<open>auto simp: ukey_def\<close>)
  ultimately show ?thesis
    using assms(1,3) by (auto simp: del_user_def drop_users_def Let_def intro!: isolated_tables)
qed

lemma iso_ins_alias:
  "tables_isolated L D b w \<Longrightarrow> inside L D (a_source a) \<Longrightarrow> ins_alias_ignore L a w = Inr (n, w') \<Longrightarrow> tables_isolated L D b w'"
  by (auto simp: ins_alias_ignore_def ins_alias_def filter_insert_row split: sum.splits if_splits intro!: isolated_tables)

lemma iso_del_aliases:
  "tables_isolated L D b w \<Longrightarrow> (\<And>a. P a \<Longrightarrow> inside L D (a_source a)) \<Longrightarrow> del_aliases P w = Inr (n, w') \<Longrightarrow> tables_isolated L D b w'"
  by (auto simp: del_aliases_def intro!: isolated_tables filter_delete_rows)

lemma iso_ins_group:
  "tables_isolated L D b w \<Longrightarrow> inside L D (g_email g) \<Longrightarrow> ins_group L g w = Inr (n, w') \<Longrightarrow> tables_isolated L D b w'"
  by (auto simp: ins_group_def filter_insert_row split: sum.splits if_splits intro!: isolated_tables)

lemma iso_upd_group:
  assumes iso: "tables_isolated L D b w" and own: "i \<notin> other_groups L D b" and up: "upd_group i f w = Inr (n, w')"
    and f: "\<And>g. g_email (f g) = g_email g"
  shows "tables_isolated L D b w'"
proof -
  have "inside L D (g_email g)" if "g \<in> set (mail_groups w)" "g_id g = i" for g
    using own isolated_groups [OF iso] that by (auto simp: other_groups_def)
  with iso up show ?thesis by (auto simp: upd_group_def Let_def f intro!: isolated_tables filter_update_rows)
qed

lemma iso_del_group:
  assumes iso: "tables_isolated L D b w" and ids: "keyed g_id (mail_groups w)" and e: "inside L D e" and del: "del_group L e w = Inr (n, w')"
  shows "tables_isolated L D b w'"
proof -
  let ?P = "\<lambda>g. gkey L g = ck L e"
  have in_P: "inside L D (g_email g)" if "?P g" for g using inside_eq [OF e] that by (simp add: gkey_def)
  have "\<not> other_member L D (other_groups L D b) m" if "\<exists>g\<in>set (mail_groups w). ?P g \<and> g_id g = m_group_id m" for m
  proof -
    from that obtain g where g: "g \<in> set (mail_groups w)" "?P g" "g_id g = m_group_id m" by auto
    have "m_group_id m \<notin> other_groups L D w"
      using g(1,3) in_P [OF g(2)] ids by (auto simp: other_groups_def keyed_def distinct_map inj_on_def)
    then show ?thesis by (simp add: other_member_def isolated_groups [OF iso])
  qed
  then have "filter (other_member L D (other_groups L D b)) (delete_rows (\<lambda>m. \<exists>g\<in>set (mail_groups w). ?P g \<and> g_id g = m_group_id m) (mail_group_members w))
      = filter (other_member L D (other_groups L D b)) (mail_group_members w)"
    by (rule filter_delete_rows)
  moreover have "filter (\<lambda>g. \<not> inside L D (g_email g)) (delete_rows ?P t) = filter (\<lambda>g. \<not> inside L D (g_email g)) t" for t
    by (rule filter_delete_rows) (use in_P in auto)
  ultimately show ?thesis
    using iso del by (auto simp: del_group_def drop_groups_def Let_def intro!: isolated_tables)
qed

lemma iso_del_members:
  "tables_isolated L D b w \<Longrightarrow> (\<And>m. P m \<Longrightarrow> \<not> other_member L D (other_groups L D b) m) \<Longrightarrow> del_members P w = Inr (n, w') \<Longrightarrow> tables_isolated L D b w'"
  by (auto simp: del_members_def intro!: isolated_tables filter_delete_rows)

lemma iso_upsert_member:
  "tables_isolated L D b w \<Longrightarrow> m_group_id m \<notin> other_groups L D b \<Longrightarrow> upsert_member L m w = Inr (n, w') \<Longrightarrow> tables_isolated L D b w'"
  by (auto simp: upsert_member_def other_member_def mkey_def split: if_splits intro!: isolated_tables filter_upsert_row)

lemma iso_upsert_forward:
  "tables_isolated L D b w \<Longrightarrow> inside L D (f_email f) \<Longrightarrow> upsert_forward L f w = Inr (n, w') \<Longrightarrow> tables_isolated L D b w'"
  by (auto simp: upsert_forward_def fkey_def inside_eq split: if_splits intro!: isolated_tables filter_upsert_row)

lemma iso_del_forward: "tables_isolated L D b w \<Longrightarrow> inside L D e \<Longrightarrow> del_forward L e w = Inr (n, w') \<Longrightarrow> tables_isolated L D b w'"
  by (auto simp: del_forward_def Let_def fkey_def inside_eq intro!: isolated_tables filter_delete_rows)

section \<open>Operations that stay inside\<close>

lemma iso_MailboxCreate: "inside L D e \<Longrightarrow> keeps (tables_isolated L D b) (MailboxCreate L e p n q)"
  unfolding MailboxCreate_def by (intro keeps_ops iso_Exec) (erule iso_ins_user [rotated 2], simp_all add: new_user_def)

lemma iso_MailboxRemove:
  assumes "inside L D e"
  shows "keeps (tables_isolated L D b) (MailboxRemove L e)"
proof -
  have "\<not> other_member L D gs m" if "ck L (m_member m) = ck L e" for gs m
    using inside_eq [OF assms that] by (simp add: other_member_def)
  then show ?thesis
    unfolding MailboxRemove_def by (intro keeps_ops iso_Exec) (erule iso_del_user [OF _ assms] iso_del_members, assumption?)+
qed

lemma iso_MailboxPasswd: "inside L D e \<Longrightarrow> keeps (tables_isolated L D b) (MailboxPasswd L e p)"
  unfolding MailboxPasswd_def by (intro keeps_ops iso_Exec) (erule iso_upd_user, assumption+, simp)

lemma iso_updateMailbox:
  "inside L D e \<Longrightarrow> (\<And>u. u_email (f u) = u_email u) \<Longrightarrow> keeps (tables_isolated L D b) (updateMailbox L e f)"
  unfolding updateMailbox_def by (intro keeps_ops iso_Exec) (erule iso_upd_user, assumption+)

lemma iso_MailboxSet:
  assumes "inside L D e"
  shows "keeps (tables_isolated L D b) (MailboxSetQuota L e q)" "keeps (tables_isolated L D b) (MailboxSetName L e n)"
    "keeps (tables_isolated L D b) (MailboxSetEnabled L e en)"
  unfolding MailboxSetQuota_def MailboxSetName_def MailboxSetEnabled_def
  by (intro keeps_ops iso_updateMailbox assms; simp)+

lemma iso_AliasAdd: "inside L D s \<Longrightarrow> keeps (tables_isolated L D b) (AliasAdd L s t)"
  unfolding AliasAdd_def by (intro keeps_ops iso_Exec keeps_wrap) (erule iso_ins_alias [rotated 2], simp_all)

lemma iso_AliasRemove:
  assumes "inside L D s"
  shows "keeps (tables_isolated L D b) (AliasRemove L s t)"
  unfolding AliasRemove_def
  by (intro keeps_ops iso_Exec) (erule iso_del_aliases [rotated 2], auto simp: akey_def intro: inside_eq [OF assms])

lemma iso_ForwardSet: "inside L D e \<Longrightarrow> keeps (tables_isolated L D b) (ForwardSet L e d k)"
  unfolding ForwardSet_def by (intro keeps_ops iso_Exec) (erule iso_upsert_forward [rotated 2], simp_all)

lemma iso_ForwardClear: "inside L D e \<Longrightarrow> keeps (tables_isolated L D b) (ForwardClear L e)"
  unfolding ForwardClear_def by (intro keeps_ops iso_Exec) (erule iso_del_forward)

lemma iso_reads [keeps_ops]:
  "keeps (tables_isolated L D b) (GroupGet K e)" "keeps (tables_isolated L D b) (GroupMembers K e)" "keeps (tables_isolated L D b) (hostedDomains K)"
  "keeps (tables_isolated L D b) (MailboxList K d)" "keeps (tables_isolated L D b) (AliasList K d)" "keeps (tables_isolated L D b) (GroupList K d q)"
  unfolding GroupGet_def GroupMembers_def hostedDomains_def DomainList_def MailboxList_def AliasList_def GroupList_def
  by (intro keeps_ops)+

lemma same_key_used [simp]: "same_key_rows b (w\<lparr>domain_api_keys := update_rows P (\<lambda>k. k\<lparr>k_last_used_at := t\<rparr>) (domain_api_keys w)\<rparr>) = same_key_rows b w"
proof -
  have "map (\<lambda>k. k\<lparr>k_last_used_at := None\<rparr>) (update_rows P (\<lambda>k. k\<lparr>k_last_used_at := t\<rparr>) ks) = map (\<lambda>k. k\<lparr>k_last_used_at := None\<rparr>) ks" for ks
    by (rule map_update_rows) simp
  then show ?thesis by (simp add: same_key_rows_def)
qed

lemma iso_KeyVerify [keeps_ops]: "keeps (tables_isolated L D b) (KeyVerify L p)"
  unfolding KeyVerify_def by (intro keeps_ops iso_Exec) (auto simp: use_key_def Let_def tables_isolated_def)

lemma iso_AuditRecord [keeps_ops]: "keeps (tables_isolated L D b) (AuditRecord a1 a2 a3 a4 a5)"
  unfolding AuditRecord_def
  by (intro keeps_ops iso_Exec) (auto simp: ins_audit_def tables_isolated_def same_key_rows_def)

lemma ok_AuditRecord [keeps_ops]: "keeps (store_ok L) (AuditRecord a1 a2 a3 a4 a5)"
proof -
  have "in_domain L i e (w\<lparr>audit_log := t, next_id := n\<rparr>) = in_domain L i e w" for i e w t n
    by (simp add: in_domain_def)
  then have "store_ok L w \<Longrightarrow> store_ok L (w\<lparr>audit_log := t, next_id := Suc (next_id w)\<rparr>)" for w t
    by (auto simp: store_defs domain_ids_def group_ids_def less_SucI)
  then show ?thesis
    unfolding AuditRecord_def by (intro keeps_ops ok_Exec) (auto simp: ins_audit_def)
qed

section \<open>Operations on groups\<close>

text \<open>For these the identifiers of groups have to be unique, so both predicates are kept together.\<close>

definition confined :: "lib \<Rightarrow> string \<Rightarrow> world \<Rightarrow> world \<Rightarrow> bool" where
  "confined L D b w \<longleftrightarrow> store_ok L w \<and> tables_isolated L D b w"

interpretation confined_frame: frame_invariant "confined L D b" for L D b
  by standard (simp_all add: confined_def)

lemmas confined_ops [keeps_ops] = confined_frame.frame_ops

lemma confined_both: "keeps (store_ok L) m \<Longrightarrow> keeps (tables_isolated L D b) m \<Longrightarrow> keeps (confined L D b) m"
  using keeps_conj [of "store_ok L" m "tables_isolated L D b"] by (simp add: confined_def [abs_def])

lemma confined_via:
  assumes "keeps (store_ok L) m" and "\<And>w. confined L D b w \<Longrightarrow> after m (\<lambda>_. tables_isolated L D b) w"
  shows "keeps (confined L D b) m"
proof (rule keepsI)
  fix w assume w: "confined L D b w"
  show "after m (\<lambda>_. confined L D b) w"
    using keepsD [OF assms(1), of w] assms(2) [OF w] w by (auto simp: after_def confined_def split: prod.splits)
qed

lemma own_group_seq:
  assumes w: "confined L D b w" and e: "inside L D (ToLower (uni L) e)"
    and rest: "\<And>g. G_ID g \<notin> other_groups L D b \<Longrightarrow> keeps (tables_isolated L D b) (f g)"
  shows "after (andThen (GroupGet L e) f) (\<lambda>_. tables_isolated L D b) w"
proof (rule after_seq [where P = "\<lambda>r w'. tables_isolated L D b w' \<and> (case r of Inl x \<Rightarrow> True | Inr g \<Rightarrow> G_ID g \<notin> other_groups L D b)"])
  have iso: "tables_isolated L D b w" and ids: "keyed g_id (mail_groups w)"
    using w by (simp_all add: confined_def store_ok_def unique_ok_def)
  have "g_id g \<notin> other_groups L D b" if "row_at (gkey L) (ck L (ToLower (uni L) e)) (mail_groups w) = Some g" for g
  proof -
    have g: "g \<in> set (mail_groups w)" "inside L D (g_email g)"
      using row_at_Some [OF that] inside_eq [OF e] by (auto simp: gkey_def)
    then have "g_id g \<notin> other_groups L D w"
      using ids by (auto simp: other_groups_def keyed_def distinct_map inj_on_def)
    then show ?thesis by (simp add: isolated_groups [OF iso])
  qed
  then show "after (GroupGet L e) (\<lambda>r w'. tables_isolated L D b w' \<and> (case r of Inl x \<Rightarrow> True | Inr g \<Rightarrow> G_ID g \<notin> other_groups L D b)) w"
    using iso by (auto simp: GroupGet_def wp scan_group_def split: option.splits)
  fix g :: group_info and w1 assume "tables_isolated L D b w1 \<and> (case Inr g of Inl x \<Rightarrow> True | Inr g \<Rightarrow> G_ID g \<notin> other_groups L D b)"
  then show "after (f g) (\<lambda>_. tables_isolated L D b) w1" using keepsD [OF rest] by auto
qed auto

lemma confined_GroupUpdate:
  assumes "inside L D (ToLower (uni L) e)"
  shows "keeps (confined L D b) (GroupUpdate L e s)"
proof (rule confined_via [OF ok_GroupUpdate])
  fix w assume w: "confined L D b w"
  show "after (GroupUpdate L e s) (\<lambda>_. tables_isolated L D b) w"
  proof (cases "validate_settings L s")
    case (Inr u)
    then show ?thesis
      unfolding GroupUpdate_def Inr andThen_Lift
      by (intro own_group_seq [OF w assms] keeps_ops iso_Exec) (erule iso_upd_group, assumption+, simp)
  qed (use w in \<open>simp add: GroupUpdate_def andThen_Lift wp confined_def\<close>)
qed

lemma iso_add_members: "G_ID g \<notin> other_groups L D b \<Longrightarrow> keeps (tables_isolated L D b) (add_members L g h r as)"
proof (induction as)
  case (Cons a as)
  have "keeps (tables_isolated L D b) (check_member L g h x)" for x
    unfolding check_member_def AddressKind_def by (intro keeps_ops)
  with Cons show ?case
    unfolding add_members.simps by (intro keeps_ops iso_Exec) (erule iso_upsert_member [rotated 2] | assumption | simp)+
qed (simp add: keeps_Return)

lemma confined_GroupAddMembers:
  assumes "inside L D (ToLower (uni L) e)"
  shows "keeps (confined L D b) (GroupAddMembers L e as r)"
proof (rule confined_via [OF ok_GroupAddMembers])
  fix w assume w: "confined L D b w"
  have "after (andThen (GroupGet L e) (\<lambda>g. andThen (hostedDomains L) (\<lambda>h. add_members L g h r as))) (\<lambda>_. tables_isolated L D b) w"
    by (intro own_group_seq [OF w assms] keeps_ops iso_add_members)
  with w show "after (GroupAddMembers L e as r) (\<lambda>_. tables_isolated L D b) w"
    by (auto simp: GroupAddMembers_def wp(2) confined_def)
qed

lemma confined_GroupRemoveMember:
  assumes "inside L D (ToLower (uni L) e)"
  shows "keeps (confined L D b) (GroupRemoveMember L e m)"
proof (rule confined_via [OF ok_GroupRemoveMember])
  fix w assume w: "confined L D b w"
  show "after (GroupRemoveMember L e m) (\<lambda>_. tables_isolated L D b) w"
    unfolding GroupRemoveMember_def
    by (intro own_group_seq [OF w assms] keeps_ops iso_Exec)
       (erule iso_del_members, auto simp: is_member_def mkey_def other_member_def)
qed

lemma confined_GroupDelete:
  assumes "inside L D (ToLower (uni L) e)"
  shows "keeps (confined L D b) (GroupDelete L e)"
proof (rule confined_via [OF ok_GroupDelete])
  fix w assume w: "confined L D b w"
  have del: "after (Exec (del_group L (ToLower (uni L) e))) (\<lambda>_. tables_isolated L D b) w"
  proof -
    have "tables_isolated L D b w'" if "del_group L (ToLower (uni L) e) (tick w) = Inr (n, w')" for n w'
      by (rule iso_del_group [OF _ _ assms that]) (use w in \<open>simp_all add: confined_def store_ok_def unique_ok_def\<close>)
    with w show ?thesis by (auto simp: wp confined_def split: sum.split)
  qed
  have "\<not> other_member L D gs m" if "ck L (m_member m) = ck L (ToLower (uni L) e)" for gs m
    using inside_eq [OF assms that] by (simp add: other_member_def)
  then have "keeps (tables_isolated L D b) (if n = 0 then Raise (group_not_found L e)
      else andThen (Exec (del_members (\<lambda>m. ck L (m_member m) = ck L (ToLower (uni L) e)))) (\<lambda>_. Return ()))" for n :: nat
    by (intro keeps_ops iso_Exec) (erule iso_del_members, assumption?)+
  from keepsD [OF this] show "after (GroupDelete L e) (\<lambda>_. tables_isolated L D b) w"
    unfolding GroupDelete_def by (intro after_seq [OF del])
qed

lemma iso_GroupCreate:
  assumes "inside L D (ToLower (uni L) (TrimSpace e))"
  shows "keeps (tables_isolated L D b) (GroupCreate L e s)"
  unfolding GroupCreate_def by (intro keeps_ops iso_Exec) (erule iso_ins_group [rotated 2], simp_all add: assms)

section \<open>The addresses a request can name\<close>

lemma usernameRe_plain: "matches usernameRe s \<Longrightarrow> (\<forall>c\<in>set s. plain_byte c) \<and> s \<noteq> []"
proof -
  have "class_over plain_byte lower_alnum" "class_over plain_byte (lower_alnum @ [(CHR ''.'', CHR ''.''), (CHR ''_'', CHR ''_''), (CHR ''-'', CHR ''-'')])"
    by (auto simp: class_over_def in_class_def lower_alnum_def plain_byte_def is_ascii_def is_space_def)
  then show "matches usernameRe s \<Longrightarrow> (\<forall>c\<in>set s. plain_byte c) \<and> s \<noteq> []"
    using matches_over [of usernameRe s plain_byte] by (auto simp: usernameRe_def Opt_def matches_Seq)
qed

lemma plain_ascii: "\<forall>c\<in>set s. plain_byte c \<Longrightarrow> list_all is_ascii s \<and> (\<forall>c\<in>set s. is_ascii c \<and> \<not> is_space c)"
  by (auto simp: plain_byte_def list_all_iff)

lemma ValidateDomain_plain: "ValidateDomain D = Inr () \<Longrightarrow> \<forall>c\<in>set D. plain_byte c"
  using domainRe_plain by (auto simp: ValidateDomain_def MatchString_iff split: if_splits)

lemma plain_printable: "plain_byte c \<Longrightarrow> printable c"
  by (simp add: plain_byte_def printable_def)

lemma address_inside:
  assumes "address L D u = Some e" and "ValidateDomain D = Inr ()"
  shows "inside L D e" and "list_all printable e" and "TrimSpace e = e"
proof -
  obtain n where e: "e = n @ ''@'' @ D" and "matches usernameRe n"
    using assms(1) by (auto simp: address_def Let_def MatchString_iff split: if_splits)
  then have n: "\<forall>c\<in>set n. plain_byte c" using usernameRe_plain by blast
  show "inside L D e" by (auto simp: inside_def e)
  have "\<forall>c\<in>set e. is_ascii c \<and> \<not> is_space c"
    using plain_ascii [OF n] plain_ascii [OF ValidateDomain_plain [OF assms(2)]] by (auto simp: e is_ascii_def is_space_def)
  then show "TrimSpace e = e" by (auto simp: list_all_iff intro: TrimSpace_no_space)
  have "printable (CHR ''@'')" by (simp add: printable_def)
  with n ValidateDomain_plain [OF assms(2)] show "list_all printable e"
    by (auto simp: e list_all_iff plain_printable)
qed

lemma inside_ToLower:
  assumes "collation_ok L" and "list_all printable e" and "inside L D e"
  shows "inside L D (ToLower (uni L) e)"
proof -
  have ascii: "list_all is_ascii e" using assms(2) by (auto simp: list_all_iff printable_ascii)
  then have "list_all printable (ToLower (uni L) e)" using assms(2) by (auto simp: ToLower_ascii list_all_iff)
  moreover have "ascii_key (ToLower (uni L) e) = ascii_key e"
  proof -
    have "TrimRight (map lower_byte s) '' '' = map lower_byte (TrimRight s '' '')" for s
    proof -
      have "lower_byte c = CHR '' '' \<longleftrightarrow> c = CHR '' ''" for c
        by (rule lower_byte_eq_other) (simp_all add: is_upper_def is_lower_def)
      then show ?thesis by (simp add: TrimRight_def rev_map dropWhile_map comp_def)
    qed
    with ascii show ?thesis by (simp add: ascii_key_def ToLower_ascii comp_def)
  qed
  ultimately have "sql_eq L (ToLower (uni L) e) e" using assms(1,2) by (simp add: collation_ok_def)
  then show ?thesis using inside_eq [OF assms(3)] by (simp add: sql_eq_def)
qed

section \<open>Files outside a domain\<close>

lemmas handler_defs = handleMailboxList_def handleMailboxCreate_def handleMailboxGet_def handleMailboxDelete_def handleMailboxPassword_def
  handleMailboxName_def handleMailboxQuota_def handleMailboxStatus_def handleAliasList_def handleAliasCreate_def handleAliasDelete_def
  handleGroupList_def handleGroupCreate_def handleGroupGet_def handleGroupUpdate_def handleGroupDelete_def handleGroupAddMembers_def
  handleGroupRemoveMember_def handleForwardSet_def handleForwardClear_def

text \<open>A predicate that looks at the files and the commands only: every operation that writes no file and runs no command keeps it.\<close>

locale files_invariant =
  fixes I :: "world \<Rightarrow> bool"
  assumes same_files: "I w \<Longrightarrow> fs w' = fs w \<Longrightarrow> outbound w' = outbound w \<Longrightarrow> I w'"
begin

lemma files_tick: "I w \<Longrightarrow> I (tick w)"
  by (erule same_files) (simp_all add: tick_def)

lemma files_Query: "keeps I (Query q)"
  by (rule keeps_Query) (rule files_tick)

lemma files_Exec: "(\<And>w n w'. q w = Inr (n, w') \<Longrightarrow> fs w' = fs w \<and> outbound w' = outbound w) \<Longrightarrow> keeps I (Exec q)"
  by (rule keeps_Exec) (auto intro: files_tick same_files)

lemma files_hashPassword: "keeps I (hashPassword L p)"
  by (rule keepsI, rule after_mono [OF hashPassword_frame]) (auto elim: same_files)

lemma files_statements:
  "keeps I (Exec (\<lambda>w. ins_user L (u w) w))" "keeps I (Exec (upd_user L e f1))" "keeps I (Exec (del_user L e))"
  "keeps I (Exec (ins_alias_ignore L a))" "keeps I (Exec (del_aliases P1))" "keeps I (Exec (\<lambda>w. ins_group L (g w) w))" "keeps I (Exec (upd_group i f2))"
  "keeps I (Exec (del_group L e))" "keeps I (Exec (del_members P2))" "keeps I (Exec (\<lambda>w. upsert_member L (m w) w))" "keeps I (Exec (upsert_forward L fw))"
  "keeps I (Exec (del_forward L e))" "keeps I (Exec (use_key kid))" "keeps I (Exec (ins_audit a1 a2 a3 a4 a5))"
  by (rule files_Exec; auto simp: ins_user_def upd_user_def del_user_def drop_users_def ins_alias_ignore_def ins_alias_def del_aliases_def ins_group_def
      upd_group_def del_group_def drop_groups_def upsert_member_def del_members_def upsert_forward_def del_forward_def use_key_def ins_audit_def Let_def
      split: sum.splits if_splits option.splits)+

lemmas files_steps = files_Query files_hashPassword files_statements keeps_ops

lemma files_reads:
  "keeps I (domainID L d)" "keeps I (AddressKind L e)" "keeps I (notAGroup L e)" "keeps I (MailboxGet L e)" "keeps I (GroupGet L e)" "keeps I (GroupMembers L e)"
  "keeps I (hostedDomains L)" "keeps I (MailboxList L d)" "keeps I (AliasList L d)" "keeps I (GroupList L d q)" "keeps I (check_member L g h x)"
  unfolding domainID_def AddressKind_def notAGroup_def MailboxGet_def GroupGet_def GroupMembers_def hostedDomains_def DomainList_def MailboxList_def AliasList_def
    GroupList_def check_member_def
  by (intro files_steps)+

lemma files_add_members: "keeps I (add_members L g h r as)"
proof (induction as)
  case (Cons a as)
  then show ?case unfolding add_members.simps by (intro files_reads files_steps)
qed (simp add: keeps_Return)

lemma files_operations:
  "keeps I (MailboxPasswd L e p)" "keeps I (MailboxSetQuota L e q)" "keeps I (MailboxSetName L e nm)" "keeps I (MailboxSetEnabled L e en)"
  "keeps I (AliasAdd L src t)" "keeps I (AliasRemove L src t)" "keeps I (ForwardSet L e d k)" "keeps I (ForwardClear L e)" "keeps I (GroupCreate L e gs)"
  "keeps I (GroupUpdate L e gs)" "keeps I (GroupDelete L e)" "keeps I (GroupAddMembers L e as r)" "keeps I (GroupRemoveMember L e mb)"
  "keeps I (KeyVerify L pk)" "keeps I (record_change rq d a tg x)"
  unfolding MailboxPasswd_def MailboxSetQuota_def MailboxSetName_def MailboxSetEnabled_def updateMailbox_def AliasAdd_def AliasRemove_def ForwardSet_def
    ForwardClear_def GroupCreate_def GroupUpdate_def GroupDelete_def GroupAddMembers_def GroupRemoveMember_def KeyVerify_def record_change_def AuditRecord_def
  by (intro files_reads files_add_members keeps_wrap files_steps)+

lemmas files_ops = files_reads files_operations

end

interpretation outside_files: files_invariant "same_outside D b" for D b
  by standard (simp add: same_outside_def)

lemma ancestors_within:
  assumes "a \<in> set (ancestors (d @ ''/'' @ x))"
  shows "a \<in> set (ancestors d) \<or> below d a" and "CHR ''/'' \<notin> set x \<Longrightarrow> a \<in> set (ancestors d) \<or> a = d @ ''/'' @ x"
proof -
  let ?p = "d @ ''/'' @ x"
  obtain i where i: "0 < i" "i \<le> length ?p" "a = take i ?p" "i = length ?p \<or> ?p ! i = CHR ''/''"
    using assms by (auto simp: ancestors_def simp del: upt_Suc)
  have "(a \<in> set (ancestors d) \<or> below d a) \<and> (CHR ''/'' \<notin> set x \<longrightarrow> a \<in> set (ancestors d) \<or> a = ?p)"
  proof (cases "i \<le> length d")
    case True
    with i have "a = take i d" "i = length d \<or> d ! i = CHR ''/''"
      by (auto simp: nth_append split: if_splits)
    with True i(1) have "a \<in> set (ancestors d)" by (force simp: ancestors_def simp del: upt_Suc)
    then show ?thesis by blast
  next
    case False
    then obtain k where k: "i = length d + Suc k" by (metis add_Suc_right less_imp_Suc_add not_le)
    then have a: "a = d @ ''/'' @ take k x" using i(3) by simp
    moreover have "a = ?p" if "CHR ''/'' \<notin> set x"
    proof -
      have "k = length x"
      proof (rule ccontr)
        assume "k \<noteq> length x"
        with i(2,4) k have "k < length x" "x ! k = CHR ''/''" by (auto simp: nth_append)
        with that show False by (metis nth_mem)
      qed
      with a show ?thesis by simp
    qed
    ultimately show ?thesis by (auto simp: below_def)
  qed
  then show "a \<in> set (ancestors d) \<or> below d a" "CHR ''/'' \<notin> set x \<Longrightarrow> a \<in> set (ancestors d) \<or> a = ?p" by blast+
qed

lemma same_outside_write:
  assumes "same_outside D b w"
    and "\<And>p. \<not> below (domain_dir D) p \<Longrightarrow> f p = fs w p \<or> (p \<in> set (ancestors VmailHome) \<and> fs w p = None \<and> f p = Some (Dir 0))"
  shows "same_outside D b (w\<lparr>fs := f\<rparr>)"
  unfolding same_outside_def
proof (intro conjI allI impI)
  show "outbound (w\<lparr>fs := f\<rparr>) = outbound b" using assms(1) by (simp add: same_outside_def)
  fix p assume p: "\<not> below (domain_dir D) p"
  then show "fs (w\<lparr>fs := f\<rparr>) p = fs b p \<or> (p \<in> set (ancestors VmailHome) \<and> fs b p = None \<and> fs (w\<lparr>fs := f\<rparr>) p = Some (Dir 0))"
    using assms(1) assms(2) [OF p] by (auto simp: same_outside_def)
qed

lemma outside_writes:
  assumes "CHR ''/'' \<notin> set D"
  shows "keeps (same_outside D b) (RemoveAll (domain_dir D @ ''/'' @ l))"
  "keeps (same_outside D b) (MkdirAll (domain_dir D @ ''/'' @ l))"
  "keeps (same_outside D b) (chownRecursive (domain_dir D) u)"
proof -
  have t: "same_outside D b (tick w) = same_outside D b w" for w by (simp add: same_outside_def tick_def)
  have in_dir [simp]: "\<not> below (domain_dir D) p \<Longrightarrow> \<not> below (domain_dir D @ CHR ''/'' # l) p" for p
    by (auto simp: below_def prefix_def)
  show "keeps (same_outside D b) (RemoveAll (domain_dir D @ ''/'' @ l))"
    by (auto simp: keeps_def wp RemoveAll_def remove_all_def t intro!: same_outside_write)
  have up: "p \<in> set (ancestors VmailHome)" if "p \<in> set (ancestors (domain_dir D @ ''/'' @ l))" "\<not> below (domain_dir D) p" for p
    using ancestors_within(1) [OF that(1)] ancestors_within(2) [of p VmailHome D] assms that(2) by (auto simp: domain_dir_def)
  show "keeps (same_outside D b) (MkdirAll (domain_dir D @ ''/'' @ l))"
    using up by (auto simp: keeps_def wp MkdirAll_def mkdir_all_def t intro!: same_outside_write split: sum.splits if_splits)
  show "keeps (same_outside D b) (chownRecursive (domain_dir D) u)"
    by (auto simp: keeps_def wp chownRecursive_def t intro!: same_outside_write split: sum.splits if_splits)
qed

text \<open>The two operations that write files: the directory of a mailbox lies in the one of its domain.\<close>

lemma address_parts:
  assumes "address L D u = Some e" and "SplitEmail e = Inr (l, d)"
  shows "d = D" and "mailboxDir d l = domain_dir D @ ''/'' @ l" and "safe_comp D" and "safe_comp l"
proof -
  obtain n where e: "e = n @ ''@'' @ D"
    using assms(1) by (auto simp: address_def Let_def split: if_splits)
  obtain l' d' where s: "e = l' @ CHR ''@'' # d'" "SplitEmail e = Inr (l', d')" "safe_comp l'" "safe_comp d'"
      "\<forall>c\<in>set l'. plain_byte c" "\<forall>c\<in>set d'. plain_byte c"
    using SplitEmail_Inr [OF assms(2)] by (metis ValidateEmail_shape)
  then have "CHR ''@'' \<notin> set l'" "CHR ''@'' \<notin> set d'" by auto
  from append_Cons_eq_iff [OF this, of n D] e s(1) have "d' = D" by simp
  with s(2,3,4) assms(2) show "d = D" "safe_comp D" "safe_comp l" by auto
  then have "mailboxDir D l = Join_path ((''/'' @ Join [''var'', ''mail'', ''vhosts''] ''/'') # [D, l])"
    by (simp add: mailboxDir_def VmailHome_def)
  also have "\<dots> = ''/'' @ Join ([''var'', ''mail'', ''vhosts''] @ [D, l]) ''/''"
    by (rule Join_path_safe) (use \<open>safe_comp D\<close> \<open>safe_comp l\<close> in \<open>auto simp: safe_comp_def\<close>)
  finally show "mailboxDir d l = domain_dir D @ ''/'' @ l" using \<open>d = D\<close> by (simp add: domain_dir_def VmailHome_def)
qed

lemma below_mailbox:
  assumes "safe_comp D" and "safe_comp l" and "\<forall>n\<in>set ns. safe_comp n"
  shows "Join_path ((domain_dir D @ ''/'' @ l) # ns) = domain_dir D @ ''/'' @ Join (l # ns) ''/''"
proof -
  have "\<forall>c\<in>set [''var'', ''mail'', ''vhosts'', D, l]. safe_comp c" using assms(1,2) by (simp add: safe_comp_def)
  from Join_path_safe [OF _ this assms(3)] show ?thesis by (simp add: domain_dir_def VmailHome_def)
qed

lemma outside_createMaildir:
  assumes "safe_comp D" and "safe_comp l" and "mailboxDir D l = domain_dir D @ ''/'' @ l"
  shows "keeps (same_outside D b) (createMaildir D l)"
proof -
  let ?d = "domain_dir D @ ''/'' @ l"
  have nested: "Join_path [?d, ''Maildir/'' @ x] = Join_path [?d, ''Maildir'', x]" if "x \<noteq> []" for x
    using that by (simp add: Join_path_def)
  have made: "Join_path [?d, ''Maildir/'' @ x] = domain_dir D @ ''/'' @ Join [l, ''Maildir'', x] ''/''" if "safe_comp x" for x
    using that below_mailbox [OF assms(1,2), of "[''Maildir'', x]"] nested [of x] by (simp add: safe_comp_def)
  have dirs: "Join_path [?d, ''Maildir/cur''] = domain_dir D @ ''/'' @ Join [l, ''Maildir'', ''cur''] ''/''"
    "Join_path [?d, ''Maildir/new''] = domain_dir D @ ''/'' @ Join [l, ''Maildir'', ''new''] ''/''"
    "Join_path [?d, ''Maildir/tmp''] = domain_dir D @ ''/'' @ Join [l, ''Maildir'', ''tmp''] ''/''"
    "Join_path [?d, ''sieve''] = domain_dir D @ ''/'' @ Join [l, ''sieve''] ''/''"
    using made [of "''cur''"] made [of "''new''"] made [of "''tmp''"] below_mailbox [OF assms(1,2), of "[''sieve'']"]
    by (simp_all add: safe_comp_def)
  have slash: "CHR ''/'' \<notin> set D" using assms(1) by (simp add: safe_comp_def)
  have "Join_path [VmailHome, D] = domain_dir D"
    using assms(1) Join_path_safe [of "[''var'', ''mail'', ''vhosts'']" "[D]"] by (simp add: domain_dir_def VmailHome_def safe_comp_def)
  then show ?thesis
    unfolding createMaildir_def Let_def assms(3) dirs
    by (intro keeps_ops keeps_wrap) (simp_all only: outside_writes [OF slash])
qed

lemma outside_mailboxes:
  assumes "address L D u = Some e"
  shows "keeps (same_outside D b) (MailboxCreate L e p nm q)" "keeps (same_outside D b) (MailboxRemove L e)"
proof -
  have parts: "d = D \<and> mailboxDir d l = domain_dir D @ ''/'' @ l \<and> safe_comp D \<and> safe_comp l" if "SplitEmail e = Inr (l, d)" for l d
    using address_parts [OF assms that] by blast
  have split: "keeps (same_outside D b) (andThen (Lift (SplitEmail e)) f)" if "\<And>x. SplitEmail e = Inr x \<Longrightarrow> keeps (same_outside D b) (f x)"
    for f :: "string \<times> string \<Rightarrow> 'x op"
    using that by (cases "SplitEmail e") (simp_all add: andThen_Lift keeps_Raise)
  have made: "keeps (same_outside D b) (createMaildir d l)" if "SplitEmail e = Inr (l, d)" for l d
    using outside_createMaildir parts [OF that] by auto
  have gone: "keeps (same_outside D b) (RemoveAll (mailboxDir d l))" if "SplitEmail e = Inr (l, d)" for l d
    using outside_writes(1) parts [OF that] by (auto simp: safe_comp_def)
  show "keeps (same_outside D b) (MailboxCreate L e p nm q)" "keeps (same_outside D b) (MailboxRemove L e)"
    unfolding MailboxCreate_def MailboxRemove_def
    by (intro split made gone outside_files.files_reads outside_files.files_steps; simp)+
qed

text \<open>Every handler.\<close>

lemma outside_handlers:
  "keeps (same_outside D b) (handleMailboxList L D)" "keeps (same_outside D b) (handleMailboxCreate L J r D)"
  "keeps (same_outside D b) (handleMailboxGet L D u)" "keeps (same_outside D b) (handleMailboxDelete L D u)"
  "keeps (same_outside D b) (handleMailboxPassword L J r D u)" "keeps (same_outside D b) (handleMailboxName L J r D u)"
  "keeps (same_outside D b) (handleMailboxQuota L J r D u)" "keeps (same_outside D b) (handleMailboxStatus L J r D u)"
  "keeps (same_outside D b) (handleForwardSet L J r D u)" "keeps (same_outside D b) (handleForwardClear L r D u)"
  "keeps (same_outside D b) (handleAliasList L D)" "keeps (same_outside D b) (handleAliasCreate L J r D)"
  "keeps (same_outside D b) (handleAliasDelete L J r D)" "keeps (same_outside D b) (handleGroupList L D)"
  "keeps (same_outside D b) (handleGroupCreate L J r D)" "keeps (same_outside D b) (handleGroupGet L D u)"
  "keeps (same_outside D b) (handleGroupUpdate L J r D u)" "keeps (same_outside D b) (handleGroupDelete L r D u)"
  "keeps (same_outside D b) (handleGroupAddMembers L J r D u)" "keeps (same_outside D b) (handleGroupRemoveMember L r D u m)"
  unfolding handler_defs respondMailbox_def respondGroup_def
  by (intro keeps_ops outside_files.files_ops outside_mailboxes; assumption)+

lemma outside_routes:
  "mailbox_routes L J r meth segs = Some h \<or> alias_routes L J r meth segs = Some h \<or> group_routes L J r meth segs = Some h
   \<Longrightarrow> keeps (same_outside D b) (h D)"
  by (auto simp: mailbox_routes_def alias_routes_def group_routes_def outside_handlers split: list.splits if_splits)

section \<open>Handlers stay inside\<close>

lemma confined_mailbox_ops:
  assumes "inside L D e"
  shows "keeps (confined L D b) (MailboxCreate L e p n q)" "keeps (confined L D b) (MailboxRemove L e)"
    "keeps (confined L D b) (MailboxPasswd L e p)" "keeps (confined L D b) (MailboxSetQuota L e q)"
    "keeps (confined L D b) (MailboxSetName L e n)" "keeps (confined L D b) (MailboxSetEnabled L e en)"
    "keeps (confined L D b) (AliasAdd L e t)" "keeps (confined L D b) (AliasRemove L e t)"
    "keeps (confined L D b) (ForwardSet L e t k)" "keeps (confined L D b) (ForwardClear L e)"
  by (rule confined_both, rule ok_operations, rule iso_MailboxCreate iso_MailboxRemove iso_MailboxPasswd iso_MailboxSet iso_AliasAdd iso_AliasRemove
      iso_ForwardSet iso_ForwardClear, rule assms)+

lemma confined_group_ops:
  assumes "inside L D (ToLower (uni L) e)" and "TrimSpace e = e"
  shows "keeps (confined L D b) (GroupCreate L e s)" "keeps (confined L D b) (GroupUpdate L e s)"
    "keeps (confined L D b) (GroupDelete L e)" "keeps (confined L D b) (GroupAddMembers L e ms r)"
    "keeps (confined L D b) (GroupRemoveMember L e m)"
  by (rule confined_both [OF ok_GroupCreate iso_GroupCreate] confined_GroupUpdate confined_GroupDelete confined_GroupAddMembers confined_GroupRemoveMember,
      simp add: assms)+

lemma confined_reads [keeps_ops]:
  "keeps (confined L D b) (GroupGet L e)" "keeps (confined L D b) (GroupMembers L e)"
  "keeps (confined L D b) (MailboxList L d)" "keeps (confined L D b) (AliasList L d)" "keeps (confined L D b) (GroupList L d q)"
  unfolding GroupGet_def GroupMembers_def MailboxList_def AliasList_def GroupList_def by (intro keeps_ops)+

lemma confined_KeyVerify [keeps_ops]: "keeps (confined L D b) (KeyVerify L p)"
  by (rule confined_both [OF ok_KeyVerify iso_KeyVerify])

lemma confined_record [keeps_ops]: "keeps (confined L D b) (record_change r d a t x)"
  unfolding record_change_def by (rule confined_both [OF ok_AuditRecord iso_AuditRecord])

lemma confined_respond [keeps_ops]: "keeps (confined L D b) (respondMailbox L n e)" "keeps (confined L D b) (respondGroup L n e)"
  unfolding respondMailbox_def respondGroup_def by (intro keeps_ops)+

lemma confined_mailbox_handlers:
  assumes D: "ValidateDomain D = Inr ()"
  shows "keeps (confined L D b) (handleMailboxList L D)" "keeps (confined L D b) (handleMailboxCreate L J r D)"
    "keeps (confined L D b) (handleMailboxGet L D u)" "keeps (confined L D b) (handleMailboxDelete L D u)"
    "keeps (confined L D b) (handleMailboxPassword L J r D u)" "keeps (confined L D b) (handleMailboxName L J r D u)"
    "keeps (confined L D b) (handleMailboxQuota L J r D u)" "keeps (confined L D b) (handleMailboxStatus L J r D u)"
    "keeps (confined L D b) (handleForwardSet L J r D u)" "keeps (confined L D b) (handleForwardClear L r D u)"
  unfolding handler_defs by (intro keeps_ops confined_mailbox_ops; erule address_inside [OF _ D])+

lemma confined_group_handlers:
  assumes C: "collation_ok L" and D: "ValidateDomain D = Inr ()"
  shows "keeps (confined L D b) (handleGroupList L D)" "keeps (confined L D b) (handleGroupCreate L J r D)"
    "keeps (confined L D b) (handleGroupGet L D u)" "keeps (confined L D b) (handleGroupUpdate L J r D u)"
    "keeps (confined L D b) (handleGroupDelete L r D u)" "keeps (confined L D b) (handleGroupAddMembers L J r D u)"
    "keeps (confined L D b) (handleGroupRemoveMember L r D u m)"
proof -
  have "inside L D (ToLower (uni L) e)" "TrimSpace e = e" if "address L D n = Some e" for n e
    using inside_ToLower [OF C] address_inside [OF that D] by auto
  note group = confined_group_ops [OF this]
  show "keeps (confined L D b) (handleGroupList L D)" "keeps (confined L D b) (handleGroupCreate L J r D)"
    "keeps (confined L D b) (handleGroupGet L D u)" "keeps (confined L D b) (handleGroupUpdate L J r D u)"
    "keeps (confined L D b) (handleGroupDelete L r D u)" "keeps (confined L D b) (handleGroupAddMembers L J r D u)"
    "keeps (confined L D b) (handleGroupRemoveMember L r D u m)"
    unfolding handler_defs by (intro keeps_ops group; assumption)+
qed

lemma aliasFromBody_address: "aliasFromBody L J r D = Inr (src, dst) \<Longrightarrow> \<exists>u. address L D u = Some src"
  by (auto simp: aliasFromBody_def Let_def split: option.splits sum.splits)

lemma confined_alias_handlers:
  assumes D: "ValidateDomain D = Inr ()"
  shows "keeps (confined L D b) (handleAliasList L D)" "keeps (confined L D b) (handleAliasCreate L J r D)"
    "keeps (confined L D b) (handleAliasDelete L J r D)"
proof -
  have "inside L D src" if "aliasFromBody L J r D = Inr p" "p = (src, dst)" for p src dst
    using aliasFromBody_address [of L J r D src dst] address_inside(1) [OF _ D] that by auto
  note ops = confined_mailbox_ops(7,8) [OF this]
  show "keeps (confined L D b) (handleAliasList L D)" "keeps (confined L D b) (handleAliasCreate L J r D)"
    "keeps (confined L D b) (handleAliasDelete L J r D)"
    unfolding handler_defs by (intro keeps_ops ops; assumption)+
qed

text \<open>Every handler behind a route.\<close>

lemma confined_routes:
  assumes "collation_ok L" and "ValidateDomain D = Inr ()"
  shows "mailbox_routes L J r meth segs = Some h \<Longrightarrow> keeps (confined L D b) (h D)"
    and "alias_routes L J r meth segs = Some h \<Longrightarrow> keeps (confined L D b) (h D)"
    and "group_routes L J r meth segs = Some h \<Longrightarrow> keeps (confined L D b) (h D)"
  by (auto simp: mailbox_routes_def alias_routes_def group_routes_def split: list.splits if_splits
      intro: confined_mailbox_handlers [OF assms(2)] confined_alias_handlers [OF assms(2)] confined_group_handlers [OF assms])

lemmas answers_defs = handler_defs respondMailbox_def respondGroup_def record_change_def

lemma answers_routes:
  "mailbox_routes L J r meth segs = Some h \<Longrightarrow> answers (h D)"
  "alias_routes L J r meth segs = Some h \<Longrightarrow> answers (h D)"
  "group_routes L J r meth segs = Some h \<Longrightarrow> answers (h D)"
proof -
  have case_sum: "answers (case x of Inl a \<Rightarrow> f a | Inr y \<Rightarrow> g y)" if "\<And>a. answers (f a)" "\<And>y. answers (g y)" for x and f :: "'x \<Rightarrow> handler" and g :: "'y \<Rightarrow> handler"
    using that by (simp split: sum.split)
  show "mailbox_routes L J r meth segs = Some h \<Longrightarrow> answers (h D)"
    "alias_routes L J r meth segs = Some h \<Longrightarrow> answers (h D)"
    "group_routes L J r meth segs = Some h \<Longrightarrow> answers (h D)"
    by (auto simp: mailbox_routes_def alias_routes_def group_routes_def answers_defs split: list.splits if_splits intro!: answering case_sum)
qed

section \<open>Properties\<close>

text \<open>Nothing is different but when keys were used: no other column of a table, no file, and no command was run.\<close>

definition untouched :: "world \<Rightarrow> world \<Rightarrow> bool" where
  "untouched b w \<longleftrightarrow> same_key_rows b w \<and> touches (b\<lparr>domain_api_keys := domain_api_keys w\<rparr>) w \<and> fs w = fs b \<and> outbound w = outbound b"

lemma untouched_isolated: "untouched b w \<Longrightarrow> isolated L D b w"
  by (simp add: untouched_def isolated_def tables_isolated_def same_outside_def touches_def)

lemma untouched_frame [simp]: "untouched b b" "untouched b (tick w) = untouched b w"
  by (simp_all add: untouched_def touches_def same_key_rows_def)

lemma KeyVerify_untouched: "keeps (untouched b) (KeyVerify L p)"
proof -
  have "untouched b (w\<lparr>domain_api_keys := update_rows P (\<lambda>k. k\<lparr>k_last_used_at := t\<rparr>) (domain_api_keys w)\<rparr>)" if "untouched b w" for w P t
    using that by (auto simp: untouched_def touches_def)
  then show ?thesis
    unfolding KeyVerify_def by (intro keeps_ops keeps_Exec) (auto simp: use_key_def Let_def)
qed

lemma untouched_ok:
  assumes "store_ok L w" and "untouched w w'"
  shows "store_ok L w'"
proof -
  let ?ks = "domain_api_keys w" and ?ks' = "domain_api_keys w'"
  have eq: "map (\<lambda>k. k\<lparr>k_last_used_at := None\<rparr>) ?ks' = map (\<lambda>k. k\<lparr>k_last_used_at := None\<rparr>) ?ks"
    using assms(2) by (simp add: untouched_def same_key_rows_def)
  have "map k_domain_id ?ks' = map k_domain_id ?ks" "map (hkey L) ?ks' = map (hkey L) ?ks"
    using arg_cong [OF eq, of "map k_domain_id"] arg_cong [OF eq, of "map (hkey L)"] by (simp_all add: comp_def hkey_def [abs_def])
  then have "keyed k_domain_id ?ks' = keyed k_domain_id ?ks" "keyed (hkey L) ?ks' = keyed (hkey L) ?ks"
    "k_domain_id ` set ?ks' = k_domain_id ` set ?ks"
    by (simp_all add: keyed_def, metis list.set_map)
  then show ?thesis
    using assms by (simp add: store_defs untouched_def touches_def domain_ids_def group_ids_def in_domain_def)
qed

lemma auth_cases:
  assumes refused: "\<And>s m w'. untouched w w' \<Longrightarrow> s \<in> {401, 403, 500} \<Longrightarrow> Q (Inr (writeError s m)) w'"
    and accepted: "\<And>D w'. key_lookup L w (presentedKey r) = Some D \<Longrightarrow> EqualFold (uni L) D (ToLower (uni L) pathDomain)
      \<Longrightarrow> untouched w w' \<Longrightarrow> after (h D) Q w'"
  shows "after (auth L r pathDomain h) Q w"
proof (cases "presentedKey r = []")
  case False
  let ?V = "KeyVerify L (presentedKey r)"
  have "after ?V (\<lambda>res w'. untouched w w' \<and> (case res of Inl e \<Rightarrow> True | Inr D \<Rightarrow> key_lookup L w (presentedKey r) = Some D)) w"
    using keepsD [OF KeyVerify_untouched [where L = L and p = "presentedKey r"] untouched_frame(1), of w] key_store.verify_sound [of L "presentedKey r" w]
    by (auto simp: after_def split: prod.splits)
  then have "after ?V (\<lambda>res w'. case res of Inl e \<Rightarrow> Q (Inr (if e \<noteq> ErrInvalidKey then writeError 500 ''internal error''
       else writeError 401 ''invalid or revoked API key'')) w'
    | Inr D \<Rightarrow> after (if \<not> EqualFold (uni L) D (ToLower (uni L) pathDomain)
        then Return (writeError 403 (''this API key is not valid for domain '' @ ToLower (uni L) pathDomain)) else h D) Q w') w"
    by (rule after_mono) (auto simp: after_Return intro: refused accepted split: sum.splits)
  with False show ?thesis by (simp add: auth_def Let_def after_checked)
qed (simp add: auth_def Let_def after_Return refused)

lemma ServeHTTP_route:
  obtains "ServeHTTP L J r = Return no_endpoint"
  | meth segs h where "mailbox_routes L J r meth segs = Some h \<or> alias_routes L J r meth segs = Some h \<or> group_routes L J r meth segs = Some h"
      and "ServeHTTP L J r = auth L r (Rq_Path r ! 1) h"
proof -
  define meth where "meth = (if Rq_Method r = ''HEAD'' then ''GET'' else Rq_Method r)"
  have "ServeHTTP L J r = Return no_endpoint \<or> (\<exists>segs h. (mailbox_routes L J r meth segs = Some h \<or> alias_routes L J r meth segs = Some h
      \<or> group_routes L J r meth segs = Some h) \<and> ServeHTTP L J r = auth L r (Rq_Path r ! 1) h)"
  proof (cases "\<exists>api d kind segs. Rq_Path r = api # d # kind # segs")
    case True
    then obtain api d kind segs where path: "Rq_Path r = api # d # kind # segs" by blast
    define X where "X = (if api \<noteq> ''api'' \<or> [] \<in> set (d # segs) then None
                 else if kind = ''mailbox'' then mailbox_routes L J r meth segs
                 else if kind = ''alias'' then alias_routes L J r meth segs
                 else if kind = ''group'' then group_routes L J r meth segs
                 else None)"
    have d: "Rq_Path r ! 1 = d" by (simp add: path)
    have serve: "ServeHTTP L J r = (case X of None \<Rightarrow> Return no_endpoint | Some h \<Rightarrow> auth L r (Rq_Path r ! 1) h)"
      unfolding d unfolding ServeHTTP_def Let_def meth_def [symmetric] path list.case X_def by (rule refl)
    have "X = None \<or> X = mailbox_routes L J r meth segs \<or> X = alias_routes L J r meth segs \<or> X = group_routes L J r meth segs"
      unfolding X_def by (simp only: split: if_split) blast
    then show ?thesis
    proof (cases X)
      case (Some h)
      with serve \<open>X = None \<or> _\<close> show ?thesis by (intro disjI2 exI [of _ segs] exI [of _ h]) auto
    qed (simp add: serve)
  next
    case False
    then show ?thesis by (auto simp: ServeHTTP_def Let_def split: list.split)
  qed
  with that show thesis by blast
qed



text \<open>A request to delete a mailbox with the key of \<open>example.com\<close>, on a server that stores mail of another domain too.\<close>

definition delete_request :: http_request where
  "delete_request = \<lparr>Rq_Method = ''DELETE'', Rq_Host = ''mail.example.com'', Rq_Path = [''api'', ''example.com'', ''mailbox'', ''bob''], Rq_Query = (\<lambda>k. []),
     Rq_Header = (\<lambda>k. if k = ''X-Api-Key'' then ''pbd_old'' else []), Rq_RemoteAddr = ''[::1]:4711'', Rq_Body = []\<rparr>"

definition two_domains :: world where
  "two_domains = keyed_world\<lparr>virtual_users := [new_user 0 ''bob@example.com'' [] ''H'' ''example.com/bob'' 5 0],
     fs := [''/var/mail/vhosts/example.com/bob'' \<mapsto> Dir 5000, ''/var/mail/vhosts/example.net/eve'' \<mapsto> Dir 5000]\<rparr>"

lemma two_domains_ok: "store_ok example_lib two_domains"
proof -
  have "SplitEmail ''bob@example.com'' = Inr (''bob'', ''example.com'')" by code_simp
  then show ?thesis
    by (simp add: store_defs two_domains_def keyed_world_def empty_world_def keyed_def domain_ids_def group_ids_def example_domain in_domain_def new_user_def dkey_def)
qed


section \<open>The addresses the API makes up\<close>

lemma matches_Plus_Cls: "s \<noteq> [] \<Longrightarrow> \<forall>c\<in>set s. in_class c k \<Longrightarrow> matches (Plus (Cls k)) s"
proof -
  have star: "\<forall>c\<in>set s. in_class c k \<Longrightarrow> matches (Star (Cls k)) s" for s
  proof (induction s)
    case (Cons c s)
    then show ?case using matches.Star1 [of "Cls k" "[c]" s] by simp
  qed (rule matches.Star0)
  assume "s \<noteq> []" "\<forall>c\<in>set s. in_class c k"
  then show ?thesis using star [of "tl s"] matches.Seq [of "Cls k" "[hd s]" "Star (Cls k)" "tl s"] by (cases s) (auto simp: Plus_def)
qed

lemma dotted_localRe:
  assumes "\<forall>c\<in>set s. in_class c atext \<or> c = CHR ''.''" and "s \<noteq> []" and "hd s \<noteq> CHR ''.''" and "last s \<noteq> CHR ''.''"
    and "\<not> Contains s ''..''"
  shows "matches localRe s"
  using assms
proof (induction s rule: length_induct)
  case (1 s)
  let ?dot = "\<lambda>c. c \<noteq> CHR ''.''" and ?tail = "Star (Seq (Lit (CHR ''.'')) (Plus (Cls atext)))"
  let ?a = "takeWhile ?dot s" and ?b = "dropWhile ?dot s"
  have a: "matches (Plus (Cls atext)) ?a"
    using "1.prems"(1-3) by (intro matches_Plus_Cls) (auto simp: takeWhile_eq_Nil_iff dest: set_takeWhileD)
  have "matches ?tail ?b"
  proof (cases ?b)
    case (Cons c r)
    then have c: "c = CHR ''.''" using hd_dropWhile [of ?dot s] by auto
    have s: "s = ?a @ c # r" using Cons by (metis takeWhile_dropWhile_id)
    have "r \<noteq> []" using "1.prems"(4) c by (subst (asm) s) auto
    moreover have "hd r \<noteq> CHR ''.''"
    proof
      assume "hd r = CHR ''.''"
      with \<open>r \<noteq> []\<close> have "r = CHR ''.'' # tl r" by (cases r) auto
      with s c have "s = ?a @ ''..'' @ tl r" by simp
      with "1.prems"(5) show False by (metis Contains_iff)
    qed
    moreover have "\<not> Contains r ''..''" using "1.prems"(5) by (subst (asm) s) (metis Contains_iff append_Cons append_assoc)
    moreover have "last r \<noteq> CHR ''.''" using "1.prems"(4) \<open>r \<noteq> []\<close> by (subst (asm) s) simp
    moreover have "length r < length s" by (subst s) simp
    moreover have "\<forall>c\<in>set r. in_class c atext \<or> c = CHR ''.''" using "1.prems"(1) by (subst (asm) s) auto
    ultimately have "matches localRe r" using "1.IH" by blast
    then obtain p t where "r = p @ t" "matches (Plus (Cls atext)) p" "matches ?tail t"
      by (auto simp: localRe_def matches_Seq)
    then show ?thesis
      using matches.Star1 [of "Seq (Lit (CHR ''.'')) (Plus (Cls atext))" "c # p" t] matches.Seq [of "Lit c" "[c]" "Plus (Cls atext)" p]
      by (simp add: Cons c matches_Lit)
  qed (simp only: matches.Star0)
  with a have "matches localRe (?a @ ?b)" unfolding localRe_def by (rule matches.Seq)
  then show ?case by simp
qed

lemma matches_Rep_Cls: "matches (Rep (Cls k) m n) s \<Longrightarrow> length s \<le> n \<and> (\<forall>c\<in>set s. in_class c k)"
  by (induction "Rep (Cls k) m n" s arbitrary: m n rule: matches.induct) fastforce+

lemma usernameRe_shape:
  assumes "matches usernameRe s"
  shows "s \<noteq> []" and "length s \<le> 64" and "in_class (hd s) lower_alnum" and "in_class (last s) lower_alnum"
    and "\<forall>c\<in>set s. in_class c (lower_alnum @ [(CHR ''.'', CHR ''.''), (CHR ''_'', CHR ''_''), (CHR ''-'', CHR ''-'')])"
proof -
  let ?k = "lower_alnum @ [(CHR ''.'', CHR ''.''), (CHR ''_'', CHR ''_''), (CHR ''-'', CHR ''-'')]"
  have more: "in_class c lower_alnum \<Longrightarrow> in_class c ?k" for c by (auto simp: in_class_def)
  obtain c t where s: "s = c # t" "in_class c lower_alnum" and "t = [] \<or> matches (Seq (Rep (Cls ?k) 0 62) (Cls lower_alnum)) t"
    using assms by (auto simp: usernameRe_def Opt_def matches_Seq [of "Cls lower_alnum"])
  then consider "t = []" | u d where "t = u @ [d]" "matches (Rep (Cls ?k) 0 62) u" "in_class d lower_alnum"
    by (auto simp: matches_Seq)
  then have "s \<noteq> [] \<and> length s \<le> 64 \<and> in_class (hd s) lower_alnum \<and> in_class (last s) lower_alnum \<and> (\<forall>c\<in>set s. in_class c ?k)"
    by cases (use s more in \<open>auto dest!: matches_Rep_Cls\<close>)
  then show "s \<noteq> []" "length s \<le> 64" "in_class (hd s) lower_alnum" "in_class (last s) lower_alnum" "\<forall>c\<in>set s. in_class c ?k"
    by blast+
qed

lemma lower_alnum_bytes: "in_class c lower_alnum \<longleftrightarrow> 97 \<le> byte c \<and> byte c \<le> 122 \<or> 48 \<le> byte c \<and> byte c \<le> 57"
  by (simp add: in_class_def lower_alnum_def)

text \<open>
  C32: An address the public API makes up for a request is one the store accepts exactly when it is no longer than 254 bytes: the pattern for user names is narrower
  than the one for local parts, so \<open>SplitEmail\<close> takes the address apart into that user name and the domain of the key; a longer one, below a long domain, is a
  validation error of the store. The user name has no capital letter, so there is one spelling for each.
\<close>

theorem address_accepted:
  assumes "address L D u = Some e" and "ValidateDomain D = Inr ()"
  shows "SplitEmail e = (if length e \<le> 254 then Inr (ToLower (uni L) (TrimSpace u), D) else Inl (ValidationError (''invalid email address: '' @ e)))
     \<and> list_all (\<lambda>c. \<not> is_upper c) (ToLower (uni L) (TrimSpace u))"
proof -
  define n where "n = ToLower (uni L) (TrimSpace u)"
  have e: "e = n @ ''@'' @ D" and m: "matches usernameRe n" and dots: "\<not> Contains n ''..''"
    using assms(1) by (auto simp: address_def Let_def MatchString_iff n_def split: if_splits)
  note shape = usernameRe_shape [OF m]
  have cls: "in_class c atext \<or> c = CHR ''.''" if "in_class c (lower_alnum @ [(CHR ''.'', CHR ''.''), (CHR ''_'', CHR ''_''), (CHR ''-'', CHR ''-'')])" for c
  proof -
    from that have "in_class c lower_alnum \<or> c = CHR ''.'' \<or> c = CHR ''_'' \<or> c = CHR ''-''"
      using in_class_map_lit [of c "[]" "[CHR ''.'', CHR ''_'', CHR ''-'']"] by (auto simp: in_class_def)
    moreover have "in_class c lower_alnum \<Longrightarrow> in_class c alnum" by (auto simp: in_class_def lower_alnum_def alnum_def)
    ultimately show ?thesis unfolding atext_def in_class_map_lit by auto
  qed
  have "hd n \<noteq> CHR ''.''" "last n \<noteq> CHR ''.''"
    using shape(3,4) by (auto simp: lower_alnum_bytes)
  with shape cls dots have "matches localRe n" by (intro dotted_localRe) auto
  moreover have "matches domainRe D" using assms(2) by (simp add: ValidateDomain_def MatchString_iff split: if_splits)
  ultimately have "SplitEmail e = Inr (n, D)" if "length e \<le> 254" using shape(2) that by (intro SplitEmail_accepts) (simp_all add: e)
  moreover have "SplitEmail e = Inl (ValidationError (''invalid email address: '' @ e))" if "\<not> length e \<le> 254"
    using that by (simp add: SplitEmail_def ValidateEmail_def split: prod.split)
  moreover have "\<not> is_upper c" if "c \<in> set n" for c
    using shape(5) that by (auto simp: in_class_def lower_alnum_def is_upper_def)
  ultimately show ?thesis by (auto simp: n_def list_all_iff)
qed

theorem address_accepted_witness:
  "address example_lib ''example.com'' '' Bob '' = Some ''bob@example.com''
   \<and> SplitEmail ''bob@example.com'' = Inr (''bob'', ''example.com'')"
proof
  show made: "address example_lib ''example.com'' '' Bob '' = Some ''bob@example.com''" by code_simp
  have "ToLower (uni example_lib) (TrimSpace '' Bob '') = ''bob''" by code_simp
  with address_accepted [OF made example_domain] show "SplitEmail ''bob@example.com'' = Inr (''bob'', ''example.com'')" by simp
qed

end
