(* ===== verification/Config.thy ===== *)
theory Config
  imports Routing
begin

text \<open>Package config: the database settings of \<open>/etc/patrabahok/mysql-admin.cnf\<close>, a minimal INI file, and the data source name made of them.\<close>

definition DefaultMySQLCnfPath :: string where "DefaultMySQLCnfPath = ''/etc/patrabahok/mysql-admin.cnf''"

record db_config =
  C_User :: string
  C_Password :: string
  C_Host :: string
  C_Database :: string

text \<open>What one line does to the settings: the first \<open>=\<close> separates key and value; headers, comments and other keys are skipped.\<close>

definition config_line :: "string \<Rightarrow> db_config \<Rightarrow> db_config" where
  "config_line raw cfg =
     (let line = TrimSpace raw in
      if line = [] \<or> HasPrefix line ''['' \<or> HasPrefix line ''#'' \<or> HasPrefix line '';'' then cfg
      else case Cut line ''='' of (k, v, ok) \<Rightarrow>
        if \<not> ok then cfg
        else let key = TrimSpace k; val = TrimSpace v in
          if key = ''user'' then cfg\<lparr>C_User := val\<rparr>
          else if key = ''password'' then cfg\<lparr>C_Password := val\<rparr>
          else if key = ''host'' then cfg\<lparr>C_Host := val\<rparr>
          else if key = ''database'' then cfg\<lparr>C_Database := val\<rparr>
          else cfg)"

definition parse_config :: "string \<Rightarrow> string \<Rightarrow> error + db_config" where
  "parse_config path c =
     (let cfg = fold config_line (scan_lines c) \<lparr>C_User = [], C_Password = [], C_Host = ''127.0.0.1'', C_Database = []\<rparr> in
      if list_ex (\<lambda>l. 65536 \<le> length l) (raw_lines c) then Inl (Wrapped (''read '' @ path) (ErrText ''bufio.Scanner: token too long''))
      else if C_User cfg = [] \<or> C_Database cfg = [] then Inl (ErrText (path @ '' is missing required fields (user/database)''))
      else Inr cfg)"

definition LoadDBConfig :: "string \<Rightarrow> db_config op" where
  "LoadDBConfig path0 =
     (let path = (if path0 = [] then DefaultMySQLCnfPath else path0) in
      andThen (Attempt (ReadFile path)) (\<lambda>r. case r of
          Inl e \<Rightarrow> Raise (Wrapped (''open '' @ path) e)
        | Inr c \<Rightarrow> Lift (parse_config path c)))"

definition DSN :: "db_config \<Rightarrow> string" where
  "DSN c = C_User c @ '':'' @ C_Password c @ ''@tcp('' @ C_Host c @ '':3306)/'' @ C_Database c @ ''?parseTime=true&charset=utf8mb4''"

section \<open>Facts\<close>

lemma config_line_blank [simp]: "config_line [] cfg = cfg"
proof -
  have "TrimSpace [] = []" by (rule TrimSpace_no_space) simp
  then show ?thesis by (simp add: config_line_def)
qed

text \<open>A missing user or database is never accepted.\<close>

lemma parse_config_complete: "parse_config path c = Inr cfg \<Longrightarrow> C_User cfg \<noteq> [] \<and> C_Database cfg \<noteq> []"
  by (auto simp: parse_config_def Let_def split: if_splits)

end
