(* ===== verification/Cli.thy ===== *)
theory Cli
  imports Api Adminauth Domainkey Config
begin

text \<open>
  The command line program \<open>cmd/patrabahok\<close>. A command is an operation that ends with what was written to standard output and an error or none. The
  prompts on standard error are left out; what the user types at them is part of the environment.
\<close>

section \<open>What lies outside\<close>

text \<open>
  \<open>cli_password p\<close> is what is typed at the prompt \<open>p\<close> without echo, \<open>cli_line\<close> the line read from standard input, \<open>cli_root\<close> whether the effective user is root,
  \<open>cli_time l t\<close> is \<open>Time.Format\<close> with the layout \<open>l\<close>, \<open>cli_state\<close> the indented JSON text of the installer state, \<open>cli_connect\<close> whether the database answers.
\<close>

record cli_env =
  cli_password :: "string \<Rightarrow> error + string"
  cli_line :: string
  cli_root :: bool
  cli_time :: "string \<Rightarrow> int \<Rightarrow> string"
  cli_state :: "string \<Rightarrow> string"
  cli_connect :: "string \<Rightarrow> error option"
  cli_services :: api_env

datatype cli_output = UsageText | Text string

type_synonym cmd = "(cli_output list \<times> error option) op"

definition succeed :: "string list \<Rightarrow> cmd" where
  "succeed out = Return (map Text out, None)"

definition fail_with :: "string \<Rightarrow> cmd" where
  "fail_with msg = Return ([], Some (ErrText msg))"

text \<open>\<open>if v, err := m; err != nil { return err }\<close>\<close>

definition try_op :: "'a op \<Rightarrow> ('a \<Rightarrow> cmd) \<Rightarrow> cmd" where
  "try_op m k = andThen (Attempt m) (\<lambda>r. case r of Inl e \<Rightarrow> Return ([], Some e) | Inr x \<Rightarrow> k x)"

definition tab :: string where "tab = [CHR 0x09]"
definition eol :: string where "eol = [CHR 0x0A]"
definition esc :: string where "esc = [CHR 0x1B]"

definition ok_line :: "string \<Rightarrow> string" where
  "ok_line s = esc @ ''[0;32m[ OK ]'' @ esc @ ''[0m '' @ s @ eol"

definition fail_line :: "string \<Rightarrow> string" where
  "fail_line s = esc @ ''[0;31m[FAIL]'' @ esc @ ''[0m '' @ s @ eol"

text \<open>The verb \<open>%v\<close> of a boolean, and the layout of the times in lists.\<close>

definition go_bool :: "bool \<Rightarrow> string" where
  "go_bool b = (if b then ''true'' else ''false'')"

definition iso_layout :: string where "iso_layout = ''2006-01-02T15:04:05Z''"

definition last_used :: "cli_env \<Rightarrow> int option \<Rightarrow> string" where
  "last_used E t = (case t of None \<Rightarrow> ''never'' | Some u \<Rightarrow> cli_time E iso_layout u)"

section \<open>Arguments\<close>

definition arg :: "string list \<Rightarrow> nat \<Rightarrow> string \<Rightarrow> (string \<Rightarrow> cmd) \<Rightarrow> cmd" where
  "arg as i what k = (if i \<ge> length as then fail_with (what @ '' required'') else k (as ! i))"

text \<open>
  \<open>parseFlags\<close>: the values given to the string flags \<open>sf\<close>, the boolean flags \<open>bf\<close> that are set, and the positional arguments.
\<close>

fun parse_from :: "string list \<Rightarrow> string list \<Rightarrow> string list \<Rightarrow> (string \<rightharpoonup> string) \<times> string list \<times> string list
    \<Rightarrow> (string \<rightharpoonup> string) \<times> string list \<times> string list" where
  "parse_from sf bf [] acc = acc"
| "parse_from sf bf (a # rest) (sv, bv, pos) =
     (if a \<in> set bf then parse_from sf bf rest (sv, a # bv, pos)
      else case Cut a ''='' of (n, v, has) \<Rightarrow>
        if has \<and> HasPrefix a ''--'' \<and> n \<in> set sf then parse_from sf bf rest (sv(n \<mapsto> v), bv, pos)
        else if a \<in> set sf \<and> rest \<noteq> [] then parse_from sf bf (tl rest) (sv(a \<mapsto> hd rest), bv, pos)
        else parse_from sf bf rest (sv, bv, pos @ [a]))"

definition parseFlags :: "string list \<Rightarrow> string list \<Rightarrow> string list \<Rightarrow> (string \<Rightarrow> string) \<times> (string \<Rightarrow> bool) \<times> string list" where
  "parseFlags sf bf as = (case parse_from sf bf as (\<lambda>n. None, [], []) of (sv, bv, pos) \<Rightarrow>
     (\<lambda>n. case sv n of None \<Rightarrow> [] | Some v \<Rightarrow> v, \<lambda>n. n \<in> set bv, pos))"

text \<open>A password from the flag or typed twice.\<close>

definition ask_password :: "cli_env \<Rightarrow> string \<Rightarrow> string \<Rightarrow> error + string" where
  "ask_password E prompt password =
     (if password \<noteq> [] then Inr password
      else case cli_password E prompt of Inl e \<Rightarrow> Inl e
        | Inr p1 \<Rightarrow> (case cli_password E ''Confirm password: '' of Inl e \<Rightarrow> Inl e
        | Inr p2 \<Rightarrow> if p1 \<noteq> p2 then Inl (ErrText ''passwords did not match'') else Inr p1))"

definition confirm :: "cli_env \<Rightarrow> bool" where
  "confirm E \<longleftrightarrow> TrimSpace (cli_line E) \<noteq> []"

section \<open>Domains\<close>

definition cmdDomainCatchAll :: "lib \<Rightarrow> string list \<Rightarrow> cmd" where
  "cmdDomainCatchAll L as =
     arg as 0 ''domain'' (\<lambda>domain.
     if length as < 2
     then try_op (CatchAllGet L domain) (\<lambda>dest. succeed [(if dest = [] then ''off'' else dest) @ eol])
     else let dest = (if as ! 1 = ''off'' then [] else as ! 1) in
       try_op (CatchAllSet L domain dest) (\<lambda>_. succeed [ok_line (if dest = [] then ''Catch-all turned off for '' @ domain
         else ''Mail for nonexistent addresses at '' @ domain @ '' now goes to '' @ dest)]))"

definition cmdDomain :: "lib \<Rightarrow> cli_env \<Rightarrow> string list \<Rightarrow> cmd" where
  "cmdDomain L E as = (case as of
       [] \<Rightarrow> fail_with ''usage: patrabahok domain <add|list|remove> ...''
     | action # rest \<Rightarrow>
         if action = ''add''
         then arg rest 0 ''domain'' (\<lambda>name. try_op (DomainAdd L name) (\<lambda>_. succeed [ok_line (''Domain added: '' @ name)]))
         else if action = ''catchall'' then cmdDomainCatchAll L rest
         else if action = ''list'' then try_op (DomainList L) (\<lambda>list. succeed (map (\<lambda>d. d_name d @ eol) list))
         else if action = ''remove''
         then (case parseFlags [] [''--force''] rest of (sv, bv, positional) \<Rightarrow>
           arg positional 0 ''domain'' (\<lambda>name.
           if \<not> bv ''--force'' \<and> TrimSpace (cli_line E) \<noteq> name then fail_with ''confirmation did not match, aborted''
           else try_op (DomainRemove L name) (\<lambda>_. succeed [ok_line (''Domain removed: '' @ name)])))
         else fail_with (''unknown domain action: '' @ action))"

section \<open>Mailboxes\<close>

definition cmdMailboxForward :: "lib \<Rightarrow> string list \<Rightarrow> cmd" where
  "cmdMailboxForward L as = (case parseFlags [] [''--no-copy''] as of (sv, bv, positional) \<Rightarrow>
     let noCopy = bv ''--no-copy'' in
     arg positional 0 ''user@domain'' (\<lambda>email.
     arg positional 1 (''destination address (or '' @ [CHR 0x27] @ ''off'' @ [CHR 0x27] @ '')'') (\<lambda>dest.
     if dest = ''off'' then try_op (ForwardClear L email) (\<lambda>_. succeed [ok_line (''Forwarding turned off for '' @ email)])
     else try_op (ForwardSet L email dest (\<not> noCopy)) (\<lambda>_. succeed [ok_line (email @ '' now forwards to '' @ dest @ '' (''
       @ (if noCopy then ''without keeping a copy'' else ''keeping a copy'') @ '')'')]))))"

definition mailbox_line :: "lib \<Rightarrow> mailbox \<Rightarrow> string" where
  "mailbox_line L m = Email m @ tab @ ''enabled='' @ go_bool (IsEnabled m) @ tab @ ''quota_bytes='' @ itoa (QuotaBytes m) @ tab
     @ ''name='' @ Quote (uni L) (DisplayName m) @ eol"

definition cmdMailbox :: "lib \<Rightarrow> cli_env \<Rightarrow> string list \<Rightarrow> cmd" where
  "cmdMailbox L E as = (case as of
       [] \<Rightarrow> fail_with ''usage: patrabahok mailbox <add|list|remove|passwd|quota|name|enable|disable> ...''
     | action # rest \<Rightarrow>
         if action = ''add''
         then (case parseFlags [''--quota'', ''--password''] [] rest of (sv, bv, positional) \<Rightarrow>
           arg positional 0 ''user@domain'' (\<lambda>email.
           try_op (Lift (ask_password E (''Password for '' @ email @ '': '') (sv ''--password''))) (\<lambda>password.
           if password = [] then fail_with ''password cannot be empty''
           else try_op (Lift (ParseQuota L (sv ''--quota''))) (\<lambda>quotaBytes.
           try_op (MailboxAdd L email password quotaBytes) (\<lambda>_.
           succeed [ok_line (''Mailbox ready: '' @ email @ '' (quota: '' @ itoa quotaBytes @ '' bytes)'')])))))
         else if action = ''list''
         then try_op (MailboxList L (if rest = [] then [] else hd rest)) (\<lambda>list. succeed (map (mailbox_line L) list))
         else if action = ''remove''
         then (case parseFlags [] [''--force''] rest of (sv, bv, positional) \<Rightarrow>
           arg positional 0 ''user@domain'' (\<lambda>email.
           if \<not> bv ''--force'' \<and> \<not> confirm E then fail_with ''aborted''
           else try_op (MailboxRemove L email) (\<lambda>_. succeed [ok_line (''Mailbox removed: '' @ email)])))
         else if action = ''passwd''
         then (case parseFlags [''--password''] [] rest of (sv, bv, positional) \<Rightarrow>
           arg positional 0 ''user@domain'' (\<lambda>email.
           try_op (Lift (ask_password E (''New password for '' @ email @ '': '') (sv ''--password''))) (\<lambda>password.
           try_op (MailboxPasswd L email password) (\<lambda>_. succeed [ok_line (''Password updated for '' @ email)]))))
         else if action = ''quota''
         then arg rest 0 ''user@domain'' (\<lambda>email. arg rest 1 ''quota (e.g. 2G)'' (\<lambda>quotaStr.
           try_op (Lift (ParseQuota L quotaStr)) (\<lambda>quotaBytes.
           try_op (MailboxSetQuota L email quotaBytes) (\<lambda>_.
           succeed [ok_line (''Quota for '' @ email @ '' set to '' @ itoa quotaBytes @ '' bytes'')]))))
         else if action = ''name''
         then arg rest 0 ''user@domain'' (\<lambda>email.
           let name = TrimSpace (Join (tl rest) '' '') in
           try_op (MailboxSetName L email name) (\<lambda>_. succeed [ok_line (''Name for '' @ email @ '' set to '' @ Quote (uni L) name)]))
         else if action = ''forward'' then cmdMailboxForward L rest
         else if action = ''enable'' \<or> action = ''disable''
         then arg rest 0 ''user@domain'' (\<lambda>email.
           try_op (MailboxSetEnabled L email (action = ''enable'')) (\<lambda>_. succeed [ok_line (''Mailbox '' @ action @ ''d: '' @ email)]))
         else fail_with (''unknown mailbox action: '' @ action))"

definition cmdAlias :: "lib \<Rightarrow> string list \<Rightarrow> cmd" where
  "cmdAlias L as = (case as of
       [] \<Rightarrow> fail_with ''usage: patrabahok alias <add|list|remove> ...''
     | action # rest \<Rightarrow>
         if action = ''add''
         then arg rest 0 ''alias@domain'' (\<lambda>source. arg rest 1 ''target@domain'' (\<lambda>dest.
           try_op (AliasAdd L source dest) (\<lambda>_. succeed [ok_line (''Alias added: '' @ source @ '' -> '' @ dest)])))
         else if action = ''list''
         then try_op (AliasList L (if rest = [] then [] else hd rest)) (\<lambda>list.
           succeed (map (\<lambda>a. Source a @ '' -> '' @ Destination a @ eol) list))
         else if action = ''remove''
         then arg rest 0 ''alias@domain'' (\<lambda>source. arg rest 1 ''target@domain'' (\<lambda>dest.
           try_op (AliasRemove L source dest) (\<lambda>_. succeed [ok_line (''Alias removed: '' @ source @ '' -> '' @ dest)])))
         else fail_with (''unknown alias action: '' @ action))"

section \<open>Groups\<close>

definition cmdGroupCreate :: "lib \<Rightarrow> string \<Rightarrow> string list \<Rightarrow> cmd" where
  "cmdGroupCreate L action rest = (case parseFlags [''--name'', ''--description'', ''--post''] [''--external'', ''--no-external''] rest of (sv, bv, positional) \<Rightarrow>
     arg positional 0 ''group@domain'' (\<lambda>email.
     let name = sv ''--name''; description = sv ''--description''; post = sv ''--post'';
         external = bv ''--external''; noExternal = bv ''--no-external'' in
     if action = ''update''
     then try_op (GroupGet L email) (\<lambda>g.
       let settings = \<lparr>S_Name = (if name = [] then G_Name g else name),
             S_Description = (if description = [] then G_Description g else description),
             S_PostPolicy = (if post = [] then G_PostPolicy g else post),
             S_AllowExternal = (if noExternal then False else if external then True else G_AllowExternal g)\<rparr> in
       try_op (GroupUpdate L email settings) (\<lambda>_. succeed [ok_line (''Group updated: '' @ email)]))
     else let settings = \<lparr>S_Name = (if name = [] then fst (Cut email ''@'') else name), S_Description = description,
             S_PostPolicy = (if post = [] then ''organization'' else post), S_AllowExternal = external\<rparr> in
       try_op (GroupCreate L email settings) (\<lambda>_.
         succeed [ok_line (''Group created: '' @ ToLower (uni L) email @ '' (posting: '' @ S_PostPolicy settings @ '')'')])))"

definition group_line :: "lib \<Rightarrow> group_info \<Rightarrow> string" where
  "group_line L g = G_Email g @ tab @ ''members='' @ nat_itoa (G_MemberCount g) @ tab @ ''post='' @ G_PostPolicy g @ tab
     @ ''external='' @ go_bool (G_AllowExternal g) @ tab @ ''name='' @ Quote (uni L) (G_Name g) @ eol"

definition show_group :: "lib \<Rightarrow> group_info \<Rightarrow> string list" where
  "show_group L g =
     [G_Email g @ ''  '' @ Quote (uni L) (G_Name g) @ eol @ ''posting: '' @ G_PostPolicy g @ ''  external members: '' @ go_bool (G_AllowExternal g) @ eol]
     @ (if G_Description g \<noteq> [] then [G_Description g @ eol] else [])"

definition show_members :: "group_member list \<Rightarrow> string list" where
  "show_members members =
     [eol @ nat_itoa (length members) @ '' member(s):'' @ eol]
     @ map (\<lambda>m. ''  '' @ GM_Address m @ tab @ GM_Role m @ tab @ GM_Kind m @ eol) members"

definition result_line :: "string \<Rightarrow> member_result \<Rightarrow> string" where
  "result_line role r = (if MR_Added r then ok_line (''Added '' @ MR_Address r @ '' as '' @ role)
     else fail_line (MR_Address r @ '': '' @ MR_Error r))"

definition cmdGroupAdd :: "lib \<Rightarrow> string list \<Rightarrow> cmd" where
  "cmdGroupAdd L rest = (case parseFlags [] [''--owner''] rest of (sv, bv, positional) \<Rightarrow>
     arg positional 0 ''group@domain'' (\<lambda>email.
     if length positional < 2 then fail_with ''usage: patrabahok group add <group@domain> <address>... [--owner]''
     else let role = (if bv ''--owner'' then RoleOwner else RoleMember) in
       try_op (GroupAddMembers L email (tl positional) role) (\<lambda>results.
       let failed = length (filter (\<lambda>r. \<not> MR_Added r) results) in
       Return (map (\<lambda>r. Text (result_line role r)) results,
         if failed > 0 then Some (ErrText (nat_itoa failed @ '' address(es) could not be added'')) else None))))"

definition cmdGroup :: "lib \<Rightarrow> string list \<Rightarrow> cmd" where
  "cmdGroup L as = (case as of
       [] \<Rightarrow> fail_with ''usage: patrabahok group <create|list|show|update|delete|add|remove|role> ...''
     | action # rest \<Rightarrow>
         if action = ''create'' \<or> action = ''update'' then cmdGroupCreate L action rest
         else if action = ''list''
         then try_op (GroupList L (if rest = [] then [] else hd rest) []) (\<lambda>list. succeed (map (group_line L) list))
         else if action = ''show''
         then arg rest 0 ''group@domain'' (\<lambda>email.
           try_op (GroupGet L email) (\<lambda>g. andThen (Attempt (GroupMembers L email)) (\<lambda>r. case r of
               Inl e \<Rightarrow> Return (map Text (show_group L g), Some e)
             | Inr members \<Rightarrow> succeed (show_group L g @ show_members members))))
         else if action = ''delete''
         then arg rest 0 ''group@domain'' (\<lambda>email. try_op (GroupDelete L email) (\<lambda>_. succeed [ok_line (''Group deleted: '' @ email)]))
         else if action = ''add'' then cmdGroupAdd L rest
         else if action = ''remove''
         then arg rest 0 ''group@domain'' (\<lambda>email. arg rest 1 ''member address'' (\<lambda>member.
           try_op (GroupRemoveMember L email member) (\<lambda>_. succeed [ok_line (''Removed '' @ member @ '' from '' @ email)])))
         else if action = ''role''
         then arg rest 0 ''group@domain'' (\<lambda>email. arg rest 1 ''member address'' (\<lambda>member. arg rest 2 ''role (member or owner)'' (\<lambda>role.
           try_op (GroupSetMemberRole L email member role) (\<lambda>_. succeed [ok_line (member @ '' is now a '' @ role @ '' of '' @ email)]))))
         else fail_with (''unknown group action: '' @ action))"

section \<open>Records, queue, status, log\<close>

definition cmdDKIM :: "lib \<Rightarrow> string list \<Rightarrow> cmd" where
  "cmdDKIM L as =
     (if length as < 2 \<or> as ! 0 \<noteq> ''show'' \<and> as ! 0 \<noteq> ''rotate''
      then fail_with ''usage: patrabahok dkim show <domain> | patrabahok dkim rotate <domain>''
      else if as ! 0 = ''rotate''
      then try_op (RotateDKIMKey L (as ! 1)) (\<lambda>_. succeed [ok_line (''DKIM key rotated for '' @ as ! 1 @ '' '' @ dash
        @ '' republish its DNS TXT record now (dashboard DNS Analysis, Cloudflare auto-configure, or '' @ [CHR 0x27]
        @ ''patrabahok dkim show '' @ as ! 1 @ [CHR 0x27] @ '')'')])
      else try_op (DKIMRecord (as ! 1)) (\<lambda>rec. succeed [rec]))"

definition cmdDNS :: "string list \<Rightarrow> cmd" where
  "cmdDNS as =
     (if length as < 2 \<or> as ! 0 \<noteq> ''show'' then fail_with ''usage: patrabahok dns show <domain>''
      else try_op (DNSRecords (as ! 1)) (\<lambda>rec. succeed [rec]))"

definition cmdMTASTS :: "lib \<Rightarrow> cli_env \<Rightarrow> string list \<Rightarrow> cmd" where
  "cmdMTASTS L E as =
     (if length as < 2 \<or> as ! 0 \<noteq> ''enable'' then fail_with ''usage: patrabahok mta-sts enable <domain>''
      else let domain = as ! 1 in
        try_op (Enable L (env_lookup (cli_services E)) (env_certbot (cli_services E)) domain) (\<lambda>i.
          succeed [ok_line (''MTA-STS hosting enabled for '' @ domain @ '' (policy id '' @ i @ '') '' @ dash @ '' https://'' @ Hostname domain
            @ ''/.well-known/mta-sts.txt'')]))"

definition cmdQueue :: "lib \<Rightarrow> string list \<Rightarrow> cmd" where
  "cmdQueue L as = (case as of
       [] \<Rightarrow> fail_with ''usage: patrabahok queue <list|flush>''
     | action # rest \<Rightarrow>
         if action = ''list'' then andThen (QueueList L) (\<lambda>(out, err). Return ([Text out], err))
         else if action = ''flush'' then andThen (QueueFlush L) (\<lambda>(out, err). case err of
             Some e \<Rightarrow> Return ([Text out], Some e)
           | None \<Rightarrow> succeed [out, ok_line ''Queue flush requested.''])
         else fail_with (''unknown queue action: '' @ action))"

definition cmdStatus :: "lib \<Rightarrow> cli_env \<Rightarrow> cmd" where
  "cmdStatus L E = try_op (InstallerState L) (\<lambda>st. succeed [cli_state E st])"

definition entry_line :: "cli_env \<Rightarrow> audit_entry \<Rightarrow> string" where
  "entry_line E e = cli_time E ''2006-01-02 15:04:05'' (AE_At e) @ tab @ AE_Actor e @ tab @ AE_Action e @ tab @ AE_Target e @ tab @ AE_Detail e @ eol"

definition cmdAudit :: "lib \<Rightarrow> cli_env \<Rightarrow> string list \<Rightarrow> cmd" where
  "cmdAudit L E as = (case parseFlags [''--search'', ''--limit''] [] as of (sv, bv, positional) \<Rightarrow>
     (case (if sv ''--limit'' = [] then Some 50 else scan_int (sv ''--limit'')) of
        None \<Rightarrow> fail_with (''invalid --limit: '' @ sv ''--limit'')
      | Some n \<Rightarrow>
          if n \<le> 0 then fail_with (''invalid --limit: '' @ sv ''--limit'')
          else try_op (AuditList L \<lparr>AF_Query = sv ''--search'', AF_Limit = n, AF_Offset = 0\<rparr>) (\<lambda>(entries, _).
            succeed (map (entry_line E) entries))))"

section \<open>Tokens, keys, dashboard accounts\<close>

definition token_line :: "cli_env \<Rightarrow> token_info \<Rightarrow> string" where
  "token_line E t = TI_Name t @ tab @ ''scopes='' @ Join (TI_Scopes t) '','' @ tab @ ''created='' @ cli_time E iso_layout (TI_CreatedAt t) @ tab
     @ ''last_used='' @ last_used E (TI_LastUsedAt t) @ eol"

definition key_line :: "cli_env \<Rightarrow> key_info \<Rightarrow> string" where
  "key_line E k = KI_Domain k @ tab @ ''key=...'' @ KI_Hint k @ tab @ ''created='' @ cli_time E iso_layout (KI_CreatedAt k) @ tab
     @ ''last_used='' @ last_used E (KI_LastUsedAt k) @ eol"

definition cmdAPIKey :: "lib \<Rightarrow> cli_env \<Rightarrow> string list \<Rightarrow> cmd" where
  "cmdAPIKey L E as = (case as of
       [] \<Rightarrow> fail_with ''usage: patrabahok api key <generate|list|revoke> ...''
     | action # rest \<Rightarrow>
         if action = ''generate''
         then arg rest 0 ''domain'' (\<lambda>domain. try_op (KeyGenerate L (ToLower (uni L) domain)) (\<lambda>plaintext. succeed [plaintext @ eol]))
         else if action = ''list'' then try_op (KeyList L) (\<lambda>list. succeed (map (key_line E) list))
         else if action = ''revoke''
         then arg rest 0 ''domain'' (\<lambda>domain. try_op (KeyRevoke L (ToLower (uni L) domain)) (\<lambda>_. succeed [ok_line (''API key revoked for '' @ domain)]))
         else fail_with (''unknown api key action: '' @ action))"

definition cmdAPIToken :: "lib \<Rightarrow> cli_env \<Rightarrow> string list \<Rightarrow> cmd" where
  "cmdAPIToken L E as = (case as of
       [] \<Rightarrow> fail_with ''usage: patrabahok api token <create|list|revoke> ...''
     | action # rest \<Rightarrow>
         if action = ''create''
         then (case parseFlags [''--scope''] [] rest of (sv, bv, positional) \<Rightarrow>
           arg positional 0 ''token name'' (\<lambda>name.
           try_op (TokenCreate L name (if sv ''--scope'' = [] then [] else split_on (CHR '','') (sv ''--scope''))) (\<lambda>plaintext.
           succeed [plaintext @ eol])))
         else if action = ''list'' then try_op TokenList (\<lambda>list. succeed (map (token_line E) list))
         else if action = ''revoke''
         then arg rest 0 ''token name'' (\<lambda>name. try_op (TokenRevoke L name) (\<lambda>_. succeed [ok_line (''Token revoked: '' @ name)]))
         else fail_with (''unknown api token action: '' @ action))"

definition cmdAPI :: "lib \<Rightarrow> cli_env \<Rightarrow> string list \<Rightarrow> cmd" where
  "cmdAPI L E as = (case as of
       [] \<Rightarrow> fail_with ''usage: patrabahok api <token|key> ...''
     | what # rest \<Rightarrow>
         if what = ''key'' then cmdAPIKey L E rest
         else if what \<noteq> ''token'' then fail_with ''usage: patrabahok api <token|key> ...''
         else cmdAPIToken L E rest)"

definition cmdWebAdmin :: "lib \<Rightarrow> cli_env \<Rightarrow> string list \<Rightarrow> cmd" where
  "cmdWebAdmin L E as = (case as of
       [] \<Rightarrow> fail_with ''usage: patrabahok webadmin <add|passwd|list|remove> ...''
     | action # rest \<Rightarrow>
         if action = ''add''
         then (case parseFlags [''--password''] [] rest of (sv, bv, positional) \<Rightarrow>
           arg positional 0 ''username'' (\<lambda>username.
           try_op (Lift (ask_password E (''Password for dashboard user '' @ username @ '': '') (sv ''--password''))) (\<lambda>password.
           if length password < 8 then fail_with ''password must be at least 8 characters''
           else try_op (CreateUser L username password) (\<lambda>_. succeed [ok_line (''Dashboard admin created: '' @ username)]))))
         else if action = ''passwd''
         then (case parseFlags [''--password''] [] rest of (sv, bv, positional) \<Rightarrow>
           arg positional 0 ''username'' (\<lambda>username.
           try_op (Lift (ask_password E (''New password for dashboard user '' @ username @ '': '') (sv ''--password''))) (\<lambda>password.
           if length password < 8 then fail_with ''password must be at least 8 characters''
           else try_op (ChangePassword L username password) (\<lambda>_.
             succeed [ok_line (''Password changed for '' @ username @ '' (all of their sessions were signed out)'')]))))
         else if action = ''list'' then try_op (ListUsers L) (\<lambda>list. succeed (map (\<lambda>u. AU_Username u @ eol) list))
         else if action = ''remove''
         then arg rest 0 ''username'' (\<lambda>username. try_op (DeleteUser L username) (\<lambda>_. succeed [ok_line (''Dashboard admin removed: '' @ username)]))
         else fail_with (''unknown webadmin action: '' @ action))"

section \<open>The program\<close>

definition dispatch :: "lib \<Rightarrow> cli_env \<Rightarrow> string \<Rightarrow> string list \<Rightarrow> cmd" where
  "dispatch L E grp rest =
     (if grp = ''domain'' then cmdDomain L E rest
      else if grp = ''mailbox'' then cmdMailbox L E rest
      else if grp = ''alias'' then cmdAlias L rest
      else if grp = ''group'' then cmdGroup L rest
      else if grp = ''audit'' then cmdAudit L E rest
      else if grp = ''dkim'' then cmdDKIM L rest
      else if grp = ''dns'' then cmdDNS rest
      else if grp = ''mta-sts'' then cmdMTASTS L E rest
      else if grp = ''queue'' then cmdQueue L rest
      else if grp = ''status'' then cmdStatus L E
      else if grp = ''api'' then cmdAPI L E rest
      else if grp = ''webadmin'' then cmdWebAdmin L E rest
      else if grp = ''-h'' \<or> grp = ''--help'' then Return ([UsageText], None)
      else Return ([UsageText], Some (ErrText (''unknown command: '' @ grp))))"

text \<open>The target of a log entry: the first argument after the action that is neither a flag nor the value of one.\<close>

definition auditBoolFlags :: "string list" where
  "auditBoolFlags = [''--force'', ''--owner'', ''--external'', ''--no-external'', ''--no-copy'']"

fun audit_target :: "string list \<Rightarrow> string" where
  "audit_target [] = []"
| "audit_target (a # rest) =
     (if HasPrefix a ''--''
      then if \<not> Contains a ''='' \<and> a \<notin> set auditBoolFlags then audit_target (tl rest) else audit_target rest
      else a)"

definition readOnly :: "string list" where
  "readOnly = [''list'', ''show'', ''status'', ''dns'', ''audit'', ''-h'', ''--help'']"

text \<open>The action and the target of the entry a successful command leaves, if it leaves one.\<close>

definition audit_entry_of :: "string list \<Rightarrow> (string \<times> string) option" where
  "audit_entry_of as = (case as of
       [] \<Rightarrow> None
     | first # rest0 \<Rightarrow>
         if first \<in> set readOnly then None
         else let isAPI = (first = ''api'' \<and> rest0 \<noteq> []);
                  parts = (if isAPI then [first, hd rest0] else [first]);
                  rest = (if isAPI then tl rest0 else rest0)
           in if rest = [] \<or> hd rest \<in> set readOnly then None
              else if first = ''domain'' \<and> hd rest = ''catchall'' \<and> length rest < 3 then None
              else Some (Join (parts @ [hd rest]) ''.'', audit_target (tl rest)))"

definition auditCLI :: "string list \<Rightarrow> unit op" where
  "auditCLI as = (case audit_entry_of as of None \<Rightarrow> Return () | Some (action, target) \<Rightarrow> AuditRecord ''cli'' action target [] [])"

text \<open>\<open>db.Open\<close>: the settings are read and the database has to answer; \<open>connect\<close> is what becomes of the connection.\<close>

definition db_Open :: "(string \<Rightarrow> error option) \<Rightarrow> string \<Rightarrow> unit op" where
  "db_Open connect cfgPath = andThen (LoadDBConfig cfgPath) (\<lambda>cfg. case connect (DSN cfg) of
       Some e \<Rightarrow> Raise (Wrapped ''connect to database'' e) | None \<Rightarrow> Return ())"

definition run :: "lib \<Rightarrow> cli_env \<Rightarrow> string list \<Rightarrow> cmd" where
  "run L E as = (case as of
       [] \<Rightarrow> Return ([UsageText], None)
     | grp # rest \<Rightarrow>
         if \<not> cli_root E
         then fail_with ''patrabahok must be run as root (it manages mail data, DB credentials, and system files)''
         else try_op (db_Open (cli_connect E) []) (\<lambda>_.
           andThen (dispatch L E grp rest) (\<lambda>(out, err). case err of
               Some e \<Rightarrow> Return (out, Some e)
             | None \<Rightarrow> andThen (auditCLI as) (\<lambda>_. Return (out, None)))))"

text \<open>The deletion of a mailbox is confirmed by any line that is not blank, whatever address it holds.\<close>

lemma remove_confirmed_by_anything:
  assumes "TrimSpace (cli_line E) \<noteq> []" and "\<not> HasPrefix email ''--''"
  shows "cmdMailbox L E [''remove'', email] = try_op (MailboxRemove L email) (\<lambda>_. succeed [ok_line (''Mailbox removed: '' @ email)])"
  using assms by (auto simp: cmdMailbox_def parseFlags_def arg_def confirm_def Cut_def split: option.split)

end
