(* ===== verification/Cli_Audit.thy ===== *)
theory Cli_Audit
  imports Cli Frames
begin

text \<open>
  The log of the command line program: a command that fails leaves no entry, a command that changes something leaves one, and no flag's value is ever
  recorded as the target.
\<close>

section \<open>The target of an entry\<close>

text \<open>The flags of each command that has any: those with a value and those without.\<close>

definition cli_flags :: "(string list \<times> string list) list" where
  "cli_flags = [([], [''--force'']), ([''--quota'', ''--password''], []), ([''--password''], []), ([], [''--no-copy'']),
     ([''--name'', ''--description'', ''--post''], [''--external'', ''--no-external'']), ([], [''--owner'']), ([''--search'', ''--limit''], []),
     ([''--scope''], []), ([], [])]"

definition flags_ok :: "string list \<Rightarrow> string list \<Rightarrow> bool" where
  "flags_ok sf bf \<longleftrightarrow> list_all (\<lambda>f. HasPrefix f ''--'' \<and> CHR ''='' \<notin> set f \<and> f \<notin> set auditBoolFlags) sf \<and> list_all (\<lambda>f. f \<in> set auditBoolFlags) bf"

lemma cli_flags_ok: "(sf, bf) \<in> set cli_flags \<Longrightarrow> flags_ok sf bf"
  by (auto simp: cli_flags_def flags_ok_def auditBoolFlags_def)

lemma auditBoolFlags_shape: "f \<in> set auditBoolFlags \<Longrightarrow> HasPrefix f ''--'' \<and> CHR ''='' \<notin> set f"
  by (auto simp: auditBoolFlags_def)

text \<open>Where \<open>parseFlags\<close> stands after the first argument: a flag is consumed with its value, anything else is positional.\<close>

definition consumed :: "string list \<Rightarrow> string list \<Rightarrow> string \<Rightarrow> string list \<Rightarrow> string list option" where
  "consumed sf bf a rest =
     (if a \<in> set bf then Some rest
      else if (\<exists>n v. Cut a ''='' = (n, v, True) \<and> n \<in> set sf) \<and> HasPrefix a ''--'' then Some rest
      else if a \<in> set sf \<and> rest \<noteq> [] then Some (tl rest) else None)"

lemma parse_from_step:
  "\<exists>sv' bv'. parse_from sf bf (a # rest) (sv, bv, pos) = (case consumed sf bf a rest of
      Some left \<Rightarrow> parse_from sf bf left (sv', bv', pos)
    | None \<Rightarrow> parse_from sf bf rest (sv', bv', pos @ [a]))"
proof (cases "Cut a ''=''" rule: prod_cases3)
  case cut: (fields n v has)
  show ?thesis
  proof (cases "a \<in> set bf")
    case False
    then show ?thesis using cut by (cases "has \<and> HasPrefix a ''--'' \<and> n \<in> set sf") (auto simp: consumed_def)
  qed (auto simp: consumed_def)
qed

lemma consumed_shorter: "consumed sf bf a rest = Some left \<Longrightarrow> length left \<le> length rest"
  by (auto simp: consumed_def split: if_splits)

lemma parse_from_pos: "parse_from sf bf as (sv, bv, pos) = (sv', bv', pos') \<Longrightarrow> prefix pos pos'"
proof (induction as arbitrary: sv bv pos rule: length_induct)
  case (1 as)
  show ?case
  proof (cases as)
    case (Cons a rest)
    obtain sv1 bv1 where step: "parse_from sf bf as (sv, bv, pos) = (case consumed sf bf a rest of
        Some left \<Rightarrow> parse_from sf bf left (sv1, bv1, pos) | None \<Rightarrow> parse_from sf bf rest (sv1, bv1, pos @ [a]))"
      unfolding Cons using parse_from_step by metis
    show ?thesis
    proof (cases "consumed sf bf a rest")
      case None
      with step "1.prems" have "parse_from sf bf rest (sv1, bv1, pos @ [a]) = (sv', bv', pos')" by simp
      moreover have "length rest < length as" using Cons by simp
      ultimately have "prefix (pos @ [a]) pos'" using "1.IH" by blast
      then show ?thesis by (rule append_prefixD)
    next
      case (Some left)
      with step "1.prems" have "parse_from sf bf left (sv1, bv1, pos) = (sv', bv', pos')" by simp
      moreover have "length left < length as" using consumed_shorter [OF Some] Cons by simp
      ultimately show ?thesis using "1.IH" by blast
    qed
  qed (use "1.prems" in simp)
qed

lemma audit_target_step:
  assumes "flags_ok sf bf"
  shows "case consumed sf bf a rest of Some left \<Rightarrow> audit_target (a # rest) = audit_target left
    | None \<Rightarrow> HasPrefix a ''--'' \<or> audit_target (a # rest) = a"
proof (cases "a \<in> set bf")
  case True
  then have "a \<in> set auditBoolFlags" using assms by (auto simp: flags_ok_def list_all_iff)
  then show ?thesis using True auditBoolFlags_shape [of a] by (auto simp: consumed_def)
next
  case False
  have sf: "HasPrefix f ''--''" "CHR ''='' \<notin> set f" "f \<notin> set auditBoolFlags" if "f \<in> set sf" for f
    using assms that by (auto simp: flags_ok_def list_all_iff)
  have eq: "CHR ''='' \<in> set a" if "Cut a ''='' = (n, v, True)" for n v
    using that by (auto simp: Cut_char split: if_splits)
  have contains: "Contains a ''='' \<longleftrightarrow> CHR ''='' \<in> set a" for a by (rule Contains_char)
  show ?thesis
    using False sf sf [of a] by (auto simp: consumed_def contains dest: eq split: if_splits)
qed

lemma audit_target_positional_from:
  assumes "flags_ok sf bf" and "parse_from sf bf as (sv, bv, []) = (sv', bv', p # ps)" and "\<not> HasPrefix p ''--''"
  shows "audit_target as = p"
  using assms(2)
proof (induction as arbitrary: sv bv rule: length_induct)
  case (1 as)
  show ?case
  proof (cases as)
    case (Cons a rest)
    obtain sv1 bv1 where step: "parse_from sf bf as (sv, bv, []) = (case consumed sf bf a rest of
        Some left \<Rightarrow> parse_from sf bf left (sv1, bv1, []) | None \<Rightarrow> parse_from sf bf rest (sv1, bv1, [a]))"
      unfolding Cons using parse_from_step by (metis append_Nil)
    show ?thesis
    proof (cases "consumed sf bf a rest")
      case None
      with step "1.prems" have "parse_from sf bf rest (sv1, bv1, [a]) = (sv', bv', p # ps)" by simp
      then have "a = p" using parse_from_pos by force
      then show ?thesis using audit_target_step [OF assms(1), of a rest] None Cons assms(3) by simp
    next
      case (Some left)
      with step "1.prems" have "parse_from sf bf left (sv1, bv1, []) = (sv', bv', p # ps)" by simp
      moreover have "length left < length as" using consumed_shorter [OF Some] Cons by simp
      ultimately have "audit_target left = p" using "1.IH" by blast
      then show ?thesis using audit_target_step [OF assms(1), of a rest] Some Cons by simp
    qed
  qed (use "1.prems" in simp)
qed



section \<open>No command touches the log itself\<close>

lemma quiet_files [keeps_ops]:
  "keeps (quiet b) (QueueList L)" "keeps (quiet b) (QueueFlush L)"
  unfolding QueueList_def QueueFlush_def
  by (intro keeps_ops)+

lemma quiet_open [keeps_ops]: "keeps (quiet b) (db_Open c p)"
  unfolding db_Open_def LoadDBConfig_def by (intro keeps_ops)

text \<open>The commands.\<close>

lemma keeps_try [keeps_ops]: "keeps I m \<Longrightarrow> (\<And>x. keeps I (k x)) \<Longrightarrow> keeps I (try_op m k)"
  unfolding try_op_def by (intro keeps_ops)

lemma keeps_arg [keeps_ops]: "(\<And>x. keeps I (k x)) \<Longrightarrow> keeps I (arg as i what k)"
  by (simp add: arg_def fail_with_def keeps_Return)

lemma keeps_ends [keeps_ops]: "keeps I (succeed lines)" "keeps I (fail_with msg)"
  by (simp_all add: succeed_def fail_with_def keeps_Return)

lemma quiet_commands [keeps_ops]:
  "keeps (quiet b) (cmdDomain L E as)" "keeps (quiet b) (cmdMailbox L E as)" "keeps (quiet b) (cmdAlias L as)" "keeps (quiet b) (cmdGroup L as)"
  "keeps (quiet b) (cmdDKIM L as)" "keeps (quiet b) (cmdDNS as)" "keeps (quiet b) (cmdMTASTS L E as)" "keeps (quiet b) (cmdQueue L as)"
  "keeps (quiet b) (cmdStatus L E)" "keeps (quiet b) (cmdAudit L E as)" "keeps (quiet b) (cmdAPI L E as)" "keeps (quiet b) (cmdWebAdmin L E as)"
  unfolding cmdDomain_def cmdDomainCatchAll_def cmdMailbox_def cmdMailboxForward_def cmdAlias_def cmdGroup_def cmdGroupCreate_def cmdGroupAdd_def
    cmdDKIM_def cmdDNS_def cmdMTASTS_def cmdQueue_def cmdStatus_def cmdAudit_def cmdAPI_def cmdAPIKey_def cmdAPIToken_def cmdWebAdmin_def
  by (intro keeps_ops)+

lemma quiet_dispatch: "keeps (quiet b) (dispatch L E grp rest)"
  unfolding dispatch_def by (intro keeps_ops)

section \<open>One entry for every successful change\<close>

lemma after_try_op:
  "after (try_op m k) Q w = after m (\<lambda>r w'. case r of Inl e \<Rightarrow> Q (Inr ([], Some e)) w' | Inr x \<Rightarrow> after (k x) Q w') w"
  by (auto simp: after_def try_op_def andThen_def Attempt_def Return_def split: prod.split sum.split)

section \<open>What is recorded\<close>

text \<open>
  The commands that change something, independently of how \<open>auditCLI\<close> finds them: the words of each, which joined by dots are the action of its entry. The catch-all address of
  a domain is only changed when a destination is given.
\<close>

definition changing_commands :: "string list list" where
  "changing_commands =
    [[''domain'', ''add''], [''domain'', ''catchall''], [''domain'', ''remove''],
     [''mailbox'', ''add''], [''mailbox'', ''remove''], [''mailbox'', ''passwd''], [''mailbox'', ''quota''], [''mailbox'', ''name''], [''mailbox'', ''forward''],
     [''mailbox'', ''enable''], [''mailbox'', ''disable''], [''alias'', ''add''], [''alias'', ''remove''],
     [''group'', ''create''], [''group'', ''update''], [''group'', ''delete''], [''group'', ''add''], [''group'', ''remove''], [''group'', ''role''],
     [''dkim'', ''rotate''], [''mta-sts'', ''enable''], [''queue'', ''flush''], [''api'', ''key'', ''generate''], [''api'', ''key'', ''revoke''],
     [''api'', ''token'', ''create''], [''api'', ''token'', ''revoke''], [''webadmin'', ''add''], [''webadmin'', ''passwd''], [''webadmin'', ''remove'']]"

definition change_named :: "string list \<Rightarrow> (string \<times> string) option" where
  "change_named as = (case find (\<lambda>c. prefix c as) changing_commands of
       None \<Rightarrow> None
     | Some c \<Rightarrow> if c = [''domain'', ''catchall''] \<and> length as < 4 then None else Some (Join c ''.'', audit_target (drop (length c) as)))"

text \<open>Nothing is different: no table, no file, and no command was run; \<open>only_read\<close> allows the command that lists the queue.\<close>

definition unchanged :: "world \<Rightarrow> world \<Rightarrow> bool" where
  "unchanged w w' \<longleftrightarrow> touches w w' \<and> fs w' = fs w \<and> outbound w' = outbound w"

definition only_read :: "world \<Rightarrow> world \<Rightarrow> bool" where
  "only_read w w' \<longleftrightarrow> touches w w' \<and> fs w' = fs w \<and> outbound w' \<in> {outbound w, Ran [''postqueue'', ''-p''] # outbound w}"

lemma unchanged_simps [simp]: "unchanged w w" "unchanged b (tick w) = unchanged b w"
  by (simp_all add: unchanged_def touches_def tick_def)

lemma unchanged_reads:
  "keeps (unchanged b) (Query q)" "keeps (unchanged b) (ReadFile p)" "keeps (unchanged b) (CatchAllGet L d)" "keeps (unchanged b) (DomainList L)"
  "keeps (unchanged b) (MailboxList L d)" "keeps (unchanged b) (AliasList L d)" "keeps (unchanged b) (GroupList L d fq)" "keeps (unchanged b) (GroupGet L e)"
  "keeps (unchanged b) (GroupMembers L e)" "keeps (unchanged b) (KeyList L)" "keeps (unchanged b) TokenList" "keeps (unchanged b) (ListUsers L)"
  "keeps (unchanged b) (AuditList L af)" "keeps (unchanged b) (DKIMRecord d)" "keeps (unchanged b) (DNSRecords d)" "keeps (unchanged b) (InstallerState L)"
  "keeps (unchanged b) (db_Open c p)"
proof -
  have query: "keeps (unchanged b) (Query q)" for q :: "world \<Rightarrow> 'z" by (rule keeps_Query) simp
  have files: "keeps (unchanged b) (ReadFile p)" for p by (auto simp: keeps_def wp ReadFile_def)
  show "keeps (unchanged b) (Query q)" "keeps (unchanged b) (ReadFile p)" by (rule query, rule files)
  show "keeps (unchanged b) (CatchAllGet L d)" "keeps (unchanged b) (DomainList L)"
    "keeps (unchanged b) (MailboxList L d)" "keeps (unchanged b) (AliasList L d)" "keeps (unchanged b) (GroupList L d fq)" "keeps (unchanged b) (GroupGet L e)"
    "keeps (unchanged b) (GroupMembers L e)" "keeps (unchanged b) (KeyList L)" "keeps (unchanged b) TokenList" "keeps (unchanged b) (ListUsers L)"
    "keeps (unchanged b) (AuditList L af)"
    unfolding CatchAllGet_def domainID_def DomainList_def MailboxList_def AliasList_def GroupList_def GroupGet_def GroupMembers_def KeyList_def TokenList_def ListUsers_def
      AuditList_def
    by (intro query keeps_ops)+
  show "keeps (unchanged b) (DKIMRecord d)" "keeps (unchanged b) (DNSRecords d)" "keeps (unchanged b) (InstallerState L)" "keeps (unchanged b) (db_Open c p)"
    unfolding DKIMRecord_def DNSRecords_def InstallerState_def db_Open_def LoadDBConfig_def by (intro files keeps_ops)+
qed

text \<open>What the end of a command tells of its name: a command that succeeds has an entry exactly when it is named above, and has only read otherwise.\<close>

definition tells :: "string list \<Rightarrow> cmd \<Rightarrow> bool" where
  "tells as m \<longleftrightarrow> (\<forall>w. after m (\<lambda>r w'. \<forall>out. r = Inr (out, None) \<longrightarrow>
     audit_entry_of as = change_named as \<and> (change_named as = None \<longrightarrow> only_read w w')) w)"

lemmas names = audit_entry_of_def readOnly_def change_named_def changing_commands_def Let_def

lemma tells_change: "audit_entry_of as = change_named as \<Longrightarrow> change_named as \<noteq> None \<Longrightarrow> tells as m"
  by (auto simp: tells_def after_def split: prod.split)

lemma tells_read: "audit_entry_of as = None \<Longrightarrow> change_named as = None \<Longrightarrow> (\<And>b. keeps (unchanged b) m) \<Longrightarrow> tells as m"
  unfolding tells_def
proof (intro allI)
  fix w
  assume names: "audit_entry_of as = None" "change_named as = None" and m: "\<And>b. keeps (unchanged b) m"
  have "after m (\<lambda>r. unchanged w) w" by (rule keepsD [OF m]) simp
  then show "after m (\<lambda>r w'. \<forall>out. r = Inr (out, None) \<longrightarrow> audit_entry_of as = change_named as \<and> (change_named as = None \<longrightarrow> only_read w w')) w"
    by (rule after_mono) (simp add: names only_read_def unchanged_def)
qed

lemma tells_fail: "tells as (fail_with msg)"
  by (simp add: tells_def fail_with_def wp)

lemma tells_if: "(b \<Longrightarrow> tells as m) \<Longrightarrow> (\<not> b \<Longrightarrow> tells as n) \<Longrightarrow> tells as (if b then m else n)"
  by simp

lemma tells_or: "(b \<Longrightarrow> tells as m) \<Longrightarrow> (c \<Longrightarrow> tells as m) \<Longrightarrow> (\<not> b \<Longrightarrow> \<not> c \<Longrightarrow> tells as n) \<Longrightarrow> tells as (if b \<or> c then m else n)"
  by simp

lemma tells_arg: "(\<And>x. i < length xs \<Longrightarrow> tells as (k x)) \<Longrightarrow> tells as (arg xs i what k)"
  by (simp add: arg_def tells_fail)

lemma tells_domain: "tells (''domain'' # as) (cmdDomain L E as)"
proof (cases as)
  case (Cons action rest)
  have "tells (''domain'' # ''catchall'' # rest) (cmdDomainCatchAll L rest)"
  proof (cases "length rest < 2")
    case True
    have "keeps (unchanged b) (cmdDomainCatchAll L rest)" for b
      using True unfolding cmdDomainCatchAll_def by simp (intro keeps_ops unchanged_reads)
    with True show ?thesis by (intro tells_read) (simp_all add: names)
  qed (rule tells_change; simp add: names)
  then show ?thesis
    unfolding cmdDomain_def Cons list.case
    by (intro tells_if) (simp; fail | rule tells_fail | rule tells_change, (simp add: names; fail), (simp add: names; fail)
      | rule tells_read, (simp add: names; fail), (simp add: names; fail), intro keeps_ops unchanged_reads)+
qed (simp add: cmdDomain_def tells_fail)

lemma tells_mailbox: "tells (''mailbox'' # as) (cmdMailbox L E as)"
proof (cases as)
  case (Cons action rest)
  show ?thesis
    unfolding cmdMailbox_def Cons list.case
    by (intro tells_or tells_if) (rule tells_fail | rule tells_change, (simp add: names; fail), (simp add: names; fail)
      | rule tells_read, (simp add: names; fail), (simp add: names; fail), intro keeps_ops unchanged_reads)+
qed (simp add: cmdMailbox_def tells_fail)

lemma tells_alias: "tells (''alias'' # as) (cmdAlias L as)"
proof (cases as)
  case (Cons action rest)
  show ?thesis
    unfolding cmdAlias_def Cons list.case
    by (intro tells_or tells_if) (rule tells_fail | rule tells_change, (simp add: names; fail), (simp add: names; fail)
      | rule tells_read, (simp add: names; fail), (simp add: names; fail), intro keeps_ops unchanged_reads)+
qed (simp add: cmdAlias_def tells_fail)

lemma tells_group: "tells (''group'' # as) (cmdGroup L as)"
proof (cases as)
  case (Cons action rest)
  show ?thesis
    unfolding cmdGroup_def Cons list.case
    by (intro tells_or tells_if) (rule tells_fail | rule tells_change, (simp add: names; fail), (simp add: names; fail)
      | rule tells_read, (simp add: names; fail), (simp add: names; fail), intro keeps_ops unchanged_reads)+
qed (simp add: cmdGroup_def tells_fail)

lemma tells_key: "tells (''api'' # ''key'' # as) (cmdAPIKey L E as)"
proof (cases as)
  case (Cons action rest)
  show ?thesis
    unfolding cmdAPIKey_def Cons list.case
    by (intro tells_or tells_if) (rule tells_fail | rule tells_change, (simp add: names; fail), (simp add: names; fail)
      | rule tells_read, (simp add: names; fail), (simp add: names; fail), intro keeps_ops unchanged_reads)+
qed (simp add: cmdAPIKey_def tells_fail)

lemma tells_token: "tells (''api'' # ''token'' # as) (cmdAPIToken L E as)"
proof (cases as)
  case (Cons action rest)
  show ?thesis
    unfolding cmdAPIToken_def Cons list.case
    by (intro tells_or tells_if) (rule tells_fail | rule tells_change, (simp add: names; fail), (simp add: names; fail)
      | rule tells_read, (simp add: names; fail), (simp add: names; fail), intro keeps_ops unchanged_reads)+
qed (simp add: cmdAPIToken_def tells_fail)

lemma tells_webadmin: "tells (''webadmin'' # as) (cmdWebAdmin L E as)"
proof (cases as)
  case (Cons action rest)
  show ?thesis
    unfolding cmdWebAdmin_def Cons list.case
    by (intro tells_or tells_if) (rule tells_fail | rule tells_change, (simp add: names; fail), (simp add: names; fail)
      | rule tells_read, (simp add: names; fail), (simp add: names; fail), intro keeps_ops unchanged_reads)+
qed (simp add: cmdWebAdmin_def tells_fail)

lemma tells_api: "tells (''api'' # as) (cmdAPI L E as)"
proof (cases as)
  case (Cons what rest)
  then show ?thesis
    unfolding cmdAPI_def Cons list.case by (intro tells_if) (simp add: tells_key, simp_all add: tells_fail tells_token)
qed (simp add: cmdAPI_def tells_fail)

lemma tells_records:
  "tells (''dkim'' # as) (cmdDKIM L as)" "tells (''dns'' # as) (cmdDNS as)" "tells (''mta-sts'' # as) (cmdMTASTS L E as)" "tells (''status'' # as) (cmdStatus L E)"
  "tells (''audit'' # as) (cmdAudit L E as)" "tells (g # as) (Return (out, Some e))"
proof -
  show "tells (''dns'' # as) (cmdDNS as)" "tells (''status'' # as) (cmdStatus L E)" "tells (''audit'' # as) (cmdAudit L E as)"
    unfolding cmdDNS_def cmdStatus_def cmdAudit_def
    by (rule tells_read, (simp add: names; fail), (simp add: names; fail), intro keeps_ops unchanged_reads)+
  show "tells (g # as) (Return (out, Some e))" by (simp add: tells_def wp)
  have two: "\<not> length as < 2 \<Longrightarrow> as = as ! 0 # as ! 1 # drop 2 as" by (cases as; cases "tl as") auto
  show "tells (''dkim'' # as) (cmdDKIM L as)"
  proof (cases "length as < 2 \<or> as ! 0 \<noteq> ''show'' \<and> as ! 0 \<noteq> ''rotate''")
    case False
    then obtain x rest where as: "as = ''show'' # x # rest \<or> as = ''rotate'' # x # rest" using two by force
    then show ?thesis
    proof
      assume "as = ''show'' # x # rest"
      then show ?thesis
        by (auto simp: cmdDKIM_def names intro!: tells_read keeps_ops unchanged_reads)
    qed (auto simp: names intro!: tells_change)
  qed (simp add: cmdDKIM_def tells_fail)
  show "tells (''mta-sts'' # as) (cmdMTASTS L E as)"
  proof (cases "length as < 2 \<or> as ! 0 \<noteq> ''enable''")
    case False
    then obtain x rest where as: "as = ''enable'' # x # rest" using two by force
    then show ?thesis by (auto simp: names intro!: tells_change)
  qed (auto simp: cmdMTASTS_def tells_fail)
qed

lemma tells_queue: "tells (''queue'' # as) (cmdQueue L as)"
proof (cases as)
  case (Cons action rest)
  have "tells (''queue'' # ''list'' # rest) (andThen (QueueList L) (\<lambda>(out, err). Return ([Text out], err)))"
    by (auto simp: tells_def QueueList_def CombinedOutput_def wp names only_read_def touches_def)
  then show ?thesis
    unfolding cmdQueue_def Cons list.case by (intro tells_if) (simp_all add: tells_fail, (rule tells_change; simp add: names))
qed (simp add: cmdQueue_def tells_fail)

lemma tells_dispatch: "tells (grp # as) (dispatch L E grp as)"
proof -
  have usage: "tells (''-h'' # as) (Return (out, None))" "tells (''--help'' # as) (Return (out, None))" for out
    by (rule tells_read; simp add: names keeps_Return)+
  show ?thesis
    unfolding dispatch_def
    by (intro tells_or tells_if; (simp add: tells_domain tells_mailbox tells_alias tells_group tells_records tells_queue tells_api tells_webadmin usage; fail)?)
qed

section \<open>The property\<close>

definition logged :: "world \<Rightarrow> string list \<Rightarrow> error + (cli_output list \<times> error option) \<Rightarrow> world \<Rightarrow> bool" where
  "logged w as r w' \<longleftrightarrow> (\<exists>es. audit_log w' = audit_log w @ es \<and> (case r of
       Inr (out, None) \<Rightarrow> (case change_named as of
           Some (action, target) \<Rightarrow> if es = [] then faults w \<noteq> []
             else map (\<lambda>e. (au_actor e, au_action e, au_target e)) es = [(''cli'', clip action 64, clip target 255)]
         | None \<Rightarrow> es = [] \<and> only_read w w')
     | _ \<Rightarrow> es = []))"

lemma auditCLI_logged:
  assumes "quiet w w1" and "audit_entry_of as = change_named as" and "change_named as = None \<Longrightarrow> only_read w w1"
  shows "after (auditCLI as) (\<lambda>r w'. r = Inr () \<and> logged w as (Inr (out, None)) w') w1"
proof (cases "change_named as")
  case None
  then show ?thesis using assms by (simp add: auditCLI_def logged_def quiet_def wp)
next
  case (Some e)
  then obtain action target where e: "change_named as = Some (action, target)" by (cases e) auto
  have "fault w1 \<Longrightarrow> faults w \<noteq> []" using assms(1) by (auto simp: quiet_def fault_def split: if_splits)
  with assms(1,2) show ?thesis
    by (auto simp: auditCLI_def logged_def quiet_def e AuditRecord_def wp ins_audit_def clip_def)
qed

text \<open>
  C10: Every change made from the command line is recorded, and nothing else is. A command that fails leaves the log as it was. A command that succeeds and is one of
  \<open>changing_commands\<close> leaves exactly one entry, by the actor \<open>cli\<close> with the words of the command as its action and the command's target, unless a statement of the
  database failed. A command that succeeds and is none of those has changed nothing: no entry is made, every table and file is as it was, and at most the command that
  lists the queue was run.
\<close>

theorem run_audited:
  "after (run L E as) (\<lambda>r w'. \<exists>es. audit_log w' = audit_log w @ es \<and> (case r of
       Inr (out, None) \<Rightarrow> (case change_named as of
           Some (action, target) \<Rightarrow> if es = [] then faults w \<noteq> []
             else map (\<lambda>e. (au_actor e, au_action e, au_target e)) es = [(''cli'', clip action 64, clip target 255)]
         | None \<Rightarrow> es = [] \<and> only_read w w')
     | _ \<Rightarrow> es = [])) w"
proof -
  have "after (run L E as) (logged w as) w"
  proof (cases as)
    case Nil
    then show ?thesis by (simp add: run_def wp logged_def change_named_def changing_commands_def only_read_def)
  next
    case (Cons grp rest)
    have still: "quiet w w' \<Longrightarrow> logged w as (Inr (out, Some e)) w'" for w' out e by (simp add: logged_def quiet_def)
    define cmd where "cmd = andThen (dispatch L E grp rest) (\<lambda>(out, err). case err of
          Some e \<Rightarrow> Return (out, Some e) | None \<Rightarrow> andThen (auditCLI as) (\<lambda>_. Return (out, None)))"
    have cmd: "after cmd (logged w as) w1" if "quiet w w1" and same: "unchanged w w1" for w1
    proof -
      have told: "after (dispatch L E grp rest) (\<lambda>r w2. quiet w w2 \<and> (\<forall>out. r = Inr (out, None) \<longrightarrow>
          audit_entry_of as = change_named as \<and> (change_named as = None \<longrightarrow> only_read w w2))) w1"
        using keepsD [OF quiet_dispatch that(1), of L E grp rest] tells_dispatch [of grp rest L E] same
        by (fastforce simp: tells_def after_def Cons unchanged_def only_read_def touches_def split: prod.splits)
      have "after (case err of Some e \<Rightarrow> Return (out, Some e) | None \<Rightarrow> andThen (auditCLI as) (\<lambda>_. Return (out, None))) (logged w as) w2"
        if "quiet w w2" and "err = None \<Longrightarrow> audit_entry_of as = change_named as \<and> (change_named as = None \<longrightarrow> only_read w w2)" for out err w2
      proof (cases err)
        case None
        with that(2) show ?thesis
          unfolding None option.case wp by (intro after_mono [OF auditCLI_logged [OF that(1), of as out]]) auto
      qed (use still [OF that(1)] in \<open>simp add: wp\<close>)
      then have next_step: "after (case out of (out, err) \<Rightarrow> (case err of Some e \<Rightarrow> Return (out, Some e) | None \<Rightarrow> andThen (auditCLI as) (\<lambda>_. Return (out, None)))) (logged w as) w2"
        if "quiet w w2 \<and> (\<forall>x. (Inr out :: error + cli_output list \<times> error option) = Inr (x, None) \<longrightarrow>
          audit_entry_of as = change_named as \<and> (change_named as = None \<longrightarrow> only_read w w2))" for out w2
        using that by (cases out) auto
      show ?thesis
        unfolding cmd_def
      proof (rule after_seq [OF told])
        fix out w2
        assume "quiet w w2 \<and> (\<forall>x. (Inr out :: error + cli_output list \<times> error option) = Inr (x, None) \<longrightarrow>
          audit_entry_of as = change_named as \<and> (change_named as = None \<longrightarrow> only_read w w2))"
        then show "after (case out of (out, err) \<Rightarrow> (case err of Some e \<Rightarrow> Return (out, Some e) | None \<Rightarrow> andThen (auditCLI as) (\<lambda>_. Return (out, None)))) (logged w as) w2"
          by (rule next_step)
      qed (auto simp: logged_def quiet_def)
    qed
    have "after (db_Open (cli_connect E) []) (\<lambda>r w1. quiet w w1 \<and> unchanged w w1) w"
      using keepsD [OF quiet_open quiet_refl, of "cli_connect E" "[]" w] keepsD [OF unchanged_reads(17) unchanged_simps(1), of "cli_connect E" "[]" w]
      by (simp add: after_def split: prod.splits)
    then have "after (try_op (db_Open (cli_connect E) []) (\<lambda>_. cmd)) (logged w as) w"
      unfolding after_try_op by (rule after_mono) (auto intro: still cmd split: sum.split)
    then show ?thesis
      using still [OF quiet_refl] by (simp add: run_def Cons fail_with_def wp cmd_def [unfolded Cons])
  qed
  then show ?thesis by (simp add: logged_def [abs_def])
qed

text \<open>A server whose database answers.\<close>

definition cli_world :: world where
  "cli_world = empty_world\<lparr>fs := (fs empty_world)(DefaultMySQLCnfPath \<mapsto> File 0 (''user=u'' @ eol @ ''database=d'' @ eol))\<rparr>"

definition example_cli :: cli_env where
  "example_cli = \<lparr>cli_password = \<lambda>p. Inr ''secret'', cli_line = [], cli_root = True, cli_time = \<lambda>l t. [], cli_state = id, cli_connect = \<lambda>d. None,
     cli_services = no_env\<rparr>"

lemma example_config:
  "parse_config DefaultMySQLCnfPath (''user=u'' @ eol @ ''database=d'' @ eol) = Inr \<lparr>C_User = ''u'', C_Password = [], C_Host = ''127.0.0.1'', C_Database = ''d''\<rparr>"
proof -
  define c where "c = ''user=u'' @ eol @ ''database=d'' @ eol"
  have short: "\<not> list_ex (\<lambda>l. 65536 \<le> length l) (raw_lines c)" by (simp add: raw_lines_def eol_def c_def)
  have cfg: "fold config_line (scan_lines c) \<lparr>C_User = [], C_Password = [], C_Host = ''127.0.0.1'', C_Database = []\<rparr>
      = \<lparr>C_User = ''u'', C_Password = [], C_Host = ''127.0.0.1'', C_Database = ''d''\<rparr>"
  proof -
    have "scan_lines c = [''user=u'', ''database=d'']" by (simp add: scan_lines_def raw_lines_def eol_def c_def TrimSuffix_def suffix_def)
    moreover have "fold config_line [''user=u'', ''database=d''] \<lparr>C_User = [], C_Password = [], C_Host = ''127.0.0.1'', C_Database = []\<rparr>
      = \<lparr>C_User = ''u'', C_Password = [], C_Host = ''127.0.0.1'', C_Database = ''d''\<rparr>" by code_simp
    ultimately show ?thesis by simp
  qed
  show ?thesis unfolding c_def [symmetric] by (simp add: parse_config_def short cfg)
qed

theorem run_audited_witness:
  "after (run example_lib example_cli [''alias'', ''remove'', ''a@example.com'', ''b@example.com'']) (\<lambda>r w'. length (audit_log w') = 1
     \<and> au_action (hd (audit_log w')) = ''alias.remove'' \<and> au_target (hd (audit_log w')) = ''a@example.com'') cli_world"
proof -
  let ?as = "[''alias'', ''remove'', ''a@example.com'', ''b@example.com'']"
  have entry: "audit_entry_of ?as = Some (''alias.remove'', ''a@example.com'')" and named: "change_named ?as = Some (''alias.remove'', ''a@example.com'')"
    by code_simp+
  have opens: "after (db_Open (cli_connect example_cli) []) (\<lambda>r w. r = Inr () \<and> w = cli_world) cli_world"
    using example_config
    by (simp add: db_Open_def LoadDBConfig_def wp ReadFile_def example_cli_def cli_world_def empty_world_def fault_def tick_def eol_def)
  have removes: "after (dispatch example_lib example_cli ''alias'' [''remove'', ''a@example.com'', ''b@example.com''])
      (\<lambda>r w. \<exists>out. r = Inr (out, None)) cli_world"
    by (simp add: dispatch_def cmdAlias_def arg_def AliasRemove_def after_try_op wp del_aliases_def succeed_def cli_world_def empty_world_def fault_def)
  have records: "after (auditCLI ?as) (\<lambda>r w. r = Inr ()) w" for w
    unfolding auditCLI_def entry using AuditRecord_total [of "''cli''" "''alias.remove''" "''a@example.com''" "[]" "[]" w]
    by (auto simp: after_def)
  have "after (andThen (dispatch example_lib example_cli ''alias'' [''remove'', ''a@example.com'', ''b@example.com'']) (\<lambda>(out, err). case err of
      Some e \<Rightarrow> Return (out, Some e) | None \<Rightarrow> andThen (auditCLI ?as) (\<lambda>_. Return (out, None)))) (\<lambda>r w'. \<exists>out. r = Inr (out, None)) cli_world"
    by (rule after_seq [OF removes]) (auto intro!: after_mono [OF records] simp: after_andThen after_Return)
  then have "after (run example_lib example_cli ?as) (\<lambda>r w'. \<exists>out. r = Inr (out, None)) cli_world"
    unfolding run_def list.case
    by (simp add: example_cli_def [THEN arg_cong [where f = cli_root]] after_try_op after_mono [OF opens])
  moreover have "audit_log cli_world = []" "faults cli_world = []" by (simp_all add: cli_world_def empty_world_def)
  ultimately show ?thesis
    using run_audited [of example_lib example_cli ?as cli_world] unfolding named
    by (cases "run example_lib example_cli ?as cli_world") (auto simp: after_def clip_def split: if_splits)
qed

end
