(* ===== verification/Program_Invariant.thy ===== *)
theory Program_Invariant
  imports Dashboard Publicapi_Isolation Cli_Audit
begin

text \<open>
  Predicates on the world that the dashboard keeps. What the handlers do to the world is stated once, as the assumptions of \<open>program_invariant\<close>: the statements on the accounts, the
  operations on the mail tables, the entries of the log, and the programs that are run. That every request keeps the predicate follows inside the locale.
\<close>

section \<open>The programs\<close>

context host_invariant
begin

lemma jails_of: "keeps I (jails_of L ns)"
  by (induction ns) (auto simp: fail2ban_def intro!: host_ops keeps_ops)

lemma bans_of: "keeps I (bans_of L js)"
  by (induction js) (auto intro!: host_ops keeps_ops)

lemma check_services: "keeps I (check_services L ss)"
  by (induction ss) (auto intro!: host_ops keeps_ops)

lemma check_configs: "keeps I (check_configs L cs)"
  by (induction cs) (auto intro!: host_ops keeps_ops)

lemma present: "keeps I (present ss)"
  by (induction ss) (auto intro!: read_ops keeps_ops)

lemma rename: "keeps I (Rename a b)"
  unfolding Rename_def by (intro read_ops)

lemma bans: "keeps I (Jails L)" "keeps I (Unban L ip j)" "keeps I (Ban L ip j)" "keeps I (SetAllowlist L es)"
  unfolding Jails_def JailNames_def Unban_def Ban_def SetAllowlist_def fail2ban_def by (intro jails_of rename host_ops frame_ops keeps_ops)+

lemma services: "keeps I (Find L wm un)" "keeps I (States L P wm)" "keeps I (Control L wm un ac)" "keeps I (ServiceLogs L wm un n)" "keeps I (TailLog L k n q)"
  unfolding Find_def States_def Catalog_def phpFPMUnit_def Control_def ServiceLogs_def TailLog_def findSource_def LogSources_def
  by (intro present host_ops frame_ops keeps_ops)+

lemma queue: "keeps I (Queue L J)" "keeps I (DeleteMessage L i)" "keeps I (RetryMessage L i)" "keeps I (HoldMessage L i)" "keeps I (ReleaseMessage L i)"
  "keeps I (DeleteAllDeferred L)" "keeps I (FlushQueue L)" "keeps I (Spam L)" "keeps I (Antivirus L)" "keeps I (QueueList L)" "keeps I (QueueFlush L)"
  unfolding Queue_def DeleteMessage_def RetryMessage_def HoldMessage_def ReleaseMessage_def DeleteAllDeferred_def FlushQueue_def Spam_def Antivirus_def QueueList_def QueueFlush_def
    postsuper_def tool_def
  by (intro host_ops frame_ops keeps_ops)+

lemma diagnosis: "keeps I (CheckServices L)" "keeps I (CheckConfigs L)" "keeps I (RecentIssues L p n)" "keeps I (Fail2banBans L)"
  unfolding CheckServices_def CheckConfigs_def RecentIssues_def Fail2banBans_def by (intro bans_of check_services check_configs host_ops keeps_ops)+

lemmas program_ops = bans services queue diagnosis

end

section \<open>The requests to Cloudflare\<close>

definition steady :: "('z \<Rightarrow> bool) \<Rightarrow> ('z \<Rightarrow> 'r \<times> 'z) \<Rightarrow> bool" where
  "steady I f \<longleftrightarrow> (\<forall>z. I z \<longrightarrow> I (snd (f z)))"

definition steady_client :: "('z \<Rightarrow> bool) \<Rightarrow> 'z zone_client \<Rightarrow> bool" where
  "steady_client I C \<longleftrightarrow> (\<forall>a b c. steady I (list_records C a b c)) \<and> (\<forall>a r. steady I (create_record C a r)) \<and> (\<forall>a b r. steady I (update_record C a b r))"

lemma steady_ended: "I z \<Longrightarrow> I (snd (ended l a d (e, z)))"
  by (simp add: ended_def split: option.split)

lemma steady_run: "steady I f \<Longrightarrow> I z \<Longrightarrow> f z = (r, z1) \<Longrightarrow> I z1"
  by (metis snd_conv steady_def)

lemma steady_end: "steady I f \<Longrightarrow> I z \<Longrightarrow> I (snd (ended l a d (f z)))"
  by (cases "f z") (auto simp: steady_ended dest: steady_run)

lemma steady_bind: "steady I f \<Longrightarrow> I z \<Longrightarrow> (\<And>r z1. I z1 \<Longrightarrow> I (snd (k r z1))) \<Longrightarrow> I (snd (case f z of (r, z1) \<Rightarrow> k r z1))"
  by (auto simp: steady_def split: prod.split)

lemma steady_steps:
  assumes "steady_client I C"
  shows "steady I (upsertSingleHost C zn lb t n v p)" "steady I (upsertMX L C zn d m)" "steady I (upsertTXTByPrefix C zn lb n pre v)"
proof -
  have ops: "steady I (list_records C a b c)" "steady I (create_record C a r)" "steady I (update_record C a b r)" for a b c r
    using assms by (simp_all add: steady_client_def)
  have steps: "I (snd (upsertSingleHost C zn lb t n v p z))" "I (snd (upsertMX L C zn d m z))" "I (snd (upsertTXTByPrefix C zn lb n pre v z))" if "I z" for z
    unfolding upsertSingleHost_def upsertMX_def upsertTXTByPrefix_def Let_def
    by (rule steady_bind [OF ops(1) that]; auto split: sum.split list.split intro: steady_end [OF ops(2)] steady_end [OF ops(3)])+
  show "steady I (upsertSingleHost C zn lb t n v p)" "steady I (upsertMX L C zn d m)" "steady I (upsertTXTByPrefix C zn lb n pre v)"
    unfolding steady_def by (blast intro: steps)+
qed

lemma steady_run_steps: "(\<And>f. f \<in> set todo \<Longrightarrow> steady I f) \<Longrightarrow> steady I (run_steps todo)"
proof (induction todo)
  case (Cons f todo)
  then have f: "steady I f" and rest: "steady I (run_steps todo)" by auto
  have "I (snd (run_steps (f # todo) z))" if "I z" for z
    unfolding run_steps.simps
    by (rule steady_bind [OF f that], rule steady_bind [OF rest], assumption) simp
  then show ?case by (simp add: steady_def)
qed (simp add: steady_def)

lemma steady_apply: "steady_client I C \<Longrightarrow> steady I (ApplyMailRecords L C zn d m ip dk dm)"
  unfolding ApplyMailRecords_def by (rule steady_run_steps) (auto simp: mail_steps_def steady_steps)

lemma keeps_steady: "keeps I m \<longleftrightarrow> steady I m"
  by (simp add: keeps_def steady_def after_def case_prod_unfold)

section \<open>The dashboard\<close>

text \<open>A route keeps a predicate when it is taken by everyone or by the account \<open>u\<close>.\<close>

definition kept_access :: "(world \<Rightarrow> bool) \<Rightarrow> admin_user \<Rightarrow> access \<Rightarrow> bool" where
  "kept_access I u a = (case a of Open h \<Rightarrow> keeps I h | Guarded h \<Rightarrow> keeps I (h u))"

definition kept_route :: "(world \<Rightarrow> bool) \<Rightarrow> admin_user \<Rightarrow> dash_route \<Rightarrow> bool" where
  "kept_route I u rt = (case rt of (m, p, h) \<Rightarrow> \<forall>vs. kept_access I u (h vs))"

lemma kept_routeI: "(\<And>vs. kept_access I u (h vs)) \<Longrightarrow> kept_route I u (m, p, h)"
  by (simp add: kept_route_def)

lemma kept_list: "list_all P []" "P x \<Longrightarrow> list_all P xs \<Longrightarrow> list_all P (x # xs)"
  by simp_all

lemma found_in: "find P xs = Some x \<Longrightarrow> x \<in> set xs"
  by (auto simp: find_Some_iff)

lemma found_route_kept:
  assumes "find_route rs r = Some a" and "list_all (kept_route I u) rs"
  shows "kept_access I u a"
proof -
  from assms(1) obtain m p h where "(m, p, h) \<in> set rs" and "a = h (the (match_path p (Rq_Path r)))"
    by (auto simp: find_route_def split: option.splits prod.splits dest!: found_in)
  with assms(2) show ?thesis by (auto simp: list_all_iff kept_route_def)
qed

lemma kept_accessI: "keeps I h \<Longrightarrow> kept_access I u (Open h)" "keeps I (g u) \<Longrightarrow> kept_access I u (Guarded g)"
  by (simp_all add: kept_access_def)

text \<open>\<open>program_effects\<close>: what the operations do that all parts of the program share; only the entries of the log are left open.\<close>

locale program_effects = account_invariant I for I :: "world \<Rightarrow> bool" +
  fixes L :: lib
  assumes sent: "I w \<Longrightarrow> I (w\<lparr>outbound := Sent t m p b # outbound w\<rparr>)"
    and noted: "I w \<Longrightarrow> I (w\<lparr>outbound := Noted msg # outbound w\<rparr>)"
    and mail_domains: "keeps I (DomainAdd L d)" "keeps I (DomainRemove L d)"
    and mail_mailboxes: "keeps I (MailboxAdd L e pw q)" "keeps I (MailboxCreate L e pw nm q)" "keeps I (MailboxRemove L e)" "keeps I (MailboxPasswd L e pw)" "keeps I (MailboxSetQuota L e q)"
      "keeps I (MailboxSetName L e nm)" "keeps I (MailboxSetEnabled L e en)"
    and mail_aliases: "keeps I (AliasAdd L src t2)" "keeps I (AliasRemove L src t2)" "keeps I (CatchAllSet L d t2)"
    and mail_forwards: "keeps I (ForwardSet L e t2 k)" "keeps I (ForwardClear L e)"
    and mail_groups: "keeps I (GroupCreate L e gs)" "keeps I (GroupUpdate L e gs)" "keeps I (GroupDelete L e)" "keeps I (GroupAddMembers L e as rl)"
      "keeps I (GroupRemoveMember L e mm)" "keeps I (GroupSetMemberRole L e mm rl)"
    and mail_keys: "keeps I (KeyGenerate L d)" "keeps I (KeyRevoke L d)" "keeps I (KeyVerify L pw)"
    and runs_bans: "keeps I (Jails L)" "keeps I (Unban L ip j)" "keeps I (Ban L ip j)" "keeps I (SetAllowlist L es)"
    and runs_services: "keeps I (Find L wm un)" "keeps I (States L P wm)" "keeps I (Control L wm un ac)" "keeps I (ServiceLogs L wm un n)" "keeps I (TailLog L lk n fl)"
    and runs_queue: "keeps I (Queue L J)" "keeps I (DeleteMessage L i)" "keeps I (RetryMessage L i)" "keeps I (HoldMessage L i)" "keeps I (ReleaseMessage L i)"
      "keeps I (DeleteAllDeferred L)" "keeps I (FlushQueue L)" "keeps I (Spam L)" "keeps I (Antivirus L)" "keeps I (QueueList L)" "keeps I (QueueFlush L)"
    and runs_diagnosis: "keeps I (CheckServices L)" "keeps I (CheckConfigs L)" "keeps I (RecentIssues L mail_log n)" "keeps I (Fail2banBans L)"
begin

lemmas mail_ops = mail_domains mail_mailboxes mail_aliases mail_forwards mail_groups mail_keys
lemmas run_ops = runs_bans runs_services runs_queue runs_diagnosis

lemma cf_steady: "steady I (api_do U (cf_world E) tk m p b get)"
  by (auto simp: steady_def api_do_def cf_world_def sent split: sum.split option.split)

lemma cf_kept: "I z \<Longrightarrow> I (snd (api_do U (cf_world E) tk m p b get z))"
  using cf_steady [of U E tk m p b get] by (simp add: steady_def)

lemma cf_errors: "I z \<Longrightarrow> I (snd (error_of (api_do U (cf_world E) tk m p b get z)))"
  using cf_kept [of z U E tk m p b get] by (auto simp: error_of_def split: prod.split sum.split)

lemma cf_steady_client: "steady_client I (cf_client U (cf_world E) tk)"
  by (simp add: steady_client_def cf_client_def listRecords_def createRecord_def updateRecord_def steady_def cf_kept cf_errors)

lemma cloudflare: "keeps I (find_zone L E tk d)" "keeps I (verify_token L E tk)" "keeps I (apply_records L E tk zn d m ip dk dm)"
proof -
  have from_labels: "I (snd (find_zone_from U (cf_world E) tk ls z))" if "I z" for U ls z
    using that
  proof (induction U "cf_world E" tk ls z rule: find_zone_from.induct)
    case (1 U tk l m ls z)
    have "I (snd (ask_zone U (cf_world E) tk c z))" for c
      using \<open>I z\<close> by (simp add: ask_zone_def cf_kept)
    with 1 show ?case by (auto split: prod.splits sum.splits list.splits) (metis snd_conv)+
  qed simp_all
  show "keeps I (find_zone L E tk d)"
    unfolding keeps_steady find_zone_def by (simp add: steady_def FindZone_def from_labels)
  show "keeps I (verify_token L E tk)"
    unfolding keeps_steady verify_token_def steady_def VerifyToken_def
    by (intro allI impI, rule steady_bind [OF cf_steady], assumption) (simp split: sum.split)
  show "keeps I (apply_records L E tk zn d m ip dk dm)"
    unfolding keeps_steady apply_records_def steady_def
    by (intro allI impI, rule steady_bind [OF steady_apply [OF cf_steady_client]], assumption) simp
qed

lemma login_notice: "keeps I (logFailedLogin E nm r)"
  by (auto simp: keeps_def after_def logFailedLogin_def noted)

lemma page_parts:
  "keeps I (stateConfigStrings K)" "keeps I (stateValue K sk)" "keeps I (recentActivity K tg cnt)"
  unfolding stateConfigStrings_def stateValue_def recentActivity_def by (intro read_ops keeps_ops)+

lemma with_base: "(\<And>b. keeps I (k b)) \<Longrightarrow> keeps I (with_base U E r u ti ac cr k)"
  unfolding with_base_def by (intro keeps_ops)

lemmas parts = with_base page_parts cloudflare mail_ops run_ops account_ops read_ops frame_ops keeps_ops

lemma open_pages: "keeps I (handleLoginForm L q)" "keeps I (handleLoginSubmit L E q)" "keeps I (handleLogout L q)"
  unfolding handleLoginForm_def handleLoginSubmit_def handleLogout_def by (intro login_notice parts)+

text \<open>Of the pages of Cloudflare only the disconnection is recorded.\<close>

lemma cloudflare_parts:
  "keeps I (cloudflareRedirectURI K q)" "keeps I (cloudflareSectionData K E q)" "keeps I (cloudflare_show K E q)" "keeps I (cloudflare_problem K E q msg)"
  "keeps I oauth_state" "keeps I (connected_zone L E d)" "keeps I (apply_mail L E tk zn d)"
  unfolding cloudflareRedirectURI_def cloudflareSectionData_def cloudflare_show_def cloudflare_problem_def oauth_state_def connected_zone_def apply_mail_def
  by (intro parts)+

lemma with_client: "(\<And>oc. keeps I (k oc)) \<Longrightarrow> keeps I (with_oauth_client K E q k)"
  unfolding with_oauth_client_def by (intro cloudflare_parts parts)

lemma cloudflare_unrecorded:
  "keeps I (handleCloudflareConnect L E q)" "keeps I (handleCloudflareOAuthClientSave L E q)" "keeps I (handleCloudflareAuthorize L E q)"
  "keeps I (handleCloudflareCallback L E q)"
  unfolding handleCloudflareConnect_def handleCloudflareOAuthClientSave_def handleCloudflareAuthorize_def handleCloudflareCallback_def
  by (intro with_client cloudflare_parts parts)+

text \<open>The local API records nothing.\<close>

lemma api_handlers:
  "keeps I (handleStatus L)" "keeps I (handleDomainList L)" "keeps I (Api.handleDomainAdd L A q)" "keeps I (handleDomainRemove L x)" "keeps I (Api.handleMailboxList L q)"
  "keeps I (handleMailboxAdd L A q)" "keeps I (handleMailboxRemove L x)" "keeps I (handleMailboxPasswd L A q x)" "keeps I (Api.handleMailboxQuota L A q x)"
  "keeps I (Api.handleAliasList L q)" "keeps I (Api.handleAliasAdd L A q)" "keeps I (handleAliasRemove L A q)" "keeps I (handleDKIM x)" "keeps I (Api.handleDKIMRotate L x)"
  "keeps I (handleDNS x)" "keeps I (handleMTASTSEnable L A x)" "keeps I (handleQueueList L)" "keeps I (Api.handleQueueFlush L)" "keeps I (Api.handleGroupList L q)"
  "keeps I (handleGroupGetEmail L n x)" "keeps I (Api.handleGroupCreate L A q)" "keeps I (Api.handleGroupGet L x)" "keeps I (Api.handleGroupDelete L x)"
  "keeps I (Api.handleGroupAddMembers L A q x)" "keeps I (Api.handleGroupRemoveMember L x y)"
  unfolding api_handler_defs by (intro parts)+

lemma api_routes: "(m, p, s, h) \<in> set (routes L A q @ groupRoutes L A q) \<Longrightarrow> keeps I (h vs)"
  unfolding routes_def groupRoutes_def by (auto simp: api_handlers keeps_Return)

lemma scoped: "keeps I h \<Longrightarrow> keeps I (requireScope L q s h)"
  unfolding requireScope_def by (intro parts)

lemma local_api: "keeps I (serve L A q)"
proof -
  have found: "(m, p, s, h) \<in> set (routes L A q @ groupRoutes L A q)" if "find P (filter Q (routes L A q @ groupRoutes L A q)) = Some (m, p, s, h)" for P Q m p s h
    using found_in [OF that] by (simp del: filter_append set_append)
  show ?thesis
    unfolding serve_def Let_def
    by (intro keeps_if keeps_Return keeps_option keeps_prod scoped; clarify; erule api_routes [OF found])
qed

text \<open>The public API records what it does to groups and forwards, but not what it does to mailboxes and aliases.\<close>

lemma respond_mailbox: "keeps I (respondMailbox K n e)"
  unfolding respondMailbox_def by (intro parts)

lemma public_unrecorded:
  "keeps I (Publicapi.handleMailboxCreate L J q D)" "keeps I (Publicapi.handleMailboxDelete L D n)" "keeps I (Publicapi.handleMailboxPassword L J q D n)"
  "keeps I (Publicapi.handleMailboxName L J q D n)" "keeps I (Publicapi.handleMailboxQuota L J q D n)" "keeps I (Publicapi.handleMailboxStatus L J q D n)"
  "keeps I (Publicapi.handleAliasCreate L J q D)" "keeps I (Publicapi.handleAliasDelete L J q D)"
  unfolding handler_defs by (intro respond_mailbox parts)+

end

text \<open>\<open>dashboard_effects\<close>: the requests \<open>r\<close> of an account \<open>u\<close>, whose entries in the log keep the predicate too.\<close>

locale dashboard_effects = program_effects I L for I :: "world \<Rightarrow> bool" and L :: lib +
  fixes r :: web_request and u :: admin_user
  assumes recorded_web: "keeps I (record_web r u a tg dt)"
begin

lemma recording: "keeps I k \<Longrightarrow> keeps I (recording r u a tg dt k)"
  unfolding recording_def by (intro recorded_web keeps_ops)

lemmas pieces = recording recorded_web parts

lemma account_pages:
  "keeps I (handleAdminsPage L E r u)" "keeps I (handleAdminAdd L E r u)"
  "keeps I (handleAdminDelete L E r u x)" "keeps I (handleTokensPage r u)" "keeps I (handleTokenAdd L r u)" "keeps I (handleTokenDelete L r u x)"
  "keeps I (handleSettingsPage L E r u)" "keeps I (handleSettingsPassword L E r u)" "keeps I (handleAuditPage L E r u)"
  unfolding handleAdminsPage_def handleAdminAdd_def handleAdminDelete_def handleTokensPage_def
    handleTokenAdd_def handleTokenDelete_def handleSettingsPage_def handleSettingsPassword_def handleAuditPage_def tokensData_def
  by (intro pieces)+

lemma usage: "keeps I (with_usage ms)"
  by (induction ms) (auto intro!: pieces)

lemma letters: "keeps I (RandInt m b)" "keeps I (random_letters k)" "keeps I generatePassword"
proof -
  show draws: "keeps I (RandInt m b)" for m b
    by (auto simp: keeps_def after_def RandInt_def intro: frame_entropy split: option.split)
  show some: "keeps I (random_letters k)" for k
    by (induction k) (auto intro!: draws keeps_ops)
  show "keeps I generatePassword"
    unfolding generatePassword_def by (rule some)
qed

lemma import: "keeps I (import_rows L fd fq rows)"
proof (induction rows)
  case (Cons row rows)
  then show ?case
    unfolding import_rows.simps import_row_def by (intro letters pieces)
qed (simp add: keeps_Return)

lemma user_pages:
  "keeps I (handleUsersPage L E r u)" "keeps I (handleUserPage L E r u x)" "keeps I (handleUserCreate L E r u)" "keeps I (handleUserProfile L E r u x)"
  "keeps I (handleUserPassword L E r u x)" "keeps I (handleUserQuota L E r u x)" "keeps I (handleUserStatus L E r u x)" "keeps I (handleUserForward L E r u x)"
  "keeps I (handleUserForwardClear L E r u x)" "keeps I (handleUserAliasAdd L E r u x)" "keeps I (handleUserAliasRemove L E r u x y)"
  "keeps I (handleUserGroupAdd L E r u x)" "keeps I (handleUserGroupRemove L E r u x y)" "keeps I (handleUserDelete L E r u x)"
  "keeps I (handleUsersImportPage L E r u)" "keeps I (handleUsersImport L E r u)"
  unfolding handleUsersPage_def handleUserPage_def handleUserCreate_def handleUserProfile_def handleUserPassword_def handleUserQuota_def handleUserStatus_def
    handleUserForward_def handleUserForwardClear_def handleUserAliasAdd_def handleUserAliasRemove_def handleUserGroupAdd_def handleUserGroupRemove_def
    handleUserDelete_def handleUsersImportPage_def handleUsersImport_def import_all_def AddressKind_def
  by (intro usage import pieces)+

lemma group_pages:
  "keeps I (handleGroupsPage L E r u)" "keeps I (Web_Groups.handleGroupCreate L E r u)" "keeps I (handleGroupPage L E r u x)"
  "keeps I (Web_Groups.handleGroupUpdate L E r u x)" "keeps I (Web_Groups.handleGroupDelete L E r u x)" "keeps I (handleGroupMembersAdd L E r u x)"
  "keeps I (handleGroupMemberRole L E r u x y)" "keeps I (handleGroupMemberRemove L E r u x y)" "keeps I (handleAliasesPage L E r u)"
  "keeps I (Web_Groups.handleAliasAdd L E r u)" "keeps I (Web_Groups.handleAliasDelete L E r u)"
  unfolding handleGroupsPage_def Web_Groups.handleGroupCreate_def handleGroupPage_def Web_Groups.handleGroupUpdate_def Web_Groups.handleGroupDelete_def
    handleGroupMembersAdd_def handleGroupMemberRole_def handleGroupMemberRemove_def handleAliasesPage_def Web_Groups.handleAliasAdd_def Web_Groups.handleAliasDelete_def
  by (intro pieces)+

lemma cloudflare_pages: "keeps I (handleCloudflareDisconnect L E r u)"
  unfolding handleCloudflareDisconnect_def by (intro cloudflare_parts pieces)

lemma domain_parts:
  "keeps I (domainViews K)" "(\<And>data. keeps I (k data)) \<Longrightarrow> keeps I (with_domain_page K E r u nm missing k)"
  unfolding domainViews_def with_domain_page_def by (intro pieces; assumption?)+

lemma domain_pages:
  "keeps I (handleDomainsPage L E r u)" "keeps I (Web_Domains.handleDomainAdd L E r u)" "keeps I (handleDomainPage L E r u x)" "keeps I (handleDomainDelete L E r u x)"
  "keeps I (handleDomainCatchAll L E r u x)" "keeps I (respondAPIKeyCard K E r u x key)"
  unfolding handleDomainsPage_def Web_Domains.handleDomainAdd_def handleDomainPage_def handleDomainDelete_def handleDomainCatchAll_def respondAPIKeyCard_def
  by (intro domain_parts cloudflare_parts pieces)+

lemma key_pages:
  "keeps I (handleDomainAPIKeyGenerate L E r u x)" "keeps I (handleDomainAPIKeyRevoke L E r u x)" "keeps I (handleDomainsCloudflareApply L E r)"
  unfolding handleDomainAPIKeyGenerate_def handleDomainAPIKeyRevoke_def handleDomainsCloudflareApply_def
  by (intro domain_pages cloudflare_parts pieces)+

lemma record_entries: "keeps I (buildRecordEntries L d)" "keeps I (dkim_report L E d)"
  unfolding buildRecordEntries_def dkim_report_def by (intro pieces)+

lemma dkim_data: "keeps I (dkimData L E r u b)"
  unfolding dkimData_def by (intro record_entries cloudflare_parts pieces)

lemma dkim_problem: "keeps I (dkim_problem L E r u msg)"
  unfolding dkim_problem_def by (intro dkim_data pieces)

lemma dkim_pages:
  "keeps I (handleDKIMPage L E r u)" "keeps I (handleDKIMVerify L E r u)" "keeps I (handleDKIMCloudflareApply L E r u)" "keeps I (Web_Dkim.handleDKIMRotate L E r u)"
  "keeps I (handleDKIMMTASTSEnable L E r u)"
  unfolding handleDKIMPage_def handleDKIMVerify_def handleDKIMCloudflareApply_def Web_Dkim.handleDKIMRotate_def handleDKIMMTASTSEnable_def
  by (intro dkim_data dkim_problem cloudflare_parts pieces)+

lemma allowlist: "keeps I Allowlist"
  unfolding Allowlist_def by (intro pieces)

lemma host_pages:
  "keeps I (handleBansPage L E r u)" "keeps I (handleUnban L E r u)" "keeps I (handleBan L E r u)" "keeps I (handleAllowlistAdd L E r u)"
  "keeps I (handleAllowlistRemove L E r u)" "keeps I (handleServicesPage L E r u)" "keeps I (handleServiceAction L E r u x y)" "keeps I (handleServiceLogs L r x)"
  unfolding handleBansPage_def handleUnban_def handleBan_def handleAllowlistAdd_def handleAllowlistRemove_def handleServicesPage_def handleServiceAction_def
    handleServiceLogs_def
  by (intro allowlist pieces)+

lemma queue_actions: "queue_action L i a = Some (m, msg) \<Longrightarrow> keeps I m"
  by (auto simp: queue_action_def runs_queue split: if_splits)

lemma log_sources: "keeps I LogSources"
proof -
  have "keeps I (present ss)" for ss
    by (induction ss) (auto intro!: pieces)
  then show ?thesis by (simp add: LogSources_def)
qed

lemma queue_pages:
  "keeps I (handleQueuePage L E r u)" "keeps I (Web_Ops.handleQueueFlush L E r u)" "keeps I (handleQueueDeleteDeferred L E r u)" "keeps I (handleLogsPage L E r u)"
  unfolding handleQueuePage_def Web_Ops.handleQueueFlush_def handleQueueDeleteDeferred_def handleLogsPage_def
  by (intro log_sources pieces)+

lemma queue_action_page: "keeps I (handleQueueAction L E r u x y)"
proof (cases "queue_action L x y")
  case (Some p)
  then show ?thesis
    by (cases p) (auto simp: handleQueueAction_def given_def intro!: pieces dest: queue_actions)
qed (simp add: handleQueueAction_def given_def keeps_Return)

lemma diagnosis_data: "keeps I (diagData L E u)"
  unfolding diagData_def host_tls_def CheckTLS_def by (intro pieces)

lemma diagnosis_pages: "keeps I (handleDiagnosticsPage L E u)" "keeps I (handleDiagnosticsPartial L E u)"
  unfolding handleDiagnosticsPage_def handleDiagnosticsPartial_def by (intro diagnosis_data pieces)+

lemma storage: "keeps I (storage L n)"
  unfolding storage_def by (intro usage pieces)

lemma overview_pages: "keeps I (handleOverviewPage L E r u)" "keeps I (handleSearch L E r u)"
  unfolding handleOverviewPage_def handleSearch_def by (intro storage pieces)+

lemmas pages = open_pages account_pages user_pages group_pages cloudflare_unrecorded cloudflare_pages domain_pages key_pages dkim_pages host_pages queue_pages queue_action_page diagnosis_pages overview_pages

lemma kept_routes:
  "list_all (kept_route I u) (open_routes L E r)" "list_all (kept_route I u) (domain_dash_routes L E r)" "list_all (kept_route I u) (user_dash_routes L E r)"
  "list_all (kept_route I u) (group_dash_routes L E r)" "list_all (kept_route I u) (server_dash_routes L E r)" "list_all (kept_route I u) (account_dash_routes L E r)"
  unfolding open_routes_def domain_dash_routes_def user_dash_routes_def group_dash_routes_def server_dash_routes_def account_dash_routes_def
  by (intro kept_list kept_routeI kept_accessI pages keeps_Return)+

end

text \<open>\<open>public_effects\<close>: the requests \<open>q\<close> to the public API with a key of the domain \<open>D\<close>.\<close>

locale public_effects = program_effects I L for I :: "world \<Rightarrow> bool" and L :: lib +
  fixes q :: http_request and D :: string
  assumes recorded_key: "keeps I (record_change q D a tg x)"
begin

lemma public_parts: "keeps I (respondMailbox K n e)" "keeps I (respondGroup K n e)"
  unfolding respondMailbox_def respondGroup_def by (intro parts)+

lemma public_handlers:
  "keeps I (Publicapi.handleMailboxList L D)" "keeps I (Publicapi.handleMailboxCreate L J q D)" "keeps I (Publicapi.handleMailboxGet L D n)" "keeps I (Publicapi.handleMailboxDelete L D n)"
  "keeps I (Publicapi.handleMailboxPassword L J q D n)" "keeps I (Publicapi.handleMailboxName L J q D n)" "keeps I (Publicapi.handleMailboxQuota L J q D n)" "keeps I (Publicapi.handleMailboxStatus L J q D n)"
  "keeps I (Publicapi.handleAliasList L D)" "keeps I (Publicapi.handleAliasCreate L J q D)" "keeps I (Publicapi.handleAliasDelete L J q D)"
  "keeps I (Publicapi.handleGroupList L D)" "keeps I (Publicapi.handleGroupCreate L J q D)" "keeps I (Publicapi.handleGroupGet L D n)" "keeps I (Publicapi.handleGroupUpdate L J q D n)"
  "keeps I (Publicapi.handleGroupDelete L q D n)" "keeps I (Publicapi.handleGroupAddMembers L J q D n)" "keeps I (Publicapi.handleGroupRemoveMember L q D n m)"
  "keeps I (Publicapi.handleForwardSet L J q D n)" "keeps I (Publicapi.handleForwardClear L q D n)"
  unfolding handler_defs by (intro public_parts recorded_key parts)+

lemma public_routes:
  "mailbox_routes L J q meth segs = Some h \<or> alias_routes L J q meth segs = Some h \<or> group_routes L J q meth segs = Some h \<Longrightarrow> keeps I (h D)"
  by (auto simp: mailbox_routes_def alias_routes_def group_routes_def public_handlers split: list.splits if_splits)

end

text \<open>\<open>program_invariant\<close>: whoever makes a change may record it.\<close>

locale program_invariant = program_effects I L for I :: "world \<Rightarrow> bool" and L :: lib +
  assumes recorded: "keeps I (AuditRecord a1 a2 a3 a4 a5)"

sublocale program_invariant \<subseteq> by_account: dashboard_effects I L r u for r u
  by unfold_locales (simp add: record_web_def recorded)

sublocale program_invariant \<subseteq> by_key: public_effects I L q D for q D
  by unfold_locales (simp add: record_change_def recorded)

context program_invariant
begin

lemmas pieces = parts

lemma require: "(\<And>u. keeps I (h u)) \<Longrightarrow> keeps I (requireAuth K r h)"
  unfolding requireAuth_def by (intro account_ops keeps_ops)

lemma dashboard_pages: "keeps I (dash_pages L E r)"
proof (cases "find_route (dash_routes L E r) r")
  case (Some a)
  have "list_all (kept_route I u) (dash_routes L E r)" for u
    using by_account.kept_routes by (simp add: dash_routes_def)
  with Some have "kept_access I u a" for u
    by (intro found_route_kept)
  then have "keeps I (run_access L r a)"
    by (cases a) (auto simp: run_access_def kept_access_def intro!: require)
  with Some show ?thesis by (simp add: dash_pages_def)
qed (simp add: dash_pages_def keeps_Return)

lemma public_auth: "(\<And>D. keeps I (h D)) \<Longrightarrow> keeps I (auth L q d h)"
  unfolding auth_def by (intro pieces)

lemma public_api: "keeps I (ServeHTTP L J q)"
  unfolding ServeHTTP_def
  by (intro public_auth pieces) (auto split: if_splits intro: by_key.public_routes)

lemma dashboard: "keeps I (serve_dashboard L E r)"
  unfolding serve_dashboard_def secure_def mux_def mounted_api_def static_files_def
  by (intro dashboard_pages public_api pieces)

text \<open>The command line.\<close>

lemma commands:
  "keeps I (cmdDomain L C as)" "keeps I (cmdMailbox L C as)" "keeps I (cmdAlias L as)" "keeps I (cmdGroup L as)"
  "keeps I (cmdDKIM L as)" "keeps I (cmdDNS as)" "keeps I (cmdMTASTS L C as)" "keeps I (cmdQueue L as)"
  "keeps I (cmdStatus L C)" "keeps I (cmdAudit L C as)" "keeps I (cmdAPI L C as)" "keeps I (cmdWebAdmin L C as)"
  unfolding cmdDomain_def cmdDomainCatchAll_def cmdMailbox_def cmdMailboxForward_def cmdAlias_def cmdGroup_def cmdGroupCreate_def cmdGroupAdd_def
    cmdDKIM_def cmdDNS_def cmdMTASTS_def cmdQueue_def cmdStatus_def cmdAudit_def cmdAPI_def cmdAPIKey_def cmdAPIToken_def cmdWebAdmin_def
  by (intro pieces)+

lemma audited: "keeps I (auditCLI as)"
  unfolding auditCLI_def by (intro recorded pieces)

lemma command_line: "keeps I (run L C as)"
  unfolding run_def dispatch_def db_Open_def LoadDBConfig_def by (intro commands audited pieces)

text \<open>The policy service.\<close>

lemma policy_decision: "keeps I (Decide K rq)"
  unfolding Decide_def by_role_def memberRole_def isHostedAddress_def by (intro pieces)

lemma policy_service: "keeps I (serveConn K s)"
proof (induction K s rule: serveConn.induct)
  case (1 K s)
  show ?case
  proof (cases "read_request s (\<lambda>k. [])")
    case (Some x)
    obtain attrs rest where x: "x = (attrs, rest)" by fastforce
    have "keeps I (serveConn K rest)" by (rule "1.IH") (simp add: Some, simp add: x)
    with Some x show ?thesis
      by (simp add: serveConn.simps [of K s]) (intro policy_decision keeps_ops)
  qed (simp add: serveConn.simps [of K s] keeps_Return)
qed

end

end
