(* ===== verification/Program.thy ===== *)
theory Program
  imports Program_Invariant
begin

text \<open>
  The whole program as one step relation: a request to the dashboard, to the public API or to the local API, a command on the command line, a connection to the policy service.
  \<open>program_invariant\<close> is interpreted on the model for what every step keeps: the consistency of the store, the log that only grows, and the programs that are run.
\<close>

section \<open>The steps\<close>

text \<open>Between two steps the time, the files, the source of random bytes and the pattern of failures may change as they like.\<close>

inductive program_step :: "lib \<Rightarrow> world \<Rightarrow> world \<Rightarrow> bool" for L where
  by_dashboard: "serve_dashboard L E r w = (x, w') \<Longrightarrow> program_step L w w'"
| by_public_api: "ServeHTTP L J q w = (y, w') \<Longrightarrow> program_step L w w'"
| by_local_api: "serve L A q w = (z, w') \<Longrightarrow> program_step L w w'"
| by_command: "run L C as w = (v, w') \<Longrightarrow> program_step L w w'"
| by_policy: "serveConn L s w = (a, w') \<Longrightarrow> program_step L w w'"
| by_others: "program_step L w (w\<lparr>fs := f, entropy := b, clock := t, faults := fl\<rparr>)"

inductive_cases program_stepE: "program_step L w w'"

context program_invariant
begin

lemma step_kept:
  assumes "program_step L w w'" and "I w" and others: "\<And>w f b t fl. I w \<Longrightarrow> I (w\<lparr>fs := f, entropy := b, clock := t, faults := fl\<rparr>)"
  shows "I w'"
  using assms(1)
proof (cases rule: program_step.cases)
  case (by_dashboard E r x)
  then show ?thesis by (rule keeps_run [OF dashboard assms(2)])
next
  case (by_public_api J q y)
  then show ?thesis by (rule keeps_run [OF public_api assms(2)])
next
  case (by_local_api A q z)
  then show ?thesis by (rule keeps_run [OF local_api assms(2)])
next
  case (by_command C as v)
  then show ?thesis by (rule keeps_run [OF command_line assms(2)])
next
  case (by_policy s a)
  then show ?thesis by (rule keeps_run [OF policy_service assms(2)])
next
  case by_others
  then show ?thesis using others [OF assms(2)] by simp
qed

lemma history_kept:
  assumes "(program_step L)\<^sup>*\<^sup>* w w'" and "I w" and others: "\<And>w f b t fl. I w \<Longrightarrow> I (w\<lparr>fs := f, entropy := b, clock := t, faults := fl\<rparr>)"
  shows "I w'"
  using assms(1)
  by (induction rule: rtranclp_induct) (use assms(2) in simp, erule (1) step_kept [OF _ _ others])

end

section \<open>The store\<close>

lemma store_ok_accounts [simp]:
  "store_ok L (w\<lparr>api_tokens := t7\<rparr>) = store_ok L w" "store_ok L (w\<lparr>admin_users := t8\<rparr>) = store_ok L w"
  "store_ok L (w\<lparr>admin_sessions := t9\<rparr>) = store_ok L w" "store_ok L (w\<lparr>cloudflare_settings := s\<rparr>) = store_ok L w"
  by (simp_all add: store_defs domain_ids_def group_ids_def in_domain_def)

lemma store_ok_next_id:
  assumes "store_ok L w" and "next_id w \<le> i"
  shows "store_ok L (w\<lparr>next_id := i\<rparr>)"
proof -
  have "\<forall>j\<in>domain_ids w \<union> group_ids w. j < i"
    using assms less_le_trans by (auto simp: store_ok_def unique_ok_def simp del: Un_iff)
  with assms(1) show ?thesis by (simp add: store_defs)
qed

interpretation store_accounts: account_invariant "store_ok L" for L
  by standard (simp_all add: store_ok_next_id)

lemma store_program: "collation_ok L \<Longrightarrow> program_invariant (store_ok L) L"
  by unfold_locales (intro ok_operations ok_CatchAllSet ok_AuditRecord store_frame.program_ops | simp)+

section \<open>The log\<close>

definition grown :: "world \<Rightarrow> world \<Rightarrow> bool" where
  "grown b w \<longleftrightarrow> prefix (audit_log b) (audit_log w)"

interpretation grown_host: host_invariant "grown b" for b
  by standard (simp_all add: grown_def tick_def)

interpretation grown_tables: table_invariant "grown b" for b
  by standard (simp_all add: grown_def)

lemma grown_recorded: "keeps (grown b) (AuditRecord a1 a2 a3 a4 a5)"
  unfolding AuditRecord_def
  by (intro keeps_ops keeps_Exec) (auto simp: grown_def ins_audit_def)

interpretation grown_program: program_invariant "grown b" L for b L
  by unfold_locales (intro grown_tables.table_ops grown_recorded grown_host.program_ops | simp add: grown_def)+

end
