(* ===== verification/Program_Commands.thy ===== *)
theory Program_Commands
  imports Program
begin

text \<open>
  The programs that are run. \<open>permitted\<close> lists the command lines that can occur after what was run before; \<open>program_invariant\<close> is interpreted for the histories
  that hold no others.
\<close>

section \<open>What may be run\<close>

definition fixed_commands :: "string list list" where
  "fixed_commands =
    [[''fail2ban-client'', ''status''], [''fail2ban-client'', ''reload''], list_php,
     [''postqueue'', ''-p''], [''postqueue'', ''-f''], [''postqueue'', ''-j''], [''postsuper'', ''-d'', ''ALL'', ''deferred''],
     [''rspamc'', ''stat''], [''clamdscan'', ''--version''], [''clamscan'', ''--version''],
     [''postfix'', ''check''], [''doveconf'', ''-n''], [''rspamadm'', ''configtest''], [''tail'', ''-n'', ''3000'', mail_log]]
    @ map is_active_cmd Services"

text \<open>What fail2ban and systemd themselves printed at some point of the history.\<close>

definition jail_listed :: "lib \<Rightarrow> outbound list \<Rightarrow> string \<Rightarrow> bool" where
  "jail_listed L past jail \<longleftrightarrow> (\<exists>p. suffix p past \<and> (let out = X_both (run_host L p [''fail2ban-client'', ''status'']) in
     jail \<in> set (jail_names out) \<union> set (listed_jails out)))"

definition in_catalog :: "lib \<Rightarrow> outbound list \<Rightarrow> service_def \<Rightarrow> bool" where
  "in_catalog L past d \<longleftrightarrow> d \<in> set (base_catalog @ webmail_custom @ webmail_roundcube ''php-fpm'')
     \<or> (\<exists>p. suffix p past \<and> d \<in> set (webmail_roundcube (php_unit_of (X_stdout (run_host L p list_php)))))"

text \<open>A number of lines that may be asked for.\<close>

definition few_lines :: "int \<Rightarrow> bool" where
  "few_lines n \<longleftrightarrow> 1 \<le> n \<and> n \<le> 20000"

inductive permitted :: "lib \<Rightarrow> outbound list \<Rightarrow> string list \<Rightarrow> bool" for L past where
  fixed: "c \<in> set fixed_commands \<Longrightarrow> permitted L past c"
| jail_status: "jail_listed L past jail \<Longrightarrow> permitted L past [''fail2ban-client'', ''status'', jail]"
| unban: "list_all address_char ip \<Longrightarrow> permitted L past [''fail2ban-client'', ''unban'', ip]"
| unban_jail: "MatchString jailNameRe jail \<Longrightarrow> list_all address_char ip \<Longrightarrow> permitted L past [''fail2ban-client'', ''set'', jail, ''unbanip'', ip]"
| ban: "jail_listed L past jail \<Longrightarrow> list_all address_char ip \<Longrightarrow> permitted L past [''fail2ban-client'', ''set'', jail, ''banip'', ip]"
| queue: "MatchString queueIDRe i \<Longrightarrow> (prog, flag) \<in> {(''postsuper'', ''-d''), (''postsuper'', ''-h''), (''postsuper'', ''-H''), (''postqueue'', ''-i'')}
    \<Longrightarrow> permitted L past [prog, flag, i]"
| shown: "list_all (in_catalog L past) ds \<Longrightarrow> permitted L past (show_units (map SD_Unit ds))"
| control: "in_catalog L past d \<Longrightarrow> Allows d action \<Longrightarrow> permitted L past (control_cmd d action)"
| journal: "in_catalog L past d \<Longrightarrow> few_lines n \<Longrightarrow> permitted L past (journal_cmd (SD_Unit d) n)"
| tail: "s \<in> set logSources \<Longrightarrow> few_lines n \<Longrightarrow> permitted L past (tail_cmd s n)"

text \<open>A history in which every command was permitted, from the point \<open>b\<close> on.\<close>

inductive only_permitted :: "lib \<Rightarrow> outbound list \<Rightarrow> outbound list \<Rightarrow> bool" for L b where
  start: "only_permitted L b b"
| ran: "only_permitted L b past \<Longrightarrow> permitted L past c \<Longrightarrow> only_permitted L b (Ran c # past)"
| sent: "only_permitted L b past \<Longrightarrow> only_permitted L b (Sent t m p body # past)"
| noted: "only_permitted L b past \<Longrightarrow> only_permitted L b (Noted msg # past)"

definition ran_well :: "lib \<Rightarrow> outbound list \<Rightarrow> world \<Rightarrow> bool" where
  "ran_well L b w \<longleftrightarrow> only_permitted L b (outbound w)"

lemma keeps_seq:
  assumes "\<And>w. I w \<Longrightarrow> after m P w" and "\<And>e w1. P (Inl e) w1 \<Longrightarrow> I w1" and "\<And>x w1. P (Inr x) w1 \<Longrightarrow> after (f x) (\<lambda>_. I) w1"
  shows "keeps I (andThen m f)"
  by (rule keepsI, rule after_seq) (blast intro: assms)+

lemma jail_listed_later: "jail_listed L past jail \<Longrightarrow> jail_listed L (c # past) jail"
  by (auto simp: jail_listed_def intro: suffix_ConsI)

lemma in_catalog_later: "in_catalog L past d \<Longrightarrow> in_catalog L (c # past) d"
  by (auto simp: in_catalog_def intro: suffix_ConsI)

section \<open>Running\<close>

lemma after_output:
  assumes "ran_well L b w" and "permitted L (outbound w) c"
    and "\<And>w'. ran_well L b w' \<Longrightarrow> outbound w' = Ran c # outbound w \<Longrightarrow> Q (Inr (X_stdout (run_host L (outbound w) c), if X_ok (run_host L (outbound w) c) then None else Some ExecError)) w'"
  shows "after (Output L c) Q w"
  using assms by (simp add: Output_def wp ran_well_def only_permitted.ran)

lemma after_combined:
  assumes "ran_well L b w" and "permitted L (outbound w) c"
    and "\<And>w'. ran_well L b w' \<Longrightarrow> outbound w' = Ran c # outbound w \<Longrightarrow> Q (Inr (X_both (run_host L (outbound w) c), if X_ok (run_host L (outbound w) c) then None else Some ExecError)) w'"
  shows "after (CombinedOutput L c) Q w"
  using assms by (simp add: CombinedOutput_def wp ran_well_def only_permitted.ran)

lemma keeps_run_permitted:
  assumes "\<And>past. permitted L past c"
  shows "keeps (ran_well L b) (Output L c)" "keeps (ran_well L b) (CombinedOutput L c)" "keeps (ran_well L b) (RunHost L c)"
  using assms by (auto simp: keeps_def Output_def CombinedOutput_def wp ran_well_def only_permitted.ran)

interpretation ran_tables: table_invariant "ran_well L b" for L b
  by standard (simp_all add: ran_well_def)

lemma keeps_fixed: "c \<in> set fixed_commands \<Longrightarrow> keeps (ran_well L b) (Output L c)" "c \<in> set fixed_commands \<Longrightarrow> keeps (ran_well L b) (CombinedOutput L c)"
  "c \<in> set fixed_commands \<Longrightarrow> keeps (ran_well L b) (RunHost L c)"
  by (rule keeps_run_permitted, erule permitted.fixed)+

lemma fixed_queue: "keeps (ran_well L b) (Queue L J)" "keeps (ran_well L b) (DeleteAllDeferred L)" "keeps (ran_well L b) (FlushQueue L)"
  "keeps (ran_well L b) (Spam L)" "keeps (ran_well L b) (Antivirus L)" "keeps (ran_well L b) (QueueList L)" "keeps (ran_well L b) (QueueFlush L)"
  unfolding Queue_def DeleteAllDeferred_def FlushQueue_def Spam_def Antivirus_def QueueList_def QueueFlush_def postsuper_def tool_def
  by (intro keeps_ops keeps_fixed; simp add: fixed_commands_def)+

lemma one_message: "keeps (ran_well L b) (DeleteMessage L i)" "keeps (ran_well L b) (RetryMessage L i)" "keeps (ran_well L b) (HoldMessage L i)"
  "keeps (ran_well L b) (ReleaseMessage L i)"
  unfolding DeleteMessage_def RetryMessage_def HoldMessage_def ReleaseMessage_def postsuper_def tool_def
  by (intro keeps_ops keeps_run_permitted; simp add: permitted.queue)+

lemma fixed_diagnosis: "keeps (ran_well L b) (CheckServices L)" "keeps (ran_well L b) (CheckConfigs L)" "keeps (ran_well L b) (RecentIssues L mail_log n)"
proof -
  have "keeps (ran_well L b) (check_services L ss)" if "set ss \<subseteq> set Services" for ss
    using that by (induction ss) (auto simp: fixed_commands_def intro!: keeps_ops keeps_fixed)
  then show "keeps (ran_well L b) (CheckServices L)" by (simp add: CheckServices_def)
  show "keeps (ran_well L b) (CheckConfigs L)"
    unfolding CheckConfigs_def config_cmds_def check_configs.simps by (intro keeps_ops keeps_fixed; simp add: fixed_commands_def)
  show "keeps (ran_well L b) (RecentIssues L mail_log n)"
    unfolding RecentIssues_def by (intro keeps_ops keeps_fixed; simp add: fixed_commands_def)
qed

section \<open>Fail2ban\<close>

definition knows_jails :: "lib \<Rightarrow> outbound list \<Rightarrow> string list \<Rightarrow> world \<Rightarrow> bool" where
  "knows_jails L b js w \<longleftrightarrow> ran_well L b w \<and> list_all (jail_listed L (outbound w)) js"

lemma knows_later: "list_all (jail_listed L past) js \<Longrightarrow> list_all (jail_listed L (c # past)) js"
  by (auto simp: list_all_iff jail_listed_later)

lemma knows_run:
  assumes "\<And>past. list_all (jail_listed L past) js \<Longrightarrow> permitted L past c"
  shows "keeps (knows_jails L b js) (CombinedOutput L c)"
  using assms by (auto simp: keeps_def CombinedOutput_def wp knows_jails_def ran_well_def only_permitted.ran knows_later)

lemma knows_fail2ban:
  assumes "\<And>past. list_all (jail_listed L past) js \<Longrightarrow> permitted L past (''fail2ban-client'' # args)"
  shows "keeps (knows_jails L b js) (fail2ban L args)"
  unfolding fail2ban_def by (intro keeps_ops knows_run assms)

lemma asked_status:
  "ran_well L b w \<Longrightarrow> after (CombinedOutput L [''fail2ban-client'', ''status'']) (\<lambda>r w'. case r of Inl e \<Rightarrow> ran_well L b w'
     | Inr (out, err) \<Rightarrow> knows_jails L b (jail_names out) w' \<and> knows_jails L b (listed_jails out) w') w"
  by (rule after_combined, assumption)
    (auto simp: fixed_commands_def knows_jails_def list_all_iff jail_listed_def Let_def intro!: permitted.fixed suffix_ConsI)

lemma knows_ran: "knows_jails L b js w \<Longrightarrow> ran_well L b w"
  by (simp add: knows_jails_def)

lemma asked_names:
  assumes "ran_well L b w"
  shows "after (JailNames L) (\<lambda>r w'. case r of Inl e \<Rightarrow> ran_well L b w' | Inr names \<Rightarrow> knows_jails L b names w') w"
proof -
  have "after (fail2ban L [''status'']) (\<lambda>r w'. case r of Inl e \<Rightarrow> ran_well L b w' | Inr out \<Rightarrow> knows_jails L b (jail_names out) w') w"
    unfolding fail2ban_def after_andThen
    by (rule after_mono [OF asked_status [OF assms]]) (auto simp: wp dest: knows_ran split: sum.splits option.split)
  then show ?thesis
    unfolding JailNames_def after_andThen by (rule after_mono) (auto simp: wp split: sum.splits)
qed

lemma ran_after_knows: "keeps (knows_jails L b js) m \<Longrightarrow> knows_jails L b js w \<Longrightarrow> after m (\<lambda>_. ran_well L b) w"
  by (auto intro: after_mono keepsD knows_ran)

lemma asked_jails: "keeps (ran_well L b) (Jails L)"
proof -
  have each: "keeps (knows_jails L b js) (jails_of L ns)" if "set ns \<subseteq> set js" for js ns
    using that by (induction ns) (auto simp: list_all_iff intro!: keeps_ops knows_fail2ban permitted.jail_status)
  show ?thesis
    unfolding Jails_def
    by (rule keeps_seq, erule asked_names) (auto intro: ran_after_knows [OF each])
qed

lemma asked_bans: "keeps (ran_well L b) (Fail2banBans L)"
proof -
  have each: "keeps (knows_jails L b js) (bans_of L ns)" if "set ns \<subseteq> set js" for js ns
    using that by (induction ns) (auto simp: list_all_iff intro!: keeps_ops knows_run permitted.jail_status)
  show ?thesis
    unfolding Fail2banBans_def
    by (rule keeps_seq, erule asked_status) (auto simp: wp dest: knows_ran split: option.split intro: ran_after_knows [OF each])
qed

lemma valid_ip: "ValidateIP L s = Inr ip \<Longrightarrow> list_all address_char ip"
  by (auto simp: ValidateIP_def IPString_def list_all_iff split: option.splits if_splits dest: dotted_chars ip6_chars)

lemma keeps_lifted: "(\<And>x. r = Inr x \<Longrightarrow> keeps I (f x)) \<Longrightarrow> keeps I (andThen (Lift r) f)"
  by (cases r) (auto simp: keeps_def wp)

lemma asked_unban: "keeps (ran_well L b) (Unban L ip jail)"
  unfolding Unban_def fail2ban_def
  by (intro keeps_lifted keeps_ops keeps_run_permitted; auto dest: valid_ip intro: permitted.unban permitted.unban_jail)

lemma asked_ban: "keeps (ran_well L b) (Ban L ip jail)"
  unfolding Ban_def
proof (intro keeps_lifted)
  fix a assume "ValidateIP L ip = Inr a"
  then have "keeps (knows_jails L b ns) (andThen (fail2ban L [''set'', jail, ''banip'', a]) (\<lambda>_. Return ()))" if "jail \<in> set ns" for ns
    using that valid_ip by (intro keeps_ops knows_fail2ban permitted.ban) (auto simp: list_all_iff)
  note ran = ran_after_knows [OF this]
  show "keeps (ran_well L b) (andThen (JailNames L) (\<lambda>names. if jail \<notin> set names then Raise (ErrText (''no active jail named '' @ Quote (uni L) jail))
      else andThen (fail2ban L [''set'', jail, ''banip'', a]) (\<lambda>_. Return ())))"
    by (rule keeps_seq, erule asked_names) (auto simp: after_Raise dest: knows_ran intro: ran)
qed

lemma set_allowlist: "keeps (ran_well L b) (SetAllowlist L es)"
proof -
  have "keeps (ran_well L b) (fail2ban L [''reload''])"
    unfolding fail2ban_def by (intro keeps_ops keeps_fixed) (simp add: fixed_commands_def)
  moreover have "keeps (ran_well L b) (Rename x y)" for x y
    unfolding Rename_def by (rule ran_tables.read_ops)
  ultimately show ?thesis
    unfolding SetAllowlist_def by (intro ran_tables.frame_ops keeps_ops)
qed

section \<open>Services and logs\<close>

text \<open>A service is looked up in the catalog of the moment; what is done with it is permitted after that.\<close>

definition knows_service :: "lib \<Rightarrow> outbound list \<Rightarrow> service_def \<Rightarrow> world \<Rightarrow> bool" where
  "knows_service L b d w \<longleftrightarrow> ran_well L b w \<and> in_catalog L (outbound w) d"

definition knows_services :: "lib \<Rightarrow> outbound list \<Rightarrow> service_def list \<Rightarrow> world \<Rightarrow> bool" where
  "knows_services L b ds w \<longleftrightarrow> ran_well L b w \<and> list_all (in_catalog L (outbound w)) ds"

lemma asked_catalog:
  assumes "ran_well L b w"
  shows "after (Catalog L webmail) (\<lambda>r w'. case r of Inl e \<Rightarrow> ran_well L b w' | Inr ds \<Rightarrow> knows_services L b ds w') w"
proof -
  have "permitted L (outbound w) list_php"
    by (rule permitted.fixed) (simp add: fixed_commands_def)
  then have php: "after (phpFPMUnit L) (\<lambda>r w'. case r of Inl e \<Rightarrow> ran_well L b w'
      | Inr php \<Rightarrow> ran_well L b w' \<and> list_all (in_catalog L (outbound w')) (webmail_roundcube php)) w"
    unfolding phpFPMUnit_def after_andThen
    by (intro after_output [OF assms]) (auto simp: wp list_all_iff in_catalog_def intro!: suffix_ConsI)
  show ?thesis
  proof (cases "webmail = ''patrabahok'' \<or> webmail = ''roundcube''")
    case True
    then show ?thesis
      unfolding Catalog_def after_if after_andThen if_P [OF True]
      by (intro after_mono [OF php]) (auto simp: wp knows_services_def list_all_iff in_catalog_def split: sum.splits)
  next
    case False
    then show ?thesis
      using assms by (auto simp: Catalog_def wp knows_services_def list_all_iff in_catalog_def)
  qed
qed

lemma asked_find:
  assumes "ran_well L b w"
  shows "after (Find L webmail unit) (\<lambda>r w'. case r of Inr (Some d) \<Rightarrow> knows_service L b d w' | _ \<Rightarrow> ran_well L b w') w"
  unfolding Find_def after_andThen
  by (rule after_mono [OF asked_catalog [OF assms]])
    (auto simp: wp knows_services_def knows_service_def list_all_iff dest!: found_in split: sum.splits option.split)

lemma found_service:
  assumes "\<And>d w. knows_service L b d w \<Longrightarrow> after (k (Some d)) (\<lambda>_. ran_well L b) w" and "keeps (ran_well L b) (k None)"
  shows "keeps (ran_well L b) (andThen (Find L webmail unit) k)"
  by (rule keeps_seq, erule asked_find) (auto split: option.splits intro: assms keepsD [OF assms(2)])

lemma knows_service_run:
  "knows_service L b d w \<Longrightarrow> permitted L (outbound w) c \<Longrightarrow> after (CombinedOutput L c) (\<lambda>_. ran_well L b) w"
  by (rule after_combined) (auto simp: knows_service_def)

lemma asked_services:
  "keeps (ran_well L b) (Find L webmail unit)" "keeps (ran_well L b) (States L P webmail)"
  "keeps (ran_well L b) (Control L webmail unit action)" "keeps (ran_well L b) (ServiceLogs L webmail unit n)"
proof -
  show "keeps (ran_well L b) (Find L webmail unit)"
    by (rule keepsI, rule after_mono, erule asked_find) (auto simp: knows_service_def split: sum.splits option.splits)
  have "after (andThen (Output L (show_units (map SD_Unit ds))) (\<lambda>(out, err). Return (f out))) (\<lambda>_. ran_well L b) w"
    if "knows_services L b ds w" for ds w and f :: "string \<Rightarrow> service_state list"
    unfolding after_andThen
    by (rule after_output) (use that in \<open>auto simp: knows_services_def wp intro: permitted.shown\<close>)
  note states = this
  show "keeps (ran_well L b) (States L P webmail)"
    unfolding States_def by (rule keeps_seq, erule asked_catalog) (auto intro: states)
  show "keeps (ran_well L b) (Control L webmail unit action)"
    unfolding Control_def
    by (intro found_service)
      (auto simp: wp keeps_Raise knows_service_def split: option.splits intro!: after_combined intro: permitted.control)
  show "keeps (ran_well L b) (ServiceLogs L webmail unit n)"
    unfolding ServiceLogs_def
    by (intro found_service)
      (auto simp: wp keeps_Raise knows_service_def few_lines_def clampLines_def split: option.splits intro!: after_combined permitted.journal)
qed

lemma present_known: "after (present ss) (\<lambda>r w'. case r of Inl e \<Rightarrow> True | Inr out \<Rightarrow> set out \<subseteq> set ss) w"
proof (induction ss arbitrary: w)
  case (Cons s ss)
  have rest: "after (andThen (present ss) (\<lambda>out. Return (if b then s # out else out)))
      (\<lambda>r w'. case r of Inl e \<Rightarrow> True | Inr out \<Rightarrow> set out \<subseteq> set (s # ss)) w1" for b w1
    by (rule after_seq [OF Cons.IH]) (auto simp: wp)
  have "after (stat_ok p) (\<lambda>_ _. True) w" for p
    by (simp add: after_def split: prod.split)
  with rest [of True] show ?case
    by (auto intro!: after_seq [of "stat_ok _"] rest)
qed (simp add: wp)

lemma asked_sources:
  assumes "ran_well L b w"
  shows "after (findSource key) (\<lambda>r w'. ran_well L b w' \<and> (case r of Inr (Some s) \<Rightarrow> s \<in> set logSources | _ \<Rightarrow> True)) w"
proof -
  have "keeps (ran_well L b) (present ss)" for ss
    by (induction ss) (auto intro!: ran_tables.read_ops keeps_ops)
  from keepsD [OF this assms] present_known
  have "after (present logSources) (\<lambda>r w'. ran_well L b w' \<and> (case r of Inl e \<Rightarrow> True | Inr out \<Rightarrow> set out \<subseteq> set logSources)) w"
    by (simp add: after_def case_prod_unfold)
  then show ?thesis
    unfolding findSource_def LogSources_def after_andThen
    by (rule after_mono) (auto simp: wp dest!: found_in split: sum.splits option.split)
qed

lemma asked_log: "keeps (ran_well L b) (TailLog L key n flt)"
  unfolding TailLog_def
  by (rule keeps_seq, erule asked_sources)
    (auto simp: wp Let_def few_lines_def clampLines_def split: option.splits intro!: after_output permitted.tail)

lemma ran_recorded: "keeps (ran_well L b) (AuditRecord a1 a2 a3 a4 a5)"
  unfolding AuditRecord_def by (intro keeps_ops keeps_Exec) (auto simp: ran_well_def ins_audit_def)

interpretation ran_program: program_invariant "ran_well L b" L for L b
  by unfold_locales
    (intro ran_tables.table_ops ran_recorded fixed_queue one_message fixed_diagnosis asked_jails asked_bans asked_unban asked_ban set_allowlist asked_services asked_log
      | simp add: ran_well_def only_permitted.sent only_permitted.noted)+

end
