(* ===== verification/Dashboard_Guard.thy ===== *)
theory Dashboard_Guard
  imports Dashboard Policy
begin

text \<open>What a request to the dashboard needs: a session for all but the sign-in, and an origin that is this host for all that is not read only.\<close>

section \<open>Who is signed in\<close>

definition signed_in :: "lib \<Rightarrow> world \<Rightarrow> web_request \<Rightarrow> admin_user option" where
  "signed_in L w r = Option.bind (Wq_Cookie r SessionCookieName) (session_lookup L w)"

text \<open>The paths with pages for everyone: the sign-in, the old address of the user list, the embedded files and the mounted public API.\<close>

definition open_path :: "string list \<Rightarrow> bool" where
  "open_path p \<longleftrightarrow> (case p of [] \<Rightarrow> False | s # rest \<Rightarrow> s \<in> {''login'', ''logout'', ''mailboxes'', ''static'', ''api''})"

definition cross_origin :: "lib \<Rightarrow> server_env \<Rightarrow> web_request \<Rightarrow> bool" where
  "cross_origin L E r \<longleftrightarrow> Rq_Method r \<notin> {''GET'', ''HEAD'', ''OPTIONS''} \<and> Rq_Header r ''Origin'' \<noteq> []
     \<and> \<not> (case de_url_host E (Rq_Header r ''Origin'') of None \<Rightarrow> False | Some host \<Rightarrow> EqualFold (uni L) host (Rq_Host r))"

text \<open>An answer that shows nothing: a message of the server or the way to the sign-in.\<close>

definition turned_away :: "view response \<Rightarrow> bool" where
  "turned_away resp \<longleftrightarrow> list_all (\<lambda>out. case out of
       PlainText m \<Rightarrow> m \<in> {''cross-origin request rejected'', ''404 page not found'', ''Method Not Allowed''}
     | Redirect to \<Rightarrow> to = ''/login'' | HxRedirect to \<Rightarrow> to = ''/login'' | _ \<Rightarrow> False) (RS_Output resp)"

section \<open>Routes behind the session\<close>

definition guards :: "(string list \<Rightarrow> access) \<Rightarrow> bool" where
  "guards h \<longleftrightarrow> (\<forall>vs. \<exists>g. h vs = Guarded g)"

lemma guards_Guarded: "guards (\<lambda>vs. Guarded (g vs))"
  by (simp add: guards_def)

lemma guarded_routes:
  "(m, p, h) \<in> set (domain_dash_routes L E r) \<Longrightarrow> guards h" "(m, p, h) \<in> set (user_dash_routes L E r) \<Longrightarrow> guards h"
  "(m, p, h) \<in> set (group_dash_routes L E r) \<Longrightarrow> guards h" "(m, p, h) \<in> set (server_dash_routes L E r) \<Longrightarrow> guards h"
  "(m, p, h) \<in> set (account_dash_routes L E r) \<Longrightarrow> guards h"
  unfolding domain_dash_routes_def user_dash_routes_def group_dash_routes_def server_dash_routes_def account_dash_routes_def
  by (auto simp: guards_Guarded)

lemma open_routes_path: "(m, p, h) \<in> set (open_routes L E r) \<Longrightarrow> match_path p path \<noteq> None \<Longrightarrow> open_path path"
  by (cases path) (auto simp: open_routes_def open_path_def split: if_splits)

lemma find_route_Some:
  assumes "find_route rs r = Some a"
  obtains p h where "(wanted_method r, p, h) \<in> set rs" "match_path p (Rq_Path r) \<noteq> None" "a = h (the (match_path p (Rq_Path r)))"
proof -
  from assms obtain m p h where f: "find (\<lambda>(m, p, h). m = wanted_method r \<and> match_path p (Rq_Path r) \<noteq> None) rs = Some (m, p, h)"
    and a: "a = h (the (match_path p (Rq_Path r)))"
    by (auto simp: find_route_def split: option.splits)
  from f have "(m, p, h) \<in> set rs" "m = wanted_method r" "match_path p (Rq_Path r) \<noteq> None"
    by (auto simp: find_Some_iff) (metis nth_mem)
  with a that show thesis by simp
qed

lemma find_route_guarded:
  assumes "find_route (dash_routes L E r) r = Some a" and "\<not> open_path (Rq_Path r)"
  obtains g where "a = Guarded g"
proof -
  from assms(1) obtain p h where "(wanted_method r, p, h) \<in> set (dash_routes L E r)" "match_path p (Rq_Path r) \<noteq> None"
    and a: "a = h (the (match_path p (Rq_Path r)))"
    by (rule find_route_Some)
  then have "guards h"
    using assms(2) guarded_routes open_routes_path unfolding dash_routes_def by (metis Un_iff set_append)
  with a that show thesis by (auto simp: guards_def)
qed

section \<open>Without a session\<close>

lemma login_turned_away: "turned_away (redirectToLogin r)" "turned_away (sending cs (redirectToLogin r))"
  by (simp_all add: turned_away_def redirectToLogin_def go_to_def respond_def redirect_def sending_def)

lemma requireAuth_refuses:
  assumes "signed_in L w r = None"
  shows "after (requireAuth L r h) (\<lambda>x w'. (\<exists>resp. x = Inr resp \<and> turned_away resp) \<and> only_faults w w') w"
proof (cases "Wq_Cookie r SessionCookieName")
  case (Some t)
  with assms have "session_lookup L w t = None" by (simp add: signed_in_def)
  then have "after (VerifySession L t) (\<lambda>x w'. (\<exists>e. x = Inl e) \<and> only_faults w w') w"
    by (auto simp: VerifySession_def wp session_lookup_def split: if_splits)
  then show ?thesis
    unfolding requireAuth_def Some given_def option.case after_checked
    by (rule after_mono) (auto simp: login_turned_away)
qed (simp add: requireAuth_def given_def wp login_turned_away)

lemma dash_pages_refuse:
  assumes "signed_in L w r = None" and "\<not> open_path (Rq_Path r)"
  shows "after (dash_pages L E r) (\<lambda>x w'. (\<exists>resp. x = Inr resp \<and> turned_away resp) \<and> only_faults w w') w"
proof (cases "find_route (dash_routes L E r) r")
  case None
  then show ?thesis by (simp add: dash_pages_def wp turned_away_def not_allowed_def NotFound_def http_error_def respond_def)
next
  case (Some a)
  then obtain g where "a = Guarded g" using find_route_guarded assms(2) by blast
  with Some requireAuth_refuses [OF assms(1)] show ?thesis by (simp add: dash_pages_def run_access_def)
qed

text \<open>
  C5: Nobody gets past the guards of the dashboard. A request for a page that is not open to everyone and that carries no cookie of a session that stands in the table, and
  a request that is not read only and names another host as its origin, gets a message or the way to the sign-in, never a page, and changes nothing.
\<close>

theorem dashboard_guarded:
  assumes "cross_origin L E r \<or> (\<not> open_path (Rq_Path r) \<and> signed_in L w r = None)"
  shows "after (serve_dashboard L E r) (\<lambda>x w'. (\<exists>resp. x = Inr resp \<and> turned_away resp) \<and> only_faults w w') w"
proof (cases "cross_origin L E r")
  case True
  then have "serve_dashboard L E r = Return (http_error 403 ''cross-origin request rejected'')"
    by (auto simp: serve_dashboard_def secure_def cross_origin_def Let_def split: option.splits)
  then show ?thesis by (simp add: wp turned_away_def http_error_def respond_def)
next
  case False
  with assms have "mux L E r = dash_pages L E r"
    by (auto simp: mux_def open_path_def split: list.splits)
  moreover have "serve_dashboard L E r = mux L E r"
    using False by (auto simp: serve_dashboard_def secure_def cross_origin_def Let_def split: option.splits)
  ultimately show ?thesis using False assms dash_pages_refuse by simp
qed

definition blank_request :: web_request where
  "blank_request = \<lparr>Rq_Method = ''GET'', Rq_Host = ''mail.example.com'', Rq_Path = [''users''], Rq_Query = (\<lambda>k. []), Rq_Header = (\<lambda>k. []),
     Rq_RemoteAddr = ''192.0.2.1:5000'', Rq_Body = [],
     Wq_FormOk = True, Wq_Post = (\<lambda>k. None), Wq_MultipartOk = True, Wq_File = NoUpload, Wq_Cookie = (\<lambda>k. None), Wq_TLS = True, Wq_Path = ''/users'', Wq_Values = []\<rparr>"

theorem dashboard_guarded_witness:
  "\<forall>E. after (serve_dashboard example_lib E blank_request) (\<lambda>x w'. (\<exists>resp. x = Inr resp \<and> turned_away resp) \<and> only_faults empty_world w') empty_world"
proof
  fix E
  show "after (serve_dashboard example_lib E blank_request) (\<lambda>x w'. (\<exists>resp. x = Inr resp \<and> turned_away resp) \<and> only_faults empty_world w') empty_world"
    by (rule dashboard_guarded) (simp add: blank_request_def open_path_def signed_in_def)
qed

end
