(* ===== verification/Dashboard_Log.thy ===== *)
theory Dashboard_Log
  imports Program Dashboard_Guard
begin

text \<open>
  Who stands in the log: the entries that a request to the dashboard leaves name the account whose session it carries, those that a request to the public API leaves
  name the domain of its key, and both name the address the request came from.
\<close>

definition names_account :: "web_request \<Rightarrow> admin_user \<Rightarrow> audit_row \<Rightarrow> bool" where
  "names_account r u e \<longleftrightarrow> au_actor e = clip (''admin:'' @ AU_Username u) 255 \<and> au_ip e = clip (remote_host r) 64"

definition names_key :: "http_request \<Rightarrow> string \<Rightarrow> audit_row \<Rightarrow> bool" where
  "names_key q D e \<longleftrightarrow> au_actor e = clip (''apikey:'' @ D) 255 \<and> au_ip e = clip (clientIP q) 64"

text \<open>\<open>added P b w\<close>: the log is \<open>b\<close> and then entries that satisfy \<open>P\<close>.\<close>

definition added :: "(audit_row \<Rightarrow> bool) \<Rightarrow> audit_row list \<Rightarrow> world \<Rightarrow> bool" where
  "added P b w \<longleftrightarrow> (\<exists>es. audit_log w = b @ es \<and> list_all P es)"

interpretation added_host: host_invariant "added P b" for P b
  by standard (simp_all add: added_def tick_def)

interpretation added_tables: table_invariant "added P b" for P b
  by standard (simp_all add: added_def)

interpretation added_effects: program_effects "added P b" L for P b L
  by unfold_locales (intro added_tables.table_ops added_host.program_ops | simp add: added_def)+

lemma added_recorded: "keeps (added (names_account r u) b) (record_web r u a tg dt)"
  unfolding record_web_def AuditRecord_def
  by (intro keeps_ops keeps_Exec) (force simp: added_def ins_audit_def names_account_def)+

interpretation added_dashboard: dashboard_effects "added (names_account r u) b" L r u for r u b L
  by unfold_locales (rule added_recorded)

lemma added_key: "keeps (added (names_key q D) b) (record_change q D a tg x)"
  unfolding record_change_def AuditRecord_def
  by (intro keeps_ops keeps_Exec) (force simp: added_def ins_audit_def names_key_def)+

interpretation added_public: public_effects "added (names_key q D) b" L q D for q D b L
  by unfold_locales (rule added_key)

lemma added_mono: "added P b w \<Longrightarrow> (\<And>e. P e \<Longrightarrow> Q e) \<Longrightarrow> added Q b w"
  by (auto simp: added_def intro: list.pred_mono_strong)

text \<open>The sign-in leaves no entry.\<close>

lemma open_silent:
  "list_all (\<lambda>(m, p, h). \<forall>vs. case h vs of Open k \<Rightarrow> keeps (added (\<lambda>e. False) b) k | Guarded g \<Rightarrow> False) (open_routes L E r)"
  by (simp add: open_routes_def added_effects.open_pages keeps_Return)

lemma served_by:
  assumes "find_route (dash_routes L E r) r = Some a"
  shows "case a of Open k \<Rightarrow> keeps (added (\<lambda>e. False) b) k | Guarded g \<Rightarrow> \<forall>u. keeps (added (names_account r u) b) (g u)"
proof -
  from assms obtain p h where "(wanted_method r, p, h) \<in> set (dash_routes L E r)" and a: "a = h (the (match_path p (Rq_Path r)))"
    by (rule find_route_Some)
  then consider "(wanted_method r, p, h) \<in> set (open_routes L E r)" | "guards h"
    using guarded_routes unfolding dash_routes_def by (metis Un_iff set_append)
  then show ?thesis
  proof cases
    case 1
    with open_silent [of b L E r] a show ?thesis by (auto simp: list_all_iff split: access.splits)
  next
    case 2
    then obtain g where g: "a = Guarded g" using a by (auto simp: guards_def)
    have "list_all (kept_route (added (names_account r u) b) u) (dash_routes L E r)" for u
      using added_dashboard.kept_routes by (simp add: dash_routes_def)
    from found_route_kept [OF assms this] g show ?thesis by (simp add: kept_access_def)
  qed
qed

lemma verified_session:
  "after (VerifySession L t) (\<lambda>x w'. audit_log w' = audit_log w \<and> (case x of Inl e \<Rightarrow> True | Inr u \<Rightarrow> session_lookup L w t = Some u)) w"
  by (auto simp: VerifySession_def wp session_lookup_def split: option.split)

lemma guarded_attributed:
  assumes "\<And>u. keeps (added (names_account r u) (audit_log w)) (g u)"
  shows "after (requireAuth L r g) (\<lambda>x. added (\<lambda>e. case signed_in L w r of None \<Rightarrow> False | Some u \<Rightarrow> names_account r u e) (audit_log w)) w"
proof (cases "Wq_Cookie r SessionCookieName")
  case None
  then show ?thesis by (simp add: requireAuth_def given_def wp added_def)
next
  case (Some t)
  have "after (g u) (\<lambda>x. added (\<lambda>e. case signed_in L w r of None \<Rightarrow> False | Some u \<Rightarrow> names_account r u e) (audit_log w)) w1"
    if "audit_log w1 = audit_log w" "session_lookup L w t = Some u" for u w1
  proof (rule after_mono [OF keepsD [OF assms]])
    show "added (names_account r u) (audit_log w) w1" using that(1) by (simp add: added_def)
    show "added (\<lambda>e. case signed_in L w r of None \<Rightarrow> False | Some u \<Rightarrow> names_account r u e) (audit_log w) w'"
      if "added (names_account r u) (audit_log w) w'" for w'
      using that \<open>session_lookup L w t = Some u\<close> Some by (simp add: signed_in_def)
  qed
  then show ?thesis
    unfolding requireAuth_def given_def Some option.case after_checked
    by (intro after_mono [OF verified_session]) (auto simp: added_def split: sum.splits)
qed

lemma public_attributed:
  "after (ServeHTTP L J q) (\<lambda>x. added (\<lambda>e. \<exists>D. key_lookup L w (presentedKey q) = Some D \<and> names_key q D e) (audit_log w)) w"
proof (cases rule: ServeHTTP_route [of L J q])
  case 1
  then show ?thesis by (simp add: after_Return added_def)
next
  case (2 meth segs h)
  have same: "audit_log w' = audit_log w" if "untouched w w'" for w'
    using that by (simp add: untouched_def touches_def)
  show ?thesis
    unfolding 2(2)
  proof (rule auth_cases)
    fix D w'
    assume key: "key_lookup L w (presentedKey q) = Some D" and untouched: "untouched w w'"
    have "added (names_key q D) (audit_log w) w'" by (simp add: same [OF untouched] added_def)
    from keepsD [OF added_public.public_routes [OF 2(1)] this]
    show "after (h D) (\<lambda>x. added (\<lambda>e. \<exists>D. key_lookup L w (presentedKey q) = Some D \<and> names_key q D e) (audit_log w)) w'"
      by (rule after_mono) (erule added_mono, use key in blast)
  qed (auto simp: added_def dest: same)
qed

text \<open>Who a request of the dashboard or of the mounted API is from, as an entry names it.\<close>

definition names_author :: "lib \<Rightarrow> world \<Rightarrow> web_request \<Rightarrow> audit_row \<Rightarrow> bool" where
  "names_author L w r e \<longleftrightarrow>
     (if Rq_Path r \<noteq> [] \<and> hd (Rq_Path r) = ''api''
      then \<exists>D. key_lookup L w (presentedKey (http_request.truncate r)) = Some D \<and> names_key (http_request.truncate r) D e
      else \<exists>u. signed_in L w r = Some u \<and> names_account r u e)"

text \<open>
  C6: An entry of the log names who made the change. Whatever a request to the server of the dashboard does, the log afterwards is the log before and then entries that
  name their author and the address the request came from. Below \<open>/api\<close>, where the public API is mounted, the author is \<open>apikey:\<close> and the domain of the key the request
  presents, and a request without an accepted key leaves no entry; everywhere else it is \<open>admin:\<close> and the account of the session the request carries, and a request
  without a session leaves no entry.
\<close>

theorem dashboard_attributed:
  "after (serve_dashboard L E r) (\<lambda>x w'. \<exists>es. audit_log w' = audit_log w @ es \<and> list_all (names_author L w r) es) w"
proof -
  let ?P = "names_author L w r"
  have start: "added P (audit_log w) w" for P by (simp add: added_def)
  have "after (mux L E r) (\<lambda>x. added ?P (audit_log w)) w"
  proof (cases "Rq_Path r \<noteq> [] \<and> hd (Rq_Path r) = ''api''")
    case True
    have "after (ServeHTTP L (de_json E) (http_request.truncate r)) (\<lambda>x. added ?P (audit_log w)) w"
      by (rule after_mono [OF public_attributed]) (erule added_mono, use True in \<open>simp add: names_author_def\<close>)
    then have "after (mounted_api L E r) (\<lambda>x. added ?P (audit_log w)) w"
      unfolding mounted_api_def after_if after_andThen by (auto simp: after_Return start elim!: after_mono split: sum.split)
    with True show ?thesis by (simp add: mux_def)
  next
    case False
    then have P: "?P = (\<lambda>e. case signed_in L w r of None \<Rightarrow> False | Some u \<Rightarrow> names_account r u e)"
      unfolding names_author_def [abs_def] if_not_P [OF False] by (auto split: option.split)
    have "after (dash_pages L E r) (\<lambda>x. added ?P (audit_log w)) w"
    proof (cases "find_route (dash_routes L E r) r")
      case None
      then show ?thesis by (simp add: dash_pages_def wp start)
    next
      case (Some a)
      note served = served_by [OF Some, of "audit_log w"]
      show ?thesis
      proof (cases a)
        case (Open k)
        with served have "keeps (added (\<lambda>e. False) (audit_log w)) k" by simp
        from keepsD [OF this start] Open Some show ?thesis
          by (auto simp: dash_pages_def run_access_def intro: after_mono added_mono)
      next
        case (Guarded g)
        with served Some show ?thesis
          by (simp add: dash_pages_def run_access_def guarded_attributed P)
      qed
    qed
    with False start show ?thesis by (auto simp: mux_def static_files_def wp split: list.split prod.split)
  qed
  then show ?thesis
    using start [of ?P] by (auto simp: serve_dashboard_def secure_def wp added_def [abs_def] Let_def)
qed

text \<open>A request of the account \<open>root\<close> to retry the delivery of every queued message.\<close>

definition flush_request :: web_request where
  "flush_request = blank_request\<lparr>Rq_Method := ''POST'', Rq_Path := [''queue'', ''flush''], Wq_Cookie := (\<lambda>k. Some ''a'')\<rparr>"

lemma flush_cookie: "Wq_Cookie flush_request SessionCookieName = Some ''a''"
  and flush_path: "Rq_Path flush_request = [''queue'', ''flush'']"
  by (simp_all add: flush_request_def)

lemma flush_session: "signed_in example_lib Adminauth.signed_in flush_request = Some \<lparr>AU_ID = 0, AU_Username = ''root''\<rparr>"
  by code_simp

lemma flush_route: "find_route (dash_routes L E flush_request) flush_request = Some (Guarded (Web_Ops.handleQueueFlush L E flush_request))"
  by (simp add: find_route_def dash_routes_def open_routes_def domain_dash_routes_def user_dash_routes_def group_dash_routes_def server_dash_routes_def
      wanted_method_def flush_request_def blank_request_def)

lemma flush_run:
  "after (serve_dashboard example_lib E flush_request) (\<lambda>x w'. (\<exists>resp. x = Inr resp \<and> RS_Status resp = 303) \<and> (\<exists>e. audit_log w' = [e])) Adminauth.signed_in"
proof -
  let ?root = "\<lparr>AU_ID = 0, AU_Username = ''root''\<rparr>"
  have calm: "faults Adminauth.signed_in = []" "audit_log Adminauth.signed_in = []" by (simp_all add: Adminauth.signed_in_def empty_world_def)
  have found: "session_lookup example_lib Adminauth.signed_in ''a'' = Some ?root" by code_simp
  have verified: "after (VerifySession example_lib ''a'') (\<lambda>x w1. x = Inr ?root \<and> faults w1 = [] \<and> audit_log w1 = []) Adminauth.signed_in"
    using found calm by (auto simp: VerifySession_def wp session_lookup_def fault_def tick_def split: if_splits)
  let ?Q = "\<lambda>x w'. (\<exists>resp. x = Inr resp \<and> RS_Status resp = 303) \<and> (\<exists>e. audit_log w' = [e])"
  have ran: "X_ok (run_host example_lib past c)" for past c by (simp add: example_lib_def)
  have flush: "after (FlushQueue example_lib) (\<lambda>x w2. x = Inr () \<and> faults w2 = [] \<and> audit_log w2 = []) w1" if "faults w1 = []" "audit_log w1 = []" for w1
    using that by (simp add: FlushQueue_def tool_def CombinedOutput_def wp ran)
  have logged: "after (recording flush_request ?root tg a d (Return resp)) ?Q w2" if "faults w2 = []" "audit_log w2 = []" "RS_Status resp = 303" for w2 tg a d and resp :: "view response"
    using that by (simp add: recording_def record_web_def AuditRecord_def wp ins_audit_def fault_def tick_def)
  have "\<not> isHx flush_request" by (simp add: isHx_def flush_request_def blank_request_def)
  then have done_303: "RS_Status (done_with E flush_request to msg) = 303" for to msg
    by (simp add: done_with_def go_to_def sending_def redirect_def respond_def)
  have flushed: "after (Web_Ops.handleQueueFlush example_lib E flush_request ?root) ?Q w1" if "faults w1 = []" "audit_log w1 = []" for w1
    unfolding Web_Ops.handleQueueFlush_def after_checked
    by (rule after_mono [OF flush [OF that]]) (auto intro: logged simp: done_303)
  have "after (requireAuth example_lib flush_request (Web_Ops.handleQueueFlush example_lib E flush_request))
      ?Q Adminauth.signed_in"
    unfolding requireAuth_def given_def flush_cookie option.case after_checked
    by (rule after_mono [OF verified]) (auto intro: flushed)
  moreover have "serve_dashboard example_lib E flush_request = dash_pages example_lib E flush_request"
    by (simp add: serve_dashboard_def secure_def mux_def flush_request_def blank_request_def)
  ultimately show ?thesis by (simp add: dash_pages_def flush_route run_access_def)
qed

theorem dashboard_attributed_witness:
  "\<forall>E. after (serve_dashboard example_lib E flush_request) (\<lambda>x w'. \<exists>e. audit_log w' = [e] \<and> au_actor e = ''admin:root'' \<and> au_ip e = ''192.0.2.1'') Adminauth.signed_in"
proof
  fix E
  have names: "au_actor e = ''admin:root'' \<and> au_ip e = ''192.0.2.1''" if "names_author example_lib Adminauth.signed_in flush_request e" for e
  proof -
    have "clip (''admin:'' @ ''root'') 255 = ''admin:root''" "clip (remote_host flush_request) 64 = ''192.0.2.1''" by code_simp+
    then show ?thesis
      using that flush_session flush_path by (simp add: names_author_def names_account_def)
  qed
  show "after (serve_dashboard example_lib E flush_request) (\<lambda>x w'. \<exists>e. audit_log w' = [e] \<and> au_actor e = ''admin:root'' \<and> au_ip e = ''192.0.2.1'') Adminauth.signed_in"
    using dashboard_attributed [of example_lib E flush_request Adminauth.signed_in] flush_run [of E] names
    by (auto simp: after_def Adminauth.signed_in_def empty_world_def split: prod.splits)
qed

section \<open>Changes that leave no entry\<close>

lemma silent: "keeps (added (\<lambda>e. False) (audit_log w)) m \<Longrightarrow> after m (\<lambda>x w'. audit_log w' = audit_log w) w"
proof -
  assume "keeps (added (\<lambda>e. False) (audit_log w)) m"
  then have "after m (\<lambda>x. added (\<lambda>e. False) (audit_log w)) w" by (rule keepsD) (simp add: added_def)
  then show ?thesis by (rule after_mono) (auto simp: added_def list_all_iff)
qed

text \<open>The local API never writes to the log, nor does the dashboard when it takes a token or an account of Cloudflare.\<close>

lemma local_api_unrecorded: "after (serve L A q) (\<lambda>x w'. audit_log w' = audit_log w) w"
  by (rule silent) (rule added_effects.local_api)

lemma cloudflare_pages_unrecorded:
  "after (handleCloudflareConnect L E r) (\<lambda>x w'. audit_log w' = audit_log w) w"
  "after (handleCloudflareOAuthClientSave L E r) (\<lambda>x w'. audit_log w' = audit_log w) w"
  "after (handleCloudflareCallback L E r) (\<lambda>x w'. audit_log w' = audit_log w) w"
  by (rule silent, rule added_effects.cloudflare_unrecorded)+

text \<open>Nor does the public API when it changes a mailbox or an alias.\<close>

lemma public_mailboxes_unrecorded:
  "after (Publicapi.handleMailboxCreate L J q D) (\<lambda>x w'. audit_log w' = audit_log w) w" "after (Publicapi.handleMailboxDelete L D n) (\<lambda>x w'. audit_log w' = audit_log w) w"
  "after (Publicapi.handleMailboxPassword L J q D n) (\<lambda>x w'. audit_log w' = audit_log w) w" "after (Publicapi.handleMailboxQuota L J q D n) (\<lambda>x w'. audit_log w' = audit_log w) w"
  "after (Publicapi.handleMailboxStatus L J q D n) (\<lambda>x w'. audit_log w' = audit_log w) w" "after (Publicapi.handleAliasCreate L J q D) (\<lambda>x w'. audit_log w' = audit_log w) w"
  "after (Publicapi.handleAliasDelete L J q D) (\<lambda>x w'. audit_log w' = audit_log w) w"
  by (rule silent, rule added_effects.public_unrecorded)+

section \<open>A confirmation that is never read\<close>

text \<open>The body of a \<open>DELETE\<close> request is not parsed as a form, so the name typed to confirm the deletion of a domain, which is sent there, is not seen.\<close>

lemma domain_delete_refused:
  assumes "Rq_Method r = ''DELETE''" and "TrimSpace (Rq_Query r ''confirm'') \<noteq> name"
  shows "handleDomainDelete L E r u name = Return (fail 400 ''Type the domain name exactly to confirm deletion.'')"
  using assms by (simp add: handleDomainDelete_def formValue_def FormValue_def)

text \<open>The guard against removing the own account compares letters, the database does not.\<close>

lemma own_account_by_other_letters:
  assumes "ck L target = ck L (AU_Username u)" and "target \<noteq> AU_Username u" and "faults w = []"
  shows "after (handleAdminDelete L E r u target) (\<lambda>x w'. list_all (\<lambda>a. adkey L a \<noteq> ck L (AU_Username u)) (admin_users w')) w"
proof -
  let ?gone = "\<lambda>w'. list_all (\<lambda>a. adkey L a \<noteq> ck L (AU_Username u)) (admin_users w')"
  have "after (DeleteUser L target) (\<lambda>x. ?gone) w"
    using assms(1,3) by (simp add: DeleteUser_def wp del_admins_def fault_def list_all_iff)
  moreover have "keeps ?gone (record_web r u a tg dt)" for a tg dt
    unfolding record_web_def AuditRecord_def by (intro keeps_ops keeps_Exec) (auto simp: ins_audit_def tick_def)
  then have "keeps ?gone (recording r u a tg dt (Return k))" for a tg dt and k :: "view response"
    unfolding recording_def by (intro keeps_ops)
  ultimately show ?thesis
    using assms(2) unfolding handleAdminDelete_def after_if after_checked
    by (auto elim!: after_mono intro: keepsD split: sum.split)
qed

end
