(* ===== verification/Dashboard_Record.thy ===== *)
theory Dashboard_Record
  imports Dashboard_Log
begin

text \<open>What is changed is on record: a change of the mail data or of the server that the dashboard reports as done has left an entry in the log.\<close>

section \<open>Worlds without failures\<close>

definition calm :: "nat \<Rightarrow> world \<Rightarrow> bool" where
  "calm n w \<longleftrightarrow> faults w = [] \<and> n \<le> length (audit_log w)"

interpretation calm_host: host_invariant "calm n" for n
  by standard (simp_all add: calm_def tick_def)

interpretation calm_tables: table_invariant "calm n" for n
  by standard (simp_all add: calm_def)

lemma calm_recorded: "keeps (calm n) (AuditRecord a1 a2 a3 a4 a5)"
  unfolding AuditRecord_def
  by (intro keeps_ops keeps_Exec) (auto simp: calm_def ins_audit_def tick_def)

interpretation calm_program: program_invariant "calm n" L for n L
  by unfold_locales (intro calm_tables.table_ops calm_recorded calm_host.program_ops | simp add: calm_def)+

lemma calm_more: "calm n w \<Longrightarrow> after (record_web r u a tg dt) (\<lambda>x. calm (Suc n)) w"
  by (simp add: record_web_def AuditRecord_def wp calm_def ins_audit_def fault_def tick_def)

section \<open>Handlers that report\<close>

text \<open>\<open>reports n m\<close>: when \<open>m\<close> ends with a response that is no error, the log has more than \<open>n\<close> entries.\<close>

definition reports :: "nat \<Rightarrow> view page \<Rightarrow> bool" where
  "reports n m \<longleftrightarrow> (\<forall>w. calm n w \<longrightarrow> after m (\<lambda>x w'. case x of Inl e \<Rightarrow> True | Inr resp \<Rightarrow> RS_Status resp < 400 \<longrightarrow> calm (Suc n) w') w)"

named_theorems reports_rules

lemma reports_error [reports_rules]: "400 \<le> RS_Status resp \<Longrightarrow> reports n (Return resp)"
  by (simp add: reports_def wp)

lemma reports_checked:
  assumes "keeps (calm n) m" and "\<And>e. 400 \<le> RS_Status (rep e)" and "\<And>x. reports n (k x)"
  shows "reports n (checked m rep k)"
  unfolding reports_def after_checked
proof (intro allI impI)
  fix w assume "calm n w"
  with assms(1) have "after m (\<lambda>x. calm n) w" by (rule keepsD)
  then show "after m (\<lambda>x w1. case x of Inl e \<Rightarrow> case Inr (rep e) of Inl e \<Rightarrow> True | Inr resp \<Rightarrow> RS_Status resp < 400 \<longrightarrow> calm (Suc n) w1
      | Inr x \<Rightarrow> after (k x) (\<lambda>x w'. case x of Inl e \<Rightarrow> True | Inr resp \<Rightarrow> RS_Status resp < 400 \<longrightarrow> calm (Suc n) w') w1) w"
    by (rule after_mono) (use assms(2,3) in \<open>auto simp: reports_def not_less [symmetric] split: sum.split\<close>)
qed

lemma reports_seq:
  assumes "keeps (calm n) m" and "\<And>x. reports n (k x)"
  shows "reports n (andThen m k)"
  unfolding reports_def
proof (intro allI impI)
  fix w assume "calm n w"
  with assms(1) have "after m (\<lambda>x. calm n) w" by (rule keepsD)
  then show "after (andThen m k) (\<lambda>x w'. case x of Inl e \<Rightarrow> True | Inr resp \<Rightarrow> RS_Status resp < 400 \<longrightarrow> calm (Suc n) w') w"
    by (rule after_seq) (use assms(2) in \<open>auto simp: reports_def\<close>)
qed

lemma reports_recording:
  assumes "keeps (calm (Suc n)) k"
  shows "reports n (recording r u a tg dt k)"
  unfolding reports_def recording_def
proof (intro allI impI)
  fix w assume "calm n w"
  then have "after (record_web r u a tg dt) (\<lambda>x. calm (Suc n)) w" by (rule calm_more)
  then show "after (andThen (record_web r u a tg dt) (\<lambda>_. k)) (\<lambda>x w'. case x of Inl e \<Rightarrow> True | Inr resp \<Rightarrow> RS_Status resp < 400 \<longrightarrow> calm (Suc n) w') w"
    by (rule after_seq) (auto intro: after_mono keepsD [OF assms] split: sum.split)
qed

lemma reports_sending: "reports n m \<Longrightarrow> reports n (andThen m (\<lambda>resp. Return (sending cs resp)))"
  unfolding reports_def after_andThen by (fastforce simp: after_Return sending_def elim!: after_mono split: sum.splits)

lemma reports_with_base: "(\<And>b. reports n (k b)) \<Longrightarrow> reports n (with_base U E r u ti ac cr k)"
  unfolding with_base_def by (simp add: reports_sending split: prod.split)

lemma reports_split [reports_rules]:
  "(b \<Longrightarrow> reports n m1) \<Longrightarrow> (\<not> b \<Longrightarrow> reports n m2) \<Longrightarrow> reports n (if b then m1 else m2)"
  "(\<And>x y. reports n (f x y)) \<Longrightarrow> reports n (case p of (x, y) \<Rightarrow> f x y)"
  by (simp_all split: prod.split)

lemma error_status [simp]: "400 \<le> RS_Status (failErr e)" "RS_Status (fail s msg) = s" "RS_Status invalid_form = 400"
  by (simp_all add: failErr_def fail_def respond_def invalid_form_def)

lemmas reports_steps = reports_rules reports_checked reports_recording reports_with_base keeps_Return keeps_Lift

section \<open>The changes of the mail data\<close>

lemma user_changes:
  "reports n (handleUserCreate L E r u)" "reports n (handleUserProfile L E r u x)" "reports n (handleUserPassword L E r u x)" "reports n (handleUserQuota L E r u x)"
  "reports n (handleUserStatus L E r u x)" "reports n (handleUserForward L E r u x)" "reports n (handleUserForwardClear L E r u x)" "reports n (handleUserAliasAdd L E r u x)"
  "reports n (handleUserAliasRemove L E r u x y)" "reports n (handleUserGroupRemove L E r u x y)" "reports n (handleUserDelete L E r u x)"
  unfolding handleUserProfile_def handleUserCreate_def handleUserPassword_def handleUserQuota_def handleUserStatus_def
    handleUserForward_def handleUserForwardClear_def handleUserAliasAdd_def handleUserAliasRemove_def handleUserGroupRemove_def
    handleUserDelete_def AddressKind_def Let_def
  by (intro reports_steps calm_program.pieces; simp)+

lemma user_group_change: "reports n (handleUserGroupAdd L E r u x)"
  unfolding handleUserGroupAdd_def Let_def
  by (intro reports_steps calm_program.pieces) (auto split: list.split intro!: reports_steps)

lemma import_change: "reports n (handleUsersImport L E r u)"
  unfolding handleUsersImport_def import_all_def given_def Let_def
  by (auto split: option.split intro!: reports_steps reports_seq calm_program.pieces calm_program.by_account.import)

lemma group_changes:
  "reports n (Web_Groups.handleGroupCreate L E r u)" "reports n (Web_Groups.handleGroupUpdate L E r u x)" "reports n (Web_Groups.handleGroupDelete L E r u x)"
  "reports n (handleGroupMemberRole L E r u x y)" "reports n (handleGroupMemberRemove L E r u x y)" "reports n (Web_Groups.handleAliasAdd L E r u)"
  "reports n (Web_Groups.handleAliasDelete L E r u)"
  unfolding Web_Groups.handleGroupCreate_def Web_Groups.handleGroupUpdate_def Web_Groups.handleGroupDelete_def handleGroupMemberRole_def handleGroupMemberRemove_def
    Web_Groups.handleAliasAdd_def Web_Groups.handleAliasDelete_def Let_def
  by (intro reports_steps calm_program.pieces; simp)+

lemma domain_changes:
  "reports n (Web_Domains.handleDomainAdd L E r u)" "reports n (handleDomainDelete L E r u x)" "reports n (handleDomainCatchAll L E r u x)"
  "reports n (handleDomainAPIKeyGenerate L E r u x)" "reports n (handleDomainAPIKeyRevoke L E r u x)"
  unfolding Web_Domains.handleDomainAdd_def handleDomainDelete_def handleDomainCatchAll_def handleDomainAPIKeyGenerate_def handleDomainAPIKeyRevoke_def Let_def
  by (intro reports_steps calm_program.by_account.domain_pages calm_program.pieces; simp)+

section \<open>The changes of the server and its accounts\<close>

lemma host_changes:
  "reports n (handleUnban L E r u)" "reports n (handleBan L E r u)" "reports n (handleAllowlistRemove L E r u)"
  "reports n (Web_Ops.handleQueueFlush L E r u)" "reports n (handleQueueDeleteDeferred L E r u)" "reports n (handleAdminDelete L E r u x)"
  unfolding handleUnban_def handleBan_def handleAllowlistRemove_def Web_Ops.handleQueueFlush_def handleQueueDeleteDeferred_def handleAdminDelete_def Let_def
  by (intro reports_steps calm_program.by_account.allowlist calm_program.pieces; simp)+

lemma allowlist_change: "reports n (handleAllowlistAdd L E r u)"
  unfolding handleAllowlistAdd_def Let_def
  by (intro reports_steps reports_seq calm_program.by_account.allowlist calm_program.pieces; simp)

lemma queue_change: "reports n (handleQueueAction L E r u x y)"
  unfolding handleQueueAction_def given_def
  by (auto split: option.split intro!: reports_steps calm_program.pieces dest: calm_program.by_account.queue_actions)

lemma service_change: "reports n (handleServiceAction L E r u x y)"
  unfolding handleServiceAction_def given_def Let_def
  by (auto split: option.split intro!: reports_steps reports_seq calm_program.pieces)

lemma admin_change: "reports n (handleAdminAdd L E r u)"
  unfolding handleAdminAdd_def Let_def
  by (intro reports_steps calm_program.pieces; simp)

section \<open>Members that are added\<close>

lemma after_any: "after m (\<lambda>_ _. True) w"
  by (simp add: after_def split: prod.split)

lemma member_checked: "keeps (touches b) (check_member L g hs a)"
  by (rule touches_frame.lists)

lemma none_added:
  "touches b w \<Longrightarrow> after (add_members L g hs role as) (\<lambda>r w'. case r of Inl e \<Rightarrow> True | Inr results \<Rightarrow> filter MR_Added results = [] \<longrightarrow> touches b w') w"
proof (induction as arbitrary: w)
  case (Cons a as)
  let ?Q = "\<lambda>r w'. case r of Inl e \<Rightarrow> True | Inr results \<Rightarrow> filter MR_Added results = [] \<longrightarrow> touches b w'"
  let ?addr = "ToLower (uni L) (TrimSpace a)"
  show ?case
  proof (cases "?addr = []")
    case True
    with Cons show ?thesis by simp
  next
    case False
    have new: "after (andThen m (\<lambda>_. andThen (add_members L g hs role as) (\<lambda>results. Return (\<lparr>MR_Address = ?addr, MR_Added = True, MR_Error = []\<rparr> # results)))) ?Q w1"
      for w1 and m :: "nat op"
      by (intro after_seq [OF after_any]) (auto simp: after_Return)
    have old: "after (andThen (Return 0) (\<lambda>_. andThen (add_members L g hs role as) (\<lambda>results. Return (\<lparr>MR_Address = ?addr, MR_Added = False, MR_Error = err\<rparr> # results)))) ?Q w1"
      if "touches b w1" for w1 err
      unfolding after_andThen [of "Return 0"] after_Return sum.case
      by (rule after_seq [OF Cons.IH [OF that]]) (auto simp: after_Return)
    have "after (check_member L g hs ?addr) (\<lambda>r. touches b) w" by (rule keepsD [OF member_checked Cons.prems])
    then show ?thesis
      unfolding add_members.simps Let_def if_not_P [OF False]
      by (rule after_seq) (auto intro: new old)
  qed
qed (simp add: wp)

lemma none_added_group:
  "after (GroupAddMembers L email as role) (\<lambda>r w'. case r of Inl e \<Rightarrow> True | Inr results \<Rightarrow> filter MR_Added results = [] \<longrightarrow> touches w w') w"
proof -
  have "after (GroupGet L email) (\<lambda>r. touches w) w" "\<And>w1. touches w w1 \<Longrightarrow> after (hostedDomains L) (\<lambda>r. touches w) w1"
    by (auto intro: keepsD [OF touches_frame.lists(4)] keepsD touches_frame.lists)
  then show ?thesis
    unfolding GroupAddMembers_def after_if
    by (auto simp: after_Raise intro!: after_seq none_added)
qed

interpretation same_host: files_invariant "\<lambda>w. fs w = f \<and> outbound w = cs" for f cs
  by standard simp

lemma none_added_unchanged:
  "after (GroupAddMembers L email as role) (\<lambda>r w'. case r of Inl e \<Rightarrow> True | Inr results \<Rightarrow> filter MR_Added results = [] \<longrightarrow> unchanged w w') w"
proof -
  have "after (GroupAddMembers L email as role) (\<lambda>r w'. fs w' = fs w \<and> outbound w' = outbound w) w"
    by (rule keepsD [OF same_host.files_operations(12)]) simp
  with none_added_group [of L email as role w] show ?thesis
    by (auto simp: after_def unchanged_def split: prod.splits sum.splits)
qed

section \<open>Every change is on record\<close>

text \<open>What an answer that is no error implies: the log is longer, or, when \<open>b\<close> allows it, nothing is different.\<close>

definition entered :: "bool \<Rightarrow> world \<Rightarrow> error + view response \<Rightarrow> world \<Rightarrow> bool" where
  "entered b w x w' \<longleftrightarrow> (case x of Inl e \<Rightarrow> True
     | Inr resp \<Rightarrow> RS_Status resp \<ge> 400 \<or> length (audit_log w) < length (audit_log w') \<or> (b \<and> unchanged w w'))"

definition accounted :: "bool \<Rightarrow> view page \<Rightarrow> bool" where
  "accounted b m \<longleftrightarrow> (\<forall>w. faults w = [] \<longrightarrow> after m (entered b w) w)"

lemma reports_accounted: "(\<And>n. reports n m) \<Longrightarrow> accounted b m"
  unfolding accounted_def
proof (intro allI impI)
  fix w :: world
  assume "\<And>n. reports n m" and "faults w = []"
  then have "after m (\<lambda>x w'. case x of Inl e \<Rightarrow> True | Inr resp \<Rightarrow> RS_Status resp < 400 \<longrightarrow> calm (Suc (length (audit_log w))) w') w"
    by (simp add: reports_def calm_def)
  then show "after m (entered b w) w"
    by (rule after_mono) (auto simp: entered_def calm_def not_less split: sum.splits)
qed

lemma members_change: "accounted True (handleGroupMembersAdd L E r u x)"
  unfolding accounted_def
proof (intro allI impI)
  fix w :: world
  assume f: "faults w = []"
  let ?as = "splitAddresses (FormValue r ''addresses'')"
  let ?n = "length (audit_log w)"
  have members: "after (GroupAddMembers L x ?as role) (\<lambda>res w1. calm ?n w1
      \<and> (case res of Inl e \<Rightarrow> True | Inr results \<Rightarrow> filter MR_Added results = [] \<longrightarrow> unchanged w w1)) w" for role
  proof -
    have "keeps (calm ?n) (GroupAddMembers L x ?as role)" by (intro calm_program.pieces)
    then have "after (GroupAddMembers L x ?as role) (\<lambda>res. calm ?n) w" by (rule keepsD) (simp add: calm_def f)
    with none_added_unchanged [of L x ?as role w] show ?thesis by (simp add: after_def case_prod_unfold)
  qed
  have entry: "after (recording r u a tg dt (Return resp)) (entered True w) w1" if "calm ?n w1" for w1 a tg dt and resp :: "view response"
    unfolding recording_def
    by (rule after_seq [OF calm_more [OF that]]) (auto simp: entered_def calm_def after_Return)
  show "after (handleGroupMembersAdd L E r u x) (entered True w) w"
    unfolding handleGroupMembersAdd_def Let_def after_if after_checked after_Return
    by (auto simp: entered_def intro!: after_mono [OF members] entry split: sum.splits)
qed

text \<open>The segments whose changes are recorded. The pages of DKIM, of tokens and of the own settings answer some errors with a page, and what they do with Cloudflare is not recorded.\<close>

definition recorded_segments :: "string list" where
  "recorded_segments = [''domains'', ''users'', ''groups'', ''aliases'', ''queue'', ''security'', ''services'', ''admins'']"

text \<open>Adding members to a group is the one request that is answered with a page when nothing came of it.\<close>

definition adds_members :: "web_request \<Rightarrow> bool" where
  "adds_members r \<longleftrightarrow> (\<exists>g. Rq_Path r = [''groups'', g, ''members''])"

definition accounted_route :: "dash_route \<Rightarrow> bool" where
  "accounted_route rt \<longleftrightarrow> (case rt of (m, p, h) \<Rightarrow> m = ''GET'' \<or> p = [Seg ''domains'', Seg ''cloudflare-apply'']
     \<or> hd p \<in> Seg ` {''login'', ''logout'', ''mailboxes'', ''dkim'', ''tokens'', ''settings''}
     \<or> (\<forall>vs. case h vs of Open k \<Rightarrow> False | Guarded g \<Rightarrow> \<forall>u. accounted (p = [Seg ''groups'', Wild, Seg ''members'']) (g u)))"

lemmas all_changes = user_changes user_group_change import_change group_changes domain_changes host_changes allowlist_change queue_change service_change admin_change

lemma accounted_routes:
  "list_all accounted_route (open_routes L E r)" "list_all accounted_route (domain_dash_routes L E r)" "list_all accounted_route (user_dash_routes L E r)"
  "list_all accounted_route (group_dash_routes L E r)" "list_all accounted_route (server_dash_routes L E r)" "list_all accounted_route (account_dash_routes L E r)"
  unfolding open_routes_def domain_dash_routes_def user_dash_routes_def group_dash_routes_def server_dash_routes_def account_dash_routes_def
  by (simp_all add: accounted_route_def reports_accounted all_changes members_change)

lemma few_segments:
  "match_path [Seg a, Seg b] path \<noteq> None \<Longrightarrow> path = [a, b]" "match_path [Seg a, Wild, Seg b] path \<noteq> None \<Longrightarrow> \<exists>x. path = [a, x, b]"
  by (cases path; cases "tl path"; cases "tl (tl path)"; cases "tl (tl (tl path))"; auto split: if_splits)+

lemma found_accounted:
  assumes "find_route (dash_routes L E r) r = Some a" and "Rq_Method r = ''POST'' \<or> Rq_Method r = ''DELETE''"
    and "Rq_Path r = s # rest" and "s \<in> set recorded_segments" and "Rq_Path r \<noteq> [''domains'', ''cloudflare-apply'']"
  obtains g where "a = Guarded g" and "\<And>u. accounted (adds_members r) (g u)"
proof -
  from assms(1) obtain p h where "(wanted_method r, p, h) \<in> set (dash_routes L E r)" and taken: "match_path p (Rq_Path r) \<noteq> None"
    and a: "a = h (the (match_path p (Rq_Path r)))"
    by (rule find_route_Some)
  moreover have "list_all accounted_route (dash_routes L E r)"
    using accounted_routes by (simp add: dash_routes_def)
  ultimately have "accounted_route (wanted_method r, p, h)" by (simp add: list_all_iff)
  moreover have "wanted_method r \<noteq> ''GET''" using assms(2) by (auto simp: wanted_method_def)
  moreover have "p \<noteq> [Seg ''domains'', Seg ''cloudflare-apply'']"
    using taken assms(5) few_segments(1) by blast
  moreover have "hd p \<notin> Seg ` {''login'', ''logout'', ''mailboxes'', ''dkim'', ''tokens'', ''settings''}"
    using taken assms(3,4) by (cases p) (auto simp: recorded_segments_def split: if_splits)
  ultimately have "\<forall>vs. case h vs of Open k \<Rightarrow> False | Guarded g \<Rightarrow> \<forall>u. accounted (p = [Seg ''groups'', Wild, Seg ''members'']) (g u)"
    by (auto simp: accounted_route_def)
  moreover have "p = [Seg ''groups'', Wild, Seg ''members''] \<Longrightarrow> adds_members r"
    using few_segments(2) [of "''groups''" "''members''" "Rq_Path r"] taken by (auto simp: adds_members_def)
  then have "accounted (p = [Seg ''groups'', Wild, Seg ''members'']) m \<Longrightarrow> accounted (adds_members r) m" for m
    by (fastforce simp: accounted_def entered_def elim: after_mono split: sum.splits)
  ultimately have "case a of Open k \<Rightarrow> False | Guarded g \<Rightarrow> \<forall>u. accounted (adds_members r) (g u)" unfolding a by (force split: access.splits)
  with that show thesis by (cases a) auto
qed

text \<open>What a request may leave: an error, a longer log, or nothing different, and the last only when it carries no session or adds members to a group.\<close>

definition on_record :: "lib \<Rightarrow> web_request \<Rightarrow> world \<Rightarrow> error + view response \<Rightarrow> world \<Rightarrow> bool" where
  "on_record L r w x w' \<longleftrightarrow> entered (signed_in L w r = None \<or> adds_members r) w x w'"

lemma accounted_guard:
  assumes "\<And>u. accounted (adds_members r) (g u)" and "faults w = []"
  shows "after (requireAuth L r g) (on_record L r w) w"
proof (cases "Wq_Cookie r SessionCookieName")
  case None
  then show ?thesis by (simp add: requireAuth_def given_def wp on_record_def entered_def unchanged_def signed_in_def)
next
  case (Some t)
  have verified: "after (VerifySession L t) (\<lambda>x w1. unchanged w w1 \<and> faults w1 = [] \<and> (case x of Inl e \<Rightarrow> session_lookup L w t = None | Inr u \<Rightarrow> True)) w"
    using assms(2) by (auto simp: VerifySession_def wp fault_def tick_def touches_def unchanged_def session_lookup_def split: option.split)
  have "after (g u) (on_record L r w) w1" if "unchanged w w1" "faults w1 = []" for u w1
  proof -
    have "after (g u) (entered (adds_members r) w1) w1" using assms(1) that(2) by (simp add: accounted_def)
    then show ?thesis
      by (rule after_mono) (use that(1) in \<open>auto simp: on_record_def entered_def unchanged_def touches_def split: sum.splits\<close>)
  qed
  then show ?thesis
    unfolding requireAuth_def given_def Some option.case after_checked
    by (intro after_mono [OF verified]) (auto simp: on_record_def entered_def signed_in_def Some split: sum.splits)
qed



end
