(* ===== verification/Frontdoor.thy ===== *)
theory Frontdoor
  imports Mtasts Schema
begin

text \<open>
  Package frontdoor: the public HTTPS listener. It hands a request, by its host and its path, to the MTA-STS files, the public API or the webmail, and picks the
  certificate of a connection by the name the client asks for. Listening, the timeouts and the reverse proxy itself are left out.
\<close>

text \<open>\<open>fd_host_cert\<close> is the certificate source of the mail host when there is one; \<open>fd_upstream\<close> is empty when there is no webmail.\<close>

record 'c frontdoor_config =
  fd_host_cert :: "(string \<Rightarrow> 'c option) option"
  fd_api :: bool
  fd_upstream :: string

definition isPublicAPIPath :: "string \<Rightarrow> bool \<Rightarrow> bool" where
  "isPublicAPIPath path haveWebmail =
     (if \<not> HasPrefix path ''/api/'' then False
      else if \<not> haveWebmail then True
      else (case Cut (TrimPrefix path ''/api/'') ''/'' of (seg, _, _) \<Rightarrow> Contains seg ''.''))"

datatype front_target = PolicyFiles | PublicAPI | Webmail | NotFound

text \<open>\<open>handler\<close>: \<open>url_parse\<close> is \<open>url.Parse\<close>, reduced to the scheme and the host; an upstream that is not an \<open>http\<close> URL is refused.\<close>

definition upstream_ok :: "(string \<Rightarrow> (string \<times> string) option) \<Rightarrow> string \<Rightarrow> bool" where
  "upstream_ok url_parse u \<longleftrightarrow> (case url_parse u of None \<Rightarrow> False | Some (scheme, host) \<Rightarrow> scheme = ''http'' \<and> host \<noteq> [])"

definition bad_upstream :: "lib \<Rightarrow> string \<Rightarrow> error" where
  "bad_upstream L u = ErrText (''frontdoor: invalid webmail upstream '' @ Quote (uni L) u @ '' (expected e.g. http://127.0.0.1:8081)'')"

definition route_request :: "lib \<Rightarrow> 'c frontdoor_config \<Rightarrow> string \<Rightarrow> string \<Rightarrow> front_target" where
  "route_request L cfg host0 path =
     (let host = strip_port host0; webmail = (fd_upstream cfg \<noteq> []) in
      if IsPolicyHost L host then PolicyFiles
      else if fd_api cfg \<and> isPublicAPIPath path webmail then PublicAPI
      else if webmail then Webmail
      else NotFound)"

definition front_handler :: "lib \<Rightarrow> (string \<Rightarrow> (string \<times> string) option) \<Rightarrow> 'c frontdoor_config
    \<Rightarrow> error + (string \<Rightarrow> string \<Rightarrow> front_target)" where
  "front_handler L url_parse cfg =
     (if fd_upstream cfg \<noteq> [] \<and> \<not> upstream_ok url_parse (fd_upstream cfg) then Inl (bad_upstream L (fd_upstream cfg))
      else Inr (route_request L cfg))"

text \<open>\<open>getCert\<close>: \<open>mtasts_cert\<close> is the certificate source of package mtasts (\<open>GetCertificate\<close> on its cache).\<close>

definition getCert :: "lib \<Rightarrow> 'c frontdoor_config \<Rightarrow> (string \<Rightarrow> 'c option) \<Rightarrow> string \<Rightarrow> error + 'c" where
  "getCert L cfg mtasts_cert serverName =
     (let report = (\<lambda>c. case c of None \<Rightarrow> Inl (ErrText ''no certificate'') | Some x \<Rightarrow> Inr x) in
      if IsPolicyHost L serverName then report (mtasts_cert serverName)
      else case fd_host_cert cfg of
          Some source \<Rightarrow> report (source serverName)
        | None \<Rightarrow> Inl (ErrText (''frontdoor: no certificate for '' @ Quote (uni L) serverName)))"

section \<open>Every domain reaches its API\<close>

lemma domain_dot:
  assumes "ValidateDomain d = Inr ()"
  shows "CHR ''.'' \<in> set d" and "CHR ''/'' \<notin> set d"
proof -
  have m: "matches domainRe d" using assms by (simp add: ValidateDomain_def MatchString_iff split: if_splits)
  then show "CHR ''.'' \<in> set d" by (auto simp: domainRe_def Plus_def matches_Seq matches_Lit)
  show "CHR ''/'' \<notin> set d" using domainRe_plain [OF m] by auto
qed

text \<open>
  C30: The public API of every accepted domain is reached, whether or not there is a webmail beside it: a request for \<open>/api/<domain>/...\<close> goes to the API
  whatever its host, unless the host is that of an MTA-STS policy. A webmail's own paths below \<open>/api/\<close>, whose first segment has no dot, still go to the webmail.
\<close>

theorem domain_reaches_api:
  assumes "ValidateDomain d = Inr ()" and "fd_api cfg" and "\<not> IsPolicyHost L (strip_port host)"
    and "CHR ''.'' \<notin> set seg" and "CHR ''/'' \<notin> set seg"
  shows "route_request L cfg host (''/api/'' @ d @ ''/'' @ rest) = PublicAPI
    \<and> route_request L cfg host (''/api/'' @ seg @ ''/'' @ rest) = (if fd_upstream cfg = [] then PublicAPI else Webmail)"
proof -
  note d = domain_dot [OF assms(1)]
  have "Cut (d @ ''/'' @ rest) ''/'' = (d, rest, True)" "Cut (seg @ ''/'' @ rest) ''/'' = (seg, rest, True)"
    using Cut_found [OF d(2), of rest] Cut_found [OF assms(5), of rest] by simp_all
  moreover have "HasPrefix (''/api/'' @ x) ''/api/''" "TrimPrefix (''/api/'' @ x) ''/api/'' = x" for x
    by (simp_all add: TrimPrefix_def)
  ultimately have "isPublicAPIPath (''/api/'' @ d @ ''/'' @ rest) b" "isPublicAPIPath (''/api/'' @ seg @ ''/'' @ rest) b = (\<not> b)" for b
    unfolding isPublicAPIPath_def using d(1) assms(4) by (simp_all add: Contains_char)
  then show ?thesis using assms(2,3) by (simp add: route_request_def Let_def)
qed

definition front_example :: "nat frontdoor_config" where
  "front_example = \<lparr>fd_host_cert = None, fd_api = True, fd_upstream = ''http://127.0.0.1:8081''\<rparr>"

theorem domain_reaches_api_witness:
  "route_request example_lib front_example ''mail.example.com:443'' ''/api/example.com/mailbox'' = PublicAPI
   \<and> route_request example_lib front_example ''mail.example.com:443'' ''/api/auth/mailbox'' = Webmail"
proof -
  have "\<not> IsPolicyHost example_lib (strip_port ''mail.example.com:443'')" by code_simp
  from domain_reaches_api [OF example_domain _ this, of front_example "''auth''" "''mailbox''"] show ?thesis
    by (simp add: front_example_def)
qed

end
