(* ===== verification/Daemon.thy ===== *)
theory Daemon
  imports Cli_Audit Frontdoor
begin

text \<open>
  The daemon (\<open>cmd/patrabahokd\<close>): its flags, the servers it starts, and what becomes of it when one of them ends or a signal comes. What the servers answer is in the
  theories of their packages.
\<close>

section \<open>Flags\<close>

record daemon_flags =
  FL_Socket :: string
  FL_Tcp :: string
  FL_DBConfig :: string
  FL_WebAddr :: string
  FL_WebCert :: string
  FL_WebKey :: string
  FL_HttpsAddr :: string
  FL_MtastsAddr :: string
  FL_PolicyAddr :: string
  FL_WebmailUpstream :: string

definition default_flags :: daemon_flags where
  "default_flags = \<lparr>FL_Socket = ''/run/patrabahok/api.sock'', FL_Tcp = [], FL_DBConfig = [], FL_WebAddr = '':8443'', FL_WebCert = [], FL_WebKey = [],
     FL_HttpsAddr = [], FL_MtastsAddr = [], FL_PolicyAddr = [], FL_WebmailUpstream = []\<rparr>"

definition formal_flags :: "(string \<times> (string \<Rightarrow> daemon_flags \<Rightarrow> daemon_flags)) list" where
  "formal_flags =
    [(''socket'', \<lambda>v F. F\<lparr>FL_Socket := v\<rparr>), (''tcp'', \<lambda>v F. F\<lparr>FL_Tcp := v\<rparr>), (''db-config'', \<lambda>v F. F\<lparr>FL_DBConfig := v\<rparr>),
     (''web-addr'', \<lambda>v F. F\<lparr>FL_WebAddr := v\<rparr>), (''web-cert'', \<lambda>v F. F\<lparr>FL_WebCert := v\<rparr>), (''web-key'', \<lambda>v F. F\<lparr>FL_WebKey := v\<rparr>),
     (''https-addr'', \<lambda>v F. F\<lparr>FL_HttpsAddr := v\<rparr>), (''mtasts-addr'', \<lambda>v F. F\<lparr>FL_MtastsAddr := v\<rparr>),
     (''policy-addr'', \<lambda>v F. F\<lparr>FL_PolicyAddr := v\<rparr>), (''webmail-upstream'', \<lambda>v F. F\<lparr>FL_WebmailUpstream := v\<rparr>)]"

text \<open>\<open>flag.Parse\<close> for flags that take a value, \<open>-name value\<close> or \<open>-name=value\<close> with one dash or two. A mistake ends the program with status 2, a request for help with 0.\<close>

datatype flag_word = NotFlag | LastFlag | BadFlag | Flag string "string option"

definition read_word :: "string \<Rightarrow> flag_word" where
  "read_word s =
     (if length s < 2 \<or> hd s \<noteq> CHR ''-'' then NotFlag
      else if s = ''--'' then LastFlag
      else let name = (if s ! 1 = CHR ''-'' then drop 2 s else drop 1 s) in
        if name = [] \<or> hd name = CHR ''-'' \<or> hd name = CHR ''='' then BadFlag
        else (case Cut name ''='' of (n, v, found) \<Rightarrow> Flag n (if found then Some v else None)))"

fun parse_flags :: "string list \<Rightarrow> daemon_flags \<Rightarrow> nat + daemon_flags" where
  "parse_flags [] F = Inr F"
| "parse_flags (s # rest) F = (case read_word s of
       NotFlag \<Rightarrow> Inr F
     | LastFlag \<Rightarrow> Inr F
     | BadFlag \<Rightarrow> Inl 2
     | Flag name v \<Rightarrow> (case map_of formal_flags name of
           None \<Rightarrow> Inl (if name = ''help'' \<or> name = ''h'' then 0 else 2)
         | Some assign \<Rightarrow> (case v of
               Some x \<Rightarrow> parse_flags rest (assign x F)
             | None \<Rightarrow> (case rest of [] \<Rightarrow> Inl 2 | x # rest' \<Rightarrow> parse_flags rest' (assign x F)))))"

section \<open>Start\<close>

text \<open>
  \<open>sd_connect\<close> says whether the database answers, \<open>sd_listen\<close> whether a TCP address can be bound, \<open>sd_url\<close> is \<open>url.Parse\<close> as in \<open>Frontdoor\<close>, and
  \<open>sd_certificate\<close> what \<open>CertSource\<close> gives for the two files and the name a client asks for.
\<close>

record 'c daemon_env =
  sd_connect :: "string \<Rightarrow> error option"
  sd_listen :: "string \<Rightarrow> error option"
  sd_url :: "string \<Rightarrow> (string \<times> string) option"
  sd_certificate :: "string \<Rightarrow> string \<Rightarrow> string \<Rightarrow> 'c option"

datatype listener = Tcp string | Unix string

datatype phase = Serving | Closing | Exited nat

text \<open>
  The servers that are up, with their addresses: the JSON API, the dashboard with its certificate and key, the policy service, the public listener. And the lines logged.
\<close>

record 'c daemon =
  D_Phase :: phase
  D_API :: "listener option"
  D_Web :: "(string \<times> string \<times> string) option"
  D_Policy :: "string option"
  D_Https :: "(string \<times> 'c frontdoor_config) option"
  D_Log :: "string list"

fun dir_before :: "string \<Rightarrow> nat \<Rightarrow> string" where
  "dir_before path 0 = ''.''"
| "dir_before path (Suc i) = (if path ! i = CHR ''/'' then take i path else dir_before path i)"

definition dirOf :: "string \<Rightarrow> string" where
  "dirOf path = dir_before path (length path)"

text \<open>\<open>os.MkdirAll\<close> of the empty path is an error of the system.\<close>

definition make_dir :: "string \<Rightarrow> unit op" where
  "make_dir p = (if p = [] then Raise FSError else MkdirAll p)"

text \<open>\<open>net.Listen\<close> on a Unix socket makes its file; closing the listener takes it away.\<close>

definition bind_socket :: "string \<Rightarrow> unit op" where
  "bind_socket path = FsWrite (\<lambda>f. if f path \<noteq> None \<or> \<not> is_dir (f (parent_dir path)) then Inl FSError else Inr (f(path \<mapsto> File 0 [])))"

definition ListenUnix :: "string \<Rightarrow> unit op" where
  "ListenUnix path =
     andThen (Attempt (RemoveFile path)) (\<lambda>_. andThen (bind_socket path) (\<lambda>_. andThen (Attempt (Chmod path)) (\<lambda>r. case r of
         Inl e \<Rightarrow> andThen (Attempt (RemoveFile path)) (\<lambda>_. Raise e)
       | Inr _ \<Rightarrow> Return ())))"

definition open_api :: "'c daemon_env \<Rightarrow> daemon_flags \<Rightarrow> listener op" where
  "open_api E F =
     (if FL_Tcp F \<noteq> [] then (case sd_listen E (FL_Tcp F) of
          Some e \<Rightarrow> Raise (Wrapped (''patrabahokd: listen tcp '' @ FL_Tcp F) e)
        | None \<Rightarrow> Return (Tcp (FL_Tcp F)))
      else andThen (wrap ''patrabahokd'' (make_dir (dirOf (FL_Socket F)))) (\<lambda>_.
        andThen (wrap (''patrabahokd: listen unix '' @ FL_Socket F) (ListenUnix (FL_Socket F))) (\<lambda>_. Return (Unix (FL_Socket F)))))"

definition listening :: "listener \<Rightarrow> string" where
  "listening l = (case l of
       Tcp addr \<Rightarrow> ''patrabahokd: API listening on tcp://'' @ addr @ '' (opt-in mode '' @ dash @ '' ensure this is not exposed beyond localhost)''
     | Unix path \<Rightarrow> ''patrabahokd: API listening on unix://'' @ path)"

definition has_cert :: "daemon_flags \<Rightarrow> bool" where
  "has_cert F \<longleftrightarrow> FL_WebCert F \<noteq> [] \<and> FL_WebKey F \<noteq> []"

definition https_address :: "daemon_flags \<Rightarrow> string" where
  "https_address F = (if FL_HttpsAddr F = [] then FL_MtastsAddr F else FL_HttpsAddr F)"

definition https_config :: "'c daemon_env \<Rightarrow> daemon_flags \<Rightarrow> 'c frontdoor_config" where
  "https_config E F = \<lparr>fd_host_cert = (if has_cert F then Some (sd_certificate E (FL_WebCert F) (FL_WebKey F)) else None),
     fd_api = has_cert F, fd_upstream = FL_WebmailUpstream F\<rparr>"

definition front_lost :: "error \<Rightarrow> string" where
  "front_lost e = ''patrabahokd: public https serve: '' @ err_text e @ '' (MTA-STS, public API and webmail unavailable)''"

text \<open>The public listener: a configuration that its package refuses is logged, and the daemon goes on without it.\<close>

definition start_https :: "lib \<Rightarrow> 'c daemon_env \<Rightarrow> daemon_flags \<Rightarrow> (string \<times> 'c frontdoor_config) option \<times> string list" where
  "start_https L E F =
     (let addr = https_address F; cfg = https_config E F;
          partial = (if has_cert F then [] else [''patrabahokd: public API and webmail disabled on '' @ addr @ '' (no -web-cert/-web-key given)'']) in
      if addr = [] then (None, [])
      else (case front_handler L (sd_url E) cfg of
          Inl e \<Rightarrow> (None, partial @ [front_lost e])
        | Inr h \<Rightarrow> (Some (addr, cfg), partial)))"

definition startup :: "lib \<Rightarrow> 'c daemon_env \<Rightarrow> daemon_flags \<Rightarrow> 'c daemon op" where
  "startup L E F =
     andThen (wrap ''patrabahokd'' (db_Open (sd_connect E) (FL_DBConfig F))) (\<lambda>_.
     andThen (open_api E F) (\<lambda>l.
       (case start_https L E F of (https, lines) \<Rightarrow> Return
         \<lparr>D_Phase = Serving, D_API = Some l,
          D_Web = (if has_cert F then Some (FL_WebAddr F, FL_WebCert F, FL_WebKey F) else None),
          D_Policy = (if FL_PolicyAddr F = [] then None else Some (FL_PolicyAddr F)),
          D_Https = https,
          D_Log = [listening l] @ (if has_cert F then [] else [''patrabahokd: admin web dashboard disabled (no -web-cert/-web-key given)'']) @ lines\<rparr>)))"

text \<open>The program: it ends at once, with a status and a message, or its servers run.\<close>

definition patrabahokd :: "lib \<Rightarrow> 'c daemon_env \<Rightarrow> string list \<Rightarrow> ((nat \<times> string) + 'c daemon) op" where
  "patrabahokd L E as = (case parse_flags as default_flags of
       Inl n \<Rightarrow> Return (Inl (n, []))
     | Inr F \<Rightarrow> andThen (Attempt (startup L E F)) (\<lambda>r. Return (case r of Inl e \<Rightarrow> Inl (1, err_text e) | Inr d \<Rightarrow> Inr d)))"

section \<open>Run\<close>

text \<open>
  A server that ends brings the daemon down, except for the public listener. A signal closes the listener of the API, and from then on the end of \<open>main\<close> and the error
  that closing gives to \<open>Serve\<close> race for the exit status. A program that has ended has no server any more.
\<close>

definition running :: "'c daemon \<Rightarrow> bool" where
  "running d \<longleftrightarrow> D_Phase d = Serving \<or> D_Phase d = Closing"

definition exited_with :: "nat \<Rightarrow> 'c daemon \<Rightarrow> 'c daemon" where
  "exited_with n d = d\<lparr>D_Phase := Exited n, D_API := None, D_Web := None, D_Policy := None, D_Https := None\<rparr>"

definition failed :: "string \<Rightarrow> error \<Rightarrow> 'c daemon \<Rightarrow> 'c daemon" where
  "failed server e d = exited_with 1 (d\<lparr>D_Log := D_Log d @ [''patrabahokd: '' @ server @ '': '' @ err_text e]\<rparr>)"

definition told :: "'c daemon \<Rightarrow> 'c daemon" where
  "told d = d\<lparr>D_Phase := Closing, D_API := None, D_Log := D_Log d @ [''patrabahokd: shutting down'']\<rparr>"

inductive daemon_step :: "'c daemon \<Rightarrow> 'c daemon \<Rightarrow> bool" where
  api_ends: "running d \<Longrightarrow> daemon_step d (failed ''API serve'' e d)"
| web_ends: "running d \<Longrightarrow> D_Web d \<noteq> None \<Longrightarrow> daemon_step d (failed ''web serve'' e d)"
| policy_ends: "running d \<Longrightarrow> D_Policy d \<noteq> None \<Longrightarrow> daemon_step d (failed ''policy service'' e d)"
| https_ends: "running d \<Longrightarrow> D_Https d \<noteq> None \<Longrightarrow> daemon_step d (d\<lparr>D_Https := None, D_Log := D_Log d @ [front_lost e]\<rparr>)"
| interrupt: "D_Phase d = Serving \<Longrightarrow> daemon_step d (told d)"
| main_returns: "D_Phase d = Closing \<Longrightarrow> daemon_step d (exited_with 0 d)"

inductive_cases daemon_stepE: "daemon_step d d'"

section \<open>The unit file starts every server\<close>

definition unit_args :: "string \<Rightarrow> string \<Rightarrow> string \<Rightarrow> string list" where
  "unit_args cert key upstream = [''-web-addr'', '':8443'', ''-web-cert'', cert, ''-web-key'', key, ''-https-addr'', '':443'',
     ''-webmail-upstream='' @ upstream, ''-policy-addr'', ''127.0.0.1:10040'']"

lemma read_word_upstream: "read_word (''-webmail-upstream='' @ u) = Flag ''webmail-upstream'' (Some u)"
  using Cut_found [of "CHR ''=''" "''webmail-upstream''" u] by (simp add: read_word_def)

lemma read_word_name:
  assumes "CHR ''='' \<notin> set n" and "n \<noteq> []" and "hd n \<noteq> CHR ''-''"
  shows "read_word (CHR ''-'' # n) = Flag n None"
proof -
  have "hd n \<noteq> CHR ''=''" using assms(1,2) by (metis list.set_sel(1))
  with assms show ?thesis
    by (cases n) (auto simp: read_word_def Cut_char)
qed

lemma parse_unit_args:
  "parse_flags (unit_args cert key u) default_flags = Inr (default_flags\<lparr>FL_WebCert := cert, FL_WebKey := key, FL_HttpsAddr := '':443'', FL_PolicyAddr := ''127.0.0.1:10040'', FL_WebmailUpstream := u\<rparr>)"
  unfolding unit_args_def
  by (simp add: read_word_upstream [simplified] read_word_name formal_flags_def default_flags_def)

lemma after_wrapped: "after (wrap msg m) (\<lambda>r w'. case r of Inl e \<Rightarrow> \<exists>e'. e = Wrapped msg e' | Inr x \<Rightarrow> True) w"
proof -
  have "after m (\<lambda>_ _. True) w" by (simp add: after_def split: prod.split)
  then show ?thesis by (auto simp: wrap_def wp elim!: after_mono split: sum.split)
qed

lemma open_api_result:
  "after (open_api E F) (\<lambda>r w'. case r of
      Inl e \<Rightarrow> \<exists>s. err_text e = ''patrabahokd: '' @ s
    | Inr l \<Rightarrow> l = (if FL_Tcp F = [] then Unix (FL_Socket F) else Tcp (FL_Tcp F))) w"
proof (cases "FL_Tcp F = []")
  case True
  have "after (wrap (''patrabahokd: listen unix '' @ p) m) (\<lambda>r w'. case r of Inl e \<Rightarrow> \<exists>s. err_text e = ''patrabahokd: '' @ s | Inr x \<Rightarrow> True) w1"
    for p w1 and m :: "unit op"
    by (rule after_mono [OF after_wrapped]) (auto split: sum.splits)
  with True show ?thesis
    unfolding open_api_def
    by (auto intro!: after_seq [OF after_wrapped] after_seq simp: after_Return)
qed (auto simp: open_api_def wp split: option.split)

text \<open>The servers that flags ask for.\<close>

definition asked_api :: "daemon_flags \<Rightarrow> listener" where
  "asked_api F = (if FL_Tcp F = [] then Unix (FL_Socket F) else Tcp (FL_Tcp F))"

definition asked_web :: "daemon_flags \<Rightarrow> (string \<times> string \<times> string) option" where
  "asked_web F = (if has_cert F then Some (FL_WebAddr F, FL_WebCert F, FL_WebKey F) else None)"

definition asked_policy :: "daemon_flags \<Rightarrow> string option" where
  "asked_policy F = (if FL_PolicyAddr F = [] then None else Some (FL_PolicyAddr F))"

lemma startup_servers:
  "after (startup L E F) (\<lambda>r w'. case r of
      Inl e \<Rightarrow> \<exists>s. err_text e = ''patrabahokd: '' @ s
    | Inr d \<Rightarrow> D_Phase d = Serving \<and> D_API d = Some (asked_api F) \<and> D_Web d = asked_web F \<and> D_Policy d = asked_policy F \<and> D_Https d = fst (start_https L E F)
        \<and> (\<forall>e. front_lost e \<in> set (D_Log d) \<longrightarrow> D_Https d = None)) w"
  unfolding startup_def
  by (intro after_seq [OF after_wrapped] after_seq [OF open_api_result])
    (auto simp: after_Return asked_api_def asked_web_def asked_policy_def start_https_def front_lost_def listening_def Let_def split: prod.split sum.split listener.split if_splits)

text \<open>
  C25: The unit file starts the whole daemon. Called as the unit does, with a certificate and a key, and with no webmail or one whose address is an \<open>http\<close> URL, the program either
  ends with status 1 because the database or the socket could not be opened, or it runs the API on the socket, the dashboard on port 8443, the policy service and the
  public listener on port 443 with the host's certificate, the public API and the webmail that was named.
\<close>

theorem unit_starts_all:
  assumes "cert \<noteq> []" and "key \<noteq> []" and "u = [] \<or> upstream_ok (sd_url E) u"
  shows "after (patrabahokd L E (unit_args cert key u)) (\<lambda>r w'. case r of
      Inr (Inl (n, msg)) \<Rightarrow> n = 1 \<and> HasPrefix msg ''patrabahokd: ''
    | Inr (Inr d) \<Rightarrow> D_Phase d = Serving \<and> D_API d = Some (Unix ''/run/patrabahok/api.sock'') \<and> D_Web d = Some ('':8443'', cert, key) \<and> D_Policy d = Some ''127.0.0.1:10040''
        \<and> D_Https d = Some ('':443'', \<lparr>fd_host_cert = Some (sd_certificate E cert key), fd_api = True, fd_upstream = u\<rparr>)
    | Inl e \<Rightarrow> False) w"
proof -
  define F where "F = default_flags\<lparr>FL_WebCert := cert, FL_WebKey := key, FL_HttpsAddr := '':443'', FL_PolicyAddr := ''127.0.0.1:10040'', FL_WebmailUpstream := u\<rparr>"
  have flags: "FL_Tcp F = []" "FL_Socket F = ''/run/patrabahok/api.sock''" "FL_WebAddr F = '':8443''" "FL_WebCert F = cert" "FL_WebKey F = key"
    "FL_PolicyAddr F = ''127.0.0.1:10040''" "https_address F = '':443''" "FL_WebmailUpstream F = u"
    by (simp_all add: F_def default_flags_def https_address_def)
  have "has_cert F" using assms(1,2) by (simp add: has_cert_def flags)
  moreover from this have "start_https L E F = (Some ('':443'', \<lparr>fd_host_cert = Some (sd_certificate E cert key), fd_api = True, fd_upstream = u\<rparr>), [])"
    using assms(3) by (auto simp: start_https_def front_handler_def https_config_def flags)
  ultimately have "after (startup L E F) (\<lambda>r w'. case r of
      Inl e \<Rightarrow> \<exists>s. err_text e = ''patrabahokd: '' @ s
    | Inr d \<Rightarrow> D_Phase d = Serving \<and> D_API d = Some (Unix ''/run/patrabahok/api.sock'') \<and> D_Web d = Some ('':8443'', cert, key) \<and> D_Policy d = Some ''127.0.0.1:10040''
        \<and> D_Https d = Some ('':443'', \<lparr>fd_host_cert = Some (sd_certificate E cert key), fd_api = True, fd_upstream = u\<rparr>)) w"
    by (intro after_mono [OF startup_servers]) (auto simp: asked_api_def asked_web_def asked_policy_def flags split: sum.splits)
  then show ?thesis
    unfolding patrabahokd_def parse_unit_args F_def [symmetric] after_andThen sum.case after_Attempt
    by (rule after_mono) (auto simp: after_Return split: sum.splits)
qed

definition example_daemon :: "nat daemon_env" where
  "example_daemon = \<lparr>sd_connect = (\<lambda>d. None), sd_listen = (\<lambda>a. None), sd_url = (\<lambda>u. Some (''http'', ''127.0.0.1:8081'')), sd_certificate = (\<lambda>c k s. Some 1)\<rparr>"

lemma example_starts:
  "after (patrabahokd example_lib example_daemon (unit_args ''/etc/cert.pem'' ''/etc/key.pem'' ''http://127.0.0.1:8081'')) (\<lambda>r w. \<exists>d. r = Inr (Inr d)) cli_world"
proof -
  have dir: "dirOf ''/run/patrabahok/api.sock'' = ''/run/patrabahok''" "ancestors ''/run/patrabahok'' = [''/run'', ''/run/patrabahok'']"
    "parent_dir ''/run/patrabahok/api.sock'' = ''/run/patrabahok''" by code_simp+
  define F where "F = default_flags\<lparr>FL_WebCert := ''/etc/cert.pem'', FL_WebKey := ''/etc/key.pem'', FL_HttpsAddr := '':443'', FL_PolicyAddr := ''127.0.0.1:10040'',
     FL_WebmailUpstream := ''http://127.0.0.1:8081''\<rparr>"
  have opens: "after (db_Open (sd_connect example_daemon) (FL_DBConfig F)) (\<lambda>r w. r = Inr () \<and> w = cli_world) cli_world"
    using example_config
    by (simp add: db_Open_def LoadDBConfig_def wp ReadFile_def example_daemon_def cli_world_def empty_world_def fault_def tick_def eol_def F_def default_flags_def)
  have listens: "after (open_api example_daemon F) (\<lambda>r w. \<exists>l. r = Inr l) cli_world"
    by (simp add: open_api_def F_def default_flags_def wrap_def make_dir_def ListenUnix_def MkdirAll_def RemoveFile_def bind_socket_def Chmod_def wp mkdir_all_def dir
        DefaultMySQLCnfPath_def cli_world_def empty_world_def fault_def tick_def is_file_def is_dir_def)
  have "after (startup example_lib example_daemon F) (\<lambda>r w. \<exists>d. r = Inr d) cli_world"
  proof -
    have "after (wrap ''patrabahokd'' (db_Open (sd_connect example_daemon) (FL_DBConfig F))) (\<lambda>r w. r = Inr () \<and> w = cli_world) cli_world"
      unfolding wrap_def after_andThen after_Attempt by (rule after_mono [OF opens]) (simp add: after_Return)
    then show ?thesis
      unfolding startup_def
      by (rule after_seq) (auto intro!: after_seq [OF listens] simp: after_Return split: prod.split)
  qed
  then show ?thesis
    unfolding patrabahokd_def parse_unit_args F_def [symmetric] after_andThen sum.case after_Attempt
    by (rule after_mono) (auto simp: after_Return)
qed

theorem unit_starts_all_witness:
  "after (patrabahokd example_lib example_daemon (unit_args ''/etc/cert.pem'' ''/etc/key.pem'' ''http://127.0.0.1:8081''))
     (\<lambda>r w'. case r of Inr (Inr d) \<Rightarrow> D_Web d = Some ('':8443'', ''/etc/cert.pem'', ''/etc/key.pem'') \<and> D_Policy d = Some ''127.0.0.1:10040'' | _ \<Rightarrow> False) cli_world"
proof -
  note example_starts
  moreover have "upstream_ok (sd_url example_daemon) ''http://127.0.0.1:8081''"
    by (simp add: upstream_ok_def example_daemon_def)
  ultimately show ?thesis
    using unit_starts_all [of "''/etc/cert.pem''" "''/etc/key.pem''" "''http://127.0.0.1:8081''" example_daemon example_lib cli_world]
    by (auto simp: after_def split: prod.splits)
qed

section \<open>What becomes of the servers\<close>

definition blames :: "string \<Rightarrow> 'c daemon \<Rightarrow> bool" where
  "blames server d \<longleftrightarrow> (\<exists>e. last (D_Log d) = ''patrabahokd: '' @ server @ '': '' @ err_text e)"

definition told_to_stop :: "'c daemon \<Rightarrow> bool" where
  "told_to_stop d \<longleftrightarrow> ''patrabahokd: shutting down'' \<in> set (D_Log d)"

text \<open>The dashboard, the policy service and the public listener are those that the flags ask for, the last one unless its loss is in the log.\<close>

definition own_servers :: "lib \<Rightarrow> 'c daemon_env \<Rightarrow> daemon_flags \<Rightarrow> 'c daemon \<Rightarrow> bool" where
  "own_servers L E F d \<longleftrightarrow> D_Web d = asked_web F \<and> D_Policy d = asked_policy F
     \<and> D_Https d = (if \<exists>e. front_lost e \<in> set (D_Log d) then None else fst (start_https L E F))"

definition no_servers :: "'c daemon \<Rightarrow> bool" where
  "no_servers d \<longleftrightarrow> D_API d = None \<and> D_Web d = None \<and> D_Policy d = None \<and> D_Https d = None"

text \<open>The servers whose end brings the daemon down, by the names they have in the log.\<close>

definition vital :: "daemon_flags \<Rightarrow> string list" where
  "vital F = [''API serve''] @ (if asked_web F = None then [] else [''web serve'']) @ (if asked_policy F = None then [] else [''policy service''])"

definition well_run :: "lib \<Rightarrow> 'c daemon_env \<Rightarrow> daemon_flags \<Rightarrow> 'c daemon \<Rightarrow> bool" where
  "well_run L E F d \<longleftrightarrow> (case D_Phase d of
       Serving \<Rightarrow> D_API d = Some (asked_api F) \<and> own_servers L E F d
     | Closing \<Rightarrow> told_to_stop d \<and> D_API d = None \<and> own_servers L E F d
     | Exited n \<Rightarrow> no_servers d \<and> (if n = 0 then told_to_stop d else n = 1 \<and> list_ex (\<lambda>s. blames s d) (vital F)))"

lemma well_run_failed:
  "s \<in> set (vital F) \<Longrightarrow> well_run L E F (failed s e d)"
  by (auto simp: well_run_def failed_def exited_with_def no_servers_def blames_def list_ex_iff)

lemma well_run_step:
  assumes "daemon_step d d'" and "well_run L E F d"
  shows "well_run L E F d'"
  using assms(1)
proof (cases rule: daemon_step.cases)
  case (web_ends e)
  with assms(2) have "''web serve'' \<in> set (vital F)" by (auto simp: well_run_def running_def own_servers_def vital_def)
  with web_ends show ?thesis by (simp add: well_run_failed)
next
  case (policy_ends e)
  with assms(2) have "asked_policy F \<noteq> None" by (cases "asked_policy F") (auto simp: well_run_def running_def own_servers_def)
  then have "''policy service'' \<in> set (vital F)" by (simp add: vital_def)
  with policy_ends show ?thesis by (simp add: well_run_failed)
next
  case (api_ends e)
  then show ?thesis using well_run_failed [of "''API serve''" F L E e d] by (simp add: vital_def)
next
  case (https_ends e)
  with assms(2) show ?thesis by (auto simp: well_run_def running_def own_servers_def told_to_stop_def split: phase.splits if_splits)
qed (use assms(2) in \<open>auto simp: well_run_def told_def exited_with_def own_servers_def told_to_stop_def no_servers_def front_lost_def\<close>)

lemma well_run_start:
  "after (patrabahokd L E as) (\<lambda>r w'. case r of Inr (Inr d) \<Rightarrow> D_Phase d = Serving \<and> (\<exists>F. parse_flags as default_flags = Inr F \<and> D_Https d = fst (start_https L E F) \<and> well_run L E F d) | _ \<Rightarrow> True) w"
proof (cases "parse_flags as default_flags")
  case (Inr F)
  then show ?thesis
    unfolding patrabahokd_def Inr sum.case after_andThen after_Attempt
    by (intro after_mono [OF startup_servers]) (auto simp: after_Return well_run_def own_servers_def split: sum.splits)
qed (simp add: patrabahokd_def wp)

lemma exited_final: "D_Phase d = Exited n \<Longrightarrow> \<not> daemon_step d d'"
  by (auto simp: running_def elim: daemon_stepE)

text \<open>
  C24: The daemon stays up with its own servers until it has to end. Take the state in which the program starts to serve and what it has become after any failures and
  signals in any order. Until a signal the API, the dashboard and the policy service that the flags ask for are all up, and so is the public listener unless its loss was
  logged; after a signal, which is in the log, only the listener of the API is closed; and when the program has exited_with nothing is up and nothing happens any more. It
  ends with status 0 only after a signal, and with status 1 only when the last line of the log names the API, or the dashboard or the policy service where the flags
  ask for them; never because of the public listener.
\<close>

theorem daemon_keeps_serving:
  assumes "patrabahokd L E as w = (Inr (Inr d), w')" and "daemon_step\<^sup>*\<^sup>* d d'"
  shows "\<exists>F. parse_flags as default_flags = Inr F
     \<and> (case D_Phase d' of
          Serving \<Rightarrow> D_API d' = Some (asked_api F) \<and> own_servers L E F d'
        | Closing \<Rightarrow> told_to_stop d' \<and> D_API d' = None \<and> own_servers L E F d'
        | Exited n \<Rightarrow> no_servers d' \<and> (\<forall>d''. \<not> daemon_step d' d'')
            \<and> (if n = 0 then told_to_stop d' else n = 1 \<and> list_ex (\<lambda>s. blames s d') (vital F)))"
proof -
  from well_run_start [of L E as w] assms(1) obtain F where F: "parse_flags as default_flags = Inr F" "well_run L E F d"
    by (auto simp: after_def)
  from assms(2) have "well_run L E F d'"
    by (induction rule: rtranclp_induct) (auto intro: F(2) well_run_step)
  with F(1) show ?thesis
    by (auto simp: well_run_def dest: exited_final split: phase.splits)
qed

text \<open>The public listener is lost, the daemon goes on; then the policy service ends, and the daemon with it.\<close>

theorem daemon_keeps_serving_witness:
  "\<exists>d w' d1 d2. patrabahokd example_lib example_daemon (unit_args ''/etc/cert.pem'' ''/etc/key.pem'' ''http://127.0.0.1:8081'') cli_world = (Inr (Inr d), w')
     \<and> daemon_step d d1 \<and> daemon_step d1 d2 \<and> D_Https d1 = None \<and> D_API d1 = Some (Unix ''/run/patrabahok/api.sock'')
     \<and> D_Policy d1 = Some ''127.0.0.1:10040'' \<and> D_Phase d2 = Exited 1 \<and> no_servers d2 \<and> blames ''policy service'' d2"
proof -
  let ?as = "unit_args ''/etc/cert.pem'' ''/etc/key.pem'' ''http://127.0.0.1:8081''"
  define F where "F = default_flags\<lparr>FL_WebCert := ''/etc/cert.pem'', FL_WebKey := ''/etc/key.pem'', FL_HttpsAddr := '':443'', FL_PolicyAddr := ''127.0.0.1:10040'',
     FL_WebmailUpstream := ''http://127.0.0.1:8081''\<rparr>"
  have flags: "parse_flags ?as default_flags = Inr F" by (simp add: parse_unit_args F_def)
  have asks: "asked_api F = Unix ''/run/patrabahok/api.sock''" "asked_policy F = Some ''127.0.0.1:10040''" "fst (start_https example_lib example_daemon F) \<noteq> None"
    by (simp_all add: F_def default_flags_def asked_api_def asked_policy_def start_https_def https_address_def has_cert_def front_handler_def https_config_def
        upstream_ok_def example_daemon_def)
  from example_starts well_run_start [of example_lib example_daemon ?as cli_world]
  obtain d w' where run: "patrabahokd example_lib example_daemon ?as cli_world = (Inr (Inr d), w')" and d: "D_Phase d = Serving" "D_Https d = fst (start_https example_lib example_daemon F)"
    by (auto simp: after_def flags split: prod.splits)
  define d1 where "d1 = d\<lparr>D_Https := None, D_Log := D_Log d @ [front_lost FSError]\<rparr>"
  have first: "daemon_step d d1" using d asks unfolding d1_def by (intro daemon_step.https_ends) (simp_all add: running_def)
  then have one: "daemon_step\<^sup>*\<^sup>* d d1" by simp
  have p1: "D_Phase d1 = Serving" using d(1) by (simp add: d1_def)
  from daemon_keeps_serving [OF run one] have up: "D_API d1 = Some (asked_api F)" "own_servers example_lib example_daemon F d1" by (auto simp: flags p1)
  define d2 where "d2 = failed ''policy service'' FSError d1"
  have two: "daemon_step d1 d2" unfolding d2_def by (rule daemon_step.policy_ends) (use up asks p1 in \<open>auto simp: running_def own_servers_def\<close>)
  have p2: "D_Phase d2 = Exited 1" "blames ''policy service'' d2"
    unfolding d2_def failed_def exited_with_def blames_def by (simp, intro exI [of _ FSError], simp)
  from daemon_keeps_serving [OF run rtranclp.rtrancl_into_rtrancl [OF one two]] have "no_servers d2" by (auto simp: p2)
  with run first two up asks p1 p2 show ?thesis
    by (intro exI [of _ d] exI [of _ w'] exI [of _ d1] exI [of _ d2]) (auto simp: own_servers_def d1_def)
qed

section \<open>The exit status and the directory of the socket\<close>

text \<open>A signal may end the daemon with status 1, although every server works.\<close>

lemma shutdown_may_fail:
  assumes "D_Phase d = Serving"
  shows "\<exists>d'. daemon_step\<^sup>*\<^sup>* (told d) d' \<and> D_Phase d' = Exited 1"
  by (rule exI, rule conjI, rule r_into_rtranclp, rule daemon_step.api_ends [where e = FSError]) (simp_all add: running_def failed_def exited_with_def told_def)

text \<open>A socket in the root directory has the empty directory for \<open>dirOf\<close>, and the start fails.\<close>

lemma dirOf_root: "CHR ''/'' \<notin> set name \<Longrightarrow> dirOf (CHR ''/'' # name) = []"
proof -
  have "dir_before (CHR ''/'' # name) (Suc i) = []" if "i \<le> length name" "CHR ''/'' \<notin> set name" for i
    using that by (induction i) (auto simp: in_set_conv_nth)
  then show "CHR ''/'' \<notin> set name \<Longrightarrow> dirOf (CHR ''/'' # name) = []" by (simp add: dirOf_def)
qed

lemma socket_in_root_fails:
  assumes "CHR ''/'' \<notin> set name" and "FL_Tcp F = []" and "FL_Socket F = CHR ''/'' # name"
  shows "after (open_api E F) (\<lambda>r w'. r = Inl (Wrapped ''patrabahokd'' FSError)) w"
  using assms by (simp add: open_api_def dirOf_root make_dir_def wrap_def wp)

text \<open>Without a certificate the public listener still hands other hosts than those of policies to the webmail, though the log says that it is disabled.\<close>

lemma webmail_without_cert:
  assumes "\<not> has_cert F" and "FL_WebmailUpstream F \<noteq> []" and "\<not> IsPolicyHost L (strip_port host)"
  shows "route_request L (https_config E F) host path = Webmail"
  using assms by (simp add: route_request_def https_config_def)

end
