(* ===== verification/Spec2Isabelle.thy ===== *)
theory Spec2Isabelle
  imports Program_Commands Dashboard_Record Daemon Secretkey
begin

text \<open>
  A model of \<open>patrabahok\<close>, the administration program of a mail server (the Go module below \<open>src/cli\<close>), and what is proved of it.

  \<^bold>\<open>The program.\<close> Postfix and Dovecot deliver the mail; they read domains, mailboxes, aliases, groups and forwards from MariaDB. Package \<open>mailbox\<close>
  keeps those tables together with the mail directories and the DKIM keys. Four programs work on them: the command line program
  (\<open>cmd/patrabahok\<close>), the JSON API on a Unix socket (\<open>internal/api\<close>, with the tokens of \<open>authtoken\<close>), the API of a single domain behind the front door
  (\<open>internal/publicapi\<close> and \<open>frontdoor\<close>, with the keys of \<open>domainkey\<close>) and the dashboard (\<open>internal/webui\<close>, with the accounts of \<open>adminauth\<close>).
  Every change is written to the log of package \<open>audit\<close>. Package \<open>policy\<close> answers Postfix when it asks whether a sender may post to a group,
  \<open>mtasts\<close> serves the MTA-STS policies, \<open>dnscheck\<close> compares the DNS records with what they should be.

  \<^bold>\<open>State and effects.\<close> Theory \<open>World\<close>: the record \<open>world\<close> holds the tables of \<open>src/sql/schema\<close> as lists of rows, the file system as a map from
  paths, the random bytes still to come and the clock. An operation \<open>'a op\<close> is a function from a world to a result and the world after it;
  a result is \<open>Inl\<close> an error or \<open>Inr\<close> a value. \<open>andThen\<close> is \<open>if err != nil { return err }\<close>, \<open>Attempt\<close> turns the error into a value. The field
  \<open>faults\<close> is a pattern that says which of the next accesses to the database and the files fail, so a statement about every world
  holds for every pattern of failures. \<open>after m Q w\<close> says that \<open>Q\<close> holds of the result and the world that \<open>m\<close> ends with, \<open>keeps I m\<close> that \<open>m\<close>
  keeps \<open>I\<close> whether it fails or not; the collections \<open>wp\<close> and \<open>keeps_ops\<close> hold their rules. \<open>Transaction\<close> rolls the tables back when its body
  fails. What lies outside the program is the record \<open>lib\<close>: SHA-512, SHA-256 and Argon2, the collation, \<open>LIKE\<close>, \<open>ToLower\<close> and \<open>Quote\<close> on Unicode,
  the DKIM key generator; named predicates (\<open>collation_ok\<close>, \<open>argon2_ok\<close> and the like) say what is documented of them, and \<open>example_lib\<close> satisfies them.

  \<^bold>\<open>Theories.\<close>

  \<^item> \<open>Go_Prelude\<close>, \<open>RE2_Regexp\<close>, \<open>Filepath\<close>, \<open>Base64\<close>: the functions of Go's standard library the source calls, on strings of bytes; regular expressions are
    matched by derivatives, and \<open>MatchString_iff\<close> ties that to the language of the expression.

  \<^item> \<open>World\<close>, \<open>Tables\<close>, \<open>Schema\<close>: effects, tables with unique indexes, foreign keys with their cascades, and the SQL statements of the
    program. \<open>store_ok\<close> is the consistency of the store.

  \<^item> \<open>Mailbox_Address\<close>, \<open>Mailbox\<close>, \<open>Sha512_Crypt\<close>, \<open>Dkim_Provision\<close>, \<open>Mail_Groups\<close>, \<open>Routing\<close>: the five files of \<open>internal/mailbox\<close>; \<open>Store_Invariant\<close> puts every
    operation on the store into one step relation and shows that \<open>store_ok\<close> holds of every reachable store (\<open>store_reachable_ok\<close>).

  \<^item> \<open>Credentials\<close>, \<open>Authtoken\<close>, \<open>Domainkey\<close>, \<open>Adminauth\<close>: the three stores of credentials behind one interface.

  \<^item> \<open>Policy\<close>, \<open>Dnscheck\<close>, \<open>Mtasts\<close> (with \<open>sysinfo\<close>), \<open>Secretkey\<close>, \<open>Config\<close> (with \<open>db\<close> in \<open>Cli\<close>), \<open>Audit_Log\<close>, \<open>Frontdoor\<close>: the packages of these names.

  \<^item> \<open>Http\<close>, \<open>Publicapi\<close>, \<open>Publicapi_Isolation\<close>, \<open>Api\<close>: requests, replies and the two JSON APIs; \<open>Cli\<close>, \<open>Cli_Audit\<close>: the command line program.

  \<^item> \<open>Cloudflare_Apply\<close>, \<open>Cloudflare_Client\<close>, \<open>Cloudflare_Store\<close>: package \<open>cloudflare\<close>, the reconciliation of a zone's records, the client of the HTTP
    API with the OAuth exchange, and the encrypted settings. The transport and AES-GCM are parameters.

  \<^item> \<open>Go_Library\<close>, \<open>Go_Csv\<close>: the further functions of the standard library, among them \<open>encoding/csv\<close>. \<open>Ops_Fail2ban\<close>, \<open>Ops_Services\<close>, \<open>Ops_Queue\<close>, \<open>Diag\<close>:
    packages \<open>ops\<close> and \<open>diag\<close>, the commands they run on the server and the parsing of what these print.

  \<^item> The dashboard, package \<open>webui\<close>: \<open>Web\<close> and \<open>Web_Display\<close> (helpers.go, middleware.go, render.go), \<open>Web_Pages\<close> (the data of the pages), \<open>Web_Accounts\<close>,
    \<open>Web_Users\<close>, \<open>Web_Groups\<close>, \<open>Web_Domains\<close>, \<open>Web_Dkim\<close>, \<open>Web_Ops\<close>, \<open>Web_Overview\<close> (the handlers), \<open>Dashboard\<close> (routes and certificate, server.go), and
    \<open>Dashboard_Guard\<close>, \<open>Dashboard_Log\<close> and \<open>Dashboard_Record\<close>, what a request needs and what it leaves in the log. A handler ends with a response that carries the name and the data of a
    page, not its HTML.

  \<^item> \<open>Daemon\<close>: \<open>cmd/patrabahokd\<close>, its flags, the servers it starts, and a step relation for what becomes of it.

  \<^item> \<open>Frames\<close>, \<open>Program_Invariant\<close>, \<open>Program\<close>, \<open>Program_Commands\<close> and this theory: the whole program as one step relation \<open>program_step\<close>.

  \<^bold>\<open>Interfaces.\<close> The locale \<open>frame_invariant\<close> (theory \<open>Mailbox\<close>) is a predicate on the world that looks at neither files nor random bytes nor
  failures; it is interpreted for the consistency of the store, for the relations that say what an operation leaves alone (\<open>touches\<close>, \<open>tables_isolated\<close>, \<open>confined\<close>)
  and for the log of the command line (\<open>quiet\<close>) and the Cloudflare settings. \<open>host_invariant\<close>, \<open>account_invariant\<close> and \<open>table_invariant\<close> extend it by what may also change:
  the commands that were run, the tables of accounts, all tables. \<open>files_invariant\<close> (theory \<open>Publicapi_Isolation\<close>) is the counterpart, a predicate that looks at nothing but
  files and commands; it is interpreted for the files outside the mail directory of a domain (\<open>outside_files\<close>) and for files that do not change (\<open>same_host\<close>).
  \<open>program_effects\<close>, \<open>dashboard_effects\<close>, \<open>public_effects\<close> and \<open>program_invariant\<close> (theory \<open>Program_Invariant\<close>) derive
  that every request, command and question of Postfix keeps a predicate that the operations on the tables, the commands and the entries of the log keep; they are interpreted
  for the store (\<open>store_program\<close>), the log that only grows (\<open>grown\<close>), the entries that a request adds (\<open>added\<close>), worlds without failures (\<open>calm\<close>) and the commands
  that are run (\<open>ran_well\<close>).
  The locales \<open>credential_store\<close>, \<open>issuing_store\<close>, \<open>revocable_store\<close> and \<open>full_store\<close> (theory \<open>Credentials\<close>)
  state what the callers of a store of credentials rely on, and are interpreted for API tokens, domain keys and sessions; \<open>lived_store\<close> adds what else happens between the
  operations of a store, and is interpreted for the sessions among sign-ins, changes of passwords, deletions of accounts and the passing of time (\<open>living_sessions\<close>).

  \<^bold>\<open>What is shown.\<close> In every history of the whole program the store stays consistent (\<open>program_reachable_ok\<close>), no entry of the log is lost or altered
  (\<open>program_log_grows\<close>), and packages \<open>ops\<close>, \<open>diag\<close> and \<open>sysinfo\<close> run no other commands than a fixed list and a few shapes with validated words (\<open>program_commands\<close>). A domain's key reaches no row and no file outside its
  domain and is refused elsewhere (\<open>publicapi_isolated\<close>, \<open>publicapi_refuses\<close>); a token does only what its scopes allow (\<open>api_needs_scope\<close>); the dashboard shows and
  changes nothing without a session or from another origin, its entries in the log name the account or the key they are made with, and what it changes is on record (\<open>dashboard_guarded\<close>,
  \<open>dashboard_attributed\<close>, \<open>dashboard_changes_recorded\<close>). The posting policy implements its
  declarative rule and a sender cannot be forged (\<open>Decide_refines\<close>, \<open>no_forged_sender\<close>); its protocol answers every request (\<open>serveConn_answers\<close>). What the command line
  changes is logged, what it does not log only reads, and no password is logged (\<open>run_audited\<close>, \<open>audit_target_positional\<close>). Accepted addresses never leave the mail directory
  (\<open>mailboxDir_confined\<close>), each operation on mailboxes, groups and routes has its effect and no other, an import hands out the credentials of the users it made
  (\<open>import_credentials\<close>), a credential that was handed out verifies and no other does (\<open>key_generated_replaces\<close>, \<open>token_created_verifies\<close>, \<open>session_handed_out\<close>); Cloudflare's zones keep every record
  that is not a mail record, a second run changes nothing (\<open>ApplyMailRecords_conservative\<close>, \<open>ApplyMailRecords_again\<close>), and no expired access token is used but replaced by the provider's new one
  (\<open>CfToken_fresh\<close>);
  the texts the program writes (DKIM records, policies, password hashes, secrets, the list of addresses that are never banned) read back as what was meant. The daemon starts all its
  servers as the unit file calls it, has them up until a signal, and is brought down by the public listener never (\<open>unit_starts_all\<close>, \<open>daemon_keeps_serving\<close>).

  \<^bold>\<open>Bounds and termination.\<close> Every definition is total. Loops over the rest of a text end by the length of the text; \<open>repeatTo\<close> ends because the digest is
  not empty. The 64-bit arithmetic of quotas, disk usage and page numbers wraps as in Go. No fuel is used anywhere.

  \<^bold>\<open>Commands.\<close> The field \<open>outbound\<close> of the world lists, the latest first, the commands that were run, the requests sent to Cloudflare and the lines sent to syslog; what
  the server answers to a command is a function \<open>run_host\<close> of that list. A line of the list is a command as a list of words, as \<open>exec.Command\<close> gets it.

  \<^bold>\<open>Not modelled.\<close> Column widths and character sets of the tables; the interleaving of two operations (each runs alone, though any
  statement of it may fail); \<open>chown\<close> and \<open>systemctl\<close> after provisioning, whose results the program ignores; the text of JSON documents (the parser is a parameter);
  the HTML templates, the security headers and the embedded files of the dashboard; deadlines, request logs and the bytes on the connections of the servers; the redirects of the
  request multiplexer from paths that are not clean; the reverse proxy to the webmail; prompts and other text on standard error, and the usage text. What certbot, the resolver,
  \<open>statfs\<close> and the TLS certificates answer are parameters.
\<close>

section \<open>Histories of the whole program\<close>

text \<open>
  C1: The store is consistent in every state the program reaches. Whatever requests the dashboard, the public API and the local API serve, whatever commands are run and whatever
  Postfix asks, in any order and with any failures of the database and the files between them, a store that began empty satisfies \<open>store_ok\<close>: its keys are unique, every row
  belongs to a domain or a group that exists, every mailbox and every group has an accepted address in its own domain, and no address is a group and something else.
\<close>

theorem program_reachable_ok:
  assumes "collation_ok L" and "store_empty w" and "(program_step L)\<^sup>*\<^sup>* w w'"
  shows "store_ok L w'"
  by (rule program_invariant.history_kept [OF store_program [OF assms(1)] assms(3) store_ok_empty [OF assms(2)]]) simp

text \<open>A domain is added on the command line; then the dashboard serves any request.\<close>

lemma example_history:
  "(program_step example_lib)\<^sup>*\<^sup>* cli_world (snd (serve_dashboard example_lib E r (snd (run example_lib example_cli [''domain'', ''add'', ''example.com''] cli_world))))"
proof -
  let ?w = "snd (run example_lib example_cli [''domain'', ''add'', ''example.com''] cli_world)"
  have "program_step example_lib cli_world ?w" by (rule by_command, rule prod.collapse [symmetric])
  moreover have "program_step example_lib ?w (snd (serve_dashboard example_lib E r ?w))" by (rule by_dashboard, rule prod.collapse [symmetric])
  ultimately show ?thesis by (meson rtranclp.rtrancl_into_rtrancl r_into_rtranclp)
qed

theorem program_reachable_ok_witness:
  "\<forall>E r. store_ok example_lib (snd (serve_dashboard example_lib E r (snd (run example_lib example_cli [''domain'', ''add'', ''example.com''] cli_world))))"
proof (intro allI)
  fix E r
  have "store_empty cli_world" by (simp add: store_empty_def cli_world_def empty_world_def)
  then show "store_ok example_lib (snd (serve_dashboard example_lib E r (snd (run example_lib example_cli [''domain'', ''add'', ''example.com''] cli_world))))"
    by (rule program_reachable_ok [OF example_collation _ example_history])
qed

text \<open>
  C14: Nothing is taken out of the log. Whatever the program does, the entries that stood in the audit log stand there afterwards, the same and in the same order; new ones come
  after them.
\<close>

theorem program_log_grows:
  assumes "(program_step L)\<^sup>*\<^sup>* w w'"
  shows "prefix (audit_log w) (audit_log w')"
proof -
  have "grown w w'"
    by (rule grown_program.history_kept [OF assms]) (simp_all add: grown_def)
  then show ?thesis by (simp add: grown_def)
qed

theorem program_log_grows_witness:
  "\<forall>E r. prefix (audit_log cli_world) (audit_log (snd (serve_dashboard example_lib E r (snd (run example_lib example_cli [''domain'', ''add'', ''example.com''] cli_world)))))"
  by (intro allI) (rule program_log_grows [OF example_history])

text \<open>
  C4: The server's tools are run with nothing but validated words. Every command line of packages \<open>ops\<close>, \<open>diag\<close> and \<open>sysinfo\<close>, in any history, is a fixed one or one of a few
  shapes: the queue tools with a well-formed queue id; fail2ban with an address that parses and a jail that it had listed itself, or a well-formed name when a ban is lifted;
  systemctl with an action that the catalogue allows for its unit; journalctl and tail with one of the known units and files and at most 20000 lines. No word of
  a request gets into them in any other way. The commands whose effect is a parameter (\<open>rspamadm dkim_keygen\<close>, \<open>certbot\<close>) or ignored
  (\<open>chown\<close>, \<open>systemctl\<close> and \<open>unbound-control\<close> around them) are not among them.
\<close>

theorem program_commands:
  assumes "(program_step L)\<^sup>*\<^sup>* w w'"
  shows "only_permitted L (outbound w) (outbound w')"
proof -
  have "ran_well L (outbound w) w'"
    by (rule ran_program.history_kept [OF assms]) (simp_all add: ran_well_def only_permitted.start)
  then show ?thesis by (simp add: ran_well_def)
qed

theorem program_commands_witness:
  "\<forall>E r. only_permitted example_lib [] (outbound (snd (serve_dashboard example_lib E r (snd (run example_lib example_cli [''domain'', ''add'', ''example.com''] cli_world)))))"
proof (intro allI)
  fix E r
  from program_commands [OF example_history] show
    "only_permitted example_lib [] (outbound (snd (serve_dashboard example_lib E r (snd (run example_lib example_cli [''domain'', ''add'', ''example.com''] cli_world)))))"
    by (simp add: cli_world_def empty_world_def)
qed

end
